(* ===== verification/GoPrelude.thy ===== *)
theory GoPrelude
  imports Complex_Main "HOL-Library.AList" "HOL-Library.Multiset" "HOL-Library.List_Lexorder" "HOL-Library.Char_ord"
begin

text \<open>
  Shared vocabulary of the development: what the components use of the Go language and of its
  standard library.

  \<^item> A Go map that the code iterates over is an association list with distinct keys; the order of
    the list is the (unspecified) iteration order of that run. Reads go through \<open>map_of\<close>,
    writes through \<open>AList.update\<close> and \<open>AList.delete\<close>.
  \<^item> A read of a missing key gives the zero value (\<open>mget\<close>).
  \<^item> \<open>time.Time\<close> is the number of nanoseconds since Go's zero time, so \<open>IsZero\<close> is \<open>t = 0\<close>;
    \<open>time.Duration\<close> is a number of nanoseconds, and \<open>time_Sub\<close> saturates at 64 bits as
    \<open>Time.Sub\<close> does.
  \<^item> Strings are byte strings, compared byte-wise (\<open>List_Lexorder\<close>).
  \<^item> \<open>sort.Slice\<close> is an insertion sort over a comparator; the locale \<open>slice_order\<close> holds what
    the code's comparators promise, and its lemmas say that the result is the ordered
    permutation of the input.
\<close>

section \<open>Rule collections\<close>

named_theorems go_map_simps \<open>reads after writes on Go maps\<close>
named_theorems live_simps \<open>facts on node life-cycle states\<close>

section \<open>Go maps as association lists\<close>

type_synonym ('k, 'v) gomap = "('k \<times> 'v) list"

definition mget :: "'v \<Rightarrow> ('k, 'v) gomap \<Rightarrow> 'k \<Rightarrow> 'v" where
  "mget zero m k = (case map_of m k of None \<Rightarrow> zero | Some v \<Rightarrow> v)"

definition mhas :: "('k, 'v) gomap \<Rightarrow> 'k \<Rightarrow> bool" where
  "mhas m k \<longleftrightarrow> map_of m k \<noteq> None"

abbreviation wf_map :: "('k, 'v) gomap \<Rightarrow> bool" where
  "wf_map m \<equiv> distinct (map fst m)"

declare map_of_eq_Some_iff [simp del]

lemma map_of_update [simp, go_map_simps]:
  "map_of (AList.update k v m) = (map_of m)(k \<mapsto> v)"
  by (simp add: update_conv')

lemma map_of_delete [simp, go_map_simps]:
  "map_of (AList.delete k m) = (map_of m)(k := None)"
  by (rule delete_conv')

lemma mget_update [simp, go_map_simps]:
  "mget z (AList.update k v m) k' = (if k' = k then v else mget z m k')"
  by (simp add: mget_def)

lemma mget_delete [simp, go_map_simps]:
  "mget z (AList.delete k m) k' = (if k' = k then z else mget z m k')"
  by (simp add: mget_def)

lemma mhas_update [simp, go_map_simps]:
  "mhas (AList.update k v m) k' \<longleftrightarrow> k' = k \<or> mhas m k'"
  by (simp add: mhas_def)

lemma mhas_delete [simp, go_map_simps]:
  "mhas (AList.delete k m) k' \<longleftrightarrow> k' \<noteq> k \<and> mhas m k'"
  by (simp add: mhas_def)

lemma wf_map_update [simp, intro]: "wf_map m \<Longrightarrow> wf_map (AList.update k v m)"
  by (rule distinct_update)

lemma wf_map_delete [simp, intro]: "wf_map m \<Longrightarrow> wf_map (AList.delete k m)"
  by (rule distinct_delete)

lemma wf_map_filter [simp, intro]: "wf_map m \<Longrightarrow> wf_map (filter P m)"
  by (induction m) (auto dest: filter_is_subset [THEN subsetD])

lemma map_of_filter_wf:
  "wf_map m \<Longrightarrow>
   map_of (filter P m) k = (case map_of m k of None \<Rightarrow> None | Some v \<Rightarrow> if P (k, v) then Some v else None)"
proof (induction m)
  case (Cons kv m)
  then show ?case
    by (cases kv) (auto split: option.splits dest: map_of_SomeD simp: map_of_eq_None_iff image_iff)
qed simp

lemma map_of_filter_None: "map_of m k = None \<Longrightarrow> map_of (filter P m) k = None"
  by (auto simp: map_of_eq_None_iff)

text \<open>A loop that rewrites the value of some entries in place.\<close>

definition map_vals :: "('k \<Rightarrow> 'v \<Rightarrow> 'v) \<Rightarrow> ('k, 'v) gomap \<Rightarrow> ('k, 'v) gomap" where
  "map_vals f m = map (\<lambda>(k, v). (k, f k v)) m"

lemma map_of_map_vals [simp, go_map_simps]:
  "map_of (map_vals f m) k = map_option (f k) (map_of m k)"
  by (induction m) (auto simp: map_vals_def)

lemma keys_map_vals [simp]: "map fst (map_vals f m) = map fst m"
  by (induction m) (auto simp: map_vals_def)

lemma wf_map_map_vals [simp]: "wf_map (map_vals f m) \<longleftrightarrow> wf_map m"
  by simp

lemma map_of_SomeI_wf: "wf_map m \<Longrightarrow> (k, v) \<in> set m \<Longrightarrow> map_of m k = Some v"
  by simp

section \<open>Time and duration\<close>

type_synonym go_time = int
type_synonym duration = int

definition MaxInt64 :: int where "MaxInt64 = 2 ^ 63 - 1"
definition MinInt64 :: int where "MinInt64 = - (2 ^ 63)"

abbreviation (input) Nanosecond :: duration where "Nanosecond \<equiv> 1"
abbreviation (input) Microsecond :: duration where "Microsecond \<equiv> 1000"
abbreviation (input) Millisecond :: duration where "Millisecond \<equiv> 1000000"
abbreviation (input) Second :: duration where "Second \<equiv> 1000000000"
abbreviation (input) Minute :: duration where "Minute \<equiv> 60 * Second"
abbreviation (input) Hour :: duration where "Hour \<equiv> 3600 * Second"

abbreviation (input) IsZero :: "go_time \<Rightarrow> bool" where "IsZero t \<equiv> t = 0"

text \<open>\<open>Time.Sub\<close>: the difference, saturated to the range of \<open>int64\<close>.\<close>

definition time_Sub :: "go_time \<Rightarrow> go_time \<Rightarrow> duration" where
  "time_Sub t u = max MinInt64 (min MaxInt64 (t - u))"

lemma time_Sub_mono: "t \<le> t' \<Longrightarrow> time_Sub t u \<le> time_Sub t' u"
  by (auto simp: time_Sub_def)

lemma time_Sub_small:
  "MinInt64 < d \<Longrightarrow> d < MaxInt64 \<Longrightarrow> time_Sub t u \<le> d \<longleftrightarrow> t - u \<le> d"
  by (auto simp: time_Sub_def)

section \<open>Strings\<close>

type_synonym gostring = string

definition firstNonEmpty :: "gostring \<Rightarrow> gostring \<Rightarrow> gostring" where
  "firstNonEmpty value fallback = (if value \<noteq> [] then value else fallback)"

lemma firstNonEmpty_simps [simp]:
  "firstNonEmpty [] s = s"
  "firstNonEmpty (c # cs) s = c # cs"
  by (simp_all add: firstNonEmpty_def)

text \<open>
  The UTF-8 encodings of the code points of \<open>unicode.IsSpace\<close>: the six ASCII ones, U+0085,
  U+00A0, U+1680, U+2000 to U+200A, U+2028, U+2029, U+202F, U+205F and U+3000.
\<close>

definition space_codes :: "nat list list" where
  "space_codes =
     [[9], [10], [11], [12], [13], [32], [194, 133], [194, 160], [225, 154, 128],
      [226, 128, 128], [226, 128, 129], [226, 128, 130], [226, 128, 131], [226, 128, 132],
      [226, 128, 133], [226, 128, 134], [226, 128, 135], [226, 128, 136], [226, 128, 137],
      [226, 128, 138], [226, 128, 168], [226, 128, 169], [226, 128, 175], [226, 129, 159],
      [227, 128, 128]]"

definition starts_with :: "nat list \<Rightarrow> gostring \<Rightarrow> bool" where
  "starts_with p s \<longleftrightarrow> take (length p) (map of_char s) = p"

definition leading_space :: "gostring \<Rightarrow> nat" where
  "leading_space s = (case find (\<lambda>p. starts_with p s) space_codes of None \<Rightarrow> 0 | Some p \<Rightarrow> length p)"

text \<open>Trimming drops one code point at a time; the fuel is the number of bytes.\<close>

fun trim_left_fuel :: "nat \<Rightarrow> gostring \<Rightarrow> gostring" where
  "trim_left_fuel 0 s = s"
| "trim_left_fuel (Suc n) s =
     (if leading_space s = 0 then s else trim_left_fuel n (drop (leading_space s) s))"

definition trailing_space :: "gostring \<Rightarrow> nat" where
  "trailing_space s =
     (case find (\<lambda>p. starts_with (rev p) (rev s)) space_codes of None \<Rightarrow> 0 | Some p \<Rightarrow> length p)"

fun trim_right_fuel :: "nat \<Rightarrow> gostring \<Rightarrow> gostring" where
  "trim_right_fuel 0 s = s"
| "trim_right_fuel (Suc n) s =
     (if trailing_space s = 0 then s
      else trim_right_fuel n (take (length s - trailing_space s) s))"

definition TrimSpace :: "gostring \<Rightarrow> gostring" where
  "TrimSpace s = (let t = trim_left_fuel (length s) s in trim_right_fuel (length t) t)"

lemma TrimSpace_Nil [simp]: "TrimSpace [] = []"
  by (simp add: TrimSpace_def)

lemma leading_space_le: "leading_space s \<le> length s"
proof (cases "find (\<lambda>p. starts_with p s) space_codes")
  case None
  then show ?thesis by (simp add: leading_space_def)
next
  case (Some p)
  then have "starts_with p s" by (auto simp: find_Some_iff)
  then have "length p \<le> length s"
    unfolding starts_with_def by (metis length_map length_take min.cobounded1)
  with Some show ?thesis by (simp add: leading_space_def)
qed

text \<open>The fuel is enough: what is left does not start with a space.\<close>

lemma trim_left_fuel_done: "length s \<le> n \<Longrightarrow> leading_space (trim_left_fuel n s) = 0"
proof (induction n arbitrary: s)
  case 0
  then show ?case using leading_space_le [of s] by simp
next
  case (Suc n)
  then show ?case using leading_space_le [of s] by auto
qed

section \<open>Comparators and sort.Slice\<close>

fun insert_by :: "('a \<Rightarrow> 'a \<Rightarrow> bool) \<Rightarrow> 'a \<Rightarrow> 'a list \<Rightarrow> 'a list" where
  "insert_by lt x [] = [x]"
| "insert_by lt x (y # ys) = (if lt y x then y # insert_by lt x ys else x # y # ys)"

fun sort_Slice :: "('a \<Rightarrow> 'a \<Rightarrow> bool) \<Rightarrow> 'a list \<Rightarrow> 'a list" where
  "sort_Slice lt [] = []"
| "sort_Slice lt (x # xs) = insert_by lt x (sort_Slice lt xs)"

lemma mset_insert_by [simp]: "mset (insert_by lt x xs) = add_mset x (mset xs)"
  by (induction xs) auto

lemma mset_sort_Slice [simp]: "mset (sort_Slice lt xs) = mset xs"
  by (induction xs) auto

lemma set_insert_by [simp]: "set (insert_by lt x xs) = insert x (set xs)"
  by (induction xs) auto

lemma set_sort_Slice [simp]: "set (sort_Slice lt xs) = set xs"
  by (induction xs) auto

lemma length_sort_Slice [simp]: "length (sort_Slice lt xs) = length xs"
  by (metis mset_sort_Slice size_mset)

lemma distinct_sort_Slice [simp]: "distinct (sort_Slice lt xs) \<longleftrightarrow> distinct xs"
  by (metis distinct_card card_distinct length_sort_Slice set_sort_Slice)

text \<open>
  What \<open>sort.Slice\<close> asks of a comparator, on the elements it may meet (\<open>dom\<close>): a strict order
  that is connected up to the key the code compares.
\<close>

locale slice_order =
  fixes lt :: "'a \<Rightarrow> 'a \<Rightarrow> bool"
    and key :: "'a \<Rightarrow> 'k"
    and carrier :: "'a \<Rightarrow> bool"
  assumes less_irrefl: "carrier a \<Longrightarrow> \<not> lt a a"
    and less_trans: "carrier a \<Longrightarrow> carrier b \<Longrightarrow> carrier c \<Longrightarrow> lt a b \<Longrightarrow> lt b c \<Longrightarrow> lt a c"
    and less_total: "carrier a \<Longrightarrow> carrier b \<Longrightarrow> key a \<noteq> key b \<Longrightarrow> lt a b \<or> lt b a"
    and less_key: "carrier a \<Longrightarrow> carrier b \<Longrightarrow> key a = key b \<Longrightarrow> \<not> lt a b"
begin

lemma less_asym: "carrier a \<Longrightarrow> carrier b \<Longrightarrow> lt a b \<Longrightarrow> \<not> lt b a"
  using less_trans less_irrefl by blast

lemma not_less_trans:
  "carrier a \<Longrightarrow> carrier b \<Longrightarrow> carrier c \<Longrightarrow> \<not> lt b a \<Longrightarrow> \<not> lt c b \<Longrightarrow> \<not> lt c a"
  by (metis less_asym less_key less_total less_trans)

lemma insert_by_ordered:
  assumes "\<forall>y \<in> set (x # xs). carrier y" and "sorted_wrt (\<lambda>a b. \<not> lt b a) xs"
  shows "sorted_wrt (\<lambda>a b. \<not> lt b a) (insert_by lt x xs)"
  using assms
proof (induction xs)
  case Nil
  then show ?case by simp
next
  case (Cons y ys)
  then show ?case
    by (auto dest: less_asym) (meson list.set_intros not_less_trans less_asym)+
qed

lemma sort_Slice_ordered:
  "\<forall>y \<in> set xs. carrier y \<Longrightarrow> sorted_wrt (\<lambda>a b. \<not> lt b a) (sort_Slice lt xs)"
  by (induction xs) (auto intro!: insert_by_ordered)

text \<open>With distinct keys the order is strict, hence the result does not depend on the input order.\<close>

lemma sort_Slice_strict:
  assumes "\<forall>y \<in> set xs. carrier y" and "distinct (map key xs)"
  shows "sorted_wrt lt (sort_Slice lt xs)"
proof -
  let ?ys = "sort_Slice lt xs"
  have "mset (map key ?ys) = mset (map key xs)"
    by (metis mset_map mset_sort_Slice)
  with assms(2) have d: "distinct (map key ?ys)"
    by (metis mset_eq_imp_distinct_iff)
  have c: "\<forall>y \<in> set ?ys. carrier y" using assms(1) by simp
  from sort_Slice_ordered [OF assms(1)] d c show ?thesis
  proof (induction ?ys arbitrary: xs rule: list.induct)
    case Nil
    then show ?case by (metis sorted_wrt.simps(1))
  next
    case (Cons a as)
    have "sorted_wrt lt zs" if "sorted_wrt (\<lambda>a b. \<not> lt b a) zs" "distinct (map key zs)"
      "\<forall>y \<in> set zs. carrier y" for zs
      using that by (induction zs) (auto, metis image_eqI less_total)
    with Cons.prems show ?case by blast
  qed
qed

lemma strict_sorted_unique:
  assumes "sorted_wrt lt xs" "sorted_wrt lt ys" "set xs = set ys" "\<forall>y \<in> set xs. carrier y"
  shows "xs = ys"
  using assms
proof (induction xs arbitrary: ys)
  case Nil
  then show ?case by simp
next
  case (Cons x xs)
  from Cons.prems(3) obtain y ys' where ys: "ys = y # ys'" by (cases ys) auto
  have "x = y"
    using Cons.prems ys by (auto simp: set_eq_iff) (metis less_asym)+
  moreover have "carrier x" "\<forall>z \<in> set xs. lt x z" "\<forall>z \<in> set ys'. lt y z"
    using Cons.prems ys by auto
  then have "x \<notin> set xs" "y \<notin> set ys'"
    using less_irrefl \<open>x = y\<close> by blast+
  ultimately have "set xs = set ys'" using Cons.prems(3) ys by auto
  with Cons ys \<open>x = y\<close> show ?case by auto
qed

lemma sort_Slice_canonical:
  assumes "\<forall>y \<in> set xs. carrier y" "distinct (map key xs)" "mset xs = mset ys"
  shows "sort_Slice lt xs = sort_Slice lt ys"
proof (rule strict_sorted_unique)
  show "sorted_wrt lt (sort_Slice lt xs)" using assms(1,2) by (rule sort_Slice_strict)
  have "mset (map key ys) = mset (map key xs)" by (simp add: assms(3))
  with assms(2) have "distinct (map key ys)" by (metis mset_eq_imp_distinct_iff)
  moreover have "\<forall>y \<in> set ys. carrier y" using assms(1,3) by (metis mset_eq_setD)
  ultimately show "sorted_wrt lt (sort_Slice lt ys)" by (intro sort_Slice_strict)
  show "set (sort_Slice lt xs) = set (sort_Slice lt ys)"
    using assms(3) by (metis mset_eq_setD set_sort_Slice)
  show "\<forall>y \<in> set (sort_Slice lt xs). carrier y" using assms(1) by simp
qed

end

text \<open>The two orders of the library the code uses: strings, and records compared by a string key.\<close>

interpretation string_order: slice_order "(<) :: gostring \<Rightarrow> gostring \<Rightarrow> bool" "\<lambda>s. s" "\<lambda>_. True"
  by unfold_locales auto

definition sort_Strings :: "gostring list \<Rightarrow> gostring list" where
  "sort_Strings xs = sort_Slice (<) xs"

lemma set_sort_Strings [simp]: "set (sort_Strings xs) = set xs"
  by (simp add: sort_Strings_def)

lemma sorted_sort_Strings: "sorted (sort_Strings xs)"
  using string_order.sort_Slice_ordered [of xs] by (simp add: sort_Strings_def not_less)

lemma distinct_sort_Strings [simp]: "distinct (sort_Strings xs) \<longleftrightarrow> distinct xs"
  by (simp add: sort_Strings_def)

section \<open>Validation\<close>

text \<open>
  A \<open>Validate\<close> method is a sequence of checks, each of which returns its error at once; every check
  is pure, so the result is the first error of the sequence. \<open>None\<close> is the nil error.
\<close>

fun first_error :: "'e option list \<Rightarrow> 'e option" where
  "first_error [] = None"
| "first_error (None # cs) = first_error cs"
| "first_error (Some e # cs) = Some e"

definition guard :: "bool \<Rightarrow> 'e \<Rightarrow> 'e option" where
  "guard bad e = (if bad then Some e else None)"

lemma guard_None [simp]: "guard bad e = None \<longleftrightarrow> \<not> bad"
  by (simp add: guard_def)

lemma first_error_None: "first_error cs = None \<longleftrightarrow> (\<forall>c \<in> set cs. c = None)"
  by (induction cs rule: first_error.induct) auto

text \<open>Whether a sequence passes does not depend on its order: the iteration order of a map is harmless.\<close>

lemma first_error_order: "set cs = set cs' \<Longrightarrow> first_error cs = None \<longleftrightarrow> first_error cs' = None"
  by (simp add: first_error_None)

lemma first_error_append_None:
  "first_error (cs @ cs') = None \<longleftrightarrow> first_error cs = None \<and> first_error cs' = None"
  by (auto simp: first_error_None)

text \<open>Configuration errors name the offending setting; \<open>At\<close> is a wrapped error.\<close>

datatype config_error = Bad gostring | BadItem gostring gostring | At gostring config_error

definition at_error :: "gostring \<Rightarrow> config_error option \<Rightarrow> config_error option" where
  "at_error place e = map_option (At place) e"

lemma at_error_None [simp]: "at_error w e = None \<longleftrightarrow> e = None"
  by (simp add: at_error_def)

text \<open>Pointers and slices: nil is None; a nil slice has no elements.\<close>

definition elems :: "'a list option \<Rightarrow> 'a list" where
  "elems xs = (case xs of None \<Rightarrow> [] | Some ys \<Rightarrow> ys)"

lemma elems_simps [simp]: "elems None = []" "elems (Some xs) = xs"
  by (simp_all add: elems_def)

text \<open>\<open>p != nil && P(*p)\<close>.\<close>

definition set_and :: "('a \<Rightarrow> bool) \<Rightarrow> 'a option \<Rightarrow> bool" where
  "set_and P p \<longleftrightarrow> (case p of None \<Rightarrow> False | Some v \<Rightarrow> P v)"

lemma set_and_simps [simp]: "set_and P None = False" "set_and P (Some v) = P v"
  by (simp_all add: set_and_def)

text \<open>The overlay wins when it is set.\<close>

definition over :: "'a option \<Rightarrow> 'a option \<Rightarrow> 'a option" where
  "over base overlay = (case overlay of None \<Rightarrow> base | Some v \<Rightarrow> Some v)"

lemma over_simps [simp]: "over b None = b" "over b (Some v) = Some v" "over None x = x"
  by (simp_all add: over_def split: option.split)

lemma over_assoc: "over (over a b) c = over a (over b c)"
  by (simp add: over_def split: option.split)

definition over_string :: "gostring \<Rightarrow> gostring \<Rightarrow> gostring" where
  "over_string base overlay = (if overlay = [] then base else overlay)"

lemma over_string_simps [simp]: "over_string b [] = b" "over_string [] x = x" "over_string b (c # cs) = c # cs"
  by (simp_all add: over_string_def)

lemma over_string_assoc: "over_string (over_string a b) c = over_string a (over_string b c)"
  by (simp add: over_string_def)

text \<open>A string contains another one, and has it as a prefix.\<close>

definition HasPrefix :: "gostring \<Rightarrow> gostring \<Rightarrow> bool" where
  "HasPrefix s p \<longleftrightarrow> take (length p) s = p"

definition ContainsAny :: "gostring \<Rightarrow> gostring \<Rightarrow> bool" where
  "ContainsAny s cs \<longleftrightarrow> list_ex (\<lambda>c. c \<in> set cs) s"

end
