(* ===== verification/GoFloat.thy ===== *)
theory GoFloat
  imports GoPrelude
begin

text \<open>
  Go's \<open>float64\<close>: IEEE 754 binary64 with exact rationals as the finite values. Every arithmetic
  result is rounded to 53 significant bits, ties to even, with gradual underflow below
  \<open>2 ^ -1022\<close> and overflow to infinity at \<open>2 ^ 1024\<close>. The two signed zeros are one value:
  the modelled code compares zeros and adds them, and never divides by one.
\<close>

section \<open>Values and rounding\<close>

datatype float64 = NaN | PosInf | NegInf | Fin rat

fun bit_length :: "int \<Rightarrow> nat" where
  "bit_length n = (if n \<le> 0 then 0 else Suc (bit_length (n div 2)))"

declare bit_length.simps [simp del]

definition exp2 :: "int \<Rightarrow> rat" where
  "exp2 e = (if 0 \<le> e then 2 ^ nat e else 1 / 2 ^ nat (- e))"

text \<open>Round half to even.\<close>

definition round_even :: "rat \<Rightarrow> int" where
  "round_even y =
     (let f = \<lfloor>y\<rfloor>; r = y - of_int f
      in if r < 1 / 2 then f else if 1 / 2 < r then f + 1 else if even f then f else f + 1)"

text \<open>The exponent of the last bit kept of a positive \<open>x\<close>.\<close>

definition ulp_exponent :: "rat \<Rightarrow> int" where
  "ulp_exponent x =
     (let (n, d) = quotient_of x;
          g = int (bit_length n) - int (bit_length d) - 53;
          e = (if exp2 (g + 53) \<le> x then g + 1 else g)
      in max e (- 1074))"

definition round_positive :: "rat \<Rightarrow> rat" where
  "round_positive x = of_int (round_even (x / exp2 (ulp_exponent x))) * exp2 (ulp_exponent x)"

definition overflows :: "rat \<Rightarrow> bool" where
  "overflows y \<longleftrightarrow> 2 ^ 1024 \<le> y"

text \<open>Evaluation compares with a small power first.\<close>

lemma overflows_code [code]:
  "overflows y = (if y < 18446744073709551616 then False else 2 ^ 1024 \<le> y)"
proof -
  have "(18446744073709551616 :: rat) = 2 ^ 64" by simp
  also have "\<dots> \<le> 2 ^ 1024" by (rule power_increasing) simp_all
  finally show ?thesis by (auto simp: overflows_def)
qed

definition float_round :: "rat \<Rightarrow> float64" where
  "float_round x =
     (if x = 0 then Fin 0
      else if 0 < x then (let y = round_positive x in if overflows y then PosInf else Fin y)
      else (let y = round_positive (- x) in if overflows y then NegInf else Fin (- y)))"

section \<open>Operations of the language\<close>

definition float_of_int :: "int \<Rightarrow> float64" where
  "float_of_int i = float_round (of_int i)"

fun float_neg :: "float64 \<Rightarrow> float64" where
  "float_neg NaN = NaN"
| "float_neg PosInf = NegInf"
| "float_neg NegInf = PosInf"
| "float_neg (Fin x) = Fin (- x)"

fun float_add :: "float64 \<Rightarrow> float64 \<Rightarrow> float64" where
  "float_add (Fin x) (Fin y) = float_round (x + y)"
| "float_add NaN _ = NaN"
| "float_add _ NaN = NaN"
| "float_add PosInf NegInf = NaN"
| "float_add NegInf PosInf = NaN"
| "float_add PosInf _ = PosInf"
| "float_add _ PosInf = PosInf"
| "float_add NegInf _ = NegInf"
| "float_add _ NegInf = NegInf"

definition float_sub :: "float64 \<Rightarrow> float64 \<Rightarrow> float64" where
  "float_sub a b = float_add a (float_neg b)"

definition inf_sign :: "bool \<Rightarrow> float64" where
  "inf_sign positive = (if positive then PosInf else NegInf)"

fun float_mul :: "float64 \<Rightarrow> float64 \<Rightarrow> float64" where
  "float_mul (Fin x) (Fin y) = float_round (x * y)"
| "float_mul NaN _ = NaN"
| "float_mul _ NaN = NaN"
| "float_mul (Fin x) PosInf = (if x = 0 then NaN else inf_sign (0 < x))"
| "float_mul (Fin x) NegInf = (if x = 0 then NaN else inf_sign (x < 0))"
| "float_mul PosInf (Fin x) = (if x = 0 then NaN else inf_sign (0 < x))"
| "float_mul NegInf (Fin x) = (if x = 0 then NaN else inf_sign (x < 0))"
| "float_mul PosInf PosInf = PosInf"
| "float_mul NegInf NegInf = PosInf"
| "float_mul PosInf NegInf = NegInf"
| "float_mul NegInf PosInf = NegInf"

fun float_div :: "float64 \<Rightarrow> float64 \<Rightarrow> float64" where
  "float_div (Fin x) (Fin y) =
     (if y = 0 then (if x = 0 then NaN else inf_sign (0 < x)) else float_round (x / y))"
| "float_div NaN _ = NaN"
| "float_div _ NaN = NaN"
| "float_div (Fin x) _ = Fin 0"
| "float_div PosInf (Fin y) = inf_sign (0 \<le> y)"
| "float_div NegInf (Fin y) = inf_sign (y < 0)"
| "float_div _ _ = NaN"

fun float_less :: "float64 \<Rightarrow> float64 \<Rightarrow> bool" where
  "float_less (Fin x) (Fin y) = (x < y)"
| "float_less NaN _ = False"
| "float_less _ NaN = False"
| "float_less NegInf NegInf = False"
| "float_less NegInf _ = True"
| "float_less PosInf _ = False"
| "float_less (Fin _) PosInf = True"
| "float_less (Fin _) NegInf = False"

definition float_eq :: "float64 \<Rightarrow> float64 \<Rightarrow> bool" where
  "float_eq a b \<longleftrightarrow> a \<noteq> NaN \<and> a = b"

definition float_le :: "float64 \<Rightarrow> float64 \<Rightarrow> bool" where
  "float_le a b \<longleftrightarrow> float_less a b \<or> float_eq a b"

definition IsNaN :: "float64 \<Rightarrow> bool" where
  "IsNaN a \<longleftrightarrow> a = NaN"

definition IsInf :: "float64 \<Rightarrow> bool" where
  "IsInf a \<longleftrightarrow> a = PosInf \<or> a = NegInf"

text \<open>\<open>uint64(f)\<close> and \<open>int64(f)\<close> of a finite value in range: truncation towards zero.\<close>

fun float_trunc :: "float64 \<Rightarrow> int" where
  "float_trunc (Fin x) = (if 0 \<le> x then \<lfloor>x\<rfloor> else - \<lfloor>- x\<rfloor>)"
| "float_trunc _ = MinInt64"

section \<open>The order\<close>

lemma float_less_irrefl [simp]: "\<not> float_less a a"
  by (cases a) auto

lemma float_less_trans: "float_less a b \<Longrightarrow> float_less b c \<Longrightarrow> float_less a c"
  by (cases a; cases b; cases c) auto

lemma float_less_total: "a \<noteq> NaN \<Longrightarrow> b \<noteq> NaN \<Longrightarrow> a \<noteq> b \<Longrightarrow> float_less a b \<or> float_less b a"
  by (cases a; cases b) auto

lemma float_less_asym: "float_less a b \<Longrightarrow> \<not> float_less b a"
  using float_less_trans float_less_irrefl by blast

section \<open>Rounding never loses the sign of a number that is at least one\<close>

lemma bit_length_bounds:
  "n > 0 \<Longrightarrow> 2 ^ (bit_length n - 1) \<le> n \<and> n < 2 ^ bit_length n \<and> 0 < bit_length n"
proof (induction n rule: bit_length.induct)
  case (1 n)
  show ?case
  proof (cases "n div 2 = 0")
    case True
    with 1 have "n = 1" by auto
    then show ?thesis by (simp add: bit_length.simps)
  next
    case False
    with 1 have ih: "2 ^ (bit_length (n div 2) - 1) \<le> n div 2" "n div 2 < 2 ^ bit_length (n div 2)"
      "0 < bit_length (n div 2)" by auto
    obtain k where k: "bit_length (n div 2) = Suc k" using ih(3) by (cases "bit_length (n div 2)") auto
    from ih k have "2 ^ Suc k \<le> n" "n < 2 ^ Suc (Suc k)" by auto
    with k 1(2) show ?thesis by (simp add: bit_length.simps [of n])
  qed
qed

lemma exp2_pos [simp]: "0 < exp2 e"
  by (simp add: exp2_def)

lemma exp2_add: "exp2 (a + int n) = exp2 a * 2 ^ n"
proof -
  consider "0 \<le> a" | "a < 0" "0 \<le> a + int n" | "a + int n < 0" by linarith
  then show ?thesis
  proof cases
    case 1
    then show ?thesis by (simp add: exp2_def nat_add_distrib power_add)
  next
    case 2
    then have "n = nat (a + int n) + nat (- a)" by linarith
    then have "(2::rat) ^ n = 2 ^ nat (a + int n) * 2 ^ nat (- a)" by (metis power_add)
    with 2 show ?thesis by (simp add: exp2_def)
  next
    case 3
    then have "nat (- a) = nat (- (a + int n)) + n" by linarith
    then have "(2::rat) ^ nat (- a) = 2 ^ nat (- (a + int n)) * 2 ^ n" by (metis power_add)
    with 3 show ?thesis by (simp add: exp2_def)
  qed
qed

lemma exp2_mono: "a \<le> b \<Longrightarrow> exp2 a \<le> exp2 b"
  using exp2_add [of a "nat (b - a)"] by simp

lemma round_even_ge: "of_int k \<le> y \<Longrightarrow> k \<le> round_even y"
proof -
  assume "of_int k \<le> y"
  then have "k \<le> \<lfloor>y\<rfloor>" by (simp add: le_floor_iff)
  then show ?thesis by (auto simp: round_even_def Let_def)
qed

lemma exp2_diff: "exp2 (int a - int b) = 2 ^ a / 2 ^ b"
proof (cases "b \<le> a")
  case True
  then have "nat (int a - int b) = a - b" by linarith
  with True show ?thesis by (simp add: exp2_def power_diff)
next
  case False
  then have "nat (- (int a - int b)) = b - a" by linarith
  with False show ?thesis by (simp add: exp2_def power_diff)
qed

text \<open>The chosen exponent never exceeds that of \<open>x\<close> itself.\<close>

lemma ulp_exponent_le:
  assumes "0 < x" and "- 1074 < ulp_exponent x"
  shows "2 ^ 52 * exp2 (ulp_exponent x) \<le> x"
proof -
  obtain n d where q: "quotient_of x = (n, d)" by (cases "quotient_of x")
  have d: "0 < d" using q by (rule quotient_of_denom_pos)
  have x: "x = of_int n / of_int d" using q by (rule quotient_of_div)
  with assms(1) d have n: "0 < n" by (simp add: zero_less_divide_iff)
  define a where "a = bit_length n"
  define b where "b = bit_length d"
  have A: "2 ^ (a - 1) \<le> n" "0 < a" using bit_length_bounds [of n] n by (auto simp: a_def)
  have B: "d < 2 ^ b" using bit_length_bounds [of d] d by (auto simp: b_def)
  have A': "(2::rat) ^ (a - 1) \<le> of_int n"
    using A(1) by (metis of_int_le_iff of_int_numeral of_int_power)
  have B': "of_int d \<le> (2::rat) ^ b"
    using B by (metis less_imp_le of_int_le_iff of_int_numeral of_int_power)
  have "(2::rat) ^ (a - 1) / 2 ^ b \<le> of_int n / of_int d"
    using A' B' d n by (intro frac_le) auto
  then have low: "exp2 (int (a - 1) - int b) \<le> x" by (simp only: exp2_diff x)
  let ?g = "int a - int b - 53"
  have "exp2 (?g + 52) = exp2 (int (a - 1) - int b)" using A(2) by (simp add: of_nat_diff algebra_simps)
  with low have g: "2 ^ 52 * exp2 ?g \<le> x" using exp2_add [of ?g 52] by simp
  have g1: "2 ^ 52 * exp2 (?g + 1) = exp2 (?g + 53)"
    using exp2_add [of ?g 53] exp2_add [of ?g 1] by simp
  have "ulp_exponent x = (if exp2 (?g + 53) \<le> x then ?g + 1 else ?g)"
    using assms(2) by (simp add: ulp_exponent_def q a_def b_def Let_def split: if_splits)
  with g g1 show ?thesis by (auto split: if_splits)
qed

lemma round_positive_pos: "1 \<le> x \<Longrightarrow> 0 < round_positive x"
proof -
  assume x: "1 \<le> x"
  have "1 \<le> round_even (x / exp2 (ulp_exponent x))"
  proof (cases "- 1074 < ulp_exponent x")
    case True
    then have "2 ^ 52 * exp2 (ulp_exponent x) \<le> x" using ulp_exponent_le x by simp
    then have "(2::rat) ^ 52 \<le> x / exp2 (ulp_exponent x)" by (simp add: pos_le_divide_eq)
    then have "2 ^ 52 \<le> round_even (x / exp2 (ulp_exponent x))" by (intro round_even_ge) simp
    then show ?thesis by simp
  next
    case False
    then have "exp2 (ulp_exponent x) \<le> exp2 0" by (intro exp2_mono) simp
    then have "exp2 (ulp_exponent x) \<le> 1" by (simp add: exp2_def)
    then have "(1::rat) \<le> x / exp2 (ulp_exponent x)" using x by (simp add: pos_le_divide_eq)
    then show ?thesis by (intro round_even_ge) simp
  qed
  then show ?thesis by (simp add: round_positive_def)
qed

lemma float_round_not_NaN [simp]: "float_round x \<noteq> NaN"
  by (simp add: float_round_def Let_def)

lemma float_of_int_not_NaN [simp]: "float_of_int i \<noteq> NaN"
  by (simp add: float_of_int_def)

lemma float_of_int_positive:
  assumes "0 < i" shows "float_of_int i = PosInf \<or> (\<exists>y > 0. float_of_int i = Fin y)"
proof -
  have "1 \<le> (of_int i :: rat)" using assms by simp
  from round_positive_pos [OF this] assms show ?thesis
    by (auto simp: float_of_int_def float_round_def Let_def)
qed

lemma round_even_le: "of_int (round_even y) \<le> y + 1 / 2"
proof -
  have "of_int \<lfloor>y\<rfloor> \<le> y" by simp
  then have "of_int \<lfloor>y\<rfloor> \<le> y + 1 / 2" by linarith
  then show ?thesis by (auto simp: round_even_def Let_def)
qed

lemma round_positive_le:
  assumes "1 \<le> x" shows "round_positive x \<le> 2 * x"
proof -
  let ?u = "exp2 (ulp_exponent x)"
  have "of_int (round_even (x / ?u)) * ?u \<le> (x / ?u + 1 / 2) * ?u"
    using round_even_le by (intro mult_right_mono) (simp_all add: less_imp_le)
  moreover have "(x / ?u + 1 / 2) * ?u = x + ?u / 2"
    using exp2_pos [of "ulp_exponent x"] by (simp add: field_simps less_imp_neq [THEN not_sym])
  moreover have "?u \<le> x"
  proof (cases "- 1074 < ulp_exponent x")
    case True
    then have "2 ^ 52 * ?u \<le> x" using ulp_exponent_le assms by simp
    moreover have "1 * ?u \<le> 2 ^ 52 * ?u" by (intro mult_right_mono) (simp_all add: less_imp_le)
    ultimately show ?thesis by (simp only: mult_1 order_trans)
  next
    case False
    then have "?u \<le> exp2 0" by (intro exp2_mono) simp
    then show ?thesis using assms by (simp add: exp2_def)
  qed
  ultimately show ?thesis using assms by (simp add: round_positive_def)
qed

lemma float_of_int_Fin:
  assumes "0 \<le> i" "i \<le> 2 ^ 1000" shows "\<exists>y \<ge> 0. float_of_int i = Fin y"
proof (cases "i = 0")
  case True
  then show ?thesis by (simp add: float_of_int_def float_round_def)
next
  case False
  with assms have i: "1 \<le> (of_int i :: rat)" by simp
  have "(of_int i :: rat) \<le> of_int (2 ^ 1000)" using assms(2) by (rule of_int_le_iff [THEN iffD2])
  then have "round_positive (of_int i) < 2 ^ 1024"
    using round_positive_le [OF i] by simp
  moreover have "0 < round_positive (of_int i)" using i by (rule round_positive_pos)
  ultimately show ?thesis using i by (auto simp: float_of_int_def float_round_def overflows_def Let_def)
qed

end
