(* ===== verification/FleetTypes.thy ===== *)
theory FleetTypes
  imports GoFloat
begin

text \<open>
  The wire types of \<open>internal/model/model.go\<close> that the Controller's fleet state holds: an Agent, a
  Peer node and an Agent heartbeat, with the life-cycle states. A node state is a string, because an
  Agent may report any text; \<open>nodeHasLiveState\<close> and the guards of the handlers compare with the five
  constants. Maps inside a node are association lists.
\<close>

definition AgentOnline :: gostring where "AgentOnline = ''online''"
definition AgentOffline :: gostring where "AgentOffline = ''offline''"
definition NodeStarting :: gostring where "NodeStarting = ''starting''"
definition NodeReady :: gostring where "NodeReady = ''ready''"
definition NodeStopping :: gostring where "NodeStopping = ''stopping''"
definition NodeStopped :: gostring where "NodeStopped = ''stopped''"
definition NodeFailed :: gostring where "NodeFailed = ''failed''"

lemma state_distinct [simp]:
  "NodeStopping \<noteq> NodeStopped" "NodeStopped \<noteq> NodeStopping"
  "NodeStopping \<noteq> NodeFailed" "NodeFailed \<noteq> NodeStopping"
  "NodeStopped \<noteq> NodeFailed" "NodeFailed \<noteq> NodeStopped"
  "NodeStarting \<noteq> NodeStopping" "NodeStarting \<noteq> NodeStopped" "NodeStarting \<noteq> NodeFailed"
  "NodeReady \<noteq> NodeStopping" "NodeReady \<noteq> NodeStopped" "NodeReady \<noteq> NodeFailed"
  "NodeStarting \<noteq> NodeReady" "NodeReady \<noteq> NodeStarting"
  "NodeStopping \<noteq> NodeReady" "NodeStopped \<noteq> NodeReady" "NodeFailed \<noteq> NodeReady"
  "NodeStopping \<noteq> NodeStarting" "NodeStopped \<noteq> NodeStarting" "NodeFailed \<noteq> NodeStarting"
  by (simp_all add: NodeStopping_def NodeStopped_def NodeFailed_def NodeStarting_def NodeReady_def)

lemma agent_state_distinct [simp]: "AgentOnline \<noteq> AgentOffline" "AgentOffline \<noteq> AgentOnline"
  by (simp_all add: AgentOnline_def AgentOffline_def)

record agent =
  ag_StartupReconciled :: bool
  ag_PeerImage :: gostring
  ag_RunDrain :: bool
  ag_ID :: gostring
  ag_Name :: gostring
  ag_URL :: gostring
  ag_MetricsURL :: gostring
  ag_Hostname :: gostring
  ag_Version :: gostring
  ag_Capacity :: int
  ag_DefaultCapacity :: int
  ag_CapacityOverride :: int
  ag_CapacityPending :: bool
  ag_CapacityRevision :: gostring
  ag_ActiveNodes :: int
  ag_State :: gostring
  ag_Labels :: "(gostring, gostring) gomap"
  ag_StartedAt :: go_time
  ag_LastSeen :: go_time

record node =
  nd_ID :: gostring
  nd_RunID :: gostring
  nd_Generation :: nat
  nd_AgentID :: gostring
  nd_Group :: gostring
  nd_Role :: gostring
  nd_Type :: gostring
  nd_Profile :: gostring
  nd_PeerID :: gostring
  nd_State :: gostring
  nd_Addresses :: "gostring list"
  nd_ConnectedPeers :: "gostring list"
  nd_RoutingPeers :: "gostring list"
  nd_MeshPeers :: "(gostring, gostring list) gomap"
  nd_OverlayObservedAt :: go_time
  nd_TopicPeers :: "(gostring, int) gomap"
  nd_PeerScores :: "(gostring, float64) gomap"
  nd_Metadata :: "(gostring, gostring) gomap option"
  nd_StartedAt :: go_time
  nd_LastSeen :: go_time
  nd_Error :: gostring

record agent_heartbeat =
  hb_Agent :: agent
  hb_Nodes :: "node list"
  hb_Partial :: bool

text \<open>The zero values Go hands out for a missing map entry.\<close>

definition zero_agent :: agent where
  "zero_agent = \<lparr>ag_StartupReconciled = False, ag_PeerImage = [], ag_RunDrain = False, ag_ID = [],
     ag_Name = [], ag_URL = [], ag_MetricsURL = [], ag_Hostname = [], ag_Version = [],
     ag_Capacity = 0, ag_DefaultCapacity = 0, ag_CapacityOverride = 0, ag_CapacityPending = False,
     ag_CapacityRevision = [], ag_ActiveNodes = 0, ag_State = [], ag_Labels = [],
     ag_StartedAt = 0, ag_LastSeen = 0\<rparr>"

definition zero_node :: node where
  "zero_node = \<lparr>nd_ID = [], nd_RunID = [], nd_Generation = 0, nd_AgentID = [], nd_Group = [],
     nd_Role = [], nd_Type = [], nd_Profile = [], nd_PeerID = [], nd_State = [],
     nd_Addresses = [], nd_ConnectedPeers = [], nd_RoutingPeers = [], nd_MeshPeers = [],
     nd_OverlayObservedAt = 0, nd_TopicPeers = [], nd_PeerScores = [], nd_Metadata = None,
     nd_StartedAt = 0, nd_LastSeen = 0, nd_Error = []\<rparr>"

section \<open>Life-cycle predicates\<close>

definition nodeHasLiveState :: "node \<Rightarrow> bool" where
  "nodeHasLiveState n \<longleftrightarrow> nd_State n \<noteq> NodeStopped \<and> nd_State n \<noteq> NodeFailed"

text \<open>The guard the handlers write out wherever they ask whether a node still runs.\<close>

definition node_active :: "node \<Rightarrow> bool" where
  "node_active n \<longleftrightarrow>
     nd_State n \<noteq> NodeStopping \<and> nd_State n \<noteq> NodeStopped \<and> nd_State n \<noteq> NodeFailed"

lemma node_active_live [live_simps]: "node_active n \<Longrightarrow> nodeHasLiveState n"
  by (simp add: node_active_def nodeHasLiveState_def)

lemma live_by_state [live_simps]:
  "nd_State n = NodeStopped \<Longrightarrow> \<not> nodeHasLiveState n"
  "nd_State n = NodeFailed \<Longrightarrow> \<not> nodeHasLiveState n"
  by (simp_all add: nodeHasLiveState_def)

definition agentStaleAfter :: duration where
  "agentStaleAfter = 10 * Second"

definition agentIsOnline :: "agent \<Rightarrow> go_time \<Rightarrow> bool" where
  "agentIsOnline a now \<longleftrightarrow>
     ag_State a = AgentOnline \<and> (IsZero (ag_LastSeen a) \<or> time_Sub now (ag_LastSeen a) \<le> agentStaleAfter)"

text \<open>An online Agent's lease runs out: without a heartbeat it is offline after ten seconds.\<close>

lemma agentIsOnline_bound:
  "agentIsOnline a now \<Longrightarrow> ag_LastSeen a \<noteq> 0 \<Longrightarrow> now \<le> ag_LastSeen a + 10 * Second"
  by (auto simp: agentIsOnline_def agentStaleAfter_def time_Sub_small MinInt64_def MaxInt64_def)

end
