(* ===== verification/FleetState.thy ===== *)
theory FleetState
  imports FleetTypes
begin

text \<open>
  The Controller's fleet state (\<open>internal/controller/state.go\<close>, \<open>agent_capacity.go\<close> and the
  reservation functions of \<open>runner.go\<close>): which Agents are registered, which Peer nodes exist, which
  placements are reserved. One definition per handler, run under the state's mutex, so each is one
  atomic step. \<open>now\<close> is the clock read at the start of the handler and \<open>revision\<close> the random text a
  capacity revision draws. Prometheus counters are not part of the state. A watcher channel has
  capacity one, so it is the flag "a notification is pending".
\<close>

record fleet =
  st_agentCapacityOverrides :: "(gostring, int) gomap"
  st_agentCapacityRevisions :: "(gostring, gostring) gomap"
  st_agentReportedCapacities :: "(gostring, int) gomap"
  st_agentSettingsErr :: bool
  st_agents :: "(gostring, agent) gomap"
  st_nodes :: "(gostring, node) gomap"
  st_activeNodeIDs :: "gostring set option"
  st_reservations :: "(gostring, gostring) gomap"
  st_agentSnapshots :: "(gostring, go_time) gomap"
  st_nodeReportTimes :: "(gostring, go_time) gomap"
  st_watchers :: "(nat, bool) gomap"

datatype fleet_error =
    SettingsUnavailable
  | AgentIdAndUrlRequired
  | AlreadyRegistered gostring
  | AgentIdRequired
  | AgentNotRegistered gostring
  | InstanceMismatch gostring
  | EmptyDuplicateOrForeign gostring gostring
  | CapacityNotPositive
  | AgentNotFound
  | AgentTooOld
  | SaveFailed

definition newState :: "(gostring, int) gomap option \<Rightarrow> fleet" where
  "newState loaded =
     \<lparr>st_agentCapacityOverrides = (case loaded of Some m \<Rightarrow> m | None \<Rightarrow> []),
      st_agentCapacityRevisions = [], st_agentReportedCapacities = [],
      st_agentSettingsErr = (loaded = None),
      st_agents = [], st_nodes = [], st_activeNodeIDs = None, st_reservations = [],
      st_agentSnapshots = [], st_nodeReportTimes = [], st_watchers = []\<rparr>"

section \<open>Watchers\<close>

definition notify :: "fleet \<Rightarrow> fleet" where
  "notify s = s\<lparr>st_watchers := map_vals (\<lambda>_ _. True) (st_watchers s)\<rparr>"

definition subscribe :: "nat \<Rightarrow> fleet \<Rightarrow> fleet" where
  "subscribe ch s = s\<lparr>st_watchers := AList.update ch False (st_watchers s)\<rparr>"

definition unsubscribe :: "nat \<Rightarrow> fleet \<Rightarrow> fleet" where
  "unsubscribe ch s = s\<lparr>st_watchers := AList.delete ch (st_watchers s)\<rparr>"

section \<open>The node table and its index of live nodes\<close>

definition live_ids :: "(gostring, node) gomap \<Rightarrow> gostring set" where
  "live_ids ns = set (map fst (filter (\<lambda>(_, n). nodeHasLiveState n) ns))"

definition setNodeLocked :: "node \<Rightarrow> fleet \<Rightarrow> fleet" where
  "setNodeLocked n s =
     (let active = (case st_activeNodeIDs s of None \<Rightarrow> live_ids (st_nodes s) | Some a \<Rightarrow> a)
      in s\<lparr>st_nodes := AList.update (nd_ID n) n (st_nodes s),
           st_activeNodeIDs := Some (if nodeHasLiveState n then insert (nd_ID n) active
                                     else active - {nd_ID n})\<rparr>)"

definition activeNodesLocked :: "fleet \<Rightarrow> node list" where
  "activeNodesLocked s =
     (case st_activeNodeIDs s of
        None \<Rightarrow> filter nodeHasLiveState (map snd (st_nodes s))
      | Some active \<Rightarrow>
          map snd (filter (\<lambda>(id, n). id \<in> active \<and> nodeHasLiveState n) (st_nodes s)))"

definition reservedBy :: "fleet \<Rightarrow> gostring \<Rightarrow> int" where
  "reservedBy s a = int (length (filter (\<lambda>(_, a'). a' = a) (st_reservations s)))"

section \<open>Agent capacity (agent_capacity.go)\<close>

definition desiredCapacity :: "agent \<Rightarrow> int" where
  "desiredCapacity a = (if 0 < ag_CapacityOverride a then ag_CapacityOverride a else ag_DefaultCapacity a)"

definition applyAgentCapacityLocked :: "fleet \<Rightarrow> agent \<Rightarrow> agent" where
  "applyAgentCapacityLocked s a0 =
     (let reported = mget 0 (st_agentReportedCapacities s) (ag_ID a0);
          a1 = a0\<lparr>ag_CapacityOverride := mget 0 (st_agentCapacityOverrides s) (ag_ID a0)\<rparr>;
          desired = desiredCapacity a1;
          a2 = a1\<lparr>ag_Capacity := reported, ag_CapacityPending := False\<rparr>
      in if desired \<le> 0 then a2
         else
           let pending = (reported \<noteq> desired
                 \<or> ag_CapacityRevision a2 \<noteq> mget [] (st_agentCapacityRevisions s) (ag_ID a0));
               limit = (if reported \<le> 0 \<or> desired < reported then desired else reported);
               previous = ag_Capacity (mget zero_agent (st_agents s) (ag_ID a0))
           in a2\<lparr>ag_CapacityPending := pending,
                 ag_Capacity := (if pending \<and> 0 < previous then min limit previous else limit)\<rparr>)"

definition observeAgentCapacityLocked :: "gostring \<Rightarrow> agent \<Rightarrow> fleet \<Rightarrow> fleet \<times> agent" where
  "observeAgentCapacityLocked revision a s =
     (let s1 = (if 0 < ag_DefaultCapacity a \<and> mget [] (st_agentCapacityRevisions s) (ag_ID a) = []
                then s\<lparr>st_agentCapacityRevisions :=
                         AList.update (ag_ID a) revision (st_agentCapacityRevisions s)\<rparr>
                else s);
          s2 = s1\<lparr>st_agentReportedCapacities :=
                    AList.update (ag_ID a) (ag_Capacity a) (st_agentReportedCapacities s1)\<rparr>
      in (s2, applyAgentCapacityLocked s2 a))"

text \<open>\<open>saved\<close> is whether the settings file was written.\<close>

definition setAgentCapacity ::
    "gostring \<Rightarrow> bool \<Rightarrow> gostring \<Rightarrow> int option \<Rightarrow> fleet \<Rightarrow> fleet_error + (agent \<times> fleet)" where
  "setAgentCapacity revision saved agentID capacity s =
     (if (case capacity of Some c \<Rightarrow> c \<le> 0 | None \<Rightarrow> False) then Inl CapacityNotPositive
      else if st_agentSettingsErr s then Inl SettingsUnavailable
      else if \<not> mhas (st_agents s) agentID then Inl AgentNotFound
      else if ag_DefaultCapacity (mget zero_agent (st_agents s) agentID) \<le> 0 then Inl AgentTooOld
      else if \<not> saved then Inl SaveFailed
      else
        let s1 = s\<lparr>st_agentCapacityOverrides :=
                     (case capacity of None \<Rightarrow> AList.delete agentID (st_agentCapacityOverrides s)
                      | Some c \<Rightarrow> AList.update agentID c (st_agentCapacityOverrides s)),
                   st_agentCapacityRevisions :=
                     AList.update agentID revision (st_agentCapacityRevisions s)\<rparr>;
            a = applyAgentCapacityLocked s1 (mget zero_agent (st_agents s1) agentID);
            s2 = s1\<lparr>st_agents := AList.update agentID a (st_agents s1)\<rparr>
        in Inr (a, notify s2))"

section \<open>Agent registration\<close>

text \<open>The nodes of an Agent whose process restarted are gone: each one still live is failed.\<close>

definition failRestartedNode :: "gostring \<Rightarrow> go_time \<Rightarrow> gostring \<times> node \<Rightarrow> fleet \<Rightarrow> fleet" where
  "failRestartedNode a now kn s =
     (let n = snd kn in
      if nd_AgentID n = a \<and> nd_State n \<noteq> NodeStopped \<and> nd_State n \<noteq> NodeFailed
      then setNodeLocked (n\<lparr>nd_State := NodeFailed, nd_Error := ''Agent instance restarted'',
                            nd_LastSeen := now\<rparr>) s
      else s)"

definition forgetRestartedAgent :: "gostring \<Rightarrow> go_time \<Rightarrow> fleet \<Rightarrow> fleet" where
  "forgetRestartedAgent a now s =
     (let s1 = s\<lparr>st_reservations := filter (\<lambda>(_, a'). a' \<noteq> a) (st_reservations s)\<rparr>;
          s2 = fold (failRestartedNode a now) (st_nodes s1) s1
      in s2\<lparr>st_agentSnapshots := AList.delete a (st_agentSnapshots s2)\<rparr>)"

text \<open>An Agent that omits its start time continues the instance it registered.\<close>

definition resumedAgent :: "fleet \<Rightarrow> agent \<Rightarrow> agent" where
  "resumedAgent s a =
     (if mhas (st_agents s) (ag_ID a) \<and> IsZero (ag_StartedAt a)
      then a\<lparr>ag_StartedAt := ag_StartedAt (mget zero_agent (st_agents s) (ag_ID a))\<rparr> else a)"

definition agentRestarted :: "fleet \<Rightarrow> agent \<Rightarrow> bool" where
  "agentRestarted s a \<longleftrightarrow>
     mhas (st_agents s) (ag_ID a)
     \<and> ag_StartedAt a \<noteq> ag_StartedAt (mget zero_agent (st_agents s) (ag_ID a))"

definition registrationBase :: "go_time \<Rightarrow> agent \<Rightarrow> fleet \<Rightarrow> fleet" where
  "registrationBase now a s =
     (if agentRestarted s a then forgetRestartedAgent (ag_ID a) now s else s)"

definition completeRegistration :: "go_time \<Rightarrow> fleet \<Rightarrow> agent \<Rightarrow> agent" where
  "completeRegistration now s a1 =
     (let previous = mget zero_agent (st_agents s) (ag_ID a1);
          a2 = (if agentRestarted s a1 then a1
                else if mhas (st_agents s) (ag_ID a1) then
                  a1\<lparr>ag_MetricsURL := firstNonEmpty (ag_MetricsURL a1) (ag_MetricsURL previous),
                     ag_ActiveNodes := max (ag_ActiveNodes a1) (ag_ActiveNodes previous)\<rparr>
                else a1\<lparr>ag_ActiveNodes := ag_ActiveNodes a1 + reservedBy s (ag_ID a1)\<rparr>);
          a3 = (if IsZero (ag_StartedAt a2) then a2\<lparr>ag_StartedAt := now\<rparr> else a2)
      in a3\<lparr>ag_ActiveNodes := max 0 (ag_ActiveNodes a3), ag_LastSeen := now,
            ag_State := AgentOnline\<rparr>)"

definition recordReported :: "gostring \<Rightarrow> go_time \<Rightarrow> fleet \<Rightarrow> fleet" where
  "recordReported k reportedAt s =
     (if \<not> IsZero reportedAt \<and> mget 0 (st_agentSnapshots s) k < reportedAt
      then s\<lparr>st_agentSnapshots := AList.update k reportedAt (st_agentSnapshots s)\<rparr> else s)"

definition registerAgent ::
    "go_time \<Rightarrow> gostring \<Rightarrow> agent \<Rightarrow> fleet \<Rightarrow> fleet_error + (agent \<times> fleet)" where
  "registerAgent now revision a0 s =
     (if st_agentSettingsErr s then Inl SettingsUnavailable
      else if TrimSpace (ag_ID a0) = [] \<or> TrimSpace (ag_URL a0) = [] then Inl AgentIdAndUrlRequired
      else
        let previous = mget zero_agent (st_agents s) (ag_ID a0);
            a1 = resumedAgent s a0
        in if agentRestarted s a1
              \<and> (ag_StartedAt a1 < ag_StartedAt previous \<or> agentIsOnline previous now)
           then Inl (AlreadyRegistered (ag_ID a0))
           else
             let s1 = recordReported (ag_ID a1) (ag_LastSeen a0) (registrationBase now a1 s);
                 x = observeAgentCapacityLocked revision (completeRegistration now s a1) s1
             in Inr (snd x, notify ((fst x)\<lparr>st_agents :=
                  AList.update (ag_ID (snd x)) (snd x) (st_agents (fst x))\<rparr>)))"

section \<open>Heartbeats\<close>

definition topologyReportTime :: "go_time \<Rightarrow> go_time \<Rightarrow> go_time \<Rightarrow> go_time" where
  "topologyReportTime received agentReported peerSeen =
     (if IsZero agentReported \<or> IsZero peerSeen then received
      else let age = time_Sub agentReported peerSeen in received + - (if age < 0 then 0 else age))"

text \<open>The first node of the report that is unnamed, repeated, or owned by another Agent.\<close>

fun badReportedNode :: "fleet \<Rightarrow> gostring \<Rightarrow> gostring set \<Rightarrow> node list \<Rightarrow> gostring option" where
  "badReportedNode s a seen [] = None"
| "badReportedNode s a seen (n # ns) =
     (let owner = nd_AgentID (mget zero_node (st_nodes s) (nd_ID n));
          reservation = mget [] (st_reservations s) (nd_ID n)
      in if nd_ID n = [] \<or> nd_ID n \<in> seen \<or> owner \<noteq> [] \<and> owner \<noteq> a
            \<or> reservation \<noteq> [] \<and> reservation \<noteq> a
         then Some (nd_ID n)
         else badReportedNode s a (insert (nd_ID n) seen) ns)"

text \<open>What the table keeps when a report about a known node arrives.\<close>

definition mergeReportedNode :: "node option \<Rightarrow> node \<Rightarrow> node" where
  "mergeReportedNode old n =
     (case old of None \<Rightarrow> n
      | Some o' \<Rightarrow>
        if nd_State o' = NodeStopped \<and> nd_State n \<noteq> NodeStopped then o'
        else if nd_State o' = NodeFailed \<and> nd_State n \<noteq> NodeFailed \<and> nd_State n \<noteq> NodeStopping
                \<and> nd_State n \<noteq> NodeStopped then o'
        else if nd_State o' = NodeStopping \<and> nd_State n \<noteq> NodeStopping \<and> nd_State n \<noteq> NodeStopped
                \<and> nd_State n \<noteq> NodeFailed then o'
        else n)"

text \<open>The fields the Controller fills in before it merges a reported node.\<close>

definition completeReportedNode :: "go_time \<Rightarrow> gostring \<Rightarrow> node option \<Rightarrow> node \<Rightarrow> node" where
  "completeReportedNode now a old n0 =
     (let n1 = n0\<lparr>nd_AgentID := a\<rparr>;
          n2 = (if IsZero (nd_LastSeen n1) then n1\<lparr>nd_LastSeen := now\<rparr> else n1)
      in if IsZero (nd_StartedAt n2)
         then n2\<lparr>nd_StartedAt := (case old of Some o' \<Rightarrow> nd_StartedAt o' | None \<Rightarrow> now)\<rparr>
         else n2)"

text \<open>One reported node; the accumulator is (state, released reservations, observed active).\<close>

definition applyReportedNode ::
    "go_time \<Rightarrow> go_time \<Rightarrow> gostring \<Rightarrow> node \<Rightarrow> fleet \<times> int \<times> int \<Rightarrow> fleet \<times> int \<times> int" where
  "applyReportedNode now reportedAt a n0 = (\<lambda>(s, released, observed).
     (let s1 = s\<lparr>st_nodeReportTimes :=
                   AList.update (nd_ID n0) (topologyReportTime now reportedAt (nd_LastSeen n0))
                     (st_nodeReportTimes s)\<rparr>;
          old = map_of (st_nodes s) (nd_ID n0);
          n = mergeReportedNode old (completeReportedNode now a old n0);
          s2 = setNodeLocked n s1;
          held = (mget [] (st_reservations s2) (nd_ID n) = a);
          s3 = (if held then s2\<lparr>st_reservations := AList.delete (nd_ID n) (st_reservations s2)\<rparr>
                else s2)
      in (s3, (if held then released + 1 else released),
          (if node_active n then observed + 1 else observed))))"

text \<open>A full report lists every node of the Agent: an unlisted one without a reservation stopped.\<close>

definition stopOmittedNode :: "gostring \<Rightarrow> go_time \<Rightarrow> gostring set \<Rightarrow> gostring \<times> node \<Rightarrow> fleet \<Rightarrow> fleet" where
  "stopOmittedNode a now seen kn s =
     (let (id, n) = kn in
      if nd_AgentID n \<noteq> a then s
      else if id \<notin> seen \<and> nd_State n \<noteq> NodeStopped then
        (if mget [] (st_reservations s) id = a then s
         else setNodeLocked (n\<lparr>nd_State := NodeStopped, nd_LastSeen := now\<rparr>) s)
      else s)"

definition partialActive :: "fleet \<Rightarrow> gostring \<Rightarrow> int" where
  "partialActive s a =
     int (length (filter (\<lambda>n. nd_AgentID n = a \<and> mget [] (st_reservations s) (nd_ID n) \<noteq> a
                            \<and> node_active n) (activeNodesLocked s)))"

text \<open>The fields of the report that fall back to what the Agent registered with.\<close>

definition completeReportedAgent :: "fleet \<Rightarrow> agent \<Rightarrow> go_time \<Rightarrow> agent \<Rightarrow> agent" where
  "completeReportedAgent s previous now a =
     a\<lparr>ag_URL := firstNonEmpty (ag_URL a) (ag_URL previous),
       ag_MetricsURL := firstNonEmpty (ag_MetricsURL a) (ag_MetricsURL previous),
       ag_Name := firstNonEmpty (ag_Name a) (ag_Name previous),
       ag_Hostname := firstNonEmpty (ag_Hostname a) (ag_Hostname previous),
       ag_Version := firstNonEmpty (ag_Version a) (ag_Version previous),
       ag_PeerImage := firstNonEmpty (ag_PeerImage a) (ag_PeerImage previous),
       ag_RunDrain := (ag_RunDrain a \<or> ag_RunDrain previous),
       ag_StartupReconciled := (ag_StartupReconciled a \<or> ag_StartupReconciled previous),
       ag_Capacity := (if ag_Capacity a = 0 then mget 0 (st_agentReportedCapacities s) (ag_ID a)
                       else ag_Capacity a),
       ag_StartedAt := (if IsZero (ag_StartedAt a) then ag_StartedAt previous else ag_StartedAt a),
       ag_LastSeen := now,
       ag_State := AgentOnline\<rparr>"

definition heartbeatStale :: "fleet \<Rightarrow> agent_heartbeat \<Rightarrow> bool" where
  "heartbeatStale s h =
     (let reportedAt = ag_LastSeen (hb_Agent h); last = mget 0 (st_agentSnapshots s) (ag_ID (hb_Agent h))
      in \<not> IsZero reportedAt \<and> \<not> IsZero last \<and> reportedAt < last)"

definition heartbeatRepeated :: "fleet \<Rightarrow> agent_heartbeat \<Rightarrow> bool" where
  "heartbeatRepeated s h =
     (let reportedAt = ag_LastSeen (hb_Agent h); last = mget 0 (st_agentSnapshots s) (ag_ID (hb_Agent h))
      in \<not> hb_Partial h \<and> \<not> IsZero reportedAt \<and> \<not> IsZero last \<and> \<not> last < reportedAt)"

text \<open>A stale report only confirms exits: its other records are dropped.\<close>

definition reportedNodes :: "fleet \<Rightarrow> agent_heartbeat \<Rightarrow> node list" where
  "reportedNodes s h =
     (if heartbeatStale s h then filter (\<lambda>n. nd_State n = NodeStopped) (hb_Nodes h) else hb_Nodes h)"

definition recordSnapshot :: "agent_heartbeat \<Rightarrow> fleet \<Rightarrow> fleet" where
  "recordSnapshot h s =
     (if \<not> heartbeatStale s h \<and> \<not> IsZero (ag_LastSeen (hb_Agent h))
      then s\<lparr>st_agentSnapshots := AList.update (ag_ID (hb_Agent h)) (ag_LastSeen (hb_Agent h))
                                   (st_agentSnapshots s)\<rparr>
      else s)"

definition applyReport :: "go_time \<Rightarrow> agent_heartbeat \<Rightarrow> fleet \<Rightarrow> fleet \<times> int \<times> int" where
  "applyReport now h s =
     fold (applyReportedNode now (ag_LastSeen (hb_Agent h)) (ag_ID (hb_Agent h)))
       (reportedNodes s h) (recordSnapshot h s, 0, 0)"

definition stopOmitted :: "go_time \<Rightarrow> agent_heartbeat \<Rightarrow> fleet \<Rightarrow> fleet" where
  "stopOmitted now h s =
     (if hb_Partial h then s
      else fold (stopOmittedNode (ag_ID (hb_Agent h)) now (set (map nd_ID (hb_Nodes h))))
             (st_nodes s) s)"

text \<open>The part of the handler after every check has passed.\<close>

definition acceptHeartbeat :: "go_time \<Rightarrow> gostring \<Rightarrow> agent_heartbeat \<Rightarrow> fleet \<Rightarrow> fleet" where
  "acceptHeartbeat now revision h s =
     (let agentID = ag_ID (hb_Agent h);
          previous = mget zero_agent (st_agents s) agentID;
          a1 = completeReportedAgent s previous now (hb_Agent h);
          reportedOccupied = max 0 (ag_ActiveNodes a1);
          (s2, released, observed) = applyReport now h s;
          observedActive = (if hb_Partial h then partialActive s2 agentID else observed);
          a2 = a1\<lparr>ag_ActiveNodes := max reportedOccupied observedActive + reservedBy s2 agentID\<rparr>;
          s3 = stopOmitted now h s2;
          (s4, a3) =
            (if heartbeatStale s h
             then (s3, previous\<lparr>ag_ActiveNodes := max 0 (ag_ActiveNodes previous - released)\<rparr>)
             else observeAgentCapacityLocked revision a2 s3)
      in notify (s4\<lparr>st_agents := AList.update (ag_ID a3) a3 (st_agents s4)\<rparr>))"

definition heartbeat :: "go_time \<Rightarrow> gostring \<Rightarrow> agent_heartbeat \<Rightarrow> fleet \<Rightarrow> fleet_error + fleet" where
  "heartbeat now revision h s =
     (let id = ag_ID (hb_Agent h);
          previous = mget zero_agent (st_agents s) id
      in if id = [] then Inl AgentIdRequired
         else if \<not> mhas (st_agents s) id then Inl (AgentNotRegistered id)
         else if \<not> IsZero (ag_StartedAt (hb_Agent h)) \<and> ag_StartedAt (hb_Agent h) \<noteq> ag_StartedAt previous
         then Inl (InstanceMismatch id)
         else if heartbeatRepeated s h then Inr s
         else case badReportedNode s id {} (hb_Nodes h) of
                Some bad \<Rightarrow> Inl (EmptyDuplicateOrForeign id bad)
              | None \<Rightarrow> Inr (acceptHeartbeat now revision h s))"

definition markStaleAgents :: "duration \<Rightarrow> go_time \<Rightarrow> fleet \<Rightarrow> fleet" where
  "markStaleAgents maxAge now s =
     (let expired = (\<lambda>a. maxAge < time_Sub now (ag_LastSeen a) \<and> ag_State a \<noteq> AgentOffline);
          s1 = s\<lparr>st_agents := map_vals (\<lambda>_ a. if expired a then a\<lparr>ag_State := AgentOffline\<rparr> else a)
                               (st_agents s)\<rparr>
      in if list_ex (expired \<circ> snd) (st_agents s) then notify s1 else s)"

section \<open>Placement and reservations (runner.go)\<close>

definition utilization :: "agent \<Rightarrow> int \<Rightarrow> float64" where
  "utilization a additional =
     (let occupied = float_add (float_of_int (ag_ActiveNodes a)) (float_of_int additional)
      in if ag_Capacity a \<le> 0 then occupied else float_div occupied (float_of_int (ag_Capacity a)))"

definition balancedAgentBefore :: "agent \<Rightarrow> agent \<Rightarrow> bool" where
  "balancedAgentBefore a b =
     (let left = utilization a 1; right = utilization b 1
      in if \<not> float_eq left right then float_less left right
         else let left0 = utilization a 0; right0 = utilization b 0
              in if \<not> float_eq left0 right0 then float_less left0 right0 else ag_ID a < ag_ID b)"

definition hasRoom :: "agent \<Rightarrow> bool" where
  "hasRoom a \<longleftrightarrow> \<not> (0 < ag_Capacity a \<and> ag_Capacity a \<le> ag_ActiveNodes a)"

definition placementCandidate :: "go_time \<Rightarrow> gostring \<Rightarrow> agent \<Rightarrow> bool" where
  "placementCandidate now target a \<longleftrightarrow>
     (target = [] \<or> ag_ID a = target) \<and> agentIsOnline a now \<and> hasRoom a"

text \<open>The single pass of balanced placement: keep the best candidate seen so far.\<close>

fun pickBalanced :: "agent option \<Rightarrow> agent list \<Rightarrow> agent option" where
  "pickBalanced sel [] = sel"
| "pickBalanced sel (a # as) =
     pickBalanced (case sel of None \<Rightarrow> Some a
                   | Some b \<Rightarrow> if balancedAgentBefore a b then Some a else Some b) as"

text \<open>\<open>rng\<close> is the seeded source when placement is random: \<open>rng n\<close> is \<open>Intn(n)\<close>.\<close>

definition tryReserveAgentWithPlacement ::
    "go_time \<Rightarrow> gostring \<Rightarrow> gostring \<Rightarrow> (nat \<Rightarrow> nat) option \<Rightarrow> fleet \<Rightarrow> agent option \<times> fleet" where
  "tryReserveAgentWithPlacement now nodeID target rng s =
     (case map_of (st_reservations s) nodeID of
        Some agentID \<Rightarrow>
          (case map_of (st_agents s) agentID of
             Some a \<Rightarrow> (if agentIsOnline a now \<and> (target = [] \<or> agentID = target) then Some a else None)
           | None \<Rightarrow> None, s)
      | None \<Rightarrow>
          let candidates = filter (placementCandidate now target) (map snd (st_agents s));
              selected =
                (case rng of
                   None \<Rightarrow> pickBalanced None candidates
                 | Some intn \<Rightarrow>
                     (if candidates = [] then None
                      else Some (sort_Slice (\<lambda>a b. ag_ID a < ag_ID b) candidates
                                 ! intn (length candidates))))
          in case selected of
               None \<Rightarrow> (None, s)
             | Some a0 \<Rightarrow>
                 let a = a0\<lparr>ag_ActiveNodes := ag_ActiveNodes a0 + 1\<rparr>
                 in (Some a, s\<lparr>st_agents := AList.update (ag_ID a) a (st_agents s),
                               st_reservations := AList.update nodeID (ag_ID a) (st_reservations s)\<rparr>))"

text \<open>What \<open>rand.Intn\<close> promises of the source.\<close>

definition rng_ok :: "(nat \<Rightarrow> nat) option \<Rightarrow> bool" where
  "rng_ok rng \<longleftrightarrow> (case rng of None \<Rightarrow> True | Some intn \<Rightarrow> \<forall>n > 0. intn n < n)"

text \<open>One poll of \<open>selectBatchAgent\<close>: None when no Agent has room yet.\<close>

definition selectBatchAgent :: "go_time \<Rightarrow> (nat \<Rightarrow> nat) \<Rightarrow> fleet \<Rightarrow> gostring option" where
  "selectBatchAgent now intn s =
     (let candidates = map ag_ID (filter (\<lambda>a. agentIsOnline a now
            \<and> (ag_Capacity a \<le> 0 \<or> ag_ActiveNodes a < ag_Capacity a)) (map snd (st_agents s)))
      in if candidates = [] then None
         else Some (sort_Strings candidates ! intn (length candidates)))"

definition releaseReservation :: "gostring \<Rightarrow> fleet \<Rightarrow> fleet" where
  "releaseReservation nodeID s =
     (let reserved = mhas (st_reservations s) nodeID;
          agentID = mget [] (st_reservations s) nodeID;
          s1 = (if reserved then s\<lparr>st_reservations := AList.delete nodeID (st_reservations s)\<rparr> else s);
          s2 = (case map_of (st_agents s1) agentID of
                  Some a \<Rightarrow> if 0 < ag_ActiveNodes a
                     then s1\<lparr>st_agents := AList.update agentID
                               (a\<lparr>ag_ActiveNodes := ag_ActiveNodes a - 1\<rparr>) (st_agents s1)\<rparr>
                     else s1
                | None \<Rightarrow> s1)
      in if reserved then notify s2 else s2)"

definition markNodeStoppingAndReleaseCapacity :: "go_time \<Rightarrow> gostring \<Rightarrow> fleet \<Rightarrow> fleet" where
  "markNodeStoppingAndReleaseCapacity now nodeID s =
     (let stopped = (case map_of (st_nodes s) nodeID of Some n \<Rightarrow> node_active n | None \<Rightarrow> False);
          s1 = (case map_of (st_nodes s) nodeID of
                  Some n \<Rightarrow> if node_active n
                     then setNodeLocked (n\<lparr>nd_State := NodeStopping, nd_LastSeen := now\<rparr>) s else s
                | None \<Rightarrow> s);
          reserved = mhas (st_reservations s1) nodeID;
          s2 = (if reserved then s1\<lparr>st_reservations := AList.delete nodeID (st_reservations s1)\<rparr> else s1)
      in if mhas (st_nodes s) nodeID \<or> stopped \<or> reserved then notify s2 else s2)"

text \<open>
  The locked part of \<open>recordCreatedNode\<close>: a create response counts only while the Agent instance it
  was sent to is registered, and never undoes a life cycle that moved on.
\<close>

definition storeCreatedNode :: "gostring \<Rightarrow> go_time option \<Rightarrow> node \<Rightarrow> fleet \<Rightarrow> bool \<times> fleet" where
  "storeCreatedNode agentID expected n s =
     (if (case expected of None \<Rightarrow> False
          | Some t \<Rightarrow> (case map_of (st_agents s) agentID of
                         None \<Rightarrow> True | Some a \<Rightarrow> ag_StartedAt a \<noteq> t))
      then (False, s)
      else (True, notify
        (if (case map_of (st_nodes s) (nd_ID n) of
               None \<Rightarrow> True | Some c \<Rightarrow> node_active c \<and> nd_LastSeen c < nd_LastSeen n)
         then setNodeLocked n s else s)))"

section \<open>Queries of the runner\<close>

definition readyCount ::
    "go_time \<Rightarrow> gostring \<Rightarrow> nat \<Rightarrow> gostring \<Rightarrow> gostring \<Rightarrow> fleet \<Rightarrow> nat \<times> nat \<times> nat" where
  "readyCount now runID generation grp nodeType s =
     (let sel = filter (\<lambda>n. nd_RunID n = runID \<and> nd_Generation n = generation
                  \<and> (grp = [] \<or> nd_Group n = grp) \<and> (nodeType = [] \<or> nd_Type n = nodeType))
                (map snd (st_nodes s));
          ready = filter (\<lambda>n. nd_State n = NodeReady
                     \<and> (case map_of (st_agents s) (nd_AgentID n) of
                          Some a \<Rightarrow> agentIsOnline a now | None \<Rightarrow> False)) sel
      in (length ready, length sel, length (filter (\<lambda>n. nd_State n = NodeFailed) sel)))"

definition matchingNodes :: "gostring \<Rightarrow> gostring \<Rightarrow> gostring \<Rightarrow> gostring \<Rightarrow> fleet \<Rightarrow> node list" where
  "matchingNodes runID grp state nodeType s =
     sort_Slice (\<lambda>a b. nd_ID a < nd_ID b)
       (filter (\<lambda>n. nd_RunID n = runID \<and> (grp = [] \<or> nd_Group n = grp)
            \<and> (nodeType = [] \<or> nd_Type n = nodeType) \<and> (state = [] \<or> nd_State n = state)
            \<and> node_active n)
          (map snd (st_nodes s)))"

end
