(* ===== verification/FleetInvariant.thy ===== *)
theory FleetInvariant
  imports FleetState
begin

text \<open>
  What every handler of the fleet state keeps: the tables are keyed by the identity of their
  entries and the index of live nodes agrees with the node table (\<open>fleet_wf\<close>); and no handler ever
  moves a node backwards in its life cycle (\<open>nodes_progress\<close>).
\<close>

section \<open>Frames\<close>

lemma notify_frame [simp]:
  "st_nodes (notify s) = st_nodes s" "st_agents (notify s) = st_agents s"
  "st_reservations (notify s) = st_reservations s" "st_activeNodeIDs (notify s) = st_activeNodeIDs s"
  "st_agentSnapshots (notify s) = st_agentSnapshots s"
  "st_agentCapacityOverrides (notify s) = st_agentCapacityOverrides s"
  "st_agentReportedCapacities (notify s) = st_agentReportedCapacities s"
  "st_agentCapacityRevisions (notify s) = st_agentCapacityRevisions s"
  by (simp_all add: notify_def)

lemma setNodeLocked_frame [simp]:
  "st_nodes (setNodeLocked n s) = AList.update (nd_ID n) n (st_nodes s)"
  "st_agents (setNodeLocked n s) = st_agents s"
  "st_reservations (setNodeLocked n s) = st_reservations s"
  "st_agentSnapshots (setNodeLocked n s) = st_agentSnapshots s"
  "st_agentCapacityOverrides (setNodeLocked n s) = st_agentCapacityOverrides s"
  "st_agentReportedCapacities (setNodeLocked n s) = st_agentReportedCapacities s"
  "st_agentCapacityRevisions (setNodeLocked n s) = st_agentCapacityRevisions s"
  by (simp_all add: setNodeLocked_def Let_def)

lemma observe_frame [simp]:
  "st_nodes (fst (observeAgentCapacityLocked r a s)) = st_nodes s"
  "st_agents (fst (observeAgentCapacityLocked r a s)) = st_agents s"
  "st_reservations (fst (observeAgentCapacityLocked r a s)) = st_reservations s"
  "st_activeNodeIDs (fst (observeAgentCapacityLocked r a s)) = st_activeNodeIDs s"
  "st_agentSnapshots (fst (observeAgentCapacityLocked r a s)) = st_agentSnapshots s"
  "ag_ID (snd (observeAgentCapacityLocked r a s)) = ag_ID a"
  "ag_ActiveNodes (snd (observeAgentCapacityLocked r a s)) = ag_ActiveNodes a"
  by (simp_all add: observeAgentCapacityLocked_def applyAgentCapacityLocked_def Let_def)

lemma apply_capacity_frame [simp]:
  "ag_ID (applyAgentCapacityLocked s a) = ag_ID a"
  "ag_ActiveNodes (applyAgentCapacityLocked s a) = ag_ActiveNodes a"
  "ag_StartedAt (applyAgentCapacityLocked s a) = ag_StartedAt a"
  by (simp_all add: applyAgentCapacityLocked_def Let_def)

section \<open>Well-formed states\<close>

definition nodes_ok :: "(gostring, node) gomap \<Rightarrow> gostring set option \<Rightarrow> bool" where
  "nodes_ok ns active \<longleftrightarrow>
     wf_map ns \<and> (\<forall>k n. map_of ns k = Some n \<longrightarrow> nd_ID n = k)
     \<and> (\<forall>a. active = Some a \<longrightarrow> a = {k. \<exists>n. map_of ns k = Some n \<and> nodeHasLiveState n})"

definition agents_ok :: "(gostring, agent) gomap \<Rightarrow> bool" where
  "agents_ok ags \<longleftrightarrow> wf_map ags \<and> (\<forall>k a. map_of ags k = Some a \<longrightarrow> ag_ID a = k)"

definition fleet_wf :: "fleet \<Rightarrow> bool" where
  "fleet_wf s \<longleftrightarrow> nodes_ok (st_nodes s) (st_activeNodeIDs s) \<and> agents_ok (st_agents s)
     \<and> wf_map (st_reservations s)"

lemma live_ids_eq:
  "wf_map ns \<Longrightarrow> live_ids ns = {k. \<exists>n. map_of ns k = Some n \<and> nodeHasLiveState n}"
  by (force simp: live_ids_def map_of_eq_Some_iff)

lemma nodes_ok_setNodeLocked [intro]:
  assumes "nodes_ok (st_nodes s) (st_activeNodeIDs s)"
  shows "nodes_ok (AList.update (nd_ID n) n (st_nodes s)) (st_activeNodeIDs (setNodeLocked n s))"
proof -
  let ?live = "{k. \<exists>m. map_of (st_nodes s) k = Some m \<and> nodeHasLiveState m}"
  have a: "(case st_activeNodeIDs s of None \<Rightarrow> live_ids (st_nodes s) | Some a \<Rightarrow> a) = ?live"
    using assms by (cases "st_activeNodeIDs s") (simp_all add: nodes_ok_def live_ids_eq)
  have "st_activeNodeIDs (setNodeLocked n s) =
      Some (if nodeHasLiveState n then insert (nd_ID n) ?live else ?live - {nd_ID n})"
    using a by (simp add: setNodeLocked_def Let_def)
  then show ?thesis using assms by (auto simp: nodes_ok_def)
qed

lemma agents_ok_update [intro]:
  "agents_ok ags \<Longrightarrow> agents_ok (AList.update (ag_ID a) a ags)"
  by (auto simp: agents_ok_def)

lemma agents_ok_put:
  "agents_ok ags \<Longrightarrow> ag_ID a = k \<Longrightarrow> agents_ok (AList.update k a ags)"
  using agents_ok_update by blast

lemma agents_ok_map_vals:
  assumes "agents_ok ags" and "\<And>k a. ag_ID (f k a) = ag_ID a"
  shows "agents_ok (map_vals f ags)"
  using assms(1) unfolding agents_ok_def by (auto simp: assms(2))

lemma agents_ok_ID: "agents_ok ags \<Longrightarrow> map_of ags k = Some a \<Longrightarrow> ag_ID a = k"
  by (simp add: agents_ok_def)

lemma fleet_wf_setNodeLocked [intro]: "fleet_wf s \<Longrightarrow> fleet_wf (setNodeLocked n s)"
  by (auto simp: fleet_wf_def)

lemma fleet_wf_notify [simp]: "fleet_wf (notify s) = fleet_wf s"
  by (simp add: fleet_wf_def)

lemma fleet_wf_put [intro]:
  "fleet_wf s \<Longrightarrow> fleet_wf (s\<lparr>st_agents := AList.update (ag_ID a) a (st_agents s)\<rparr>)"
  by (auto simp: fleet_wf_def)

lemma fleet_wf_release [intro]:
  "fleet_wf s \<Longrightarrow> fleet_wf (s\<lparr>st_reservations := AList.delete k (st_reservations s)\<rparr>)"
  by (auto simp: fleet_wf_def)

lemma fleet_wf_release_if:
  "fleet_wf s \<Longrightarrow>
   fleet_wf (if c then s\<lparr>st_reservations := AList.delete k (st_reservations s)\<rparr> else s)"
  by (simp add: fleet_wf_release)

lemma fleet_wf_observe [intro]: "fleet_wf s \<Longrightarrow> fleet_wf (fst (observeAgentCapacityLocked r a s))"
  by (simp add: fleet_wf_def)

lemma fleet_wf_node_ID: "fleet_wf s \<Longrightarrow> map_of (st_nodes s) k = Some n \<Longrightarrow> nd_ID n = k"
  by (simp add: fleet_wf_def nodes_ok_def)

lemma fleet_wf_agent_ID: "fleet_wf s \<Longrightarrow> map_of (st_agents s) k = Some a \<Longrightarrow> ag_ID a = k"
  by (simp add: fleet_wf_def agents_ok_def)

lemma fleet_wf_nodes: "fleet_wf s \<Longrightarrow> wf_map (st_nodes s)"
  by (simp add: fleet_wf_def nodes_ok_def)

section \<open>Loops over the node table\<close>

text \<open>
  A loop over the entries of a table, each step of which writes at most the entry it visits, acts
  on every entry independently. \<open>R\<close> is what the steps may rely on and keep.
\<close>

lemma fold_entries:
  assumes step: "\<And>k n s. (k, n) \<in> set xs \<Longrightarrow> R s \<Longrightarrow> R (f (k, n) s) \<and>
       map_of (st_nodes (f (k, n) s)) =
         (case u k n of None \<Rightarrow> map_of (st_nodes s) | Some n' \<Rightarrow> (map_of (st_nodes s))(k \<mapsto> n'))"
    and "wf_map xs" and "R s"
  shows "R (fold f xs s) \<and> map_of (st_nodes (fold f xs s)) k =
     (case map_of xs k of None \<Rightarrow> map_of (st_nodes s) k
      | Some n \<Rightarrow> (case u k n of None \<Rightarrow> map_of (st_nodes s) k | Some n' \<Rightarrow> Some n'))"
  using assms
proof (induction xs arbitrary: s)
  case Nil
  then show ?case by simp
next
  case (Cons kn xs)
  obtain k0 n0 where kn: "kn = (k0, n0)" by (cases kn)
  let ?s = "f (k0, n0) s"
  have s: "R ?s" "map_of (st_nodes ?s) = (case u k0 n0 of None \<Rightarrow> map_of (st_nodes s)
      | Some n' \<Rightarrow> (map_of (st_nodes s))(k0 \<mapsto> n'))"
    using Cons.prems(1) [of k0 n0 s] Cons.prems(3) kn by auto
  have ih: "R (fold f xs ?s) \<and> map_of (st_nodes (fold f xs ?s)) k =
     (case map_of xs k of None \<Rightarrow> map_of (st_nodes ?s) k
      | Some n \<Rightarrow> (case u k n of None \<Rightarrow> map_of (st_nodes ?s) k | Some n' \<Rightarrow> Some n'))"
    using Cons.prems kn by (intro Cons.IH s(1)) auto
  have "map_of xs k0 = None" using Cons.prems(2) kn by (simp add: map_of_eq_None_iff)
  then show ?case using ih s(2) kn by (auto split: option.splits)
qed

lemma fold_keeps:
  "(\<And>x s. x \<in> set xs \<Longrightarrow> P s \<Longrightarrow> P (f x s)) \<Longrightarrow> P s \<Longrightarrow> P (fold f xs s)"
  by (induction xs arbitrary: s) auto

section \<open>Restarted Agents\<close>

definition failedByRestart :: "gostring \<Rightarrow> go_time \<Rightarrow> node \<Rightarrow> node option" where
  "failedByRestart a now n =
     (if nd_AgentID n = a \<and> nd_State n \<noteq> NodeStopped \<and> nd_State n \<noteq> NodeFailed
      then Some (n\<lparr>nd_State := NodeFailed, nd_Error := ''Agent instance restarted'',
                   nd_LastSeen := now\<rparr>) else None)"

lemma forgetRestartedAgent_nodes:
  assumes "fleet_wf s"
  shows "map_of (st_nodes (forgetRestartedAgent a now s)) k =
     (case map_of (st_nodes s) k of None \<Rightarrow> None
      | Some n \<Rightarrow> (case failedByRestart a now n of None \<Rightarrow> Some n | Some n' \<Rightarrow> Some n'))"
proof -
  let ?s1 = "s\<lparr>st_reservations := filter (\<lambda>(_, a'). a' \<noteq> a) (st_reservations s)\<rparr>"
  note wf = fleet_wf_nodes [OF assms]
  note key = fleet_wf_node_ID [OF assms map_of_SomeI_wf [OF wf]]
  have "map_of (st_nodes (fold (failRestartedNode a now) (st_nodes s) ?s1)) k =
     (case map_of (st_nodes s) k of None \<Rightarrow> map_of (st_nodes ?s1) k
      | Some n \<Rightarrow> (case failedByRestart a now n of None \<Rightarrow> map_of (st_nodes ?s1) k | Some n' \<Rightarrow> Some n'))"
  proof (rule fold_entries [where R = "\<lambda>_. True" and u = "\<lambda>_. failedByRestart a now", THEN conjunct2])
    fix k n t assume "(k, n) \<in> set (st_nodes s)"
    then have "nd_ID n = k" by (rule key)
    then show "True \<and> map_of (st_nodes (failRestartedNode a now (k, n) t)) =
       (case failedByRestart a now n of None \<Rightarrow> map_of (st_nodes t) | Some n' \<Rightarrow> (map_of (st_nodes t))(k \<mapsto> n'))"
      by (simp add: failRestartedNode_def failedByRestart_def)
  qed (simp_all add: wf)
  then show ?thesis
    by (simp add: forgetRestartedAgent_def Let_def split: option.splits)
qed

lemma forgetRestartedAgent_wf:
  assumes "fleet_wf s" shows "fleet_wf (forgetRestartedAgent a now s)"
proof -
  let ?s1 = "s\<lparr>st_reservations := filter (\<lambda>(_, a'). a' \<noteq> a) (st_reservations s)\<rparr>"
  have "fleet_wf ?s1"
    using assms by (simp add: fleet_wf_def)
  then have "fleet_wf (fold (failRestartedNode a now) (st_nodes s) ?s1)"
    by (rule fold_keeps [rotated]) (auto simp: failRestartedNode_def Let_def)
  then show ?thesis
    by (simp add: forgetRestartedAgent_def Let_def fleet_wf_def)
qed

lemma forgetRestartedAgent_agents [simp]:
  "st_agents (forgetRestartedAgent a now s) = st_agents s"
proof -
  have "st_agents (fold (failRestartedNode a now) xs t) = st_agents t" for xs t
    by (rule fold_keeps [where P = "\<lambda>u. st_agents u = st_agents t"])
       (simp_all add: failRestartedNode_def Let_def)
  then show ?thesis by (simp add: forgetRestartedAgent_def Let_def)
qed

section \<open>Applying a report\<close>

lemma mergeReportedNode_ID:
  "(\<And>o'. old = Some o' \<Longrightarrow> nd_ID o' = nd_ID n) \<Longrightarrow> nd_ID (mergeReportedNode old n) = nd_ID n"
  by (cases old) (simp_all add: mergeReportedNode_def)

lemma completeReportedNode_frame [simp]:
  "nd_ID (completeReportedNode now a old n) = nd_ID n"
  "nd_State (completeReportedNode now a old n) = nd_State n"
  "nd_AgentID (completeReportedNode now a old n) = a"
  by (simp_all add: completeReportedNode_def Let_def)

text \<open>The entry a reported node leaves in the table.\<close>

definition reportedEntry :: "go_time \<Rightarrow> gostring \<Rightarrow> node option \<Rightarrow> node \<Rightarrow> node" where
  "reportedEntry now a old n = mergeReportedNode old (completeReportedNode now a old n)"

lemma reportedEntry_ID:
  "(\<And>o'. old = Some o' \<Longrightarrow> nd_ID o' = nd_ID n) \<Longrightarrow> nd_ID (reportedEntry now a old n) = nd_ID n"
  by (cases old) (simp_all add: reportedEntry_def mergeReportedNode_def)

lemma applyReportedNode_state:
  "fst (applyReportedNode now t a n (s, r, ob)) =
     (let e = reportedEntry now a (map_of (st_nodes s) (nd_ID n)) n;
          s2 = setNodeLocked e (s\<lparr>st_nodeReportTimes := AList.update (nd_ID n)
                 (topologyReportTime now t (nd_LastSeen n)) (st_nodeReportTimes s)\<rparr>)
      in if mget [] (st_reservations s) (nd_ID e) = a
         then s2\<lparr>st_reservations := AList.delete (nd_ID e) (st_reservations s2)\<rparr> else s2)"
  by (simp add: applyReportedNode_def reportedEntry_def Let_def)

lemma applyReportedNode_nodes:
  "st_nodes (fst (applyReportedNode now t a n (s, r, ob))) =
     (let e = reportedEntry now a (map_of (st_nodes s) (nd_ID n)) n
      in AList.update (nd_ID e) e (st_nodes s))"
  by (simp add: applyReportedNode_state Let_def)

lemma applyReportedNode_agents [simp]:
  "st_agents (fst (applyReportedNode now t a n x)) = st_agents (fst x)"
  by (cases x) (simp add: applyReportedNode_state Let_def)

lemma fleet_wf_reportTimes [simp]: "fleet_wf (s\<lparr>st_nodeReportTimes := m\<rparr>) = fleet_wf s"
  by (simp add: fleet_wf_def)

lemma applyReportedNode_wf:
  assumes "fleet_wf (fst x)" shows "fleet_wf (fst (applyReportedNode now t a n x))"
proof -
  obtain s r ob where x: "x = (s, r, ob)" by (cases x)
  have "fleet_wf (setNodeLocked e (s\<lparr>st_nodeReportTimes := m\<rparr>))" for e m
    using assms x by (simp add: fleet_wf_setNodeLocked)
  then show ?thesis
    unfolding x applyReportedNode_state Let_def by (rule fleet_wf_release_if)
qed

lemma recordSnapshot_frame [simp]:
  "st_nodes (recordSnapshot h s) = st_nodes s" "st_agents (recordSnapshot h s) = st_agents s"
  "st_reservations (recordSnapshot h s) = st_reservations s"
  "st_activeNodeIDs (recordSnapshot h s) = st_activeNodeIDs s"
  by (simp_all add: recordSnapshot_def)

lemma fleet_wf_recordSnapshot [simp]: "fleet_wf (recordSnapshot h s) = fleet_wf s"
  by (simp add: fleet_wf_def)

lemma applyReport_wf: "fleet_wf s \<Longrightarrow> fleet_wf (fst (applyReport now h s))"
  unfolding applyReport_def
  by (rule fold_keeps [where P = "\<lambda>x. fleet_wf (fst x)"]) (simp_all add: applyReportedNode_wf)

lemma applyReport_agents [simp]: "st_agents (fst (applyReport now h s)) = st_agents s"
  unfolding applyReport_def
  by (rule fold_keeps [where P = "\<lambda>x. st_agents (fst x) = st_agents s"]) simp_all

lemma stopOmitted_wf: "fleet_wf s \<Longrightarrow> fleet_wf (stopOmitted now h s)"
proof -
  assume "fleet_wf s"
  then have "fleet_wf (fold (stopOmittedNode a now seen) xs s)" for a seen xs
  proof (rule fold_keeps [rotated])
    fix x t assume "fleet_wf t"
    then show "fleet_wf (stopOmittedNode a now seen x t)"
      by (cases x) (simp add: stopOmittedNode_def fleet_wf_setNodeLocked)
  qed
  with \<open>fleet_wf s\<close> show ?thesis by (simp add: stopOmitted_def)
qed

text \<open>
  A report with pairwise distinct node identities acts on each listed node independently, and on
  no other.
\<close>

lemma applyReport_fold_nodes:
  assumes "fleet_wf (fst x)" and "distinct (map nd_ID ns)"
  shows "map_of (st_nodes (fst (fold (applyReportedNode now t a) ns x))) k =
     (case find (\<lambda>n. nd_ID n = k) ns of None \<Rightarrow> map_of (st_nodes (fst x)) k
      | Some n \<Rightarrow> Some (reportedEntry now a (map_of (st_nodes (fst x)) k) n))"
  using assms
proof (induction ns arbitrary: x)
  case Nil
  then show ?case by simp
next
  case (Cons n ns)
  obtain s r ob where x: "x = (s, r, ob)" by (cases x)
  let ?x = "applyReportedNode now t a n x"
  have "nd_ID (reportedEntry now a (map_of (st_nodes s) (nd_ID n)) n) = nd_ID n"
    using Cons.prems(1) x by (intro reportedEntry_ID) (auto dest: fleet_wf_node_ID)
  then have step: "map_of (st_nodes (fst ?x)) =
      (map_of (st_nodes s))(nd_ID n \<mapsto> reportedEntry now a (map_of (st_nodes s) (nd_ID n)) n)"
    by (simp add: x applyReportedNode_nodes Let_def)
  have ih: "map_of (st_nodes (fst (fold (applyReportedNode now t a) ns ?x))) k =
     (case find (\<lambda>n. nd_ID n = k) ns of None \<Rightarrow> map_of (st_nodes (fst ?x)) k
      | Some n \<Rightarrow> Some (reportedEntry now a (map_of (st_nodes (fst ?x)) k) n))"
    using Cons.prems by (intro Cons.IH applyReportedNode_wf) auto
  show ?case
  proof (cases "nd_ID n = k")
    case True
    then have "find (\<lambda>m. nd_ID m = k) ns = None"
      using Cons.prems(2) by (simp add: find_None_iff) (metis image_eqI)
    with True ih step x show ?thesis by simp
  next
    case False
    then show ?thesis using ih step x by (simp split: option.split)
  qed
qed

text \<open>What a full report does to a node it does not list.\<close>

definition omittedEntry :: "gostring \<Rightarrow> go_time \<Rightarrow> gostring set \<Rightarrow> (gostring, gostring) gomap
    \<Rightarrow> gostring \<Rightarrow> node \<Rightarrow> node option" where
  "omittedEntry a now seen res k n =
     (if nd_AgentID n = a \<and> k \<notin> seen \<and> nd_State n \<noteq> NodeStopped \<and> mget [] res k \<noteq> a
      then Some (n\<lparr>nd_State := NodeStopped, nd_LastSeen := now\<rparr>) else None)"

lemma stopOmitted_nodes:
  assumes "fleet_wf s"
  shows "map_of (st_nodes (stopOmitted now h s)) k =
     (if hb_Partial h then map_of (st_nodes s) k
      else case map_of (st_nodes s) k of None \<Rightarrow> None
      | Some n \<Rightarrow> (case omittedEntry (ag_ID (hb_Agent h)) now (set (map nd_ID (hb_Nodes h)))
                         (st_reservations s) k n of
                     None \<Rightarrow> Some n | Some n' \<Rightarrow> Some n'))"
proof (cases "hb_Partial h")
  case True
  then show ?thesis by (simp add: stopOmitted_def)
next
  case False
  let ?seen = "set (map nd_ID (hb_Nodes h))" and ?a = "ag_ID (hb_Agent h)"
  let ?f = "stopOmittedNode ?a now ?seen"
  note wf = fleet_wf_nodes [OF assms]
  note key = fleet_wf_node_ID [OF assms map_of_SomeI_wf [OF wf]]
  have "map_of (st_nodes (fold ?f (st_nodes s) s)) k =
     (case map_of (st_nodes s) k of None \<Rightarrow> map_of (st_nodes s) k
      | Some n \<Rightarrow> (case omittedEntry ?a now ?seen (st_reservations s) k n of
                     None \<Rightarrow> map_of (st_nodes s) k | Some n' \<Rightarrow> Some n'))"
  proof (rule fold_entries [where R = "\<lambda>t. st_reservations t = st_reservations s"
        and u = "\<lambda>k n. omittedEntry ?a now ?seen (st_reservations s) k n", THEN conjunct2])
    fix k n and t :: fleet
    assume "(k, n) \<in> set (st_nodes s)" and r: "st_reservations t = st_reservations s"
    then have "nd_ID n = k" by (blast intro: key)
    with r show "st_reservations (?f (k, n) t) = st_reservations s \<and> map_of (st_nodes (?f (k, n) t)) =
       (case omittedEntry ?a now ?seen (st_reservations s) k n of None \<Rightarrow> map_of (st_nodes t)
        | Some n' \<Rightarrow> (map_of (st_nodes t))(k \<mapsto> n'))"
      by (simp add: stopOmittedNode_def omittedEntry_def)
  qed (simp_all add: wf)
  with False show ?thesis by (simp add: stopOmitted_def split: option.splits)
qed

lemma stopOmitted_frame [simp]:
  "st_agents (stopOmitted now h s) = st_agents s"
  "st_reservations (stopOmitted now h s) = st_reservations s"
proof -
  have "st_agents (fold (stopOmittedNode a now seen) xs s) = st_agents s" for a seen xs
    by (rule fold_keeps [where P = "\<lambda>u. st_agents u = st_agents s"])
       (auto simp: stopOmittedNode_def)
  moreover have "st_reservations (fold (stopOmittedNode a now seen) xs s) = st_reservations s" for a seen xs
    by (rule fold_keeps [where P = "\<lambda>u. st_reservations u = st_reservations s"])
       (auto simp: stopOmittedNode_def)
  ultimately show "st_agents (stopOmitted now h s) = st_agents s"
    "st_reservations (stopOmitted now h s) = st_reservations s"
    by (simp_all add: stopOmitted_def)
qed

section \<open>The accepted heartbeat as a whole\<close>

text \<open>The Agent record and the state it is written into, before the write.\<close>

definition heartbeatResult :: "go_time \<Rightarrow> gostring \<Rightarrow> agent_heartbeat \<Rightarrow> fleet \<Rightarrow> fleet \<times> agent" where
  "heartbeatResult now revision h s =
     (let agentID = ag_ID (hb_Agent h);
          previous = mget zero_agent (st_agents s) agentID;
          a1 = completeReportedAgent s previous now (hb_Agent h);
          (s2, released, observed) = applyReport now h s;
          observedActive = (if hb_Partial h then partialActive s2 agentID else observed);
          a2 = a1\<lparr>ag_ActiveNodes := max (max 0 (ag_ActiveNodes a1)) observedActive + reservedBy s2 agentID\<rparr>;
          s3 = stopOmitted now h s2
      in if heartbeatStale s h
         then (s3, previous\<lparr>ag_ActiveNodes := max 0 (ag_ActiveNodes previous - released)\<rparr>)
         else observeAgentCapacityLocked revision a2 s3)"

lemma acceptHeartbeat_result:
  "acceptHeartbeat now r h s =
     (let x = heartbeatResult now r h s
      in notify ((fst x)\<lparr>st_agents := AList.update (ag_ID (snd x)) (snd x) (st_agents (fst x))\<rparr>))"
  by (simp add: acceptHeartbeat_def heartbeatResult_def Let_def split_beta)

lemma heartbeatResult_frame [simp]:
  "st_nodes (fst (heartbeatResult now r h s)) = st_nodes (stopOmitted now h (fst (applyReport now h s)))"
  "st_activeNodeIDs (fst (heartbeatResult now r h s)) =
     st_activeNodeIDs (stopOmitted now h (fst (applyReport now h s)))"
  "st_reservations (fst (heartbeatResult now r h s)) = st_reservations (fst (applyReport now h s))"
  "st_agents (fst (heartbeatResult now r h s)) = st_agents s"
  by (simp_all add: heartbeatResult_def Let_def split_beta)

lemma acceptHeartbeat_nodes:
  "st_nodes (acceptHeartbeat now r h s) = st_nodes (stopOmitted now h (fst (applyReport now h s)))"
  by (simp add: acceptHeartbeat_result Let_def)

lemma acceptHeartbeat_wf:
  assumes "fleet_wf s" shows "fleet_wf (acceptHeartbeat now r h s)"
proof -
  have "fleet_wf (stopOmitted now h (fst (applyReport now h s)))"
    using assms by (intro stopOmitted_wf applyReport_wf)
  then have "fleet_wf (fst (heartbeatResult now r h s))"
    by (simp add: fleet_wf_def)
  then show ?thesis
    by (simp only: acceptHeartbeat_result Let_def fleet_wf_notify) (rule fleet_wf_put)
qed

end
