(* ===== verification/FleetLifecycle.thy ===== *)
theory FleetLifecycle
  imports FleetInvariant
begin

text \<open>
  The fleet state as a transition system: one rule per handler, in any order and interleaving, with
  any clock and any report. Well-formedness is an invariant, and no step moves a node backwards in
  its life cycle.
\<close>

section \<open>Every handler keeps the state well formed\<close>

lemma registrationBase_wf: "fleet_wf s \<Longrightarrow> fleet_wf (registrationBase now a s)"
  by (simp add: registrationBase_def forgetRestartedAgent_wf)

lemma recordReported_frame [simp]:
  "st_nodes (recordReported k t s) = st_nodes s" "st_agents (recordReported k t s) = st_agents s"
  "st_reservations (recordReported k t s) = st_reservations s"
  "st_activeNodeIDs (recordReported k t s) = st_activeNodeIDs s"
  by (simp_all add: recordReported_def)

lemma fleet_wf_recordReported [simp]: "fleet_wf (recordReported k t s) = fleet_wf s"
  by (simp add: fleet_wf_def)

lemma registerAgent_result:
  assumes "registerAgent now r a s = Inr (a', s')"
  shows "(let a1 = resumedAgent s a;
              x = observeAgentCapacityLocked r (completeRegistration now s a1)
                    (recordReported (ag_ID a1) (ag_LastSeen a) (registrationBase now a1 s))
          in a' = snd x \<and> s' = notify ((fst x)\<lparr>st_agents :=
                  AList.update (ag_ID (snd x)) (snd x) (st_agents (fst x))\<rparr>))"
  using assms by (auto simp: registerAgent_def Let_def split: if_split_asm)

lemma registerAgent_wf:
  assumes "fleet_wf s" and "registerAgent now r a s = Inr (a', s')"
  shows "fleet_wf s'"
proof -
  have "fleet_wf (fst (observeAgentCapacityLocked r b (recordReported k t (registrationBase now c s))))"
    for b k t c using assms(1) by (intro fleet_wf_observe) (simp add: registrationBase_wf)
  then have "fleet_wf (notify ((fst x)\<lparr>st_agents := AList.update (ag_ID (snd x)) (snd x) (st_agents (fst x))\<rparr>))"
    if "x = observeAgentCapacityLocked r b (recordReported k t (registrationBase now c s))" for x b k t c
    using that by (simp only: fleet_wf_notify fleet_wf_put)
  then show ?thesis
    using registerAgent_result [OF assms(2)] unfolding Let_def by blast
qed

lemma heartbeat_wf:
  "fleet_wf s \<Longrightarrow> heartbeat now r h s = Inr s' \<Longrightarrow> fleet_wf s'"
  by (auto simp: heartbeat_def Let_def acceptHeartbeat_wf split: if_split_asm option.split_asm)

lemma markStaleAgents_wf: "fleet_wf s \<Longrightarrow> fleet_wf (markStaleAgents d now s)"
  by (auto simp: markStaleAgents_def fleet_wf_def Let_def intro!: agents_ok_map_vals)

lemma setAgentCapacity_wf:
  assumes "fleet_wf s" and "setAgentCapacity r ok k c s = Inr (a, s')"
  shows "fleet_wf s'"
proof -
  have "ag_ID (mget zero_agent (st_agents s) k) = k" if "mhas (st_agents s) k"
    using that assms(1) by (auto simp: mget_def mhas_def dest: fleet_wf_agent_ID)
  then show ?thesis using assms
    by (auto simp: setAgentCapacity_def fleet_wf_def Let_def intro!: agents_ok_put split: if_split_asm)
qed

lemma reserve_result:
  "tryReserveAgentWithPlacement now k target rng s = (r, s') \<Longrightarrow>
   s' = s \<or> (\<exists>a. r = Some a \<and> s' = s\<lparr>st_agents := AList.update (ag_ID a) a (st_agents s),
                                  st_reservations := AList.update k (ag_ID a) (st_reservations s)\<rparr>)"
  by (auto simp: tryReserveAgentWithPlacement_def Let_def split: option.split_asm)

lemma tryReserve_wf:
  assumes "fleet_wf s" and "tryReserveAgentWithPlacement now k target rng s = (r, s')"
  shows "fleet_wf s'"
  using assms(1) reserve_result [OF assms(2)] by (auto simp: fleet_wf_def)

lemma releaseReservation_wf:
  assumes "fleet_wf s" shows "fleet_wf (releaseReservation k s)"
  using assms
  by (auto simp: releaseReservation_def fleet_wf_def Let_def split: option.split
      intro!: agents_ok_put dest: agents_ok_ID)

lemma markNodeStopping_wf:
  assumes "fleet_wf s" shows "fleet_wf (markNodeStoppingAndReleaseCapacity now k s)"
proof -
  have "fleet_wf (case map_of (st_nodes s) k of None \<Rightarrow> s
      | Some n \<Rightarrow> if node_active n
         then setNodeLocked (n\<lparr>nd_State := NodeStopping, nd_LastSeen := now\<rparr>) s else s)"
    using assms by (auto split: option.split)
  then show ?thesis
    by (simp add: markNodeStoppingAndReleaseCapacity_def Let_def fleet_wf_release_if)
qed

lemma storeCreatedNode_wf:
  "fleet_wf s \<Longrightarrow> fleet_wf (snd (storeCreatedNode k e n s))"
  by (auto simp: storeCreatedNode_def split: option.split)

section \<open>The life cycle of a node\<close>

text \<open>
  Stopped is final; a failed node can only be cleaned up; a stopping node can only stop or fail.
  Everything else is free: the Agents report it.
\<close>

definition lifecycle :: "gostring \<Rightarrow> gostring \<Rightarrow> bool" where
  "lifecycle p q \<longleftrightarrow>
     (p = NodeStopped \<longrightarrow> q = NodeStopped)
     \<and> (p = NodeFailed \<longrightarrow> q \<in> {NodeFailed, NodeStopping, NodeStopped})
     \<and> (p = NodeStopping \<longrightarrow> q \<in> {NodeStopping, NodeStopped, NodeFailed})"

lemma lifecycle_refl [simp, intro]: "lifecycle p p"
  by (simp add: lifecycle_def)

lemma lifecycle_trans: "lifecycle p q \<Longrightarrow> lifecycle q r \<Longrightarrow> lifecycle p r"
  by (auto simp: lifecycle_def)

lemma lifecycle_Stopped [simp, intro]: "lifecycle p NodeStopped"
  by (simp add: lifecycle_def)

definition nodes_progress :: "fleet \<Rightarrow> fleet \<Rightarrow> bool" where
  "nodes_progress s s' \<longleftrightarrow>
     (\<forall>k n. map_of (st_nodes s) k = Some n \<longrightarrow>
        (\<exists>n'. map_of (st_nodes s') k = Some n' \<and> lifecycle (nd_State n) (nd_State n')))"

lemma nodes_progress_refl [simp, intro]: "nodes_progress s s"
  by (auto simp: nodes_progress_def)

lemma nodes_progress_trans: "nodes_progress s t \<Longrightarrow> nodes_progress t u \<Longrightarrow> nodes_progress s u"
  unfolding nodes_progress_def by (meson lifecycle_trans)

lemma nodes_progress_same: "st_nodes s' = st_nodes s \<Longrightarrow> nodes_progress s s'"
  by (auto simp: nodes_progress_def)

lemma nodes_progress_notify [simp]: "nodes_progress s (notify t) = nodes_progress s t"
  by (simp add: nodes_progress_def)

lemma nodes_progress_set:
  assumes "\<And>n. map_of (st_nodes s) (nd_ID m) = Some n \<Longrightarrow> lifecycle (nd_State n) (nd_State m)"
  shows "nodes_progress s (setNodeLocked m s)"
  using assms by (auto simp: nodes_progress_def)

lemma mergeReportedNode_lifecycle:
  "lifecycle (nd_State p) (nd_State (mergeReportedNode (Some p) n))"
  by (auto simp: mergeReportedNode_def lifecycle_def)

lemma applyReportedNode_progress:
  assumes "fleet_wf (fst x)"
  shows "nodes_progress (fst x) (fst (applyReportedNode now t a n x))"
proof -
  obtain s r ob where x: "x = (s, r, ob)" by (cases x)
  let ?e = "reportedEntry now a (map_of (st_nodes s) (nd_ID n)) n"
  have "nd_ID ?e = nd_ID n"
    using assms x by (intro reportedEntry_ID) (auto dest: fleet_wf_node_ID)
  moreover have "lifecycle (nd_State p) (nd_State ?e)" if "map_of (st_nodes s) (nd_ID n) = Some p" for p
    using that by (simp add: reportedEntry_def mergeReportedNode_lifecycle)
  ultimately show ?thesis
    by (auto simp: x nodes_progress_def applyReportedNode_nodes Let_def)
qed

lemma applyReport_progress:
  assumes "fleet_wf s" shows "nodes_progress s (fst (applyReport now h s))"
proof -
  have "fleet_wf (fst x) \<and> nodes_progress s (fst x)"
    if "x = applyReport now h s" for x
    unfolding that applyReport_def
  proof (rule fold_keeps [where P = "\<lambda>x. fleet_wf (fst x) \<and> nodes_progress s (fst x)"])
    fix n and x :: "fleet \<times> int \<times> int"
    assume "fleet_wf (fst x) \<and> nodes_progress s (fst x)"
    then show "fleet_wf (fst (applyReportedNode now (ag_LastSeen (hb_Agent h)) (ag_ID (hb_Agent h)) n x)) \<and>
       nodes_progress s (fst (applyReportedNode now (ag_LastSeen (hb_Agent h)) (ag_ID (hb_Agent h)) n x))"
      using applyReportedNode_progress applyReportedNode_wf nodes_progress_trans by blast
  qed (use assms in \<open>simp add: nodes_progress_same\<close>)
  then show ?thesis by blast
qed

lemma stopOmitted_progress:
  assumes "fleet_wf s" shows "nodes_progress s (stopOmitted now h s)"
  using stopOmitted_nodes [OF assms]
  by (auto simp: nodes_progress_def omittedEntry_def split: option.split)

lemma acceptHeartbeat_progress:
  assumes "fleet_wf s" shows "nodes_progress s (acceptHeartbeat now r h s)"
proof -
  have "nodes_progress s (stopOmitted now h (fst (applyReport now h s)))"
    using assms applyReport_progress applyReport_wf stopOmitted_progress nodes_progress_trans by blast
  then show ?thesis by (simp add: nodes_progress_def acceptHeartbeat_nodes)
qed

lemma registrationBase_progress:
  assumes "fleet_wf s" shows "nodes_progress s (registrationBase now a s)"
  using forgetRestartedAgent_nodes [OF assms]
  by (auto simp: registrationBase_def nodes_progress_def failedByRestart_def lifecycle_def
      split: option.split)

lemma registerAgent_nodes:
  "registerAgent now r a s = Inr (a', s') \<Longrightarrow>
   st_nodes s' = st_nodes (registrationBase now (resumedAgent s a) s)"
  by (drule registerAgent_result) (simp add: Let_def)

lemma markNodeStopping_nodes:
  assumes "fleet_wf s"
  shows "map_of (st_nodes (markNodeStoppingAndReleaseCapacity now k s)) =
     (case map_of (st_nodes s) k of
        None \<Rightarrow> map_of (st_nodes s)
      | Some n \<Rightarrow> if node_active n
          then (map_of (st_nodes s))(k \<mapsto> n\<lparr>nd_State := NodeStopping, nd_LastSeen := now\<rparr>)
          else map_of (st_nodes s))"
  using fleet_wf_node_ID [OF assms]
  by (auto simp: markNodeStoppingAndReleaseCapacity_def Let_def split: option.split)

lemma node_active_lifecycle: "node_active n \<Longrightarrow> lifecycle (nd_State n) q"
  by (simp add: node_active_def lifecycle_def)

lemma markNodeStopping_progress:
  assumes "fleet_wf s" shows "nodes_progress s (markNodeStoppingAndReleaseCapacity now k s)"
  using markNodeStopping_nodes [OF assms, of now k]
  by (auto simp: nodes_progress_def node_active_lifecycle split: option.split)

lemma storeCreatedNode_progress: "nodes_progress s (snd (storeCreatedNode k e n s))"
  by (auto simp: storeCreatedNode_def node_active_lifecycle split: option.split
      intro!: nodes_progress_set intro: nodes_progress_same)

section \<open>The transition system\<close>

inductive fleet_step :: "fleet \<Rightarrow> fleet \<Rightarrow> bool" where
  step_register: "registerAgent now r a s = Inr (a', s') \<Longrightarrow> fleet_step s s'"
| step_heartbeat: "heartbeat now r h s = Inr s' \<Longrightarrow> fleet_step s s'"
| step_expire: "fleet_step s (markStaleAgents d now s)"
| step_capacity: "setAgentCapacity r ok k c s = Inr (a, s') \<Longrightarrow> fleet_step s s'"
| step_reserve: "tryReserveAgentWithPlacement now k target rng s = (res, s') \<Longrightarrow> rng_ok rng
    \<Longrightarrow> fleet_step s s'"
| step_release: "fleet_step s (releaseReservation k s)"
| step_created: "fleet_step s (snd (storeCreatedNode k e n s))"
| step_stopping: "fleet_step s (markNodeStoppingAndReleaseCapacity now k s)"
| step_subscribe: "fleet_step s (subscribe ch s)"
| step_unsubscribe: "fleet_step s (unsubscribe ch s)"

inductive_cases fleet_stepE: "fleet_step s s'"

definition fleet_initial :: "fleet \<Rightarrow> bool" where
  "fleet_initial s \<longleftrightarrow> (\<exists>loaded. s = newState loaded)"

definition fleet_reachable :: "fleet \<Rightarrow> bool" where
  "fleet_reachable s \<longleftrightarrow> (\<exists>s0. fleet_initial s0 \<and> fleet_step\<^sup>*\<^sup>* s0 s)"

lemma fleet_wf_subscribe [simp]:
  "fleet_wf (subscribe ch s) = fleet_wf s" "fleet_wf (unsubscribe ch s) = fleet_wf s"
  by (simp_all add: subscribe_def unsubscribe_def fleet_wf_def)

lemma fleet_step_wf: "fleet_step s s' \<Longrightarrow> fleet_wf s \<Longrightarrow> fleet_wf s'"
  by (erule fleet_stepE)
     (auto intro: registerAgent_wf heartbeat_wf markStaleAgents_wf setAgentCapacity_wf tryReserve_wf
        releaseReservation_wf storeCreatedNode_wf markNodeStopping_wf)

lemma newState_wf: "fleet_wf (newState loaded)"
  by (simp add: newState_def fleet_wf_def nodes_ok_def agents_ok_def)

lemma fleet_reachable_wf:
  assumes "fleet_reachable s" shows "fleet_wf s"
proof -
  obtain loaded where "fleet_step\<^sup>*\<^sup>* (newState loaded) s"
    using assms by (auto simp: fleet_reachable_def fleet_initial_def)
  then show ?thesis
    by (induction rule: rtranclp_induct) (auto intro: newState_wf fleet_step_wf)
qed

lemma fleet_reachable_step: "fleet_reachable s \<Longrightarrow> fleet_step s s' \<Longrightarrow> fleet_reachable s'"
  unfolding fleet_reachable_def by (meson rtranclp.rtrancl_into_rtrancl)

lemma markStaleAgents_nodes [simp]: "st_nodes (markStaleAgents d now s) = st_nodes s"
  by (simp add: markStaleAgents_def Let_def)

lemma setAgentCapacity_nodes:
  "setAgentCapacity r ok k c s = Inr (a, s') \<Longrightarrow> st_nodes s' = st_nodes s"
  by (auto simp: setAgentCapacity_def Let_def split: if_split_asm)

lemma releaseReservation_nodes [simp]: "st_nodes (releaseReservation k s) = st_nodes s"
  by (simp add: releaseReservation_def Let_def split: option.split)

lemma fleet_step_progress:
  assumes "fleet_step s s'" and "fleet_wf s" shows "nodes_progress s s'"
  using assms
proof (cases rule: fleet_step.cases)
  case (step_register now r a a')
  then show ?thesis
    using registrationBase_progress [OF assms(2)] registerAgent_nodes
    by (metis nodes_progress_def)
next
  case (step_heartbeat now r h)
  then show ?thesis
    using acceptHeartbeat_progress [OF assms(2)]
    by (auto simp: heartbeat_def Let_def split: if_split_asm option.split_asm)
next
  case (step_reserve now k target rng res)
  then show ?thesis by (auto dest!: reserve_result intro: nodes_progress_same)
qed (auto intro!: nodes_progress_same storeCreatedNode_progress markNodeStopping_progress
      dest: setAgentCapacity_nodes simp: subscribe_def unsubscribe_def)

lemma fleet_steps_progress:
  "fleet_step\<^sup>*\<^sup>* s s' \<Longrightarrow> fleet_wf s \<Longrightarrow> fleet_wf s' \<and> nodes_progress s s'"
  by (induction rule: rtranclp_induct)
     (auto intro: fleet_step_wf dest: fleet_step_progress nodes_progress_trans)

end
