(* ===== verification/FleetReports.thy ===== *)
theory FleetReports
  imports FleetLifecycle
begin

text \<open>
  What an Agent's heartbeat may change: exactly the nodes it lists and owns, plus - for a full
  report - the nodes it should have listed. Replays, stale reports and reports about another Agent's
  nodes are harmless.
\<close>

section \<open>Which reports are accepted\<close>

lemma badReportedNode_None:
  "badReportedNode s a seen ns = None \<longleftrightarrow>
     distinct (map nd_ID ns) \<and> set (map nd_ID ns) \<inter> seen = {}
     \<and> (\<forall>n \<in> set ns. nd_ID n \<noteq> []
          \<and> nd_AgentID (mget zero_node (st_nodes s) (nd_ID n)) \<in> {[], a}
          \<and> mget [] (st_reservations s) (nd_ID n) \<in> {[], a})"
  by (induction s a seen ns rule: badReportedNode.induct) (auto simp: Let_def)

definition acceptable :: "fleet \<Rightarrow> agent_heartbeat \<Rightarrow> bool" where
  "acceptable s h \<longleftrightarrow>
     (let a = ag_ID (hb_Agent h) in
      a \<noteq> [] \<and> mhas (st_agents s) a
      \<and> ag_StartedAt (hb_Agent h) \<in> {0, ag_StartedAt (mget zero_agent (st_agents s) a)}
      \<and> (heartbeatRepeated s h \<or> badReportedNode s a {} (hb_Nodes h) = None))"

lemma heartbeat_accepted:
  "(\<exists>s'. heartbeat now r h s = Inr s') \<longleftrightarrow> acceptable s h"
  by (auto simp: heartbeat_def acceptable_def Let_def split: option.split)

lemma heartbeat_cases:
  assumes "heartbeat now r h s = Inr s'"
  obtains (repeated) "heartbeatRepeated s h" "s' = s"
  | (applied) "\<not> heartbeatRepeated s h" "s' = acceptHeartbeat now r h s"
      "badReportedNode s (ag_ID (hb_Agent h)) {} (hb_Nodes h) = None"
      "mhas (st_agents s) (ag_ID (hb_Agent h))" "ag_ID (hb_Agent h) \<noteq> []"
      "ag_StartedAt (hb_Agent h) \<in> {0, ag_StartedAt (mget zero_agent (st_agents s) (ag_ID (hb_Agent h)))}"
  using assms
  by (auto simp: heartbeat_def Let_def split: if_split_asm option.split_asm)

section \<open>The node table after a report\<close>

text \<open>The entry of one node after an accepted, applied report.\<close>

definition nodeAfterReport :: "go_time \<Rightarrow> agent_heartbeat \<Rightarrow> fleet \<Rightarrow> gostring \<Rightarrow> node option" where
  "nodeAfterReport now h s k =
     (let a = ag_ID (hb_Agent h);
          old = map_of (st_nodes s) k
      in case find (\<lambda>n. nd_ID n = k) (reportedNodes s h) of
           Some n \<Rightarrow> Some (reportedEntry now a old n)
         | None \<Rightarrow>
             (case old of None \<Rightarrow> None
              | Some n \<Rightarrow> if \<not> hb_Partial h \<and> nd_AgentID n = a \<and> nd_State n \<noteq> NodeStopped
                             \<and> mget [] (st_reservations s) k \<noteq> a
                          then Some (n\<lparr>nd_State := NodeStopped, nd_LastSeen := now\<rparr>) else Some n))"

lemma reportedNodes_subset: "set (reportedNodes s h) \<subseteq> set (hb_Nodes h)"
  by (auto simp: reportedNodes_def)

lemma distinct_reportedNodes:
  "distinct (map nd_ID (hb_Nodes h)) \<Longrightarrow> distinct (map nd_ID (reportedNodes s h))"
  by (simp add: reportedNodes_def distinct_map_filter)

lemma full_report_not_stale:
  "\<not> hb_Partial h \<Longrightarrow> \<not> heartbeatRepeated s h \<Longrightarrow> \<not> heartbeatStale s h"
  by (auto simp: heartbeatRepeated_def heartbeatStale_def Let_def)

text \<open>A report only gives back reservations of the nodes it lists.\<close>

lemma applyReport_reservations:
  assumes "fleet_wf s" and "k \<notin> set (map nd_ID (reportedNodes s h))"
  shows "mget [] (st_reservations (fst (applyReport now h s))) k = mget [] (st_reservations s) k"
proof -
  have "fleet_wf (fst x) \<Longrightarrow> k \<notin> set (map nd_ID ns) \<Longrightarrow>
        mget [] (st_reservations (fst (fold (applyReportedNode now t a) ns x))) k
        = mget [] (st_reservations (fst x)) k" for ns x t a
  proof (induction ns arbitrary: x)
    case (Cons n ns)
    obtain s r ob where x: "x = (s, r, ob)" by (cases x)
    let ?e = "reportedEntry now a (map_of (st_nodes s) (nd_ID n)) n"
    have "nd_ID ?e = nd_ID n"
      using Cons.prems(1) x by (intro reportedEntry_ID) (auto dest: fleet_wf_node_ID)
    then have "mget [] (st_reservations (fst (applyReportedNode now t a n x))) k
        = mget [] (st_reservations (fst x)) k"
      using Cons.prems(2) by (auto simp: x applyReportedNode_state Let_def)
    moreover have "fleet_wf (fst (applyReportedNode now t a n x))"
      using Cons.prems(1) by (rule applyReportedNode_wf)
    ultimately show ?case using Cons by simp
  qed simp
  from this [of "(recordSnapshot h s, 0, 0)" "reportedNodes s h"] assms show ?thesis
    by (simp add: applyReport_def)
qed

lemma acceptHeartbeat_node:
  assumes "fleet_wf s" "\<not> heartbeatRepeated s h"
    "badReportedNode s (ag_ID (hb_Agent h)) {} (hb_Nodes h) = None"
  shows "map_of (st_nodes (acceptHeartbeat now r h s)) k = nodeAfterReport now h s k"
proof -
  let ?a = "ag_ID (hb_Agent h)" and ?ns = "reportedNodes s h"
  have d: "distinct (map nd_ID ?ns)"
    using assms(3) by (intro distinct_reportedNodes) (simp add: badReportedNode_None)
  let ?s2 = "fst (applyReport now h s)"
  have wf2: "fleet_wf ?s2" by (rule applyReport_wf [OF assms(1)])
  have nodes: "map_of (st_nodes ?s2) k =
     (case find (\<lambda>n. nd_ID n = k) ?ns of None \<Rightarrow> map_of (st_nodes s) k
      | Some n \<Rightarrow> Some (reportedEntry now ?a (map_of (st_nodes s) k) n))"
    using applyReport_fold_nodes [OF _ d, of "(recordSnapshot h s, 0, 0)"] assms(1)
    by (simp add: applyReport_def split: option.split)
  show ?thesis
  proof (cases "hb_Partial h")
    case True
    then show ?thesis
      using nodes stopOmitted_nodes [OF wf2, of now h k]
      by (auto simp: acceptHeartbeat_nodes nodeAfterReport_def Let_def split: option.split)
  next
    case False
    then have ns: "?ns = hb_Nodes h"
      using full_report_not_stale assms(2) by (simp add: reportedNodes_def)
    show ?thesis
    proof (cases "find (\<lambda>n. nd_ID n = k) ?ns")
      case None
      then have k: "k \<notin> set (map nd_ID ?ns)" by (auto simp: find_None_iff)
      then show ?thesis
        using nodes stopOmitted_nodes [OF wf2, of now h k] None False ns
          applyReport_reservations [OF assms(1) k, of now]
        by (auto simp: acceptHeartbeat_nodes nodeAfterReport_def Let_def omittedEntry_def
            split: option.split)
    next
      case (Some n)
      then have "k \<in> set (map nd_ID ?ns)" by (auto simp: find_Some_iff)
      then show ?thesis
        using nodes stopOmitted_nodes [OF wf2, of now h k] Some False ns
        by (auto simp: acceptHeartbeat_nodes nodeAfterReport_def Let_def omittedEntry_def)
    qed
  qed
qed

text \<open>The listed nodes are the Agent's own, or not yet known.\<close>

lemma reported_owner:
  assumes "badReportedNode s a {} ns = None" and "n \<in> set ns"
    and "map_of (st_nodes s) (nd_ID n) = Some m"
  shows "nd_AgentID m \<in> {[], a}"
  using assms by (auto simp: badReportedNode_None mget_def)

section \<open>Replays\<close>

lemma applyReport_agentSnapshots:
  "st_agentSnapshots (fst (applyReport now h s)) = st_agentSnapshots (recordSnapshot h s)"
proof -
  have "st_agentSnapshots (fst (fold (applyReportedNode now t a) ns x)) = st_agentSnapshots (fst x)"
    for t a ns x
  proof (rule fold_keeps [where P = "\<lambda>y. st_agentSnapshots (fst y) = st_agentSnapshots (fst x)"])
    fix n and y :: "fleet \<times> int \<times> int"
    assume "st_agentSnapshots (fst y) = st_agentSnapshots (fst x)"
    then show "st_agentSnapshots (fst (applyReportedNode now t a n y)) = st_agentSnapshots (fst x)"
      by (cases y) (simp add: applyReportedNode_state Let_def)
  qed simp
  then show ?thesis by (simp add: applyReport_def)
qed

lemma stopOmitted_agentSnapshots [simp]:
  "st_agentSnapshots (stopOmitted now h s) = st_agentSnapshots s"
proof -
  have "st_agentSnapshots (fold (stopOmittedNode a now seen) xs s) = st_agentSnapshots s" for a seen xs
    by (rule fold_keeps [where P = "\<lambda>u. st_agentSnapshots u = st_agentSnapshots s"])
       (auto simp: stopOmittedNode_def)
  then show ?thesis by (simp add: stopOmitted_def)
qed

lemma acceptHeartbeat_agentSnapshots:
  "st_agentSnapshots (acceptHeartbeat now r h s) = st_agentSnapshots (recordSnapshot h s)"
  by (simp add: acceptHeartbeat_result heartbeatResult_def Let_def split_beta applyReport_agentSnapshots)

lemma observe_StartedAt [simp]:
  "ag_StartedAt (snd (observeAgentCapacityLocked r a s)) = ag_StartedAt a"
  by (simp add: observeAgentCapacityLocked_def Let_def)

lemma heartbeatResult_agent:
  assumes "fleet_wf s" and "mhas (st_agents s) (ag_ID (hb_Agent h))"
    and "ag_StartedAt (hb_Agent h) \<in> {0, ag_StartedAt (mget zero_agent (st_agents s) (ag_ID (hb_Agent h)))}"
  shows "ag_ID (snd (heartbeatResult now r h s)) = ag_ID (hb_Agent h)"
    "ag_StartedAt (snd (heartbeatResult now r h s)) =
     ag_StartedAt (mget zero_agent (st_agents s) (ag_ID (hb_Agent h)))"
proof -
  have "ag_ID (mget zero_agent (st_agents s) (ag_ID (hb_Agent h))) = ag_ID (hb_Agent h)"
    using assms(1,2) by (auto simp: mget_def mhas_def dest: fleet_wf_agent_ID)
  then show "ag_ID (snd (heartbeatResult now r h s)) = ag_ID (hb_Agent h)"
    "ag_StartedAt (snd (heartbeatResult now r h s)) =
     ag_StartedAt (mget zero_agent (st_agents s) (ag_ID (hb_Agent h)))"
    using assms(3) by (auto simp: heartbeatResult_def Let_def split_beta completeReportedAgent_def)
qed

lemma heartbeat_replay:
  assumes wf: "fleet_wf s" and first: "heartbeat now r h s = Inr s'"
    and full: "\<not> hb_Partial h" and stamped: "ag_LastSeen (hb_Agent h) \<noteq> 0"
  shows "heartbeat now' r' h s' = Inr s'"
  using first
proof (cases rule: heartbeat_cases)
  case repeated
  then show ?thesis
    using first by (auto simp: heartbeat_def Let_def split: if_split_asm)
next
  case applied
  let ?a = "ag_ID (hb_Agent h)"
  have agents: "map_of (st_agents s') ?a = Some (snd (heartbeatResult now r h s))"
    using heartbeatResult_agent(1) [OF wf applied(4,6)] applied(2)
    by (simp add: acceptHeartbeat_result Let_def)
  have "heartbeatRepeated s' h"
    using full stamped full_report_not_stale [OF full applied(1)]
    by (simp add: applied(2) heartbeatRepeated_def acceptHeartbeat_agentSnapshots recordSnapshot_def)
  then show ?thesis
    using applied(4-6) agents heartbeatResult_agent [OF wf applied(4,6)]
    by (simp add: heartbeat_def Let_def mhas_def mget_def)
qed

section \<open>Foreign nodes and stale reports\<close>

lemma find_mem: "find P xs = Some x \<Longrightarrow> x \<in> set xs \<and> P x"
  by (auto simp: find_Some_iff)

lemma heartbeat_foreign_node:
  assumes wf: "fleet_wf s" and ok: "heartbeat now r h s = Inr s'"
    and foreign: "map_of (st_nodes s) k = Some n" "nd_AgentID n \<notin> {[], ag_ID (hb_Agent h)}"
  shows "map_of (st_nodes s') k = Some n"
  using ok
proof (cases rule: heartbeat_cases)
  case repeated
  with foreign show ?thesis by simp
next
  case applied
  have "find (\<lambda>m. nd_ID m = k) (reportedNodes s h) = None"
  proof (cases "find (\<lambda>m. nd_ID m = k) (reportedNodes s h)")
    case (Some m)
    then have "m \<in> set (hb_Nodes h)" "nd_ID m = k"
      using find_mem [OF Some] reportedNodes_subset [of s h] by auto
    then show ?thesis
      using reported_owner [OF applied(3), of m n] foreign by simp
  qed simp
  then show ?thesis
    using applied foreign acceptHeartbeat_node [OF wf applied(1,3)]
    by (auto simp: nodeAfterReport_def Let_def)
qed

lemma applyReportedNode_stopped_entry:
  assumes "nd_State n = NodeStopped"
  shows "nd_State (reportedEntry now a old n) = NodeStopped"
  using assms by (auto simp: reportedEntry_def mergeReportedNode_def split: option.split)

lemma heartbeat_stale_nodes:
  assumes wf: "fleet_wf s" and ok: "heartbeat now r h s = Inr s'" and stale: "heartbeatStale s h"
  shows "map_of (st_nodes s') k = map_of (st_nodes s) k
     \<or> (\<exists>n n'. n \<in> set (hb_Nodes h) \<and> nd_ID n = k \<and> nd_State n = NodeStopped
           \<and> map_of (st_nodes s') k = Some n' \<and> nd_State n' = NodeStopped)"
  using ok
proof (cases rule: heartbeat_cases)
  case applied
  then have partial: "hb_Partial h" using full_report_not_stale stale by blast
  show ?thesis
  proof (cases "find (\<lambda>m. nd_ID m = k) (reportedNodes s h)")
    case None
    then show ?thesis
      using partial applied acceptHeartbeat_node [OF wf applied(1,3), of now r k]
      by (auto simp: nodeAfterReport_def Let_def split: option.split)
  next
    case (Some m)
    then have "m \<in> set (hb_Nodes h)" "nd_ID m = k" "nd_State m = NodeStopped"
      using find_mem [OF Some] stale by (auto simp: reportedNodes_def)
    then show ?thesis
      using Some applied(2) acceptHeartbeat_node [OF wf applied(1,3), of now r k]
        applyReportedNode_stopped_entry
      by (auto simp: nodeAfterReport_def Let_def)
  qed
qed simp

end
