(* ===== verification/FleetPlacement.thy ===== *)
theory FleetPlacement
  imports FleetReports
begin

text \<open>
  Placement, reservations and capacity: where a new Peer may go, and that what the Controller
  reserved is always counted in the occupancy of its Agent.
\<close>

section \<open>The placement order\<close>

lemma float_of_small [simp]: "\<exists>y \<ge> 0. float_of_int 0 = Fin y" "\<exists>y \<ge> 0. float_of_int 1 = Fin y"
  by (rule float_of_int_Fin; simp)+

lemma utilization_not_NaN:
  assumes "ag_Capacity a \<le> MaxInt64" and "k \<in> {0, 1}"
  shows "utilization a k \<noteq> NaN"
proof -
  obtain y where k: "float_of_int k = Fin y" using assms(2) float_of_small by blast
  let ?o = "float_add (float_of_int (ag_ActiveNodes a)) (float_of_int k)"
  have o: "?o \<noteq> NaN"
    by (cases "float_of_int (ag_ActiveNodes a)") (simp_all add: k float_of_int_not_NaN [THEN notE])
  show ?thesis
  proof (cases "ag_Capacity a \<le> 0")
    case True
    with o show ?thesis by (simp add: utilization_def)
  next
    case False
    then have "0 < ag_Capacity a" "ag_Capacity a \<le> 2 ^ 1000"
      using assms(1) by (auto simp: MaxInt64_def)
    then obtain c where "c > 0" "float_of_int (ag_Capacity a) = Fin c"
      using float_of_int_Fin [of "ag_Capacity a"] float_of_int_positive [of "ag_Capacity a"] by auto
    then show ?thesis using o False
      by (cases ?o) (auto simp: utilization_def inf_sign_def)
  qed
qed

text \<open>The order of the seeded placement and of the node listings: by identity.\<close>

interpretation by_agent_id: slice_order "\<lambda>a b :: agent. ag_ID a < ag_ID b" ag_ID "\<lambda>_. True"
  by unfold_locales auto

interpretation by_node_id: slice_order "\<lambda>a b :: node. nd_ID a < nd_ID b" nd_ID "\<lambda>_. True"
  by unfold_locales auto

definition balanceKey :: "agent \<Rightarrow> float64 \<times> float64 \<times> gostring" where
  "balanceKey a = (utilization a 1, utilization a 0, ag_ID a)"

text \<open>\<open>balancedAgentBefore\<close> is the lexicographic order of the key.\<close>

lemma balancedAgentBefore_key:
  assumes "ag_Capacity a \<le> MaxInt64" "ag_Capacity b \<le> MaxInt64"
  shows "balancedAgentBefore a b \<longleftrightarrow>
     float_less (utilization a 1) (utilization b 1)
     \<or> utilization a 1 = utilization b 1
        \<and> (float_less (utilization a 0) (utilization b 0)
           \<or> utilization a 0 = utilization b 0 \<and> ag_ID a < ag_ID b)"
  using utilization_not_NaN [OF assms(1), of 0] utilization_not_NaN [OF assms(1), of 1]
  by (auto simp: balancedAgentBefore_def float_eq_def Let_def)

interpretation placement: slice_order balancedAgentBefore balanceKey "\<lambda>a. ag_Capacity a \<le> MaxInt64"
proof unfold_locales
  fix a b c :: agent
  assume A: "ag_Capacity a \<le> MaxInt64" and B: "ag_Capacity b \<le> MaxInt64"
  note key = balancedAgentBefore_key
  note nan = utilization_not_NaN [OF A] utilization_not_NaN [OF B]
  show "\<not> balancedAgentBefore a a" using key [OF A A] by auto
  show "balancedAgentBefore a b \<or> balancedAgentBefore b a" if neq: "balanceKey a \<noteq> balanceKey b"
  proof -
    have t: "utilization a k = utilization b k \<or> float_less (utilization a k) (utilization b k)
        \<or> float_less (utilization b k) (utilization a k)" if "k \<in> {0, 1}" for k
      using nan that float_less_total by blast
    have "ag_ID a = ag_ID b \<or> ag_ID a < ag_ID b \<or> ag_ID b < ag_ID a" by auto
    with neq t [of 0] t [of 1] show ?thesis
      unfolding balanceKey_def key [OF A B] key [OF B A] by auto
  qed
  show "\<not> balancedAgentBefore a b" if "balanceKey a = balanceKey b"
    using that key [OF A B] by (auto simp: balanceKey_def)
  assume C: "ag_Capacity c \<le> MaxInt64" and "balancedAgentBefore a b" "balancedAgentBefore b c"
  then show "balancedAgentBefore a c"
    using key [OF A B] key [OF B C] key [OF A C] float_less_trans by (auto dest: less_trans)
qed

text \<open>The single pass keeps a least candidate.\<close>

lemma pickBalanced_least:
  assumes "\<forall>x \<in> set (case sel of None \<Rightarrow> cs | Some b \<Rightarrow> b # cs). ag_Capacity x \<le> MaxInt64"
    and "pickBalanced sel cs = Some a"
  shows "a \<in> set (case sel of None \<Rightarrow> cs | Some b \<Rightarrow> b # cs)
    \<and> (\<forall>x \<in> set (case sel of None \<Rightarrow> cs | Some b \<Rightarrow> b # cs). \<not> balancedAgentBefore x a)"
  using assms
proof (induction cs arbitrary: sel)
  case Nil
  then show ?case by (auto simp: placement.less_irrefl split: option.splits)
next
  case (Cons c cs)
  let ?sel = "case sel of None \<Rightarrow> Some c | Some b \<Rightarrow> if balancedAgentBefore c b then Some c else Some b"
  obtain m where m: "?sel = Some m" by (cases ?sel) (auto split: option.splits if_splits)
  have cap: "\<forall>x \<in> set (m # cs). ag_Capacity x \<le> MaxInt64"
    using Cons.prems(1) m by (auto split: option.splits if_splits)
  have ih: "a \<in> set (m # cs)" "\<forall>x \<in> set (m # cs). \<not> balancedAgentBefore x a"
    using Cons.IH [of "Some m"] cap Cons.prems(2) m by auto
  show ?case
  proof (cases sel)
    case None
    with ih m show ?thesis by auto
  next
    case (Some b)
    have capb: "ag_Capacity b \<le> MaxInt64" "ag_Capacity c \<le> MaxInt64" "ag_Capacity a \<le> MaxInt64"
      using Cons.prems(1) Some ih(1) cap by auto
    have "\<not> balancedAgentBefore b a \<and> \<not> balancedAgentBefore c a"
    proof (cases "balancedAgentBefore c b")
      case True
      then have "\<not> balancedAgentBefore b m" "m = c"
        using m Some capb placement.less_asym by auto
      then show ?thesis
        using ih(2) capb placement.not_less_trans [of a c b] by auto
    next
      case False
      then have "m = b" using m Some by simp
      then show ?thesis
        using False ih(2) capb placement.not_less_trans [of a b c] by auto
    qed
    with ih m Some show ?thesis by (auto split: if_splits)
  qed
qed

lemma pickBalanced_mem:
  "pickBalanced sel cs = Some a \<Longrightarrow> a \<in> set (case sel of None \<Rightarrow> cs | Some b \<Rightarrow> b # cs)"
  by (induction sel cs rule: pickBalanced.induct) (auto split: option.splits if_splits)

lemma pickBalanced_some: "pickBalanced (Some b) cs \<noteq> None"
  by (induction cs arbitrary: b) (auto split: if_splits)

lemma pickBalanced_None: "pickBalanced None cs = None \<longleftrightarrow> cs = []"
  by (cases cs) (auto simp: pickBalanced_some)

text \<open>With distinct identities the choice does not depend on the iteration order of the map.\<close>

lemma pickBalanced_canonical:
  assumes "\<forall>x \<in> set cs. ag_Capacity x \<le> MaxInt64" "distinct (map ag_ID cs)" "set cs' = set cs"
  shows "pickBalanced None cs' = pickBalanced None cs"
proof (cases "cs = []")
  case True
  with assms(3) show ?thesis by simp
next
  case False
  then obtain a where a: "pickBalanced None cs = Some a" using pickBalanced_None by fastforce
  from False assms(3) have "cs' \<noteq> []" by auto
  then obtain b where b: "pickBalanced None cs' = Some b" using pickBalanced_None by fastforce
  have mem: "a \<in> set cs" "b \<in> set cs" "\<not> balancedAgentBefore a b" "\<not> balancedAgentBefore b a"
    using pickBalanced_least [where sel = None and cs = cs, of a]
      pickBalanced_least [where sel = None and cs = cs', of b] a b assms(1,3) by auto
  then have "balanceKey a = balanceKey b"
    using placement.less_total assms(1) by blast
  with mem(1,2) assms(2) have "a = b" by (auto simp: balanceKey_def distinct_map dest: inj_onD)
  with a b show ?thesis by simp
qed

section \<open>Reserving a place\<close>

definition candidates :: "go_time \<Rightarrow> gostring \<Rightarrow> fleet \<Rightarrow> agent list" where
  "candidates now target s = filter (placementCandidate now target) (map snd (st_agents s))"

text \<open>What a successful new reservation did to the state.\<close>

lemma reserve_fresh:
  assumes "tryReserveAgentWithPlacement now k target rng s = (Some a, s')"
    and "map_of (st_reservations s) k = None"
    and "rng_ok rng"
  obtains a0 where "a0 \<in> set (candidates now target s)"
    "a = a0\<lparr>ag_ActiveNodes := ag_ActiveNodes a0 + 1\<rparr>"
    "rng = None \<Longrightarrow> pickBalanced None (candidates now target s) = Some a0"
    "s' = s\<lparr>st_agents := AList.update (ag_ID a) a (st_agents s),
            st_reservations := AList.update k (ag_ID a) (st_reservations s)\<rparr>"
proof (cases rng)
  case None
  then obtain a0 where p: "pickBalanced None (candidates now target s) = Some a0"
    "a = a0\<lparr>ag_ActiveNodes := ag_ActiveNodes a0 + 1\<rparr>"
    "s' = s\<lparr>st_agents := AList.update (ag_ID a) a (st_agents s),
            st_reservations := AList.update k (ag_ID a) (st_reservations s)\<rparr>"
    using assms(1,2)
    by (auto simp: tryReserveAgentWithPlacement_def candidates_def Let_def split: option.split_asm)
  moreover have "a0 \<in> set (candidates now target s)"
    using pickBalanced_mem [OF p(1)] by simp
  ultimately show ?thesis using that by blast
next
  case (Some intn)
  let ?cs = "candidates now target s"
  have "?cs \<noteq> []" "a = (sort_Slice (\<lambda>a b. ag_ID a < ag_ID b) ?cs ! intn (length ?cs))
       \<lparr>ag_ActiveNodes := ag_ActiveNodes (sort_Slice (\<lambda>a b. ag_ID a < ag_ID b) ?cs ! intn (length ?cs)) + 1\<rparr>"
    "s' = s\<lparr>st_agents := AList.update (ag_ID a) a (st_agents s),
            st_reservations := AList.update k (ag_ID a) (st_reservations s)\<rparr>"
    using assms(1,2) Some
    by (auto simp: tryReserveAgentWithPlacement_def candidates_def Let_def split: option.split_asm if_split_asm)
  moreover have "sort_Slice (\<lambda>a b. ag_ID a < ag_ID b) ?cs ! intn (length ?cs) \<in> set ?cs"
    using assms(3) Some \<open>?cs \<noteq> []\<close>
      nth_mem [of "intn (length ?cs)" "sort_Slice (\<lambda>a b. ag_ID a < ag_ID b) ?cs"]
    by (simp add: rng_ok_def)
  ultimately show ?thesis using that Some by blast
qed

lemma candidates_online:
  assumes "fleet_wf s" and "a \<in> set (candidates now target s)"
  shows "map_of (st_agents s) (ag_ID a) = Some a" "agentIsOnline a now" "hasRoom a"
    "target = [] \<or> ag_ID a = target"
proof -
  obtain k where "(k, a) \<in> set (st_agents s)" using assms(2) by (auto simp: candidates_def)
  then have "map_of (st_agents s) k = Some a"
    using assms(1) by (auto simp: fleet_wf_def agents_ok_def)
  then show "map_of (st_agents s) (ag_ID a) = Some a"
    using fleet_wf_agent_ID [OF assms(1)] by auto
  show "agentIsOnline a now" "hasRoom a" "target = [] \<or> ag_ID a = target"
    using assms(2) by (auto simp: candidates_def placementCandidate_def)
qed

section \<open>Reservations are counted\<close>

definition held :: "(gostring, gostring) gomap \<Rightarrow> gostring \<Rightarrow> int" where
  "held m a = int (length (filter (\<lambda>(_, a'). a' = a) m))"

lemma reservedBy_held: "reservedBy s a = held (st_reservations s) a"
  by (simp add: reservedBy_def held_def)

lemma held_nonneg [simp]: "0 \<le> held m a"
  by (simp add: held_def)

lemma held_delete:
  "wf_map m \<Longrightarrow> held (AList.delete k m) a = held m a - (if map_of m k = Some a then 1 else 0)"
proof (induction m)
  case (Cons kv m)
  then show ?case
    by (cases kv) (auto simp: held_def dest: map_of_SomeD)
qed (simp add: held_def)

lemma held_update_new:
  "map_of m k = None \<Longrightarrow> held (AList.update k b m) a = held m a + (if b = a then 1 else 0)"
  by (induction m) (auto simp: held_def split: if_splits)

lemma held_none: "(\<And>k. map_of m k \<noteq> Some a) \<Longrightarrow> wf_map m \<Longrightarrow> held m a = 0"
  by (auto simp: held_def filter_empty_conv dest: map_of_SomeI_wf)

lemma held_positive: "map_of m k = Some a \<Longrightarrow> 0 < held m a"
  by (auto simp: held_def filter_empty_conv dest!: map_of_SomeD)

text \<open>
  Every reservation belongs to a registered Agent and is counted in its occupancy. The empty text is
  never an Agent (\<open>releaseReservation\<close> of an unknown node looks it up).
\<close>

definition reservations_counted :: "fleet \<Rightarrow> bool" where
  "reservations_counted s \<longleftrightarrow>
     (\<forall>k a. map_of (st_reservations s) k = Some a \<longrightarrow> mhas (st_agents s) a)
     \<and> (\<forall>k a. map_of (st_agents s) k = Some a \<longrightarrow> held (st_reservations s) k \<le> ag_ActiveNodes a)
     \<and> \<not> mhas (st_agents s) []"

lemma countedD:
  assumes "reservations_counted s"
  shows "map_of (st_reservations s) k = Some a \<Longrightarrow> mhas (st_agents s) a"
    "map_of (st_agents s) k = Some b \<Longrightarrow> held (st_reservations s) k \<le> ag_ActiveNodes b"
    "map_of (st_agents s) [] = None"
  using assms by (auto simp: reservations_counted_def mhas_def)

text \<open>Writing an Agent's record while reservations only disappear.\<close>

lemma counted_put:
  assumes "reservations_counted s" and "k \<noteq> []"
    and res: "\<And>k' a. map_of (st_reservations t) k' = Some a \<Longrightarrow> map_of (st_reservations s) k' = Some a"
    and "held (st_reservations t) k \<le> ag_ActiveNodes b"
    and "\<And>a. a \<noteq> k \<Longrightarrow> held (st_reservations t) a \<le> held (st_reservations s) a"
    and "st_agents t = AList.update k b (st_agents s)"
  shows "reservations_counted t"
  using assms unfolding reservations_counted_def
  by (auto simp: mhas_def split: if_splits) (meson order_trans)+

lemma counted_same:
  "reservations_counted s \<Longrightarrow> st_agents t = st_agents s \<Longrightarrow> st_reservations t = st_reservations s
   \<Longrightarrow> reservations_counted t"
  by (simp add: reservations_counted_def)

text \<open>The report loop gives back only reservations of the reporting Agent, and counts them.\<close>

lemma applyReportedNode_held:
  assumes "wf_map (st_reservations (fst x))" and "a \<noteq> []" and y: "y = applyReportedNode now t a n x"
  shows "wf_map (st_reservations (fst y))"
    "held (st_reservations (fst y)) a + fst (snd y) = held (st_reservations (fst x)) a + fst (snd x)"
    "b \<noteq> a \<Longrightarrow> held (st_reservations (fst y)) b = held (st_reservations (fst x)) b"
    "map_of (st_reservations (fst y)) k = Some c \<Longrightarrow> map_of (st_reservations (fst x)) k = Some c"
proof -
  obtain s r ob where x: "x = (s, r, ob)" by (cases x)
  have g: "mget [] m k = a \<longleftrightarrow> map_of m k = Some a" for m :: "(gostring, gostring) gomap" and k
    using assms(2) by (auto simp: mget_def split: option.splits)
  show "wf_map (st_reservations (fst y))"
    "held (st_reservations (fst y)) a + fst (snd y) = held (st_reservations (fst x)) a + fst (snd x)"
    "b \<noteq> a \<Longrightarrow> held (st_reservations (fst y)) b = held (st_reservations (fst x)) b"
    "map_of (st_reservations (fst y)) k = Some c \<Longrightarrow> map_of (st_reservations (fst x)) k = Some c"
    using assms(1) by (auto simp: x y applyReportedNode_def Let_def g held_delete split: if_splits)
qed

lemma applyReport_held:
  assumes "wf_map (st_reservations s)" and "ag_ID (hb_Agent h) \<noteq> []" and y: "y = applyReport now h s"
  shows "wf_map (st_reservations (fst y))
    \<and> held (st_reservations (fst y)) (ag_ID (hb_Agent h)) + fst (snd y)
       = held (st_reservations s) (ag_ID (hb_Agent h))
    \<and> (\<forall>b. b \<noteq> ag_ID (hb_Agent h) \<longrightarrow> held (st_reservations (fst y)) b = held (st_reservations s) b)
    \<and> (\<forall>k c. map_of (st_reservations (fst y)) k = Some c \<longrightarrow> map_of (st_reservations s) k = Some c)"
  unfolding y applyReport_def
proof (rule fold_keeps [where P = "\<lambda>y. wf_map (st_reservations (fst y))
    \<and> held (st_reservations (fst y)) (ag_ID (hb_Agent h)) + fst (snd y)
       = held (st_reservations s) (ag_ID (hb_Agent h))
    \<and> (\<forall>b. b \<noteq> ag_ID (hb_Agent h) \<longrightarrow> held (st_reservations (fst y)) b = held (st_reservations s) b)
    \<and> (\<forall>k c. map_of (st_reservations (fst y)) k = Some c \<longrightarrow> map_of (st_reservations s) k = Some c)"])
  fix n and x :: "fleet \<times> int \<times> int"
  let ?a = "ag_ID (hb_Agent h)"
  let ?y = "applyReportedNode now (ag_LastSeen (hb_Agent h)) ?a n x"
  assume P: "wf_map (st_reservations (fst x))
    \<and> held (st_reservations (fst x)) ?a + fst (snd x) = held (st_reservations s) ?a
    \<and> (\<forall>b. b \<noteq> ?a \<longrightarrow> held (st_reservations (fst x)) b = held (st_reservations s) b)
    \<and> (\<forall>k c. map_of (st_reservations (fst x)) k = Some c \<longrightarrow> map_of (st_reservations s) k = Some c)"
  then have wf: "wf_map (st_reservations (fst x))" by blast
  note step = applyReportedNode_held [OF wf assms(2) refl]
  show "wf_map (st_reservations (fst ?y))
    \<and> held (st_reservations (fst ?y)) ?a + fst (snd ?y) = held (st_reservations s) ?a
    \<and> (\<forall>b. b \<noteq> ?a \<longrightarrow> held (st_reservations (fst ?y)) b = held (st_reservations s) b)
    \<and> (\<forall>k c. map_of (st_reservations (fst ?y)) k = Some c \<longrightarrow> map_of (st_reservations s) k = Some c)"
    using P step by metis
qed (use assms(1) in simp)

lemma acceptHeartbeat_counted:
  assumes wf: "fleet_wf s" and c: "reservations_counted s"
    and a: "ag_ID (hb_Agent h) \<noteq> []" "mhas (st_agents s) (ag_ID (hb_Agent h))"
    "ag_StartedAt (hb_Agent h) \<in> {0, ag_StartedAt (mget zero_agent (st_agents s) (ag_ID (hb_Agent h)))}"
  shows "reservations_counted (acceptHeartbeat now r h s)"
proof (rule counted_put [OF c a(1)])
  let ?a = "ag_ID (hb_Agent h)" and ?t = "acceptHeartbeat now r h s"
  let ?y = "applyReport now h s"
  have "wf_map (st_reservations s)" using wf by (simp add: fleet_wf_def)
  note y = applyReport_held [OF this a(1) refl, of now]
  have res: "st_reservations ?t = st_reservations (fst ?y)"
    by (simp add: acceptHeartbeat_result Let_def)
  show "map_of (st_reservations s) k = Some b" if "map_of (st_reservations ?t) k = Some b" for k b
    using y that res by metis
  show "held (st_reservations ?t) b \<le> held (st_reservations s) b" if "b \<noteq> ?a" for b
    using y that res by simp
  show "st_agents ?t = AList.update ?a (snd (heartbeatResult now r h s)) (st_agents s)"
    using heartbeatResult_agent [OF wf a(2,3)] by (simp add: acceptHeartbeat_result Let_def)
  obtain p where p: "map_of (st_agents s) ?a = Some p" using a(2) by (auto simp: mhas_def)
  then have "held (st_reservations s) ?a \<le> ag_ActiveNodes p" using countedD(2) [OF c] by blast
  then have "held (st_reservations (fst ?y)) ?a \<le> max 0 (ag_ActiveNodes p - fst (snd ?y))"
    using y by linarith
  then show "held (st_reservations ?t) ?a \<le> ag_ActiveNodes (snd (heartbeatResult now r h s))"
    unfolding res using p
    by (simp add: heartbeatResult_def Let_def split_beta reservedBy_held mget_def le_max_iff_disj)
qed

lemma TrimSpace_nonempty: "TrimSpace s \<noteq> [] \<Longrightarrow> s \<noteq> []"
  by auto

lemma registrationBase_reservations:
  "st_reservations (registrationBase now a s) =
     (if agentRestarted s a then filter (\<lambda>(_, b). b \<noteq> ag_ID a) (st_reservations s)
      else st_reservations s)"
proof -
  have "st_reservations (fold (failRestartedNode k now) xs t) = st_reservations t" for k xs t
    by (rule fold_keeps [where P = "\<lambda>u. st_reservations u = st_reservations t"])
       (simp_all add: failRestartedNode_def Let_def)
  then show ?thesis by (simp add: registrationBase_def forgetRestartedAgent_def Let_def)
qed

lemma held_filter: "held (filter (\<lambda>(_, b). b \<noteq> a) m) c = (if c = a then 0 else held m c)"
  by (induction m) (auto simp: held_def)

lemma registrationBase_agents [simp]: "st_agents (registrationBase now a s) = st_agents s"
  by (simp add: registrationBase_def)

lemma completeRegistration_frame [simp]:
  "ag_ID (completeRegistration now s a) = ag_ID a"
  by (simp add: completeRegistration_def Let_def)

lemma resumedAgent_frame [simp]: "ag_ID (resumedAgent s a) = ag_ID a"
  by (simp add: resumedAgent_def)

lemma completeRegistration_ActiveNodes:
  assumes "reservations_counted s" "wf_map (st_reservations s)"
  shows "held (st_reservations (registrationBase now a s)) (ag_ID a)
     \<le> ag_ActiveNodes (completeRegistration now s a)"
proof (cases "mhas (st_agents s) (ag_ID a)")
  case True
  then obtain p where p: "map_of (st_agents s) (ag_ID a) = Some p" by (auto simp: mhas_def)
  then show ?thesis using countedD(2) [OF assms(1) p] True
    by (auto simp: registrationBase_reservations held_filter completeRegistration_def mget_def Let_def
        le_max_iff_disj)
next
  case False
  then have "held (st_reservations s) (ag_ID a) = 0"
    using countedD(1) [OF assms(1)] assms(2) by (intro held_none) auto
  with False show ?thesis
    by (simp add: registrationBase_reservations agentRestarted_def completeRegistration_def Let_def)
qed

lemma registerAgent_counted:
  assumes wf: "fleet_wf s" and c: "reservations_counted s"
    and ok: "registerAgent now r a s = Inr (a', s')"
  shows "reservations_counted s'"
proof (rule counted_put [OF c])
  let ?a = "resumedAgent s a"
  have wfr: "wf_map (st_reservations s)" using wf by (simp add: fleet_wf_def)
  have res: "st_reservations s' = st_reservations (registrationBase now ?a s)"
    using registerAgent_result [OF ok] by (simp add: Let_def)
  show "ag_ID a \<noteq> []"
    using ok TrimSpace_nonempty by (auto simp: registerAgent_def split: if_split_asm)
  show "st_agents s' = AList.update (ag_ID a) a' (st_agents s)"
    using registerAgent_result [OF ok] by (simp add: Let_def)
  have "ag_ActiveNodes a' = ag_ActiveNodes (completeRegistration now s ?a)"
    using registerAgent_result [OF ok] by (simp add: Let_def)
  then show "held (st_reservations s') (ag_ID a) \<le> ag_ActiveNodes a'"
    using completeRegistration_ActiveNodes [OF c wfr, of now ?a] res by simp
  show "map_of (st_reservations s) k = Some b" if "map_of (st_reservations s') k = Some b" for k b
    using that wfr
    by (auto simp: res registrationBase_reservations map_of_filter_wf split: if_splits option.splits)
  show "held (st_reservations s') b \<le> held (st_reservations s) b" if "b \<noteq> ag_ID a" for b
    using that by (simp add: res registrationBase_reservations held_filter)
qed

lemma tryReserve_counted:
  assumes wf: "fleet_wf s" and c: "reservations_counted s"
    and ok: "tryReserveAgentWithPlacement now k target rng s = (res, s')"
    and rng: "rng_ok rng"
  shows "reservations_counted s'"
proof (cases "map_of (st_reservations s) k = None \<and> res \<noteq> None")
  case False
  then have "s' = s"
    using ok by (auto simp: tryReserveAgentWithPlacement_def Let_def split: option.split_asm)
  with c show ?thesis by simp
next
  case True
  then obtain a where "res = Some a" and k: "map_of (st_reservations s) k = None" by blast
  with ok have ok: "tryReserveAgentWithPlacement now k target rng s = (Some a, s')" by simp
  from reserve_fresh [OF ok k rng] obtain a0 where a0: "a0 \<in> set (candidates now target s)"
    "a = a0\<lparr>ag_ActiveNodes := ag_ActiveNodes a0 + 1\<rparr>"
    "s' = s\<lparr>st_agents := AList.update (ag_ID a) a (st_agents s),
            st_reservations := AList.update k (ag_ID a) (st_reservations s)\<rparr>" by metis
  have m: "map_of (st_agents s) (ag_ID a0) = Some a0" by (rule candidates_online(1) [OF wf a0(1)])
  show ?thesis
    using c m countedD(2) [OF c m]
    unfolding reservations_counted_def a0
    by (auto simp: k held_update_new mhas_def split: if_splits)
qed

lemma releaseReservation_counted:
  assumes wf: "fleet_wf s" and c: "reservations_counted s"
  shows "reservations_counted (releaseReservation k s)"
proof (cases "map_of (st_reservations s) k")
  case None
  then have "releaseReservation k s = s"
    using countedD(3) [OF c] by (simp add: releaseReservation_def mhas_def mget_def)
  with c show ?thesis by simp
next
  case (Some a)
  then obtain p where p: "map_of (st_agents s) a = Some p"
    using countedD(1) [OF c] by (auto simp: mhas_def)
  have a: "a \<noteq> []" using p countedD(3) [OF c] by auto
  have wfr: "wf_map (st_reservations s)" using wf by (simp add: fleet_wf_def)
  have pos: "0 < ag_ActiveNodes p"
    using countedD(2) [OF c p] held_positive [OF Some] by linarith
  show ?thesis
  proof (rule counted_put [OF c a])
    let ?t = "releaseReservation k s"
    have t: "st_reservations ?t = AList.delete k (st_reservations s)"
      "st_agents ?t = AList.update a (p\<lparr>ag_ActiveNodes := ag_ActiveNodes p - 1\<rparr>) (st_agents s)"
      using Some p pos by (simp_all add: releaseReservation_def mhas_def mget_def)
    show "st_agents ?t = AList.update a (p\<lparr>ag_ActiveNodes := ag_ActiveNodes p - 1\<rparr>) (st_agents s)"
      by (rule t)
    show "held (st_reservations ?t) a \<le> ag_ActiveNodes (p\<lparr>ag_ActiveNodes := ag_ActiveNodes p - 1\<rparr>)"
      using countedD(2) [OF c p] Some by (simp add: t held_delete [OF wfr])
    show "map_of (st_reservations s) k' = Some b" if "map_of (st_reservations ?t) k' = Some b" for k' b
      using that by (simp add: t split: if_splits)
    show "held (st_reservations ?t) b \<le> held (st_reservations s) b" if "b \<noteq> a" for b
      by (simp add: t held_delete [OF wfr])
  qed
qed

lemma fleet_step_counted:
  assumes "fleet_step s s'" and wf: "fleet_wf s" and c: "reservations_counted s"
  shows "reservations_counted s'"
  using assms(1)
proof (cases rule: fleet_step.cases)
  case (step_register now r a a')
  then show ?thesis using registerAgent_counted wf c by blast
next
  case (step_heartbeat now r h)
  from this show ?thesis
    by (cases rule: heartbeat_cases) (use c wf acceptHeartbeat_counted in auto)
next
  case (step_expire d now)
  let ?f = "\<lambda>_ a. if d < time_Sub now (ag_LastSeen a) \<and> ag_State a \<noteq> AgentOffline
                   then a\<lparr>ag_State := AgentOffline\<rparr> else a"
  have "st_agents s' = map_vals ?f (st_agents s) \<or> st_agents s' = st_agents s"
    "st_reservations s' = st_reservations s"
    using step_expire by (simp_all add: markStaleAgents_def Let_def)
  then show ?thesis
    using c by (auto simp: reservations_counted_def mhas_def)
next
  case (step_capacity r ok k cap a)
  then obtain p t where t: "map_of (st_agents s) k = Some p" "st_reservations s' = st_reservations s"
    "st_agents s' = AList.update k (applyAgentCapacityLocked t p) (st_agents s)"
    by (auto simp: setAgentCapacity_def mhas_def mget_def Let_def split: if_split_asm)
  have "k \<noteq> []" using t(1) countedD(3) [OF c] by auto
  then show ?thesis
    using t countedD(2) [OF c t(1)] by (intro counted_put [OF c]) simp_all
next
  case (step_reserve now k target rng res)
  then show ?thesis using tryReserve_counted [OF wf c] by blast
next
  case (step_release k)
  then show ?thesis using releaseReservation_counted [OF wf c] by simp
next
  case (step_created k e n)
  then show ?thesis using c by (intro counted_same [OF c]) (simp_all add: storeCreatedNode_def split: option.split)
next
  case (step_stopping now k)
  then have t: "st_agents s' = st_agents s"
    "st_reservations s' = st_reservations s \<or> st_reservations s' = AList.delete k (st_reservations s)"
    by (auto simp: markNodeStoppingAndReleaseCapacity_def Let_def split: option.split)
  have "wf_map (st_reservations s)" using wf by (simp add: fleet_wf_def)
  then have "held (st_reservations s') a \<le> held (st_reservations s) a" for a
    using t(2) by (auto simp: held_delete)
  then show ?thesis
    using c t unfolding reservations_counted_def by (auto split: if_splits) (meson order_trans)+
qed (auto intro: counted_same [OF c] simp: subscribe_def unsubscribe_def)

lemma newState_counted: "reservations_counted (newState l)"
  by (simp add: reservations_counted_def newState_def mhas_def)

lemma fleet_reachable_counted:
  assumes "fleet_reachable s" shows "reservations_counted s"
proof -
  obtain l where "fleet_step\<^sup>*\<^sup>* (newState l) s"
    using assms by (auto simp: fleet_reachable_def fleet_initial_def)
  then have "fleet_wf s \<and> reservations_counted s"
    by (induction rule: rtranclp_induct)
       (auto intro: newState_wf newState_counted fleet_step_wf fleet_step_counted)
  then show ?thesis ..
qed

end
