(* ===== verification/FleetProperties.thy ===== *)
theory FleetProperties
  imports FleetPlacement
begin

text \<open>
  The contract of the fleet state towards the rest of the Controller, one theorem per promise, with
  a concrete fleet on which each of them applies.
\<close>

section \<open>A concrete fleet\<close>

definition demo_agent :: agent where
  "demo_agent = zero_agent\<lparr>ag_ID := ''a'', ag_URL := ''u'', ag_Capacity := 2,
     ag_DefaultCapacity := 2, ag_StartedAt := 1, ag_State := AgentOnline\<rparr>"

definition demo_node :: "gostring \<Rightarrow> gostring \<Rightarrow> node" where
  "demo_node k q = zero_node\<lparr>nd_ID := k, nd_State := q, nd_StartedAt := 2, nd_LastSeen := 2\<rparr>"

definition demo_report :: agent_heartbeat where
  "demo_report = \<lparr>hb_Agent = demo_agent\<lparr>ag_LastSeen := 20\<rparr>,
     hb_Nodes = [demo_node ''m'' NodeStopped, demo_node ''n'' NodeReady], hb_Partial = False\<rparr>"

definition demo_fleet :: fleet where
  "demo_fleet = snd (projr (registerAgent 10 ''r'' demo_agent (newState (Some []))))"

definition demo_running :: fleet where
  "demo_running = projr (heartbeat 20 ''r'' demo_report demo_fleet)"

lemmas demo_defs = demo_agent_def demo_node_def demo_report_def demo_fleet_def demo_running_def

lemma demo_fleet_ok: "\<not> isl (registerAgent 10 ''r'' demo_agent (newState (Some [])))"
  by code_simp

lemma demo_running_ok: "\<not> isl (heartbeat 20 ''r'' demo_report demo_fleet)"
  by code_simp

lemma demo_fleet_eval:
  "\<exists>a. registerAgent 10 ''r'' demo_agent (newState (Some [])) = Inr (a, demo_fleet)"
  unfolding demo_fleet_def using demo_fleet_ok by (metis prod.collapse sum.collapse(2))

lemma demo_running_eval: "heartbeat 20 ''r'' demo_report demo_fleet = Inr demo_running"
  unfolding demo_running_def using demo_running_ok by (metis sum.collapse(2))

lemma demo_fleet_reachable: "fleet_reachable demo_fleet"
proof -
  have "fleet_step (newState (Some [])) demo_fleet"
    using demo_fleet_eval step_register by blast
  then show ?thesis
    unfolding fleet_reachable_def fleet_initial_def by blast
qed

lemma demo_running_reachable: "fleet_reachable demo_running"
  using fleet_reachable_step [OF demo_fleet_reachable step_heartbeat [OF demo_running_eval]] .

lemma demo_running_nodes:
  "map_of (st_nodes demo_running) ''n'' = Some ((demo_node ''n'' NodeReady)\<lparr>nd_AgentID := ''a''\<rparr>)"
  "map_of (st_nodes demo_running) ''m'' = Some ((demo_node ''m'' NodeStopped)\<lparr>nd_AgentID := ''a''\<rparr>)"
  by code_simp+

section \<open>Invariants of every reachable state\<close>



text \<open>C1: No handler, in any order and with any report, brings a node back: a node that stopped,
  failed or is stopping is never active again, a stopped one stays stopped, and no known node is
  ever forgotten.\<close>

theorem no_resurrection:
  assumes "fleet_reachable s" and "fleet_step\<^sup>*\<^sup>* s s'"
    and "map_of (st_nodes s) k = Some n"
  shows "\<exists>n'. map_of (st_nodes s') k = Some n'
     \<and> (\<not> node_active n \<longrightarrow> \<not> node_active n')
     \<and> (nd_State n = NodeStopped \<longrightarrow> nd_State n' = NodeStopped)"
proof -
  obtain n' where n': "map_of (st_nodes s') k = Some n'" "lifecycle (nd_State n) (nd_State n')"
    using fleet_steps_progress [OF assms(2) fleet_reachable_wf [OF assms(1)]] assms(3)
    by (auto simp: nodes_progress_def)
  then show ?thesis by (auto simp: lifecycle_def node_active_def)
qed

theorem no_resurrection_witness:
  "\<exists>n'. map_of (st_nodes (markNodeStoppingAndReleaseCapacity 30 ''n'' demo_running)) ''m'' = Some n'
     \<and> nd_State n' = NodeStopped"
proof -
  let ?s' = "markNodeStoppingAndReleaseCapacity 30 ''n'' demo_running"
  have "fleet_step\<^sup>*\<^sup>* demo_running ?s'" by (blast intro: step_stopping)
  from no_resurrection [OF demo_running_reachable this demo_running_nodes(2)] show ?thesis
    by (auto simp: demo_node_def)
qed

text \<open>C6: The index of live nodes is transparent: in a reachable state the list of active nodes the
  Controller reads through it is the node table restricted to live nodes, each node once.\<close>

theorem activeNodes_refines:
  assumes "fleet_reachable s"
  shows "set (activeNodesLocked s) = {n. nodeHasLiveState n \<and> map_of (st_nodes s) (nd_ID n) = Some n}
     \<and> distinct (map nd_ID (activeNodesLocked s))"
proof -
  have wf: "fleet_wf s" by (rule fleet_reachable_wf [OF assms])
  have m: "wf_map (st_nodes s)" by (rule fleet_wf_nodes [OF wf])
  have keys: "(k, n) \<in> set (st_nodes s) \<longleftrightarrow> map_of (st_nodes s) (nd_ID n) = Some n \<and> nd_ID n = k" for k n
    using m fleet_wf_node_ID [OF wf] map_of_SomeI_wf [OF m] by (metis map_of_SomeD)
  have "activeNodesLocked s = map snd (filter (\<lambda>(_, n). nodeHasLiveState n) (st_nodes s))"
  proof (cases "st_activeNodeIDs s")
    case None
    then show ?thesis by (simp add: activeNodesLocked_def filter_map comp_def case_prod_unfold)
  next
    case (Some a)
    then have "a = {k. \<exists>n. map_of (st_nodes s) k = Some n \<and> nodeHasLiveState n}"
      using wf by (simp add: fleet_wf_def nodes_ok_def)
    then have "filter (\<lambda>(k, n). k \<in> a \<and> nodeHasLiveState n) (st_nodes s)
        = filter (\<lambda>(_, n). nodeHasLiveState n) (st_nodes s)"
      using map_of_SomeI_wf [OF m] by (intro filter_cong) auto
    with Some show ?thesis by (simp add: activeNodesLocked_def)
  qed
  moreover have "map (nd_ID \<circ> snd) (filter P (st_nodes s)) = map fst (filter P (st_nodes s))" for P
    using keys by (auto simp: comp_def)
  moreover have "snd ` {x \<in> set (st_nodes s). nodeHasLiveState (snd x)}
      = {n. nodeHasLiveState n \<and> map_of (st_nodes s) (nd_ID n) = Some n}"
  proof (intro equalityI subsetI)
    fix n assume "n \<in> {n. nodeHasLiveState n \<and> map_of (st_nodes s) (nd_ID n) = Some n}"
    then have "(nd_ID n, n) \<in> {x \<in> set (st_nodes s). nodeHasLiveState (snd x)}"
      using keys by simp
    then show "n \<in> snd ` {x \<in> set (st_nodes s). nodeHasLiveState (snd x)}" by (rule image_eqI [rotated]) simp
  qed (auto simp: keys)
  moreover have "distinct (map fst (filter (\<lambda>(_, n). nodeHasLiveState n) (st_nodes s)))"
    using m by simp
  ultimately show ?thesis
    by (simp only: case_prod_unfold map_map set_map set_filter simp_thms)
qed

theorem activeNodes_refines_witness:
  "set (activeNodesLocked demo_running)
     = {n. nodeHasLiveState n \<and> map_of (st_nodes demo_running) (nd_ID n) = Some n}"
  using activeNodes_refines [OF demo_running_reachable] by blast

section \<open>Heartbeats\<close>

text \<open>C3: What a report does to every entry of the node table. An accepted report that is no replay
  gives each listed node the merge of its old and its reported record, stops - when it is a full
  report - the Agent's own unlisted nodes that are not reserved, and leaves every other entry as it
  was; it is accepted exactly when the Agent instance is the registered one and every listed node is
  named, listed once, and owned and reserved by nobody else.\<close>

theorem heartbeat_node_table:
  assumes "fleet_reachable s"
  shows "case heartbeat now r h s of
       Inr s' \<Rightarrow> acceptable s h
         \<and> (if heartbeatRepeated s h then s' = s
            else \<forall>k. map_of (st_nodes s') k = nodeAfterReport now h s k)
     | Inl _ \<Rightarrow> \<not> acceptable s h"
proof (cases "heartbeat now r h s")
  case (Inl e)
  then show ?thesis using heartbeat_accepted [of now r h s] by auto
next
  case (Inr s')
  then have "acceptable s h" using heartbeat_accepted by blast
  moreover from Inr have "if heartbeatRepeated s h then s' = s
      else \<forall>k. map_of (st_nodes s') k = nodeAfterReport now h s k"
    by (cases rule: heartbeat_cases)
       (use acceptHeartbeat_node [OF fleet_reachable_wf [OF assms]] in auto)
  ultimately show ?thesis using Inr by simp
qed

theorem heartbeat_node_table_witness:
  "map_of (st_nodes demo_running) ''n'' = nodeAfterReport 20 demo_report demo_fleet ''n''"
proof -
  have "\<not> heartbeatRepeated demo_fleet demo_report" by code_simp
  then show ?thesis
    using heartbeat_node_table [OF demo_fleet_reachable, where now = 20 and r = "''r''" and h = demo_report] demo_running_eval
    by simp
qed

text \<open>C4: A heartbeat never changes a node of another Agent, whatever it reports.\<close>

theorem heartbeat_foreign_nodes_safe:
  assumes "fleet_reachable s" and "heartbeat now r h s = Inr s'"
    and "map_of (st_nodes s) k = Some n" and "nd_AgentID n \<notin> {[], ag_ID (hb_Agent h)}"
  shows "map_of (st_nodes s') k = Some n"
  using heartbeat_foreign_node [OF fleet_reachable_wf [OF assms(1)] assms(2-4)] .

definition demo_second :: fleet where
  "demo_second = snd (projr (registerAgent 30 ''r'' (demo_agent\<lparr>ag_ID := ''b''\<rparr>) demo_running))"

definition demo_second_report :: agent_heartbeat where
  "demo_second_report = \<lparr>hb_Agent = demo_agent\<lparr>ag_ID := ''b'', ag_LastSeen := 40\<rparr>,
     hb_Nodes = [], hb_Partial = False\<rparr>"

lemma demo_second_reachable: "fleet_reachable demo_second"
proof -
  have "\<not> isl (registerAgent 30 ''r'' (demo_agent\<lparr>ag_ID := ''b''\<rparr>) demo_running)" by code_simp
  then have "\<exists>a. registerAgent 30 ''r'' (demo_agent\<lparr>ag_ID := ''b''\<rparr>) demo_running = Inr (a, demo_second)"
    unfolding demo_second_def by (metis prod.collapse sum.collapse(2))
  then show ?thesis using fleet_reachable_step [OF demo_running_reachable] step_register by blast
qed

theorem heartbeat_foreign_nodes_safe_witness:
  "\<exists>s'. heartbeat 40 ''r'' demo_second_report demo_second = Inr s'
     \<and> map_of (st_nodes s') ''n'' = map_of (st_nodes demo_second) ''n''"
proof -
  have "\<not> isl (heartbeat 40 ''r'' demo_second_report demo_second)" by code_simp
  then obtain s' where s': "heartbeat 40 ''r'' demo_second_report demo_second = Inr s'"
    by (metis sum.collapse(2))
  obtain n where n: "map_of (st_nodes demo_second) ''n'' = Some n" "nd_AgentID n = ''a''"
    by (rule that [of "(demo_node ''n'' NodeReady)\<lparr>nd_AgentID := ''a''\<rparr>"]) code_simp+
  have "nd_AgentID n \<notin> {[], ag_ID (hb_Agent demo_second_report)}"
    by (simp add: n demo_second_report_def)
  from heartbeat_foreign_nodes_safe [OF demo_second_reachable s' n(1) this] s' n show ?thesis by simp
qed

text \<open>Delivering a full report a second time, at any later moment before another one, is
  accepted and changes nothing.\<close>

theorem heartbeat_idempotent:
  assumes "fleet_reachable s" and "heartbeat now r h s = Inr s'"
    and "\<not> hb_Partial h" and "ag_LastSeen (hb_Agent h) \<noteq> 0"
  shows "heartbeat now' r' h s' = Inr s'"
  using heartbeat_replay [OF fleet_reachable_wf [OF assms(1)] assms(2-4)] .

theorem heartbeat_idempotent_witness:
  "heartbeat 99 ''x'' demo_report demo_running = Inr demo_running"
  by (rule heartbeat_idempotent [OF demo_fleet_reachable demo_running_eval])
     (simp_all add: demo_report_def)

text \<open>A report older than the last accepted one only confirms exits: it changes no entry of the
  node table except entries of listed nodes that it reports as stopped, which become stopped.\<close>

theorem stale_heartbeat_only_stops:
  assumes "fleet_reachable s" and "heartbeat now r h s = Inr s'" and "heartbeatStale s h"
  shows "map_of (st_nodes s') k = map_of (st_nodes s) k
     \<or> (\<exists>n n'. n \<in> set (hb_Nodes h) \<and> nd_ID n = k \<and> nd_State n = NodeStopped
           \<and> map_of (st_nodes s') k = Some n' \<and> nd_State n' = NodeStopped)"
  using heartbeat_stale_nodes [OF fleet_reachable_wf [OF assms(1)] assms(2,3)] .

definition demo_stale_report :: agent_heartbeat where
  "demo_stale_report = \<lparr>hb_Agent = demo_agent\<lparr>ag_LastSeen := 15\<rparr>,
     hb_Nodes = [demo_node ''n'' NodeStopped, demo_node ''q'' NodeReady], hb_Partial = True\<rparr>"

theorem stale_heartbeat_only_stops_witness:
  "\<exists>s'. heartbeat 50 ''r'' demo_stale_report demo_running = Inr s'
     \<and> map_of (st_nodes s') ''q'' = None"
proof -
  have "\<not> isl (heartbeat 50 ''r'' demo_stale_report demo_running)" by code_simp
  then obtain s' where s': "heartbeat 50 ''r'' demo_stale_report demo_running = Inr s'"
    by (metis sum.collapse(2))
  have "heartbeatStale demo_running demo_stale_report" by code_simp
  from stale_heartbeat_only_stops [OF demo_running_reachable s' this, of "''q''"] s'
  show ?thesis
    by (auto simp: demo_stale_report_def demo_node_def NodeStopped_def NodeReady_def) code_simp
qed

section \<open>Registration\<close>

text \<open>A registered Agent instance is replaced only by a later one and only after it went
  offline. The replacement leaves none of the old instance's nodes live and gives back every place
  reserved on it; nodes of other Agents are untouched.\<close>

theorem restart_replaces_instance:
  assumes "fleet_reachable s" and "agentRestarted s a" and "ag_StartedAt a \<noteq> 0"
    and "registerAgent now r a s = Inr (a', s')"
  shows "\<exists>p. map_of (st_agents s) (ag_ID a) = Some p
      \<and> ag_StartedAt p < ag_StartedAt a \<and> \<not> agentIsOnline p now
      \<and> reservedBy s' (ag_ID a) = 0
      \<and> (\<forall>k n. map_of (st_nodes s') k = Some n \<and> nd_AgentID n = ag_ID a \<longrightarrow> \<not> nodeHasLiveState n)
      \<and> (\<forall>k n. map_of (st_nodes s) k = Some n \<and> nd_AgentID n \<noteq> ag_ID a
             \<longrightarrow> map_of (st_nodes s') k = Some n)"
proof -
  have wf: "fleet_wf s" by (rule fleet_reachable_wf [OF assms(1)])
  obtain p where p: "map_of (st_agents s) (ag_ID a) = Some p"
    using assms(2) by (auto simp: agentRestarted_def mhas_def)
  have a: "resumedAgent s a = a" using assms(3) by (simp add: resumedAgent_def)
  have "ag_StartedAt p < ag_StartedAt a \<and> \<not> agentIsOnline p now"
    using assms(2,4) p a
    by (auto simp: registerAgent_def Let_def mget_def agentRestarted_def split: if_split_asm)
  moreover have "reservedBy s' (ag_ID a) = 0"
    using registerAgent_result [OF assms(4)] assms(2) a
    by (simp add: Let_def reservedBy_held registrationBase_reservations held_filter)
  moreover have nodes: "map_of (st_nodes s') k =
     (case map_of (st_nodes s) k of None \<Rightarrow> None
      | Some n \<Rightarrow> (case failedByRestart (ag_ID a) now n of None \<Rightarrow> Some n | Some n' \<Rightarrow> Some n'))" for k
    using registerAgent_nodes [OF assms(4)] assms(2) a forgetRestartedAgent_nodes [OF wf]
    by (simp add: registrationBase_def)
  ultimately show ?thesis
    using p by (auto simp: nodes failedByRestart_def nodeHasLiveState_def split: option.splits if_splits)
qed

definition demo_restart :: "fleet_error + (agent \<times> fleet)" where
  "demo_restart = registerAgent (30 * Second) ''s'' (demo_agent\<lparr>ag_StartedAt := 2\<rparr>) demo_running"

theorem restart_replaces_instance_witness:
  "\<exists>a' s'. demo_restart = Inr (a', s') \<and> reservedBy s' ''a'' = 0"
proof -
  have "\<not> isl demo_restart" by code_simp
  then obtain a' s' where s': "registerAgent (30 * Second) ''s'' (demo_agent\<lparr>ag_StartedAt := 2\<rparr>) demo_running
      = Inr (a', s')"
    unfolding demo_restart_def by (metis prod.collapse sum.collapse(2))
  have "agentRestarted demo_running (demo_agent\<lparr>ag_StartedAt := 2\<rparr>)" by code_simp
  from restart_replaces_instance [OF demo_running_reachable this _ s'] s' show ?thesis
    by (auto simp: demo_restart_def demo_agent_def)
qed

section \<open>Placement\<close>

text \<open>C5: Balanced placement of a new node either finds no Agent with room, or reserves exactly one
  place on an online Agent, of the target if one is named, without exceeding its capacity; and no
  other Agent with room comes before the chosen one in the balance order.\<close>

theorem placement_balanced:
  assumes "fleet_reachable s" and "map_of (st_reservations s) k = None"
    and "\<forall>a \<in> set (map snd (st_agents s)). ag_Capacity a \<le> MaxInt64"
  shows "case tryReserveAgentWithPlacement now k target None s of
      (None, s') \<Rightarrow> s' = s \<and> (\<forall>a \<in> set (map snd (st_agents s)). \<not> placementCandidate now target a)
    | (Some a, s') \<Rightarrow>
        (\<exists>a0. map_of (st_agents s) (ag_ID a) = Some a0 \<and> placementCandidate now target a0
           \<and> a = a0\<lparr>ag_ActiveNodes := ag_ActiveNodes a0 + 1\<rparr>
           \<and> (0 < ag_Capacity a \<longrightarrow> ag_ActiveNodes a \<le> ag_Capacity a)
           \<and> map_of (st_agents s') = (map_of (st_agents s))(ag_ID a \<mapsto> a)
           \<and> map_of (st_reservations s') = (map_of (st_reservations s))(k \<mapsto> ag_ID a)
           \<and> (\<forall>b \<in> set (map snd (st_agents s)). placementCandidate now target b
                  \<longrightarrow> \<not> balancedAgentBefore b a0))"
proof (cases "tryReserveAgentWithPlacement now k target None s")
  case (Pair res s')
  show ?thesis
  proof (cases res)
    case None
    then have "pickBalanced None (candidates now target s) = None \<and> s' = s"
      using Pair assms(2)
      by (auto simp: tryReserveAgentWithPlacement_def candidates_def Let_def split: option.split_asm)
    then have "candidates now target s = [] \<and> s' = s" by (simp add: pickBalanced_None)
    with Pair None show ?thesis by (auto simp: candidates_def filter_empty_conv)
  next
    case (Some a)
    with Pair have ok: "tryReserveAgentWithPlacement now k target None s = (Some a, s')" by simp
    have "rng_ok None" by (simp add: rng_ok_def)
    from reserve_fresh [OF ok assms(2) this] obtain a0 where a0:
      "a0 \<in> set (candidates now target s)" "a = a0\<lparr>ag_ActiveNodes := ag_ActiveNodes a0 + 1\<rparr>"
      "pickBalanced None (candidates now target s) = Some a0"
      "s' = s\<lparr>st_agents := AList.update (ag_ID a) a (st_agents s),
              st_reservations := AList.update k (ag_ID a) (st_reservations s)\<rparr>"
      by blast
    note online = candidates_online [OF fleet_reachable_wf [OF assms(1)] a0(1)]
    have same: "ag_ID a = ag_ID a0" "ag_Capacity a = ag_Capacity a0"
      "ag_ActiveNodes a = ag_ActiveNodes a0 + 1" by (simp_all add: a0(2))
    have "\<forall>b \<in> set (candidates now target s). ag_Capacity b \<le> MaxInt64"
      using assms(3) by (auto simp: candidates_def)
    then have "\<forall>b \<in> set (candidates now target s). \<not> balancedAgentBefore b a0"
      using pickBalanced_least [where sel = None, OF _ a0(3)] by simp
    then have "\<not> balancedAgentBefore b a0"
      if "b \<in> set (map snd (st_agents s))" "placementCandidate now target b" for b
      using that by (simp add: candidates_def)
    moreover have "map_of (st_agents s) (ag_ID a) = Some a0" using online(1) by (simp only: same)
    moreover have "0 < ag_Capacity a \<longrightarrow> ag_ActiveNodes a \<le> ag_Capacity a"
      using online(3) by (auto simp: same hasRoom_def)
    moreover have "placementCandidate now target a0" using a0(1) by (simp add: candidates_def)
    moreover have "map_of (st_agents s') = (map_of (st_agents s))(ag_ID a \<mapsto> a)"
      "map_of (st_reservations s') = (map_of (st_reservations s))(k \<mapsto> ag_ID a)"
      unfolding a0(4) by simp_all
    ultimately have "map_of (st_agents s) (ag_ID a) = Some a0 \<and> placementCandidate now target a0
           \<and> a = a0\<lparr>ag_ActiveNodes := ag_ActiveNodes a0 + 1\<rparr>
           \<and> (0 < ag_Capacity a \<longrightarrow> ag_ActiveNodes a \<le> ag_Capacity a)
           \<and> map_of (st_agents s') = (map_of (st_agents s))(ag_ID a \<mapsto> a)
           \<and> map_of (st_reservations s') = (map_of (st_reservations s))(k \<mapsto> ag_ID a)
           \<and> (\<forall>b \<in> set (map snd (st_agents s)). placementCandidate now target b
                  \<longrightarrow> \<not> balancedAgentBefore b a0)"
      using a0(2) by (intro conjI ballI impI) blast+
    then show ?thesis unfolding Pair Some prod.case option.case by (rule exI)
  qed
qed

theorem placement_balanced_witness:
  "case tryReserveAgentWithPlacement 31 ''w'' [] None demo_second of
     (Some a, s') \<Rightarrow> map_of (st_reservations s') ''w'' = Some (ag_ID a) | _ \<Rightarrow> False"
proof -
  have r: "map_of (st_reservations demo_second) ''w'' = None" by code_simp
  have c: "\<forall>a \<in> set (map snd (st_agents demo_second)). ag_Capacity a \<le> MaxInt64" by code_simp
  have "\<exists>a \<in> set (map snd (st_agents demo_second)). placementCandidate 31 [] a" by code_simp
  with placement_balanced [OF demo_second_reachable r c, of 31 "[]"] show ?thesis
    by (auto split: prod.split option.splits)
qed

text \<open>The Agent a new node is placed on does not depend on the iteration order of the Agent map:
  two states with the same Agents in any order choose the same one, for balanced placement and for
  seeded random placement alike.\<close>

theorem placement_order_independent:
  assumes "fleet_reachable s" and "fleet_reachable t"
    and "map_of (st_agents t) = map_of (st_agents s)"
    and "st_reservations t = st_reservations s"
    and "\<forall>a \<in> set (map snd (st_agents s)). ag_Capacity a \<le> MaxInt64"
  shows "fst (tryReserveAgentWithPlacement now k target rng t)
       = fst (tryReserveAgentWithPlacement now k target rng s)"
proof -
  have wf: "wf_map (st_agents s)" "wf_map (st_agents t)"
    using fleet_reachable_wf assms(1,2) by (auto simp: fleet_wf_def agents_ok_def)
  then have sets: "set (st_agents t) = set (st_agents s)"
    using assms(3) by (simp add: map_of_inject_set)
  have ids: "map ag_ID (map snd (st_agents u)) = map fst (st_agents u)" if "fleet_reachable u" for u
    using fleet_reachable_wf [OF that] map_of_SomeI_wf [of "st_agents u"]
    by (auto simp: fleet_wf_def agents_ok_def)
  let ?c = "candidates now target"
  have d: "distinct (map ag_ID (?c u))" if "fleet_reachable u" for u
    using ids [OF that] fleet_reachable_wf [OF that]
    unfolding candidates_def by (metis agents_ok_def distinct_map_filter fleet_wf_def)
  have cs: "set (?c t) = set (?c s)" using sets by (simp add: candidates_def)
  have cap: "\<forall>a \<in> set (?c s). ag_Capacity a \<le> MaxInt64" using assms(5) by (auto simp: candidates_def)
  have pick: "pickBalanced None (?c t) = pickBalanced None (?c s)"
    by (rule pickBalanced_canonical [OF cap d [OF assms(1)] cs])
  have m: "mset (?c t) = mset (?c s)"
    using cs d [OF assms(1)] d [OF assms(2)] by (simp add: set_eq_iff_mset_eq_distinct distinct_map)
  then have srt: "sort_Slice (\<lambda>a b. ag_ID a < ag_ID b) (?c t) = sort_Slice (\<lambda>a b. ag_ID a < ag_ID b) (?c s)"
    by (intro by_agent_id.sort_Slice_canonical) (use d [OF assms(2)] in simp_all)
  have len: "length (?c t) = length (?c s)" using m by (metis size_mset)
  show ?thesis
    using assms(3,4) pick srt len cs
    by (cases rng) (auto simp: tryReserveAgentWithPlacement_def candidates_def [symmetric] Let_def
        split: option.splits)
qed

definition demo_pair :: "gostring \<Rightarrow> gostring \<Rightarrow> fleet" where
  "demo_pair x y = snd (projr (registerAgent 10 ''r'' (demo_agent\<lparr>ag_ID := y\<rparr>)
     (snd (projr (registerAgent 10 ''r'' (demo_agent\<lparr>ag_ID := x\<rparr>) (newState (Some [])))))))"

lemma demo_pair_reachable:
  assumes "\<not> isl (registerAgent 10 ''r'' (demo_agent\<lparr>ag_ID := x\<rparr>) (newState (Some [])))"
    and "\<not> isl (registerAgent 10 ''r'' (demo_agent\<lparr>ag_ID := y\<rparr>)
           (snd (projr (registerAgent 10 ''r'' (demo_agent\<lparr>ag_ID := x\<rparr>) (newState (Some []))))))"
  shows "fleet_reachable (demo_pair x y)"
proof -
  have start: "fleet_reachable (newState (Some []))"
    by (auto simp: fleet_reachable_def fleet_initial_def)
  have step: "fleet_step s (snd (projr (registerAgent now r a s)))"
    if "\<not> isl (registerAgent now r a s)" for now r a s
    using that by (metis prod.collapse step_register sum.collapse(2))
  show ?thesis
    unfolding demo_pair_def
    using fleet_reachable_step [OF fleet_reachable_step [OF start step [OF assms(1)]] step [OF assms(2)]] .
qed

theorem placement_order_independent_witness:
  "fst (tryReserveAgentWithPlacement 11 ''w'' [] None (demo_pair ''b'' ''a''))
     = fst (tryReserveAgentWithPlacement 11 ''w'' [] None (demo_pair ''a'' ''b''))"
proof (rule placement_order_independent)
  show "fleet_reachable (demo_pair ''a'' ''b'')" "fleet_reachable (demo_pair ''b'' ''a'')"
    by (rule demo_pair_reachable; code_simp)+
  have "set (st_agents (demo_pair ''b'' ''a'')) = set (st_agents (demo_pair ''a'' ''b''))"
    "wf_map (st_agents (demo_pair ''b'' ''a''))" "wf_map (st_agents (demo_pair ''a'' ''b''))"
    by code_simp+
  then show "map_of (st_agents (demo_pair ''b'' ''a'')) = map_of (st_agents (demo_pair ''a'' ''b''))"
    by (simp add: map_of_inject_set)
  show "st_reservations (demo_pair ''b'' ''a'') = st_reservations (demo_pair ''a'' ''b'')" by code_simp
  show "\<forall>a \<in> set (map snd (st_agents (demo_pair ''a'' ''b''))). ag_Capacity a \<le> MaxInt64" by code_simp
qed

section \<open>Capacity\<close>

text \<open>An edit of an Agent's capacity never raises the number of Peers admitted on it before the
  Agent acknowledged the edit: the effective capacity is positive, at most the desired one, and at
  most what it was before.\<close>

theorem capacity_edit_safe:
  assumes "setAgentCapacity revision saved k capacity s = Inr (a, s')"
    and "map_of (st_agents s) k = Some p" and "ag_ID p = k" and "revision \<noteq> ag_CapacityRevision p"
    and "0 < ag_Capacity p"
  shows "ag_CapacityPending a \<and> 0 < ag_Capacity a \<and> ag_Capacity a \<le> ag_Capacity p
     \<and> ag_Capacity a \<le> (case capacity of Some c \<Rightarrow> c | None \<Rightarrow> ag_DefaultCapacity p)
     \<and> map_of (st_agents s') = (map_of (st_agents s))(k \<mapsto> a)
     \<and> st_nodes s' = st_nodes s \<and> st_reservations s' = st_reservations s"
  using assms
  by (cases capacity)
     (auto simp: setAgentCapacity_def mhas_def mget_def applyAgentCapacityLocked_def desiredCapacity_def
        Let_def split: if_split_asm)

theorem capacity_edit_safe_witness:
  "case setAgentCapacity ''new'' True ''a'' (Some 5) demo_running of
     Inr (a, s') \<Rightarrow> ag_Capacity a \<le> 2 | Inl _ \<Rightarrow> False"
proof -
  have "\<not> isl (setAgentCapacity ''new'' True ''a'' (Some 5) demo_running)" by code_simp
  then obtain a s' where s': "setAgentCapacity ''new'' True ''a'' (Some 5) demo_running = Inr (a, s')"
    by (metis prod.collapse sum.collapse(2))
  obtain p where p: "map_of (st_agents demo_running) ''a'' = Some p" "ag_ID p = ''a''"
    "''new'' \<noteq> ag_CapacityRevision p" "0 < ag_Capacity p" "ag_Capacity p \<le> 2"
  proof (cases "map_of (st_agents demo_running) ''a''")
    case None
    moreover have "map_of (st_agents demo_running) ''a'' \<noteq> None" by code_simp
    ultimately show ?thesis by simp
  next
    case (Some p)
    have "let p = mget zero_agent (st_agents demo_running) ''a'' in ag_ID p = ''a''
      \<and> ''new'' \<noteq> ag_CapacityRevision p \<and> 0 < ag_Capacity p \<and> ag_Capacity p \<le> 2" by code_simp
    with Some that show ?thesis by (simp add: mget_def Let_def)
  qed
  from capacity_edit_safe [OF s' p(1-4)] p(5) s' show ?thesis by simp
qed

end
