(* ===== verification/GoDuration.thy ===== *)
theory GoDuration
  imports GoFloat
begin

text \<open>
  \<open>time.ParseDuration\<close> of Go's standard library, byte for byte: optional sign, then a sequence of
  decimal numbers with units. The integer part is checked against \<open>2 ^ 63\<close> after every digit, the
  fraction is scaled in \<open>float64\<close>, and the running sum is a \<open>uint64\<close>. Errors carry no text here:
  the callers only test for them or wrap them.
\<close>

definition two63 :: int where "two63 = 9223372036854775808"
definition two64 :: int where "two64 = 18446744073709551616"

definition is_digit :: "char \<Rightarrow> bool" where
  "is_digit c \<longleftrightarrow> 48 \<le> (of_char c :: int) \<and> (of_char c :: int) \<le> 57"

definition digit_val :: "char \<Rightarrow> int" where
  "digit_val c = of_char c - 48"

text \<open>\<open>leadingInt\<close>: None is the overflow error.\<close>

fun leadingInt :: "int \<Rightarrow> gostring \<Rightarrow> (int \<times> gostring) option" where
  "leadingInt x [] = Some (x, [])"
| "leadingInt x (c # cs) =
     (if \<not> is_digit c then Some (x, c # cs)
      else if two63 div 10 < x then None
      else let y = x * 10 + digit_val c in if two63 < y then None else leadingInt y cs)"

text \<open>\<open>leadingFraction\<close>: the digits past the point; digits that do not fit are skipped.\<close>

fun leadingFraction :: "int \<Rightarrow> float64 \<Rightarrow> bool \<Rightarrow> gostring \<Rightarrow> int \<times> float64 \<times> gostring" where
  "leadingFraction x scale overflow [] = (x, scale, [])"
| "leadingFraction x scale overflow (c # cs) =
     (if \<not> is_digit c then (x, scale, c # cs)
      else if overflow then leadingFraction x scale True cs
      else if (two63 - 1) div 10 < x then leadingFraction x scale True cs
      else let y = x * 10 + digit_val c
           in if two63 < y then leadingFraction x scale True cs
              else leadingFraction y (float_mul scale (Fin 10)) False cs)"

definition unit_char :: "char \<Rightarrow> bool" where
  "unit_char c \<longleftrightarrow> c \<noteq> CHR ''.'' \<and> \<not> is_digit c"

definition unitMap :: "gostring \<Rightarrow> int option" where
  "unitMap u =
     (if u = ''ns'' then Some 1
      else if u = ''us'' then Some 1000
      else if map of_char u = [194, 181, 115 :: nat] then Some 1000
      else if map of_char u = [206, 188, 115 :: nat] then Some 1000
      else if u = ''ms'' then Some 1000000
      else if u = ''s'' then Some 1000000000
      else if u = ''m'' then Some 60000000000
      else if u = ''h'' then Some 3600000000000
      else None)"

text \<open>One number with its unit: the value in nanoseconds and the rest of the input.\<close>

definition duration_component :: "gostring \<Rightarrow> (int \<times> gostring) option" where
  "duration_component s =
     (case s of [] \<Rightarrow> None
      | c # _ \<Rightarrow>
        if c \<noteq> CHR ''.'' \<and> \<not> is_digit c then None
        else case leadingInt 0 s of None \<Rightarrow> None
        | Some (v, s1) \<Rightarrow>
          let pre = length s1 \<noteq> length s;
              (f, scale, s2, post) =
                (case s1 of d # ds \<Rightarrow>
                   if d = CHR ''.'' then
                     (case leadingFraction 0 (Fin 1) False ds of
                        (f, scale, r) \<Rightarrow> (f, scale, r, length r \<noteq> length ds))
                   else (0, Fin 1, s1, False)
                 | [] \<Rightarrow> (0, Fin 1, s1, False));
              u = takeWhile unit_char s2;
              s3 = dropWhile unit_char s2
          in if \<not> pre \<and> \<not> post then None
             else if u = [] then None
             else case unitMap u of None \<Rightarrow> None
             | Some unit \<Rightarrow>
               if two63 div unit < v then None
               else if f = 0 then Some (v * unit, s3)
               else let w = v * unit
                          + float_trunc (float_mul (float_of_int f)
                                   (float_div (float_of_int unit) scale))
                    in if two63 < w then None else Some (w, s3))"

text \<open>The loop over the components; each one consumes at least one byte, so the length is enough fuel.\<close>

fun duration_sum :: "nat \<Rightarrow> int \<Rightarrow> gostring \<Rightarrow> int option" where
  "duration_sum 0 d s = (if s = [] then Some d else None)"
| "duration_sum (Suc fuel) d s =
     (if s = [] then Some d
      else case duration_component s of None \<Rightarrow> None
      | Some (v, r) \<Rightarrow>
        let d' = (d + v) mod two64 in if two63 < d' then None else duration_sum fuel d' r)"

definition ParseDuration :: "gostring \<Rightarrow> duration option" where
  "ParseDuration orig =
     (let neg = (case orig of c # _ \<Rightarrow> c = CHR ''-'' | [] \<Rightarrow> False);
          s = (case orig of c # cs \<Rightarrow> if c = CHR ''-'' \<or> c = CHR ''+'' then cs else orig | [] \<Rightarrow> [])
      in if s = ''0'' then Some 0
         else if s = [] then None
         else case duration_sum (length s) 0 s of None \<Rightarrow> None
         | Some d \<Rightarrow> if neg then Some (- d) else if two63 - 1 < d then None else Some d)"

section \<open>Facts\<close>

lemma leadingInt_rest:
  "leadingInt x s = Some (v, r) \<Longrightarrow> length r \<le> length s"
  by (induction x s rule: leadingInt.induct) (auto split: if_splits simp: Let_def)

lemma leadingFraction_rest: "leadingFraction x sc ov s = (f, sc', r) \<Longrightarrow> length r \<le> length s"
  by (induction x sc ov s rule: leadingFraction.induct) (auto split: if_splits simp: Let_def le_SucI)

lemma dropWhile_shorter: "takeWhile P s \<noteq> [] \<Longrightarrow> length (dropWhile P s) < length s"
  by (cases s) (auto simp: length_dropWhile_le less_Suc_eq_le split: if_splits)

text \<open>Every component consumes input: the fuel of \<open>duration_sum\<close> never runs out.\<close>

lemma duration_component_shorter:
  assumes "duration_component s = Some (w, r)" shows "length r < length s"
proof -
  obtain v s1 where s1: "leadingInt 0 s = Some (v, s1)"
    using assms by (auto simp: duration_component_def split: list.splits if_splits option.splits)
  then have l1: "length s1 \<le> length s" by (rule leadingInt_rest)
  define rest where "rest = (case s1 of d # ds \<Rightarrow>
      if d = CHR ''.'' then snd (snd (leadingFraction 0 (Fin 1) False ds)) else s1 | [] \<Rightarrow> s1)"
  have "length (snd (snd (leadingFraction x sc ov t))) \<le> length t" for x sc ov t
    by (metis leadingFraction_rest prod.collapse)
  then have l2: "length rest \<le> length s1"
    by (auto simp: rest_def le_SucI split: list.splits)
  have "takeWhile unit_char rest \<noteq> [] \<and> r = dropWhile unit_char rest"
    using assms s1 unfolding duration_component_def rest_def
    by (cases s; cases s1)
       (auto simp: Let_def split: if_splits option.splits prod.splits)
  with l1 l2 dropWhile_shorter show ?thesis by fastforce
qed

lemma duration_sum_bound:
  "0 \<le> d \<Longrightarrow> d \<le> two63 \<Longrightarrow> duration_sum n d s = Some e \<Longrightarrow> 0 \<le> e \<and> e \<le> two63"
proof (induction n arbitrary: d s)
  case 0
  then show ?case by (simp split: if_splits)
next
  case (Suc n)
  show ?case
  proof (cases "s = []")
    case True
    with Suc.prems show ?thesis by simp
  next
    case False
    with Suc.prems(3) obtain v r where
      "duration_sum n ((d + v) mod two64) r = Some e" "(d + v) mod two64 \<le> two63"
      by (auto simp: Let_def split: option.splits if_splits)
    then show ?thesis by (intro Suc.IH [of "(d + v) mod two64" r]) (auto simp: two64_def)
  qed
qed

lemma duration_sum_fuel:
  "length s \<le> n \<Longrightarrow> duration_sum (Suc n) d s = duration_sum n d s"
proof (induction n arbitrary: d s)
  case 0
  then show ?case by simp
next
  case (Suc n)
  have step: "duration_sum (Suc n) e r = duration_sum n e r" if "duration_component s = Some (v, r)" for v r e
    using Suc.prems duration_component_shorter [OF that] by (intro Suc.IH) simp
  show ?case
  proof (cases "duration_component s")
    case None
    then show ?thesis by simp
  next
    case (Some vr)
    obtain v r where vr: "vr = (v, r)" by (cases vr)
    from Some vr step have e: "duration_sum (Suc n) e r = duration_sum n e r" for e by blast
    have u: "duration_sum (Suc k) d s = (if s = [] then Some d else
        let d' = (d + v) mod two64 in if two63 < d' then None else duration_sum k d' r)" for k
      using Some vr by simp
    show ?thesis by (simp only: u e)
  qed
qed

text \<open>A parsed duration is an \<open>int64\<close>.\<close>

lemma ParseDuration_range:
  assumes "ParseDuration s = Some d" shows "MinInt64 \<le> d" and "d \<le> MaxInt64"
proof -
  have *: "duration_sum n 0 t = Some e \<Longrightarrow> 0 \<le> e \<and> e \<le> 9223372036854775808" for n t e
    using duration_sum_bound [of 0 n t e] by (simp add: two63_def)
  from assms show "MinInt64 \<le> d" "d \<le> MaxInt64"
    by (auto simp: ParseDuration_def Let_def MinInt64_def MaxInt64_def two63_def
             split: if_splits option.splits dest!: *)
qed

lemma ParseDuration_empty [simp]: "ParseDuration [] = None"
  by (simp add: ParseDuration_def)

text \<open>Without a leading minus sign the result is not negative.\<close>

lemma ParseDuration_nonneg:
  assumes "ParseDuration s = Some d" "d < 0" shows "\<exists>cs. s = CHR ''-'' # cs"
proof -
  have *: "duration_sum n 0 t = Some e \<Longrightarrow> 0 \<le> e" for n t e
    using duration_sum_bound [of 0 n t e] by (simp add: two63_def)
  from assms show ?thesis
    by (auto simp: ParseDuration_def Let_def simp del: duration_sum.simps
             split: if_splits option.splits list.splits dest!: *)
qed

lemmas duration_eval = ParseDuration_def duration_component_def two63_def two64_def is_digit_def
  digit_val_def unit_char_def unitMap_def Let_def

end
