(* ===== verification/GoStrconv.thy ===== *)
theory GoStrconv
  imports GoDuration
begin

text \<open>
  The number formats of \<open>strconv\<close> the code prints and parses: decimal integers (\<open>Itoa\<close>,
  \<open>FormatInt\<close>), the shortest decimal of a \<open>float64\<close> (\<open>FormatFloat(x, 'f', -1, 64)\<close>) and
  \<open>ParseFloat\<close>, exactly rounded.
\<close>

section \<open>Integers\<close>

definition digit_char :: "int \<Rightarrow> char" where
  "digit_char d = char_of (48 + d)"

function dec_digits :: "int \<Rightarrow> gostring" where
  "dec_digits n = (if n < 10 then [digit_char n] else dec_digits (n div 10) @ [digit_char (n mod 10)])"
  by auto
termination by (relation "measure nat") auto

declare dec_digits.simps [simp del]

definition Itoa :: "int \<Rightarrow> gostring" where
  "Itoa i = (if i < 0 then CHR ''-'' # dec_digits (- i) else dec_digits i)"

definition digits_value :: "gostring \<Rightarrow> int" where
  "digits_value s = foldl (\<lambda>a c. a * 10 + digit_val c) 0 s"

lemma digit_char_props:
  assumes "0 \<le> d" "d < 10"
  shows "is_digit (digit_char d)" "digit_val (digit_char d) = d"
proof -
  have "d = 0 \<or> d = 1 \<or> d = 2 \<or> d = 3 \<or> d = 4 \<or> d = 5 \<or> d = 6 \<or> d = 7 \<or> d = 8 \<or> d = 9"
    using assms by presburger
  then show "is_digit (digit_char d)" "digit_val (digit_char d) = d"
    by (auto simp: digit_char_def is_digit_def digit_val_def)
qed

lemma dec_digits_all: "0 \<le> n \<Longrightarrow> \<forall>c \<in> set (dec_digits n). is_digit c"
proof (induction n rule: dec_digits.induct)
  case (1 n)
  then show ?case by (subst dec_digits.simps) (auto simp: digit_char_props)
qed

lemma dec_digits_nonempty [simp]: "dec_digits n \<noteq> []"
  by (subst dec_digits.simps) simp

lemma digits_value_dec: "0 \<le> n \<Longrightarrow> digits_value (dec_digits n) = n"
proof (induction n rule: dec_digits.induct)
  case (1 n)
  show ?case
  proof (cases "n < 10")
    case True
    then show ?thesis using 1(2)
      by (subst dec_digits.simps) (simp add: digits_value_def digit_char_props)
  next
    case False
    with 1 have "digits_value (dec_digits (n div 10)) = n div 10" by simp
    then show ?thesis
      using False by (subst dec_digits.simps) (simp add: digits_value_def digit_char_props)
  qed
qed

lemma dec_digits_inj: "dec_digits m = dec_digits n \<Longrightarrow> 0 \<le> m \<Longrightarrow> 0 \<le> n \<Longrightarrow> m = n"
  by (metis digits_value_dec)

lemma is_digit_minus: "\<not> is_digit (CHR ''-'')"
  by (simp add: is_digit_def)

lemma Itoa_inj:
  assumes "Itoa i = Itoa j" shows "i = j"
proof -
  have minus: "CHR ''-'' # s \<noteq> dec_digits n" if "0 \<le> n" for s n
    using dec_digits_all [OF that] by (metis is_digit_minus list.set_intros(1))
  show "i = j"
    using assms minus [of i] minus [of j] minus [of i, symmetric] minus [of j, symmetric]
    by (auto simp: Itoa_def dest!: dec_digits_inj split: if_splits)
qed

section \<open>Shortest decimal of a float\<close>

text \<open>The number of digits before the decimal point; not positive for a number below one tenth.\<close>

definition decimal_point :: "rat \<Rightarrow> int" where
  "decimal_point x =
     (if 1 \<le> x then int (length (dec_digits \<lfloor>x\<rfloor>))
      else case find (\<lambda>k. 1 \<le> x * 10 ^ k) [1..<400] of Some k \<Rightarrow> 1 - int k | None \<Rightarrow> 0)"

definition pow10 :: "int \<Rightarrow> rat" where
  "pow10 e = (if 0 \<le> e then 10 ^ nat e else 1 / 10 ^ nat (- e))"

text \<open>
  With \<open>n\<close> digits: the two neighbours of \<open>x\<close>; one that reads back as \<open>x\<close> is taken, the nearer one
  when both do.
\<close>

definition shortest_at :: "rat \<Rightarrow> int \<Rightarrow> int option" where
  "shortest_at x e =
     (let unit = pow10 e; down = \<lfloor>x / unit\<rfloor>;
          okdown = (float_round (of_int down * unit) = Fin x);
          okup = (float_round (of_int (down + 1) * unit) = Fin x)
      in if okdown \<and> okup then Some (round_even (x / unit))
         else if okdown then Some down
         else if okup then Some (down + 1)
         else None)"

text \<open>Seventeen digits always suffice; the fallback is the exact value.\<close>

fun shortest_search :: "rat \<Rightarrow> int \<Rightarrow> nat \<Rightarrow> int \<times> int" where
  "shortest_search x e 0 = (round_even (x / pow10 e), e)"
| "shortest_search x e (Suc k) =
     (case shortest_at x e of Some m \<Rightarrow> (m, e) | None \<Rightarrow> shortest_search x (e - 1) k)"

fun strip_zeros :: "nat \<Rightarrow> int \<Rightarrow> int \<Rightarrow> int \<times> int" where
  "strip_zeros 0 m e = (m, e)"
| "strip_zeros (Suc k) m e = (if m mod 10 = 0 then strip_zeros k (m div 10) (e + 1) else (m, e))"

definition plain_decimal :: "int \<Rightarrow> int \<Rightarrow> gostring" where
  "plain_decimal m e =
     (if 0 \<le> e then dec_digits (m * 10 ^ nat e)
      else let k = nat (- e); frac = dec_digits (m mod 10 ^ k)
           in dec_digits (m div 10 ^ k) @ ''.''
                @ replicate (k - length frac) (CHR ''0'') @ frac)"

fun FormatFloat :: "float64 \<Rightarrow> gostring" where
  "FormatFloat NaN = ''NaN''"
| "FormatFloat PosInf = ''+Inf''"
| "FormatFloat NegInf = ''-Inf''"
| "FormatFloat (Fin x) =
     (if x = 0 then ''0''
      else let y = \<bar>x\<bar>;
               (m, e) = shortest_search y (decimal_point y - 1) 17;
               (m', e') = strip_zeros 20 m e
           in (if x < 0 then ''-'' else []) @ plain_decimal m' e')"

section \<open>ParseFloat\<close>

definition lower_byte :: "char \<Rightarrow> char" where
  "lower_byte c = (if 65 \<le> (of_char c :: nat) \<and> (of_char c :: nat) \<le> 90
                   then char_of ((of_char c :: nat) + 32) else c)"

definition hex_val :: "char \<Rightarrow> int option" where
  "hex_val c =
     (let b = lower_byte c in
      if is_digit c then Some (digit_val c)
      else if 97 \<le> (of_char b :: int) \<and> (of_char b :: int) \<le> 102 then Some (of_char b - 87)
      else None)"

text \<open>Mantissa: (value, digits after the point, dot seen, digits seen, underscores seen, rest).\<close>

fun read_mantissa ::
    "bool \<Rightarrow> int \<Rightarrow> int \<Rightarrow> bool \<Rightarrow> bool \<Rightarrow> bool \<Rightarrow> gostring
      \<Rightarrow> int \<times> int \<times> bool \<times> bool \<times> gostring" where
  "read_mantissa hex v after dot digits us [] = (v, after, digits, us, [])"
| "read_mantissa hex v after dot digits us (c # cs) =
     (if c = CHR ''_'' then read_mantissa hex v after dot digits True cs
      else if c = CHR ''.'' then
        (if dot then (v, after, digits, us, c # cs) else read_mantissa hex v after True digits us cs)
      else case (if hex then hex_val c else if is_digit c then Some (digit_val c) else None) of
        None \<Rightarrow> (v, after, digits, us, c # cs)
      | Some d \<Rightarrow> read_mantissa hex (v * (if hex then 16 else 10) + d)
                    (if dot then after + 1 else after) dot True us cs)"

fun read_exponent :: "int \<Rightarrow> bool \<Rightarrow> gostring \<Rightarrow> int \<times> bool \<times> gostring" where
  "read_exponent e us [] = (e, us, [])"
| "read_exponent e us (c # cs) =
     (if c = CHR ''_'' then read_exponent e True cs
      else if is_digit c then read_exponent (if e < 10000 then e * 10 + digit_val c else e) us cs
      else (e, us, c # cs))"

text \<open>\<open>underscoreOK\<close>: underscores only between digits; the last kind seen is \<open>^\<close>, \<open>0\<close>, \<open>_\<close> or \<open>!\<close>.\<close>

fun underscore_scan :: "bool \<Rightarrow> char \<Rightarrow> gostring \<Rightarrow> bool" where
  "underscore_scan hex i [] = (i \<noteq> CHR ''_'')"
| "underscore_scan hex i (c # cs) =
     (if is_digit c \<or> hex \<and> hex_val c \<noteq> None then underscore_scan hex (CHR ''0'') cs
      else if c = CHR ''_'' then (i = CHR ''0'' \<and> underscore_scan hex (CHR ''_'') cs)
      else i \<noteq> CHR ''_'' \<and> underscore_scan hex (CHR ''!'') cs)"

definition drop_sign :: "gostring \<Rightarrow> gostring" where
  "drop_sign s = (case s of c # cs \<Rightarrow> if c = CHR ''-'' \<or> c = CHR ''+'' then cs else s | [] \<Rightarrow> [])"

definition underscoreOK :: "gostring \<Rightarrow> bool" where
  "underscoreOK s0 =
     (let s = drop_sign s0 in
      case s of
        z # b # cs \<Rightarrow>
          (if z = CHR ''0'' \<and> lower_byte b \<in> {CHR ''b'', CHR ''o'', CHR ''x''}
           then underscore_scan (lower_byte b = CHR ''x'') (CHR ''0'') cs
           else underscore_scan False (CHR ''^'') s)
      | _ \<Rightarrow> underscore_scan False (CHR ''^'') s)"

definition float_special :: "gostring \<Rightarrow> float64 option" where
  "float_special s0 =
     (let s = map lower_byte s0; body = drop_sign s
      in if s = ''nan'' then Some NaN
         else if body = ''inf'' \<or> body = ''infinity''
         then Some (if take 1 s = ''-'' then NegInf else PosInf)
         else None)"

definition ParseFloat :: "gostring \<Rightarrow> float64 option" where
  "ParseFloat s0 =
     (case float_special s0 of Some f \<Rightarrow> Some f
      | None \<Rightarrow>
        let neg = (take 1 s0 = ''-''); s = drop_sign s0;
            hex = (2 < length s \<and> map lower_byte (take 2 s) = ''0x'');
            (v, after, digits, us, rest) = read_mantissa hex 0 0 False False False (if hex then drop 2 s else s);
            finish = (\<lambda>e us'.
              if us' \<and> \<not> underscoreOK s0 then None
              else let q = of_int v * (if hex then exp2 (e - 4 * after) else pow10 (e - after));
                       f = float_round (if neg then - q else q)
                   in if IsInf f then None else Some f)
        in if \<not> digits then None
           else case rest of
             [] \<Rightarrow> (if hex then None else finish 0 us)
           | c # cs \<Rightarrow>
               if lower_byte c \<noteq> (if hex then CHR ''p'' else CHR ''e'') then None
               else let esign = (if take 1 cs = ''-'' then - 1 else 1 :: int);
                        ds = drop_sign cs
                    in if ds = [] \<or> \<not> is_digit (hd ds) then None
                       else case read_exponent 0 us ds of
                              (e, us', r) \<Rightarrow> if r \<noteq> [] then None else finish (esign * e) us')"

end
