(* ===== verification/Distributions.thy ===== *)
theory Distributions
  imports GoStrconv
begin

text \<open>
  Seeded duration distributions (\<open>internal/distribution/distribution.go\<close>): validation and sampling.
  A random source is a state with the three draws the code makes; the transcendental functions of
  package \<open>math\<close> are the parameters \<open>mathfns\<close>, because their last bits are the library's business.
  The two rejection loops run on fuel, and None is "still rejecting".
\<close>

record distribution =
  ds_Model :: gostring
  ds_Value :: gostring
  ds_Mean :: gostring
  ds_Sigma :: gostring
  ds_XM :: gostring
  ds_Alpha :: float64
  ds_Beta :: float64
  ds_Scale :: gostring
  ds_Mu :: float64
  ds_LogSigma :: float64
  ds_Min :: gostring
  ds_Max :: gostring

datatype distribution_error =
    ModelRequired
  | InvalidDuration
  | NegativeDuration
  | MustBePositive gostring
  | BadMean
  | BadAlpha
  | ScaleBetaExclusive
  | BadBeta
  | SigmaExclusive
  | BadSigmaNumber
  | BadLognormal
  | UnsupportedModel gostring
  | MinError distribution_error
  | MaxError distribution_error
  | MinExceedsMax

definition finitePositive :: "float64 \<Rightarrow> bool" where
  "finitePositive v \<longleftrightarrow> float_less (Fin 0) v \<and> \<not> IsNaN v \<and> \<not> IsInf v"

definition parseDurationOrZero :: "gostring \<Rightarrow> distribution_error + duration" where
  "parseDurationOrZero value =
     (if value = [] then Inr 0
      else case ParseDuration value of
             None \<Rightarrow> Inl InvalidDuration
           | Some d \<Rightarrow> if d < 0 then Inl NegativeDuration else Inr d)"

definition positiveDuration :: "gostring \<Rightarrow> gostring \<Rightarrow> distribution_error + duration" where
  "positiveDuration value name =
     (case parseDurationOrZero value of
        Inl e \<Rightarrow> Inl e
      | Inr d \<Rightarrow> if d \<le> 0 then Inl (MustBePositive name) else Inr d)"

definition lognormalSigma :: "distribution \<Rightarrow> distribution_error + float64" where
  "lognormalSigma d =
     (if ds_Sigma d = [] then Inr (ds_LogSigma d)
      else case ParseFloat (ds_Sigma d) of None \<Rightarrow> Inl BadSigmaNumber | Some v \<Rightarrow> Inr v)"

text \<open>The error of a result, if any.\<close>

definition err :: "'e + 'a \<Rightarrow> 'e option" where
  "err r = (case r of Inl e \<Rightarrow> Some e | Inr _ \<Rightarrow> None)"

definition finite_float :: "float64 \<Rightarrow> bool" where
  "finite_float v \<longleftrightarrow> \<not> IsNaN v \<and> \<not> IsInf v"

text \<open>The switch over the model; None is "no error".\<close>

definition modelError :: "distribution \<Rightarrow> distribution_error option" where
  "modelError d =
     (if ds_Model d = ''fixed'' then err (parseDurationOrZero (ds_Value d))
      else if ds_Model d = ''exponential'' \<or> ds_Model d = ''poisson''
      then err (positiveDuration (ds_Mean d) ''mean'')
      else if ds_Model d = ''normal'' then
        (if ParseDuration (ds_Mean d) = None then Some BadMean
         else err (parseDurationOrZero (ds_Sigma d)))
      else if ds_Model d = ''pareto'' then
        (case positiveDuration (ds_XM d) ''xm'' of
           Inl e \<Rightarrow> Some e
         | Inr _ \<Rightarrow> if \<not> finitePositive (ds_Alpha d) then Some BadAlpha else None)
      else if ds_Model d = ''gamma'' then
        (if \<not> finitePositive (ds_Alpha d) then Some BadAlpha
         else if ds_Scale d \<noteq> [] \<and> \<not> float_eq (ds_Beta d) (Fin 0) then Some ScaleBetaExclusive
         else if ds_Scale d \<noteq> [] then err (positiveDuration (ds_Scale d) ''scale'')
         else if \<not> finitePositive (ds_Beta d) then Some BadBeta
         else None)
      else if ds_Model d = ''lognormal'' then
        (if ds_Sigma d \<noteq> [] \<and> \<not> float_eq (ds_LogSigma d) (Fin 0) then Some SigmaExclusive
         else case lognormalSigma d of
           Inl e \<Rightarrow> Some e
         | Inr sigma \<Rightarrow>
             if \<not> finite_float (ds_Mu d) \<or> \<not> finite_float sigma \<or> float_less sigma (Fin 0)
             then Some BadLognormal else None)
      else Some (UnsupportedModel (ds_Model d)))"

text \<open>\<open>Distribution.Validate\<close>: None is a nil error.\<close>

definition Distribution_Validate :: "bool \<Rightarrow> distribution \<Rightarrow> distribution_error option" where
  "Distribution_Validate optional d =
     (if ds_Model d = [] then (if optional then None else Some ModelRequired)
      else case modelError d of Some e \<Rightarrow> Some e
      | None \<Rightarrow>
        (case parseDurationOrZero (ds_Min d) of Inl e \<Rightarrow> Some (MinError e)
         | Inr minimum \<Rightarrow>
           (case parseDurationOrZero (ds_Max d) of Inl e \<Rightarrow> Some (MaxError e)
            | Inr maximum \<Rightarrow>
                if ds_Min d \<noteq> [] \<and> ds_Max d \<noteq> [] \<and> maximum < minimum
                then Some MinExceedsMax else None)))"

section \<open>Sampling\<close>

record 'r random_source =
  src_Float64 :: "'r \<Rightarrow> float64 \<times> 'r"
  src_NormFloat64 :: "'r \<Rightarrow> float64 \<times> 'r"
  src_ExpFloat64 :: "'r \<Rightarrow> float64 \<times> 'r"

record mathfns =
  m_Exp :: "float64 \<Rightarrow> float64"
  m_Log :: "float64 \<Rightarrow> float64"
  m_Sqrt :: "float64 \<Rightarrow> float64"
  m_Pow :: "float64 \<Rightarrow> float64 \<Rightarrow> float64"
  m_Lgamma :: "float64 \<Rightarrow> float64"

text \<open>A decimal constant of the source, rounded once.\<close>

abbreviation (input) lit :: "rat \<Rightarrow> float64" where "lit x \<equiv> float_round x"

definition SmallestNonzeroFloat64 :: float64 where
  "SmallestNonzeroFloat64 = Fin (exp2 (- 1074))"

definition float_max :: "float64 \<Rightarrow> float64 \<Rightarrow> float64" where
  "float_max a b = (if a = PosInf \<or> b = PosInf then PosInf else if a = NaN \<or> b = NaN then NaN
                    else if float_less a b then b else a)"

definition float_abs :: "float64 \<Rightarrow> float64" where
  "float_abs a = (if float_less a (Fin 0) then float_neg a else a)"

fun float_floor :: "float64 \<Rightarrow> float64" where
  "float_floor (Fin x) = float_round (of_int \<lfloor>x\<rfloor>)"
| "float_floor a = a"

text \<open>Float to integer conversions are only meant for values in range.\<close>

definition durationFromNanoseconds :: "float64 \<Rightarrow> duration" where
  "durationFromNanoseconds v =
     (if IsNaN v \<or> float_le v (Fin 0) then 0
      else if v = PosInf \<or> float_le (float_of_int MaxInt64) v then MaxInt64
      else float_trunc v)"

definition durationFromSeconds :: "float64 \<Rightarrow> duration" where
  "durationFromSeconds v = durationFromNanoseconds (float_mul v (float_of_int Second))"

text \<open>\<open>Duration.Seconds\<close>.\<close>

definition duration_Seconds :: "duration \<Rightarrow> float64" where
  "duration_Seconds d =
     (let sec = (if 0 \<le> d then d div Second else - ((- d) div Second));
          nsec = d - sec * Second
      in float_add (float_of_int sec) (float_div (float_of_int nsec) (lit 1000000000)))"

text \<open>Marsaglia and Tsang, for a shape of at least one.\<close>

fun gamma_loop :: "mathfns \<Rightarrow> 'r random_source \<Rightarrow> nat \<Rightarrow> float64 \<Rightarrow> float64 \<Rightarrow> 'r \<Rightarrow> (float64 \<times> 'r) option" where
  "gamma_loop m src 0 d c r = None"
| "gamma_loop m src (Suc fuel) d c r =
     (let (x, r1) = src_NormFloat64 src r;
          v0 = float_add (Fin 1) (float_mul c x)
      in if float_le v0 (Fin 0) then gamma_loop m src fuel d c r1
         else
           let v = float_mul (float_mul v0 v0) v0;
               (u, r2) = src_Float64 src r1;
               x4 = float_mul (float_mul (float_mul (float_mul (lit 0.0331) x) x) x) x;
               half = float_mul (float_mul (lit 0.5) x) x;
               tail = float_mul d (float_add (float_sub (Fin 1) v) (m_Log m v))
           in if float_less u (float_sub (Fin 1) x4) \<or> float_less (m_Log m u) (float_add half tail)
              then Some (float_mul d v, r2)
              else gamma_loop m src fuel d c r2)"

definition gamma_from_one :: "mathfns \<Rightarrow> 'r random_source \<Rightarrow> nat \<Rightarrow> float64 \<Rightarrow> 'r \<Rightarrow> (float64 \<times> 'r) option" where
  "gamma_from_one m src fuel shape r =
     (let d = float_sub shape (lit (1 / 3));
          c = float_div (Fin 1) (m_Sqrt m (float_mul (Fin 9) d))
      in gamma_loop m src fuel d c r)"

text \<open>A shape below one is boosted by one until it is not.\<close>

fun sampleGamma :: "mathfns \<Rightarrow> 'r random_source \<Rightarrow> nat \<Rightarrow> float64 \<Rightarrow> 'r \<Rightarrow> (float64 \<times> 'r) option" where
  "sampleGamma m src 0 shape r = None"
| "sampleGamma m src (Suc fuel) shape r =
     (if float_less shape (Fin 1) then
        (let (u0, r1) = src_Float64 src r; u = float_max u0 SmallestNonzeroFloat64
         in case sampleGamma m src fuel (float_add shape (Fin 1)) r1 of
              None \<Rightarrow> None
            | Some (g, r2) \<Rightarrow> Some (float_mul g (m_Pow m u (float_div (Fin 1) shape)), r2))
      else gamma_from_one m src fuel shape r)"

text \<open>The product loop of a small mean: \<open>drawn\<close> factors so far.\<close>

fun poisson_product :: "'r random_source \<Rightarrow> nat \<Rightarrow> float64 \<Rightarrow> float64 \<Rightarrow> int \<Rightarrow> 'r \<Rightarrow> (int \<times> 'r) option" where
  "poisson_product src 0 limit product drawn r = None"
| "poisson_product src (Suc fuel) limit product drawn r =
     (if float_less limit product then
        (let (u, r1) = src_Float64 src r
         in poisson_product src fuel limit (float_mul product u) (drawn + 1) r1)
      else Some (drawn - 1, r))"

text \<open>Transformed rejection for a large mean.\<close>

fun poisson_ptrs :: "mathfns \<Rightarrow> 'r random_source \<Rightarrow> nat \<Rightarrow> float64 \<Rightarrow> float64 \<Rightarrow> float64 \<Rightarrow> float64 \<Rightarrow> float64
    \<Rightarrow> 'r \<Rightarrow> (int \<times> 'r) option" where
  "poisson_ptrs m src 0 lambda a b invAlpha vR r = None"
| "poisson_ptrs m src (Suc fuel) lambda a b invAlpha vR r =
     (let (u0, r1) = src_Float64 src r; u = float_sub u0 (lit 0.5);
          (v, r2) = src_Float64 src r1;
          us = float_sub (lit 0.5) (float_abs u);
          k = float_floor (float_add (float_add (float_mul (float_add
                (float_div (float_mul (Fin 2) a) us) b) u) lambda) (lit 0.43))
      in if float_le (lit 0.07) us \<and> float_le v vR then Some (float_trunc k, r2)
         else if float_less k (Fin 0) \<or> float_less us (lit 0.013) \<and> float_less us v
         then poisson_ptrs m src fuel lambda a b invAlpha vR r2
         else
           let logFactorial = m_Lgamma m (float_add k (Fin 1));
               left = m_Log m (float_div (float_mul v invAlpha)
                        (float_add (float_div a (float_mul us us)) b));
               right = float_sub (float_add (float_neg lambda) (float_mul k (m_Log m lambda))) logFactorial
           in if float_le left right then Some (float_trunc k, r2)
              else poisson_ptrs m src fuel lambda a b invAlpha vR r2)"

definition SamplePoisson :: "mathfns \<Rightarrow> 'r random_source \<Rightarrow> nat \<Rightarrow> float64 \<Rightarrow> 'r \<Rightarrow> (int \<times> 'r) option" where
  "SamplePoisson m src fuel lambda r =
     (if float_less lambda (Fin 30) then
        poisson_product src fuel (m_Exp m (float_neg lambda)) (Fin 1) 0 r
      else
        let sqrtLambda = m_Sqrt m lambda;
            b = float_add (lit 0.931) (float_mul (lit 2.53) sqrtLambda);
            a = float_add (lit (- 0.059)) (float_mul (lit 0.02483) b);
            invAlpha = float_add (lit 1.1239) (float_div (lit 1.1328) (float_sub b (lit 3.4)));
            vR = float_sub (lit 0.9277) (float_div (lit 3.6224) (float_sub b (Fin 2)))
        in poisson_ptrs m src fuel lambda a b invAlpha vR r)"

text \<open>A failed parse leaves the zero duration, as the ignored error does.\<close>

definition duration_or_zero :: "gostring \<Rightarrow> duration" where
  "duration_or_zero s = (case ParseDuration s of None \<Rightarrow> 0 | Some d \<Rightarrow> d)"

definition sampleModel :: "mathfns \<Rightarrow> 'r random_source \<Rightarrow> nat \<Rightarrow> distribution \<Rightarrow> 'r \<Rightarrow> (duration \<times> 'r) option" where
  "sampleModel m src fuel d r =
     (if ds_Model d = ''fixed'' then Some (duration_or_zero (ds_Value d), r)
      else if ds_Model d = ''exponential'' then
        (let (e, r1) = src_ExpFloat64 src r
         in Some (durationFromNanoseconds (float_mul e (float_of_int (duration_or_zero (ds_Mean d)))), r1))
      else if ds_Model d = ''poisson'' then
        map_option (\<lambda>(k, r1). (durationFromSeconds (float_of_int k), r1))
          (SamplePoisson m src fuel (duration_Seconds (duration_or_zero (ds_Mean d))) r)
      else if ds_Model d = ''normal'' then
        (let (z, r1) = src_NormFloat64 src r
         in Some (durationFromNanoseconds (float_add (float_of_int (duration_or_zero (ds_Mean d)))
                    (float_mul z (float_of_int (duration_or_zero (ds_Sigma d))))), r1))
      else if ds_Model d = ''pareto'' then
        (let (u0, r1) = src_Float64 src r; u = float_max u0 SmallestNonzeroFloat64
         in Some (durationFromNanoseconds (float_div (float_of_int (duration_or_zero (ds_XM d)))
                    (m_Pow m u (float_div (Fin 1) (ds_Alpha d)))), r1))
      else if ds_Model d = ''gamma'' then
        map_option (\<lambda>(g, r1).
            (if ds_Scale d \<noteq> []
             then durationFromNanoseconds (float_mul g (float_of_int (duration_or_zero (ds_Scale d))))
             else durationFromSeconds (float_div g (ds_Beta d)), r1))
          (sampleGamma m src fuel (ds_Alpha d) r)
      else if ds_Model d = ''lognormal'' then
        (let sigma = (case lognormalSigma d of Inr s \<Rightarrow> s | Inl _ \<Rightarrow> Fin 0);
             (z, r1) = src_NormFloat64 src r
         in Some (durationFromSeconds (m_Exp m (float_add (ds_Mu d) (float_mul sigma z))), r1))
      else Some (0, r))"

definition clampSample :: "distribution \<Rightarrow> duration \<Rightarrow> duration" where
  "clampSample d v0 =
     (let v1 = (if v0 < 0 then 0 else v0);
          v2 = (if ds_Min d \<noteq> [] \<and> v1 < duration_or_zero (ds_Min d) then duration_or_zero (ds_Min d) else v1)
      in if ds_Max d \<noteq> [] \<and> duration_or_zero (ds_Max d) < v2 then duration_or_zero (ds_Max d) else v2)"

definition Sample :: "mathfns \<Rightarrow> 'r random_source \<Rightarrow> nat \<Rightarrow> distribution \<Rightarrow> 'r \<Rightarrow> (duration \<times> 'r) option" where
  "Sample m src fuel d r =
     (if ds_Model d = [] then Some (0, r)
      else map_option (\<lambda>(v, r1). (clampSample d v, r1)) (sampleModel m src fuel d r))"

section \<open>Bounds of a sample\<close>

lemma float_of_MaxInt64: "float_of_int MaxInt64 = Fin 9223372036854775808"
  by code_simp

lemma MaxInt64_pos [simp]: "0 < MaxInt64" "0 \<le> MaxInt64"
  by (simp_all add: MaxInt64_def)

lemma durationFromNanoseconds_range:
  "0 \<le> durationFromNanoseconds v \<and> durationFromNanoseconds v \<le> MaxInt64"
proof (cases v)
  case (Fin x)
  have "\<lfloor>x\<rfloor> \<le> MaxInt64" if "x < 9223372036854775808"
  proof -
    from that have "\<lfloor>x\<rfloor> < 9223372036854775808" by (simp add: floor_less_iff)
    then show ?thesis by (simp add: MaxInt64_def)
  qed
  with Fin show ?thesis
    by (auto simp: durationFromNanoseconds_def IsNaN_def float_le_def float_eq_def float_of_MaxInt64)
qed (auto simp: durationFromNanoseconds_def IsNaN_def float_le_def float_eq_def float_of_MaxInt64)

lemma duration_or_zero_range: "MinInt64 \<le> duration_or_zero s" "duration_or_zero s \<le> MaxInt64"
  using ParseDuration_range [of s]
  by (auto simp: duration_or_zero_def MinInt64_def MaxInt64_def split: option.split)

lemma sampleModel_max:
  "sampleModel m src fuel d r = Some (v, r') \<Longrightarrow> v \<le> MaxInt64"
  using durationFromNanoseconds_range duration_or_zero_range(2)
  by (auto simp: sampleModel_def durationFromSeconds_def split: if_split_asm prod.split_asm)

lemma validate_bounds:
  assumes "Distribution_Validate opt d = None" and "ds_Model d \<noteq> []"
  shows "ds_Min d \<noteq> [] \<Longrightarrow> \<exists>x. ParseDuration (ds_Min d) = Some x \<and> 0 \<le> x"
    "ds_Max d \<noteq> [] \<Longrightarrow> \<exists>x. ParseDuration (ds_Max d) = Some x \<and> 0 \<le> x"
    "ds_Min d \<noteq> [] \<Longrightarrow> ds_Max d \<noteq> [] \<Longrightarrow> duration_or_zero (ds_Min d) \<le> duration_or_zero (ds_Max d)"
  using assms
  by (auto simp: Distribution_Validate_def parseDurationOrZero_def duration_or_zero_def
      split: if_split_asm option.split_asm sum.split_asm)

text \<open>The product loop draws up to the first product that is not above the limit.\<close>

fun after_draws :: "'r random_source \<Rightarrow> nat \<Rightarrow> float64 \<times> 'r \<Rightarrow> float64 \<times> 'r" where
  "after_draws src 0 pr = pr"
| "after_draws src (Suc n) pr =
     (let (u, r1) = src_Float64 src (snd pr) in after_draws src n (float_mul (fst pr) u, r1))"

lemma poisson_product_exact:
  assumes "\<not> float_less limit (fst (after_draws src n (p, r)))"
    and "\<forall>k < n. float_less limit (fst (after_draws src k (p, r)))" and "n < fuel"
  shows "poisson_product src fuel limit p c r = Some (c + int n - 1, snd (after_draws src n (p, r)))"
  using assms
proof (induction n arbitrary: fuel p c r)
  case 0
  then show ?case by (cases fuel) auto
next
  case (Suc n)
  obtain f where f: "fuel = Suc f" using Suc.prems(3) by (cases fuel) auto
  obtain u r1 where u: "src_Float64 src r = (u, r1)" by (cases "src_Float64 src r")
  have "float_less limit p" using Suc.prems(2) by force
  moreover have "poisson_product src f limit (float_mul p u) (c + 1) r1
      = Some (c + 1 + int n - 1, snd (after_draws src n (float_mul p u, r1)))"
  proof (rule Suc.IH)
    show "\<forall>k < n. float_less limit (fst (after_draws src k (float_mul p u, r1)))"
    proof (intro allI impI)
      fix k assume "k < n"
      then have "float_less limit (fst (after_draws src (Suc k) (p, r)))" using Suc.prems(2) by blast
      then show "float_less limit (fst (after_draws src k (float_mul p u, r1)))" by (simp add: u)
    qed
  qed (use Suc.prems u f in auto)
  ultimately show ?case by (simp add: f u)
qed

section \<open>Properties\<close>

definition loop_model :: "distribution \<Rightarrow> bool" where
  "loop_model d \<longleftrightarrow> ds_Model d = ''poisson'' \<or> ds_Model d = ''gamma''"

lemma sample_bounds:
  assumes "Distribution_Validate optional d = None"
  shows "(case Sample m src fuel d r of
       None \<Rightarrow> loop_model d
     | Some (v, r') \<Rightarrow> 0 \<le> v \<and> v \<le> MaxInt64
         \<and> (ds_Model d \<noteq> [] \<and> ds_Min d \<noteq> [] \<longrightarrow> duration_or_zero (ds_Min d) \<le> v)
         \<and> (ds_Model d \<noteq> [] \<and> ds_Max d \<noteq> [] \<longrightarrow> v \<le> duration_or_zero (ds_Max d)))"
proof (cases "ds_Model d = []")
  case True
  then show ?thesis by (simp add: Sample_def)
next
  case False
  note b = validate_bounds [OF assms False]
  show ?thesis
  proof (cases "sampleModel m src fuel d r")
    case None
    then show ?thesis using False
      by (auto simp: Sample_def sampleModel_def loop_model_def split: if_split_asm prod.split_asm)
  next
    case (Some vr)
    obtain v r' where vr: "vr = (v, r')" by (cases vr)
    have "v \<le> MaxInt64" using sampleModel_max [OF Some [unfolded vr]] .
    moreover have "0 \<le> duration_or_zero (ds_Min d)" if "ds_Min d \<noteq> []"
      using b(1) [OF that] by (auto simp: duration_or_zero_def)
    moreover have "0 \<le> duration_or_zero (ds_Max d)" if "ds_Max d \<noteq> []"
      using b(2) [OF that] by (auto simp: duration_or_zero_def)
    ultimately show ?thesis
      using Some vr False b(3) duration_or_zero_range(2) [of "ds_Min d"]
      by (auto simp: Sample_def clampSample_def Let_def)
  qed
qed

text \<open>C7: A validated distribution samples a duration between its bounds, for every random source and
  every implementation of the mathematical functions: never negative, at least min, at most max, and
  within 64 bits. Every model but the two rejection samplers returns after a bounded number of draws.\<close>

theorem sample_within_bounds:
  assumes "Distribution_Validate optional d = None"
  shows "(case Sample m src fuel d r of
       None \<Rightarrow> loop_model d
     | Some (v, r') \<Rightarrow> 0 \<le> v \<and> v \<le> MaxInt64
         \<and> (ds_Model d \<noteq> [] \<and> ds_Min d \<noteq> [] \<longrightarrow> duration_or_zero (ds_Min d) \<le> v)
         \<and> (ds_Model d \<noteq> [] \<and> ds_Max d \<noteq> [] \<longrightarrow> v \<le> duration_or_zero (ds_Max d)))"
  by (rule sample_bounds [OF assms])

definition demo_uniform :: "nat random_source" where
  "demo_uniform = \<lparr>src_Float64 = (\<lambda>r. (Fin (1 / 2), r + 1)), src_NormFloat64 = (\<lambda>r. (Fin 1, r + 1)),
     src_ExpFloat64 = (\<lambda>r. (Fin 3, r + 1))\<rparr>"

definition demo_math :: mathfns where
  "demo_math = \<lparr>m_Exp = (\<lambda>_. Fin (1 / 8)), m_Log = (\<lambda>_. Fin 0), m_Sqrt = (\<lambda>x. x),
     m_Pow = (\<lambda>x _. x), m_Lgamma = (\<lambda>_. Fin 0)\<rparr>"

definition demo_fixed :: distribution where
  "demo_fixed = \<lparr>ds_Model = ''fixed'', ds_Value = ''7s'', ds_Mean = [], ds_Sigma = [], ds_XM = [],
     ds_Alpha = Fin 0, ds_Beta = Fin 0, ds_Scale = [], ds_Mu = Fin 0, ds_LogSigma = Fin 0,
     ds_Min = [], ds_Max = ''5s''\<rparr>"

lemma parse_demo_durations: "ParseDuration ''7s'' = Some (7 * Second)" "ParseDuration ''5s'' = Some (5 * Second)"
  by (simp_all add: duration_eval)

theorem sample_within_bounds_witness:
  "case Sample demo_math demo_uniform 1 demo_fixed 0 of Some (v, _) \<Rightarrow> v \<le> 5 * Second | None \<Rightarrow> False"
proof -
  have "Distribution_Validate False demo_fixed = None"
    by (simp add: Distribution_Validate_def demo_fixed_def modelError_def parseDurationOrZero_def
        parse_demo_durations err_def)
  from sample_within_bounds [OF this, of demo_math demo_uniform 1 0] show ?thesis
    by (auto simp: loop_model_def demo_fixed_def duration_or_zero_def parse_demo_durations
        split: option.splits)
qed

text \<open>For a mean below thirty the Poisson sampler returns one less than the number of uniform
  draws it takes until their product is no longer above exp (-lambda): it stops at the first such
  product, and returns if there is one.\<close>

theorem poisson_small_mean:
  assumes "float_less lambda (Fin 30)"
    and "\<not> float_less (m_Exp m (float_neg lambda)) (fst (after_draws src n (Fin 1, r)))"
    and "\<forall>k < n. float_less (m_Exp m (float_neg lambda)) (fst (after_draws src k (Fin 1, r)))"
    and "n < fuel"
  shows "SamplePoisson m src fuel lambda r = Some (int n - 1, snd (after_draws src n (Fin 1, r)))"
  using poisson_product_exact [OF assms(2-4)] assms(1) by (simp add: SamplePoisson_def)

lemma demo_halves: "float_round (1 / 2) = Fin (1 / 2)" "float_round (1 / 4) = Fin (1 / 4)"
  "float_round (1 / 8) = Fin (1 / 8)"
  by code_simp+

lemma demo_draws:
  "after_draws demo_uniform 0 (Fin 1, 0) = (Fin 1, 0)"
  "after_draws demo_uniform (Suc 0) (Fin 1, 0) = (Fin (1 / 2), 1)"
  "after_draws demo_uniform (Suc (Suc 0)) (Fin 1, 0) = (Fin (1 / 4), 2)"
  "after_draws demo_uniform (Suc (Suc (Suc 0))) (Fin 1, 0) = (Fin (1 / 8), 3)"
  by (simp_all add: demo_uniform_def demo_halves)

theorem poisson_small_mean_witness: "SamplePoisson demo_math demo_uniform 9 (Fin 2) 0 = Some (2, 3)"
proof -
  have "\<forall>k < 3. float_less (m_Exp demo_math (float_neg (Fin 2)))
      (fst (after_draws demo_uniform k (Fin 1, 0)))"
    unfolding numeral_3_eq_3 All_less_Suc by (simp add: demo_draws demo_math_def del: after_draws.simps)
  with poisson_small_mean [where m = demo_math and src = demo_uniform and n = 3 and fuel = 9
      and lambda = "Fin 2" and r = 0]
  show ?thesis by (simp add: numeral_3_eq_3 demo_draws demo_math_def del: after_draws.simps)
qed

end
