(* ===== verification/DurationText.thy ===== *)
theory DurationText
  imports GoStrconv
begin

text \<open>
  \<open>Duration.String\<close> of Go's standard library, and that \<open>ParseDuration\<close> reads back exactly what it
  prints: the code sends sampled delays to the Agents as text.
\<close>

text \<open>\<open>Duration.String\<close>: at most three units, the fraction without trailing zeros.\<close>

definition fmtFrac :: "int \<Rightarrow> nat \<Rightarrow> gostring" where
  "fmtFrac v prec =
     (if v mod 10 ^ prec = 0 then []
      else let (f, e) = strip_zeros prec (v mod 10 ^ prec) 0;
               digits = dec_digits f
           in ''.'' @ replicate (prec - nat e - length digits) (CHR ''0'') @ digits)"

definition micro_sign :: gostring where
  "micro_sign = [char_of (194 :: nat), char_of (181 :: nat)]"

definition duration_String :: "duration \<Rightarrow> gostring" where
  "duration_String d =
     (let u = \<bar>d\<bar>; sign = (if d < 0 then ''-'' else [])
      in if u = 0 then ''0s''
         else if u < Microsecond then sign @ dec_digits u @ ''ns''
         else if u < Millisecond then sign @ dec_digits (u div 1000) @ fmtFrac u 3 @ micro_sign @ ''s''
         else if u < Second then sign @ dec_digits (u div 1000000) @ fmtFrac u 6 @ ''ms''
         else
           let secs = u div Second; mins = secs div 60; hours = mins div 60
           in sign @ (if 0 < hours then dec_digits hours @ ''h'' else [])
                @ (if 0 < mins then dec_digits (mins mod 60) @ ''m'' else [])
                @ dec_digits (secs mod 60) @ fmtFrac u 9 @ ''s'')"

section \<open>Exact arithmetic on small integers\<close>

lemma bit_length_le: "0 \<le> i \<Longrightarrow> i < 2 ^ n \<Longrightarrow> bit_length i \<le> n"
proof (induction n arbitrary: i)
  case 0
  then show ?case by (simp add: bit_length.simps [of i])
next
  case (Suc n)
  then have "bit_length (i div 2) \<le> n" by (intro Suc.IH) auto
  then show ?case by (simp add: bit_length.simps [of i])
qed

lemma ulp_exponent_int:
  assumes "0 < i" "i < 2 ^ 53" shows "ulp_exponent (of_int i) \<le> 0"
proof -
  have "bit_length i \<le> 53" using assms by (intro bit_length_le) auto
  moreover have "bit_length 1 = 1" by (simp add: bit_length.simps)
  moreover have "quotient_of (of_int i) = (i, 1)" by (simp add: quotient_of_int)
  ultimately show ?thesis by (auto simp: ulp_exponent_def Let_def)
qed

lemma round_even_int [simp]: "round_even (of_int i) = i"
  by (simp add: round_even_def Let_def)

lemma float_round_int_pos:
  assumes "0 < i" "i < 2 ^ 53" shows "float_round (of_int i) = Fin (of_int i)"
proof -
  let ?e = "ulp_exponent (of_int i)"
  obtain k where k: "?e = - int k" using ulp_exponent_int [OF assms] by (metis nonpos_int_cases)
  have u: "exp2 ?e = 1 / 2 ^ k" by (simp add: k exp2_def)
  have "of_int i / exp2 ?e = (of_int (i * 2 ^ k) :: rat)" by (simp add: u)
  then have "round_even (of_int i / exp2 ?e) = i * 2 ^ k" by (simp only: round_even_int)
  then have p: "round_positive (of_int i) = of_int i" by (simp add: round_positive_def u)
  have "(of_int i :: rat) < of_int (2 ^ 53)" using assms(2) by (rule of_int_less_iff [THEN iffD2])
  also have "\<dots> \<le> 2 ^ 1024" by simp
  finally show ?thesis using assms(1) p by (simp add: float_round_def overflows_def Let_def)
qed

lemma float_round_int: "0 \<le> i \<Longrightarrow> i < 2 ^ 53 \<Longrightarrow> float_round (of_int i) = Fin (of_int i)"
  using float_round_int_pos [of i] by (cases "i = 0") (simp_all add: float_round_def)

lemma float_mul_int:
  "0 \<le> i \<Longrightarrow> 0 \<le> j \<Longrightarrow> i * j < 2 ^ 53 \<Longrightarrow>
   float_mul (Fin (of_int i)) (Fin (of_int j)) = Fin (of_int (i * j))"
  using float_round_int [of "i * j"] by simp

section \<open>Reading back digits\<close>

lemma digits_mono:
  "\<forall>c \<in> set ds. is_digit c \<Longrightarrow> 0 \<le> x \<Longrightarrow> x \<le> foldl (\<lambda>a c. a * 10 + digit_val c) x ds"
proof (induction ds arbitrary: x)
  case (Cons c ds)
  then have "0 \<le> digit_val c" by (simp add: is_digit_def digit_val_def)
  with Cons.prems(2) have y: "0 \<le> x * 10 + digit_val c" "x \<le> x * 10 + digit_val c" by auto
  have "x * 10 + digit_val c \<le> foldl (\<lambda>a c. a * 10 + digit_val c) (x * 10 + digit_val c) ds"
    using Cons.prems(1) y(1) by (intro Cons.IH) auto
  with y(2) show ?case by simp
qed simp

definition no_digit :: "gostring \<Rightarrow> bool" where
  "no_digit r \<longleftrightarrow> r = [] \<or> \<not> is_digit (hd r)"

lemma leadingInt_digits:
  assumes "\<forall>c \<in> set ds. is_digit c" "0 \<le> x" "foldl (\<lambda>a c. a * 10 + digit_val c) x ds \<le> two63" "no_digit r"
  shows "leadingInt x (ds @ r) = Some (foldl (\<lambda>a c. a * 10 + digit_val c) x ds, r)"
  using assms
proof (induction ds arbitrary: x)
  case Nil
  then show ?case by (cases r) (auto simp: no_digit_def)
next
  case (Cons c ds)
  let ?y = "x * 10 + digit_val c"
  have d: "0 \<le> digit_val c" using Cons.prems(1) by (simp add: is_digit_def digit_val_def)
  then have y: "0 \<le> ?y" "?y \<le> foldl (\<lambda>a c. a * 10 + digit_val c) ?y ds"
    using Cons.prems(1,2) by (auto intro: digits_mono)
  then have "?y \<le> two63" using Cons.prems(3) by simp
  moreover from this d have "x \<le> two63 div 10" by (auto simp: two63_def)
  ultimately show ?case using Cons y by simp
qed

lemma leadingFraction_digits:
  assumes "\<forall>c \<in> set ds. is_digit c" "0 \<le> x" "foldl (\<lambda>a c. a * 10 + digit_val c) x ds < 10 ^ 9"
    "length ds \<le> 9 - k" "k \<le> 9" "no_digit r"
  shows "leadingFraction x (Fin (of_int (10 ^ k))) False (ds @ r)
     = (foldl (\<lambda>a c. a * 10 + digit_val c) x ds, Fin (of_int (10 ^ (k + length ds))), r)"
  using assms
proof (induction ds arbitrary: x k)
  case Nil
  then show ?case by (cases r) (auto simp: no_digit_def)
next
  case (Cons c ds)
  let ?y = "x * 10 + digit_val c"
  have d: "0 \<le> digit_val c" using Cons.prems(1) by (simp add: is_digit_def digit_val_def)
  then have y: "0 \<le> ?y" "?y \<le> foldl (\<lambda>a c. a * 10 + digit_val c) ?y ds"
    using Cons.prems(1,2) by (auto intro: digits_mono)
  then have small: "?y < 10 ^ 9" using Cons.prems(3) by simp
  with d have "x < 10 ^ 8" by simp
  moreover have "(10::int) ^ k * 10 < 2 ^ 53"
  proof -
    have "(10::int) ^ (k + 1) \<le> 10 ^ 9" using Cons.prems(4) by (intro power_increasing) auto
    then show ?thesis by simp
  qed
  then have "float_mul (Fin (of_int (10 ^ k))) (Fin 10) = Fin (of_int (10 ^ Suc k))"
    using float_mul_int [of "10 ^ k" 10] by (simp add: mult.commute)
  moreover have "leadingFraction ?y (Fin (of_int (10 ^ Suc k))) False (ds @ r)
     = (foldl (\<lambda>a c. a * 10 + digit_val c) ?y ds, Fin (of_int (10 ^ (Suc k + length ds))), r)"
    using Cons.prems y by (intro Cons.IH) auto
  ultimately show ?case using Cons.prems(1) small by (simp add: two63_def)
qed

section \<open>Reading back one unit\<close>

lemma dec_digits_length: "0 \<le> n \<Longrightarrow> n < 10 ^ k \<Longrightarrow> 0 < k \<Longrightarrow> length (dec_digits n) \<le> k"
proof (induction n arbitrary: k rule: dec_digits.induct)
  case (1 n)
  show ?case
  proof (cases "n < 10")
    case True
    then show ?thesis using 1(4) by (subst dec_digits.simps) simp
  next
    case False
    have k: "1 < k"
    proof (rule ccontr)
      assume "\<not> 1 < k"
      then have "k = 1" using 1(4) by simp
      with 1(3) False show False by simp
    qed
    then obtain j where j: "k = Suc j" "0 < j" by (cases k) auto
    have "length (dec_digits (n div 10)) \<le> j"
      using 1(2,3) False j by (intro 1(1)) auto
    then show ?thesis using False j by (subst dec_digits.simps) simp
  qed
qed

lemma digits_zeros: "foldl (\<lambda>a c. a * 10 + digit_val c) 0 (replicate k (CHR ''0'') @ ds)
    = foldl (\<lambda>a c. a * 10 + digit_val c) 0 ds"
  by (induction k) (simp_all add: digit_val_def)

lemma digit_zero: "is_digit (CHR ''0'')"
  by (simp add: is_digit_def)

lemma strip_zeros_spec:
  "0 < m \<Longrightarrow> m < 10 ^ k \<Longrightarrow> strip_zeros k m e = (f, e') \<Longrightarrow>
   e \<le> e' \<and> e' < e + int k \<and> m = f * 10 ^ nat (e' - e) \<and> 0 < f"
proof (induction k arbitrary: m e)
  case 0
  then show ?case by simp
next
  case (Suc k)
  show ?case
  proof (cases "m mod 10 = 0")
    case False
    with Suc.prems show ?thesis by simp
  next
    case True
    then have "0 < m div 10" "m div 10 < 10 ^ k" using Suc.prems(1,2) by auto
    with Suc.IH [of "m div 10" "e + 1"] Suc.prems(3) True
    have ih: "e + 1 \<le> e'" "e' < e + 1 + int k" "m div 10 = f * 10 ^ nat (e' - (e + 1))" "0 < f" by auto
    have "nat (e' - e) = Suc (nat (e' - (e + 1)))" using ih(1) by linarith
    then have "m = f * 10 ^ nat (e' - e)" using ih(3) True by (auto simp: mult.assoc)
    with ih show ?thesis by auto
  qed
qed

text \<open>The text of a fraction: a point and at most \<open>prec\<close> digits whose value is the remainder.\<close>

lemma fmtFrac_spec:
  assumes "0 \<le> u" "u mod 10 ^ prec \<noteq> 0"
  obtains ds where "fmtFrac u prec = CHR ''.'' # ds" "ds \<noteq> []" "length ds \<le> prec"
    "\<forall>c \<in> set ds. is_digit c"
    "foldl (\<lambda>a c. a * 10 + digit_val c) 0 ds * 10 ^ (prec - length ds) = u mod 10 ^ prec"
    "foldl (\<lambda>a c. a * 10 + digit_val c) 0 ds \<noteq> 0"
proof -
  obtain f e where fe: "strip_zeros prec (u mod 10 ^ prec) 0 = (f, e)" by fastforce
  have m: "0 < u mod 10 ^ prec" "u mod 10 ^ prec < 10 ^ prec"
  proof -
    have "0 \<le> u mod 10 ^ prec" by (rule pos_mod_sign) simp
    with assms(2) show "0 < u mod 10 ^ prec" by (metis less_le)
    show "u mod 10 ^ prec < 10 ^ prec" by (rule pos_mod_bound) simp
  qed
  note s = strip_zeros_spec [OF m fe]
  define j where "j = nat e"
  have e: "e = int j" using s by (simp add: j_def)
  have j: "j < prec" using s e by simp
  have v: "u mod 10 ^ prec = f * 10 ^ j" using s by (simp add: j_def)
  have "f * 10 ^ j < 10 ^ (prec - j) * 10 ^ j" using m(2) v j by (simp flip: power_add)
  then have "f < 10 ^ (prec - j)" by simp
  then have len: "length (dec_digits f) \<le> prec - j" using s j by (intro dec_digits_length) auto
  let ?ds = "replicate (prec - j - length (dec_digits f)) (CHR ''0'') @ dec_digits f"
  have l: "length ?ds = prec - j" using len by simp
  have val: "foldl (\<lambda>a c. a * 10 + digit_val c) 0 ?ds = f"
    using digits_value_dec [of f] s by (simp only: digits_zeros digits_value_def less_imp_le)
  show ?thesis
  proof (rule that [of ?ds])
    show "fmtFrac u prec = CHR ''.'' # ?ds" using assms(2) fe by (simp add: fmtFrac_def e Let_def)
    show "\<forall>c \<in> set ?ds. is_digit c" using dec_digits_all [of f] s digit_zero by auto
    show "foldl (\<lambda>a c. a * 10 + digit_val c) 0 ?ds * 10 ^ (prec - length ?ds) = u mod 10 ^ prec"
      unfolding val l using v j by simp
    show "foldl (\<lambda>a c. a * 10 + digit_val c) 0 ?ds \<noteq> 0" unfolding val using s by simp
  qed (use l in auto)
qed

text \<open>What the parser needs of a unit text.\<close>

definition unit_text :: "gostring \<Rightarrow> int \<Rightarrow> bool" where
  "unit_text us un \<longleftrightarrow> unitMap us = Some un \<and> us \<noteq> [] \<and> list_all unit_char us \<and> 0 < un"

lemma unit_span:
  assumes "unit_text us un" "r = [] \<or> is_digit (hd r)"
  shows "takeWhile unit_char (us @ r) = us" "dropWhile unit_char (us @ r) = r"
proof -
  have "\<forall>c \<in> set us. unit_char c" using assms(1) by (simp add: unit_text_def list_all_iff)
  moreover have "takeWhile unit_char r = []" "dropWhile unit_char r = r"
    using assms(2) by (cases r; auto simp: unit_char_def)+
  ultimately show "takeWhile unit_char (us @ r) = us" "dropWhile unit_char (us @ r) = r"
    by (simp_all add: takeWhile_append dropWhile_append)
qed

lemma unit_hd: "unit_text us un \<Longrightarrow> \<exists>c cs. us = c # cs \<and> c \<noteq> CHR ''.'' \<and> \<not> is_digit c"
  by (cases us) (auto simp: unit_text_def unit_char_def)

lemma dec_digits_hd: "0 \<le> n \<Longrightarrow> \<exists>c cs. dec_digits n = c # cs \<and> is_digit c"
  using dec_digits_all [of n] by (cases "dec_digits n") auto

lemma component_plain:
  assumes "0 \<le> n" "n \<le> two63 div un" "unit_text us un" "r = [] \<or> is_digit (hd r)"
  shows "duration_component (dec_digits n @ us @ r) = Some (n * un, r)"
proof -
  obtain c cs where us: "us = c # cs" "c \<noteq> CHR ''.''" "\<not> is_digit c" using unit_hd [OF assms(3)] by blast
  obtain d ds where dd: "dec_digits n = d # ds" "is_digit d" using dec_digits_hd [OF assms(1)] by blast
  have un: "0 < un" "unitMap us = Some un" using assms(3) by (simp_all add: unit_text_def)
  have "two63 div un \<le> two63 div 1" using un by (intro zdiv_mono2) (simp_all add: two63_def)
  then have "leadingInt 0 (dec_digits n @ us @ r) = Some (n, us @ r)"
    using leadingInt_digits [of "dec_digits n" 0 "us @ r"] dec_digits_all [OF assms(1)]
      digits_value_dec [OF assms(1)] assms(2) us
    by (auto simp: digits_value_def no_digit_def)
  then show ?thesis
    using us dd unit_span [OF assms(3,4)] un assms(2)
    unfolding duration_component_def by (simp add: Let_def)
qed

lemma component_frac:
  assumes n: "0 \<le> n" "n \<le> two63 div un" "n * un + u mod 10 ^ prec \<le> two63"
    and us: "unit_text us un" "r = [] \<or> is_digit (hd r)"
    and un: "un = 10 ^ prec" "prec \<le> 9" and u: "0 \<le> u"
  shows "duration_component (dec_digits n @ fmtFrac u prec @ us @ r) = Some (n * un + u mod 10 ^ prec, r)"
proof (cases "u mod 10 ^ prec = 0")
  case True
  then show ?thesis using component_plain [OF n(1,2) us] by (simp add: fmtFrac_def)
next
  case False
  obtain ds where ds: "fmtFrac u prec = CHR ''.'' # ds" "ds \<noteq> []" "length ds \<le> prec"
    "\<forall>c \<in> set ds. is_digit c"
    "foldl (\<lambda>a c. a * 10 + digit_val c) 0 ds * 10 ^ (prec - length ds) = u mod 10 ^ prec"
    "foldl (\<lambda>a c. a * 10 + digit_val c) 0 ds \<noteq> 0"
    by (rule fmtFrac_spec [OF u False])
  define f where "f = foldl (\<lambda>a c. a * 10 + digit_val c) 0 ds"
  define j where "j = prec - length ds"
  have lenj: "prec = length ds + j" using ds(3) by (simp add: j_def)
  have f: "0 \<le> f" "f * 10 ^ j = u mod 10 ^ prec" "f \<noteq> 0"
    using digits_mono [OF ds(4), of 0] ds(5,6) by (simp_all add: f_def j_def)
  have p9: "(10::int) ^ prec \<le> 10 ^ 9" using un(2) by (intro power_increasing) auto
  have rem: "u mod 10 ^ prec < 10 ^ prec" by simp
  have fb: "f * 10 ^ j < 10 ^ 9" using rem p9 f(2) by linarith
  moreover have "f * 1 \<le> f * 10 ^ j" using f(1) by (intro mult_left_mono) auto
  ultimately have f9: "f < 10 ^ 9" by linarith
  obtain c cs where us': "us = c # cs" "c \<noteq> CHR ''.''" "\<not> is_digit c" using unit_hd [OF us(1)] by blast
  obtain d dd where dd: "dec_digits n = d # dd" "is_digit d" using dec_digits_hd [OF n(1)] by blast
  have unit: "0 < un" "unitMap us = Some un" using us(1) by (simp_all add: unit_text_def)
  have "two63 div un \<le> two63 div 1" using unit by (intro zdiv_mono2) (simp_all add: two63_def)
  then have int: "leadingInt 0 (dec_digits n @ CHR ''.'' # ds @ us @ r) = Some (n, CHR ''.'' # ds @ us @ r)"
    using leadingInt_digits [of "dec_digits n" 0 "CHR ''.'' # ds @ us @ r"] dec_digits_all [OF n(1)]
      digits_value_dec [OF n(1)] n(2)
    by (auto simp: digits_value_def no_digit_def is_digit_def)
  have frac: "leadingFraction 0 (Fin 1) False (ds @ us @ r) = (f, Fin (of_int (10 ^ length ds)), us @ r)"
    using leadingFraction_digits [of ds 0 0 "us @ r"] ds(3,4) un(2) f9 us'
    by (simp add: f_def no_digit_def)
  have p53: "(10::int) ^ prec < 2 ^ 53" using p9 by simp
  have "(10::int) ^ j \<le> 10 ^ prec" by (intro power_increasing) (auto simp: j_def)
  with p53 have "(10::int) ^ j < 2 ^ 53" by linarith
  with p53 have "float_of_int un = Fin (of_int un)" "float_round (of_int (10 ^ j)) = Fin (of_int (10 ^ j))"
    using float_round_int [of "10 ^ prec"] float_round_int [of "10 ^ j"]
    by (simp_all add: un(1) float_of_int_def)
  moreover have "(of_int un :: rat) / of_int (10 ^ length ds) = of_int (10 ^ j)"
    by (simp add: un(1) lenj power_add)
  ultimately have q: "float_div (float_of_int un) (Fin (of_int (10 ^ length ds))) = Fin (of_int (10 ^ j))"
    by simp
  have "float_of_int f = Fin (of_int f)" using float_round_int [of f] f(1) f9 by (simp add: float_of_int_def)
  then have "float_mul (float_of_int f) (Fin (of_int (10 ^ j))) = Fin (of_int (u mod 10 ^ prec))"
    using float_mul_int [of f "10 ^ j"] f fb by simp
  then have t: "float_trunc (float_mul (float_of_int f)
      (float_div (float_of_int un) (Fin (of_int (10 ^ length ds))))) = u mod 10 ^ prec"
    unfolding q by simp
  show ?thesis
    using dd ds(1,2) int frac t unit_span [OF us] unit n(2,3) f(3) us'
    unfolding duration_component_def by (simp add: Let_def)
qed

section \<open>Reading back the sum\<close>

lemma duration_sum_enough: "length s \<le> n \<Longrightarrow> duration_sum n d s = duration_sum (length s) d s"
proof (induction n)
  case 0
  then show ?case by simp
next
  case (Suc n)
  show ?case
  proof (cases "length s \<le> n")
    case True
    then show ?thesis using duration_sum_fuel [OF True] Suc.IH by metis
  next
    case False
    with Suc.prems have "length s = Suc n" by simp
    then show ?thesis by simp
  qed
qed

lemma duration_sum_step:
  assumes "duration_component s = Some (v, r)" "0 \<le> d + v" "d + v \<le> two63"
  shows "duration_sum (length s) d s = duration_sum (length r) (d + v) r"
proof -
  have l: "length r < length s" by (rule duration_component_shorter [OF assms(1)])
  then obtain m where m: "length s = Suc m" "length r \<le> m" by (cases "length s") auto
  have "s \<noteq> []" using l by auto
  moreover have "(d + v) mod two64 = d + v" using assms(2,3) by (simp add: two63_def two64_def)
  ultimately show ?thesis
    using assms(1,3) duration_sum_enough [OF m(2), of "d + v"] by (simp add: m(1) Let_def)
qed

lemma duration_sum_done [simp]: "duration_sum 0 d [] = Some d"
  by simp

lemma units:
  "unit_text ''ns'' 1" "unit_text (micro_sign @ ''s'') 1000" "unit_text ''ms'' 1000000"
  "unit_text ''s'' 1000000000" "unit_text ''m'' 60000000000" "unit_text ''h'' 3600000000000"
  by code_simp+

text \<open>The whole text, as a chain of components that ends with the empty rest.\<close>

lemma ParseDuration_components:
  assumes "duration_sum (length s) 0 s = Some d" "d \<le> MaxInt64" "\<exists>c cs. s = c # cs \<and> is_digit c" "s \<noteq> ''0''"
  shows "ParseDuration s = Some d"
proof -
  obtain c cs where "s = c # cs" "is_digit c" using assms(3) by blast
  moreover from this have "c \<noteq> CHR ''-''" "c \<noteq> CHR ''+''" by (auto simp: is_digit_def)
  ultimately show ?thesis
    using assms by (auto simp: ParseDuration_def Let_def two63_def MaxInt64_def simp del: duration_sum.simps)
qed

lemma sum_one:
  assumes "duration_component s = Some (v, [])" "0 \<le> d + v" "d + v \<le> two63"
  shows "duration_sum (length s) d s = Some (d + v)"
  using duration_sum_step [OF assms] by simp

text \<open>The seconds with their fraction, then minutes and hours in front.\<close>

lemma seconds_text:
  assumes "0 \<le> d" "0 \<le> u" "0 \<le> n" "d + (n * Second + u mod Second) \<le> two63"
  shows "duration_sum (length (dec_digits n @ fmtFrac u 9 @ ''s'')) d (dec_digits n @ fmtFrac u 9 @ ''s'')
     = Some (d + (n * Second + u mod Second))"
proof (rule sum_one)
  have "0 \<le> u mod Second" by simp
  then have b: "n * Second + u mod Second \<le> two63" "n * Second \<le> two63" using assms(1,4) by linarith+
  then have n: "n \<le> two63 div Second" by (simp add: two63_def)
  have "duration_component (dec_digits n @ fmtFrac u 9 @ ''s'' @ []) = Some (n * Second + u mod 10 ^ 9, [])"
    by (rule component_frac [OF assms(3) n _ units(4)]) (use assms(2) b in simp_all)
  then show "duration_component (dec_digits n @ fmtFrac u 9 @ ''s'') = Some (n * Second + u mod Second, [])"
    by simp
  show "0 \<le> d + (n * Second + u mod Second)" using assms(1,3) \<open>0 \<le> u mod Second\<close> by linarith
qed (rule assms(4))

lemma unit_prefix:
  assumes "0 \<le> d" "0 \<le> n" "d + n * un \<le> two63" "unit_text us un" "\<exists>c cs. S = c # cs \<and> is_digit c"
  shows "duration_sum (length (dec_digits n @ us @ S)) d (dec_digits n @ us @ S)
       = duration_sum (length S) (d + n * un) S"
    "\<exists>c cs. dec_digits n @ us @ S = c # cs \<and> is_digit c"
proof -
  have un: "0 < un" using assms(4) by (simp add: unit_text_def)
  have "n * un \<le> two63" using assms(1,3) by linarith
  then have "n * un div un \<le> two63 div un" using un by (intro zdiv_mono1) auto
  then have n: "n \<le> two63 div un" using un by simp
  have "S = [] \<or> is_digit (hd S)" using assms(5) by auto
  note comp = component_plain [OF assms(2) n assms(4) this]
  show "duration_sum (length (dec_digits n @ us @ S)) d (dec_digits n @ us @ S)
       = duration_sum (length S) (d + n * un) S"
    using assms(1,2,3) un by (intro duration_sum_step [OF comp]) auto
  show "\<exists>c cs. dec_digits n @ us @ S = c # cs \<and> is_digit c"
    using dec_digits_hd [OF assms(2)] by auto
qed

lemma not_zero_text:
  "unit_text us un \<Longrightarrow> s = dec_digits n @ f @ us @ r \<Longrightarrow> s \<noteq> ''0''"
proof
  assume "unit_text us un" "s = dec_digits n @ f @ us @ r" "s = ''0''"
  then have "length us = 0"
    by (metis (no_types, lifting) append_is_Nil_conv append_self_conv2 butlast_append butlast.simps(2)
        dec_digits_nonempty list.size(3))
  with \<open>unit_text us un\<close> show False by (simp add: unit_text_def)
qed

lemma small_text:
  assumes "0 \<le> u" "u \<le> MaxInt64" "unit_text us (10 ^ prec)" "prec \<le> 9"
  shows "ParseDuration (dec_digits (u div 10 ^ prec) @ fmtFrac u prec @ us) = Some u"
proof -
  let ?s = "dec_digits (u div 10 ^ prec) @ fmtFrac u prec @ us"
  have n: "0 \<le> u div 10 ^ prec" using assms(1) by (simp add: pos_imp_zdiv_nonneg_iff)
  have eq: "u div 10 ^ prec * 10 ^ prec + u mod 10 ^ prec = u"
    by (rule div_mult_mod_eq)
  have u: "u \<le> two63" using assms(2) by (simp add: two63_def MaxInt64_def)
  then have b: "u div 10 ^ prec \<le> two63 div 10 ^ prec" by (intro zdiv_mono1) auto
  have "duration_component (dec_digits (u div 10 ^ prec) @ fmtFrac u prec @ us @ []) =
      Some (u div 10 ^ prec * 10 ^ prec + u mod 10 ^ prec, [])"
    using n b assms(1,3,4) u by (intro component_frac) (simp_all only: eq, simp_all)
  then have comp: "duration_component ?s = Some (u, [])" by (simp only: eq append_Nil2)
  have "duration_sum (length ?s) 0 ?s = Some (0 + u)"
    by (rule sum_one [OF comp]) (use u assms(1) in simp_all)
  then show ?thesis
    using assms(2) dec_digits_hd [OF n] not_zero_text [OF assms(3), of ?s _ _ "[]"]
    by (intro ParseDuration_components) auto
qed

lemma ParseDuration_String:
  assumes "0 \<le> d" "d \<le> MaxInt64"
  shows "ParseDuration (duration_String d) = Some d"
proof -
  consider "d = 0" | "0 < d" "d < 1000" | "1000 \<le> d" "d < 1000000" | "1000000 \<le> d" "d < Second" | "Second \<le> d"
    using assms(1) by linarith
  then show ?thesis
  proof cases
    case 1
    then show ?thesis by (simp add: duration_String_def duration_eval)
  next
    case 2
    then show ?thesis
      using small_text [OF assms, of "''ns''" 0] units(1) by (simp add: duration_String_def fmtFrac_def)
  next
    case 3
    then show ?thesis
      using small_text [OF assms, of "micro_sign @ ''s''" 3] units(2) by (simp add: duration_String_def)
  next
    case 4
    then show ?thesis
      using small_text [OF assms, of "''ms''" 6] units(3) by (simp add: duration_String_def)
  next
    case 5
    define secs where "secs = d div Second"
    define mins where "mins = secs div 60"
    define hours where "hours = mins div 60"
    have nn: "0 \<le> secs" "0 \<le> mins" "0 \<le> hours" using 5 by (simp_all add: secs_def mins_def hours_def)
    have split: "d = hours * 3600000000000 + (mins mod 60) * 60000000000 + (secs mod 60 * Second + d mod Second)"
    proof -
      have "d = secs * Second + d mod Second" by (simp add: secs_def)
      moreover have "secs = mins * 60 + secs mod 60" by (simp add: mins_def)
      moreover have "mins = hours * 60 + mins mod 60" by (simp add: hours_def)
      ultimately show ?thesis by linarith
    qed
    have max: "d \<le> two63" using assms(2) by (simp add: two63_def MaxInt64_def)
    have rem: "0 \<le> secs mod 60" "0 \<le> mins mod 60" "0 \<le> d mod Second" by simp_all
    let ?S = "dec_digits (secs mod 60) @ fmtFrac d 9 @ ''s''"
    let ?M = "if 0 < mins then dec_digits (mins mod 60) @ ''m'' @ ?S else ?S"
    let ?H = "if 0 < hours then dec_digits hours @ ''h'' @ ?M else ?M"
    have S: "duration_sum (length ?S) x ?S = Some (x + (secs mod 60 * Second + d mod Second))"
 if "0 \<le> x" "x + (secs mod 60 * Second + d mod Second) \<le> two63" for x
      using seconds_text [OF that(1) assms(1) rem(1) that(2)] .
    have hd_S: "\<exists>c cs. ?S = c # cs \<and> is_digit c" using dec_digits_hd [OF rem(1)] by auto
    have M: "duration_sum (length ?M) x ?M
        = Some (x + (mins mod 60 * 60000000000 + (secs mod 60 * Second + d mod Second)))"
      if "0 \<le> x" "x + (mins mod 60 * 60000000000 + (secs mod 60 * Second + d mod Second)) \<le> two63" for x
    proof (cases "0 < mins")
      case True
      have "x + mins mod 60 * 60000000000 \<le> two63" using that rem by linarith
      from unit_prefix(1) [OF that(1) rem(2) this units(5) hd_S]
        S [of "x + mins mod 60 * 60000000000"] that rem True
      show ?thesis by (simp add: add.assoc)
    next
      case False
      then have "mins = 0" using nn by simp
      then show ?thesis using S [of x] that by simp
    qed
    have hd_M: "\<exists>c cs. ?M = c # cs \<and> is_digit c" using hd_S dec_digits_hd [OF rem(2)] by auto
    have H: "duration_sum (length ?H) 0 ?H = Some d"
    proof (cases "0 < hours")
      case True
      have "0 + hours * 3600000000000 \<le> two63" using max split rem by linarith
      from unit_prefix(1) [OF order_refl nn(3) this units(6) hd_M]
        M [of "0 + hours * 3600000000000"] max split nn(3) True
      show ?thesis by simp
    next
      case False
      then have "hours = 0" using nn by simp
      then show ?thesis using M [of 0] max split by simp
    qed
    have hd_H: "\<exists>c cs. ?H = c # cs \<and> is_digit c" using hd_M dec_digits_hd [OF nn(3)] by auto
    have "?H \<noteq> ''0''"
    proof
      assume "?H = ''0''"
      then have "last ?H = last ''0''" by (rule arg_cong)
      then show False by (simp split: if_split_asm)
    qed
    then have "ParseDuration ?H = Some d" by (rule ParseDuration_components [OF H assms(2) hd_H])
    moreover have "duration_String d = ?H"
      using 5 by (simp add: duration_String_def secs_def mins_def hours_def Let_def)
    ultimately show ?thesis by (simp only:)
  qed
qed

end
