(* ===== verification/NetworkConfig.thy ===== *)
theory NetworkConfig
  imports Distributions DurationText
begin

text \<open>
  Network impairments of a Peer (\<open>internal/model/network.go\<close>): validation, the sampling of a per-Peer
  delay, and whether anything is configured at all. Pointer fields are options: nil is None.
\<close>

record tbf_config =
  tbf_RateMbps :: float64
  tbf_BurstKbit :: float64
  tbf_Latency :: gostring

record network_config =
  nw_Scope :: gostring
  nw_Delay :: gostring
  nw_DelayDistribution :: "distribution option"
  nw_Jitter :: gostring
  nw_JitterDistribution :: gostring
  nw_LossPercent :: "float64 option"
  nw_DuplicatePercent :: "float64 option"
  nw_CorruptPercent :: "float64 option"
  nw_ReorderPercent :: "float64 option"
  nw_ReorderCorrelationPercent :: "float64 option"
  nw_RateMbps :: "float64 option"
  nw_TBF :: "tbf_config option"
  nw_QueueLimit :: "int option"

definition empty_network :: network_config where
  "empty_network = \<lparr>nw_Scope = [], nw_Delay = [], nw_DelayDistribution = None, nw_Jitter = [],
     nw_JitterDistribution = [], nw_LossPercent = None, nw_DuplicatePercent = None,
     nw_CorruptPercent = None, nw_ReorderPercent = None, nw_ReorderCorrelationPercent = None,
     nw_RateMbps = None, nw_TBF = None, nw_QueueLimit = None\<rparr>"

datatype network_error =
    BadScope
  | BadJitterDistribution
  | BadDuration gostring gostring
  | JitterTooLarge
  | DelayExclusive
  | DelayDistributionError distribution_error
  | NeedsPositiveMin
  | JitterNeedsDelay
  | BadPercent gostring
  | ReorderNeedsDelay
  | CorrelationNeedsReorder
  | BadRate
  | TBFRateExclusive
  | BadTBF
  | TBFLatencyRange
  | BadQueueLimit
  | NeedsRandomSource

definition MaxInt32 :: int where "MaxInt32 = 2147483647"
definition MaxUint32 :: int where "MaxUint32 = 4294967295"

definition networkDuration :: "gostring \<Rightarrow> gostring \<Rightarrow> network_error + duration" where
  "networkDuration name value =
     (if value = [] then Inr 0
      else case ParseDuration value of
             None \<Rightarrow> Inl (BadDuration name value)
           | Some d \<Rightarrow> if d < 0 then Inl (BadDuration name value) else Inr d)"

definition networkPositiveFinite :: "float64 \<Rightarrow> bool" where
  "networkPositiveFinite v \<longleftrightarrow> float_less (Fin 0) v \<and> \<not> IsNaN v \<and> \<not> IsInf v"

text \<open>\<open>p != nil && *p > 0\<close>.\<close>

definition positive :: "float64 option \<Rightarrow> bool" where
  "positive p \<longleftrightarrow> (case p of None \<Rightarrow> False | Some v \<Rightarrow> float_less (Fin 0) v)"

definition bad_percent :: "float64 option \<Rightarrow> bool" where
  "bad_percent p \<longleftrightarrow> (case p of None \<Rightarrow> False
     | Some v \<Rightarrow> IsNaN v \<or> IsInf v \<or> float_less v (Fin 0) \<or> float_less (Fin 100) v)"

definition percent_fields :: "network_config \<Rightarrow> (gostring \<times> float64 option) list" where
  "percent_fields c =
     [(''lossPercent'', nw_LossPercent c),
      (''duplicatePercent'', nw_DuplicatePercent c),
      (''corruptPercent'', nw_CorruptPercent c),
      (''reorderPercent'', nw_ReorderPercent c),
      (''reorderCorrelationPercent'', nw_ReorderCorrelationPercent c)]"

definition delayDistributionError :: "network_config \<Rightarrow> duration \<Rightarrow> network_error option" where
  "delayDistributionError c jitter =
     (case nw_DelayDistribution c of None \<Rightarrow> None
      | Some d \<Rightarrow>
          if nw_Delay c \<noteq> [] then Some DelayExclusive
          else case Distribution_Validate False d of Some e \<Rightarrow> Some (DelayDistributionError e)
          | None \<Rightarrow>
              if (0 < jitter \<or> positive (nw_ReorderPercent c)) \<and> duration_or_zero (ds_Min d) \<le> 0
              then Some NeedsPositiveMin else None)"

definition tbfError :: "network_config \<Rightarrow> network_error option" where
  "tbfError c =
     (case nw_TBF c of None \<Rightarrow> None
      | Some t \<Rightarrow>
          if positive (nw_RateMbps c) then Some TBFRateExclusive
          else if \<not> networkPositiveFinite (tbf_RateMbps t) \<or> \<not> networkPositiveFinite (tbf_BurstKbit t)
          then Some BadTBF
          else case networkDuration ''tbf latency'' (tbf_Latency t) of Inl e \<Rightarrow> Some e
          | Inr latency \<Rightarrow>
              if latency < Microsecond \<or> MaxUint32 * Microsecond < latency
              then Some TBFLatencyRange else None)"

text \<open>\<open>NetworkConfig.Validate\<close>, check by check in the order of the code.\<close>

definition Network_Validate :: "network_config \<Rightarrow> network_error option" where
  "Network_Validate c =
     (if nw_Scope c \<noteq> [] \<and> nw_Scope c \<noteq> ''p2p'' \<and> nw_Scope c \<noteq> ''all'' then Some BadScope
      else if nw_JitterDistribution c \<noteq> [] \<and> nw_JitterDistribution c \<noteq> ''uniform''
              \<and> nw_JitterDistribution c \<noteq> ''normal'' \<and> nw_JitterDistribution c \<noteq> ''pareto''
              \<and> nw_JitterDistribution c \<noteq> ''paretonormal'' then Some BadJitterDistribution
      else case networkDuration ''delay'' (nw_Delay c) of Inl e \<Rightarrow> Some e
      | Inr delay \<Rightarrow>
        (case networkDuration ''jitter'' (nw_Jitter c) of Inl e \<Rightarrow> Some e
         | Inr jitter \<Rightarrow>
           if MaxInt32 < jitter then Some JitterTooLarge
           else case delayDistributionError c jitter of Some e \<Rightarrow> Some e
           | None \<Rightarrow>
             if 0 < jitter \<and> delay = 0 \<and> nw_DelayDistribution c = None then Some JitterNeedsDelay
             else case find (\<lambda>f. bad_percent (snd f)) (percent_fields c) of Some f \<Rightarrow> Some (BadPercent (fst f))
             | None \<Rightarrow>
               if positive (nw_ReorderPercent c) \<and> delay = 0 \<and> nw_DelayDistribution c = None
               then Some ReorderNeedsDelay
               else if positive (nw_ReorderCorrelationPercent c) \<and> \<not> positive (nw_ReorderPercent c)
               then Some CorrelationNeedsReorder
               else if (case nw_RateMbps c of None \<Rightarrow> False
                        | Some v \<Rightarrow> IsNaN v \<or> IsInf v \<or> float_less v (Fin 0)) then Some BadRate
               else case tbfError c of Some e \<Rightarrow> Some e
               | None \<Rightarrow>
                 if (case nw_QueueLimit c of None \<Rightarrow> False | Some q \<Rightarrow> q \<le> 0 \<or> MaxUint32 < q)
                 then Some BadQueueLimit else None))"

text \<open>\<open>Resolve\<close>: the outer None is a sampler that has not returned.\<close>

definition Network_Resolve :: "mathfns \<Rightarrow> 'r random_source option \<Rightarrow> nat \<Rightarrow> network_config \<Rightarrow> 'r
    \<Rightarrow> (network_config \<times> network_error option \<times> 'r) option" where
  "Network_Resolve m rng fuel c r =
     (case Network_Validate c of Some e \<Rightarrow> Some (c, Some e, r)
      | None \<Rightarrow>
        (case nw_DelayDistribution c of None \<Rightarrow> Some (c, None, r)
         | Some d \<Rightarrow>
           (case rng of None \<Rightarrow> Some (c, Some NeedsRandomSource, r)
            | Some src \<Rightarrow>
              (case Sample m src fuel d r of None \<Rightarrow> None
               | Some (v, r1) \<Rightarrow>
                   let c' = c\<lparr>nw_Delay := duration_String v, nw_DelayDistribution := None\<rparr>
                   in Some (c', Network_Validate c', r1)))))"

definition nonzero :: "float64 option \<Rightarrow> bool" where
  "nonzero p \<longleftrightarrow> (case p of None \<Rightarrow> False | Some v \<Rightarrow> \<not> float_eq v (Fin 0))"

definition Network_Enabled :: "network_config \<Rightarrow> bool" where
  "Network_Enabled c \<longleftrightarrow>
     (if duration_or_zero (nw_Delay c) \<noteq> 0 \<or> duration_or_zero (nw_Jitter c) \<noteq> 0
         \<or> nw_QueueLimit c \<noteq> None \<or> nw_DelayDistribution c \<noteq> None \<or> nw_TBF c \<noteq> None then True
      else list_ex nonzero [nw_LossPercent c, nw_DuplicatePercent c, nw_CorruptPercent c,
                            nw_ReorderPercent c, nw_RateMbps c])"

section \<open>Properties\<close>

lemma networkDuration_Inr:
  "networkDuration n v = Inr d \<longleftrightarrow> v = [] \<and> d = 0 \<or> v \<noteq> [] \<and> ParseDuration v = Some d \<and> 0 \<le> d"
  by (auto simp: networkDuration_def split: option.split)

lemma duration_String_nonempty: "0 \<le> d \<Longrightarrow> d \<le> MaxInt64 \<Longrightarrow> duration_String d \<noteq> []"
  using ParseDuration_String by (metis ParseDuration_empty option.distinct(1))

lemma networkDuration_String:
  "0 \<le> d \<Longrightarrow> d \<le> MaxInt64 \<Longrightarrow> networkDuration n (duration_String d) = Inr d"
  by (simp add: networkDuration_def ParseDuration_String duration_String_nonempty)

lemma percent_fields_delay [simp]:
  "percent_fields (c\<lparr>nw_Delay := x, nw_DelayDistribution := y\<rparr>) = percent_fields c"
  by (simp add: percent_fields_def)

lemma tbfError_delay [simp]: "tbfError (c\<lparr>nw_Delay := x, nw_DelayDistribution := y\<rparr>) = tbfError c"
  by (simp add: tbfError_def split: option.split)

lemma Network_Validate_None:
  "Network_Validate c = None \<longleftrightarrow>
     nw_Scope c \<in> {[], ''p2p'', ''all''}
     \<and> nw_JitterDistribution c \<in> {[], ''uniform'', ''normal'', ''pareto'', ''paretonormal''}
     \<and> (\<exists>delay jitter. networkDuration ''delay'' (nw_Delay c) = Inr delay
          \<and> networkDuration ''jitter'' (nw_Jitter c) = Inr jitter
          \<and> jitter \<le> MaxInt32 \<and> delayDistributionError c jitter = None
          \<and> \<not> (0 < jitter \<and> delay = 0 \<and> nw_DelayDistribution c = None)
          \<and> find (\<lambda>f. bad_percent (snd f)) (percent_fields c) = None
          \<and> \<not> (positive (nw_ReorderPercent c) \<and> delay = 0 \<and> nw_DelayDistribution c = None)
          \<and> \<not> (positive (nw_ReorderCorrelationPercent c) \<and> \<not> positive (nw_ReorderPercent c)))
     \<and> (\<forall>v. nw_RateMbps c = Some v \<longrightarrow> \<not> IsNaN v \<and> \<not> IsInf v \<and> \<not> float_less v (Fin 0))
     \<and> tbfError c = None
     \<and> (\<forall>q. nw_QueueLimit c = Some q \<longrightarrow> 0 < q \<and> q \<le> MaxUint32)"
  unfolding Network_Validate_def
  by (cases "networkDuration ''delay'' (nw_Delay c)"; cases "networkDuration ''jitter'' (nw_Jitter c)")
     (auto simp: not_le not_less split: option.split if_split)

text \<open>What a validated configuration with a delay distribution is known to satisfy.\<close>

lemma valid_distribution:
  assumes "Network_Validate c = None" and "nw_DelayDistribution c = Some d"
  obtains jitter where "networkDuration ''jitter'' (nw_Jitter c) = Inr jitter"
    "Distribution_Validate False d = None" "nw_Delay c = []"
    "0 < jitter \<or> positive (nw_ReorderPercent c) \<longrightarrow> 0 < duration_or_zero (ds_Min d)"
  using assms
  by (auto simp: Network_Validate_None delayDistributionError_def split: if_split_asm option.split_asm)

lemma valid_resolved:
  assumes "Network_Validate c = None" and "nw_DelayDistribution c = Some d"
    and "0 \<le> v" "v \<le> MaxInt64" and "networkDuration ''jitter'' (nw_Jitter c) = Inr jitter"
    and "0 < jitter \<or> positive (nw_ReorderPercent c) \<longrightarrow> 0 < v"
  shows "Network_Validate (c\<lparr>nw_Delay := duration_String v, nw_DelayDistribution := None\<rparr>) = None"
  using assms networkDuration_String [OF assms(3,4), of "''delay''"]
  unfolding Network_Validate_None by (auto simp: delayDistributionError_def)

text \<open>C8: Resolving a validated configuration never fails: unless a rejection sampler is still running
  it returns, without an error, a configuration that is valid again and no longer carries a
  distribution; its delay is the text of a sampled duration that lies within the distribution's
  bounds and reads back as that duration, and every other setting is the one the user wrote.\<close>

theorem network_resolve_total:
  assumes "Network_Validate c = None"
  shows "case Network_Resolve m (Some src) fuel c r of
      None \<Rightarrow> \<exists>d. nw_DelayDistribution c = Some d \<and> loop_model d
    | Some (c', e, r') \<Rightarrow> e = None \<and> Network_Validate c' = None \<and> nw_DelayDistribution c' = None
        \<and> c' = c\<lparr>nw_Delay := nw_Delay c', nw_DelayDistribution := None\<rparr>
        \<and> (case nw_DelayDistribution c of None \<Rightarrow> c' = c
           | Some d \<Rightarrow> \<exists>v. ParseDuration (nw_Delay c') = Some v \<and> 0 \<le> v
               \<and> (ds_Min d \<noteq> [] \<longrightarrow> duration_or_zero (ds_Min d) \<le> v)
               \<and> (ds_Max d \<noteq> [] \<longrightarrow> v \<le> duration_or_zero (ds_Max d)))"
proof (cases "nw_DelayDistribution c")
  case None
  then show ?thesis using assms by (simp add: Network_Resolve_def)
next
  case (Some d)
  obtain jitter where j: "networkDuration ''jitter'' (nw_Jitter c) = Inr jitter"
    "Distribution_Validate False d = None" "nw_Delay c = []"
    "0 < jitter \<or> positive (nw_ReorderPercent c) \<longrightarrow> 0 < duration_or_zero (ds_Min d)"
    by (rule valid_distribution [OF assms Some])
  have model: "ds_Model d \<noteq> []" using j(2) by (auto simp: Distribution_Validate_def)
  note bounds = sample_bounds [OF j(2), of m src fuel r]
  show ?thesis
  proof (cases "Sample m src fuel d r")
    case None
    then show ?thesis using assms Some bounds by (simp add: Network_Resolve_def)
  next
    case (Some vr)
    obtain v r' where vr: "vr = (v, r')" by (cases vr)
    with Some bounds model have v: "0 \<le> v" "v \<le> MaxInt64"
      "ds_Min d \<noteq> [] \<longrightarrow> duration_or_zero (ds_Min d) \<le> v"
      "ds_Max d \<noteq> [] \<longrightarrow> v \<le> duration_or_zero (ds_Max d)" by auto
    have "0 < v" if "0 < duration_or_zero (ds_Min d)"
    proof -
      have "ds_Min d \<noteq> []" using that by (auto simp: duration_or_zero_def)
      with v(3) that show ?thesis by simp
    qed
    then have "Network_Validate (c\<lparr>nw_Delay := duration_String v, nw_DelayDistribution := None\<rparr>) = None"
      using valid_resolved [OF assms \<open>nw_DelayDistribution c = Some d\<close> v(1,2) j(1)] j(4) by blast
    then show ?thesis
      using assms \<open>nw_DelayDistribution c = Some d\<close> Some vr v ParseDuration_String [OF v(1,2)]
      by (simp add: Network_Resolve_def Let_def)
  qed
qed

definition demo_network :: network_config where
  "demo_network = empty_network\<lparr>nw_DelayDistribution := Some demo_fixed\<rparr>"

theorem network_resolve_total_witness:
  "case Network_Resolve demo_math (Some demo_uniform) 1 demo_network 0 of
     Some (c', e, _) \<Rightarrow> e = None \<and> Network_Validate c' = None | None \<Rightarrow> False"
proof -
  have "Network_Validate demo_network = None" by code_simp
  from network_resolve_total [OF this, of demo_math demo_uniform 1 0] show ?thesis
    by (auto simp: demo_network_def loop_model_def demo_fixed_def split: option.splits prod.splits)
qed

end
