(* ===== verification/NetemCommands.thy ===== *)
theory NetemCommands
  imports NetworkConfig
begin

text \<open>
  The tc commands that install the impairments inside a Peer container
  (\<open>internal/netem/netem.go\<close>). Running a command is the parameter \<open>run\<close>: it takes the state of the
  network namespace to the next one and says whether tc succeeded. Error texts are left out.
\<close>

definition DefaultP2PPort :: int where "DefaultP2PPort = 20000"

section \<open>Interfaces\<close>

datatype net_addr = IPNet "nat list" | IPAddr "nat list" | OtherAddr

record network_interface =
  if_name :: gostring
  if_up :: bool
  if_loopback :: bool
  if_addresses :: "net_addr list"

text \<open>\<open>net.IP.To4\<close>: four bytes, or the last four of an IPv4-mapped address.\<close>

definition To4 :: "nat list \<Rightarrow> nat list option" where
  "To4 ip =
     (if length ip = 4 then Some ip
      else if length ip = 16 \<and> take 12 ip = replicate 10 0 @ [255, 255] then Some (drop 12 ip)
      else None)"

definition usable_ip :: "nat list \<Rightarrow> bool" where
  "usable_ip ip \<longleftrightarrow> (case To4 ip of None \<Rightarrow> False | Some b \<Rightarrow> hd b \<noteq> 127 \<and> b \<noteq> [0, 0, 0, 0])"

fun addr_ip :: "net_addr \<Rightarrow> nat list" where
  "addr_ip (IPNet ip) = ip"
| "addr_ip (IPAddr ip) = ip"
| "addr_ip OtherAddr = []"

definition activeIPv4Interfaces :: "network_interface list \<Rightarrow> gostring list" where
  "activeIPv4Interfaces ifs =
     sort_Strings (map if_name (filter (\<lambda>d. if_up d \<and> \<not> if_loopback d
        \<and> list_ex (\<lambda>a. usable_ip (addr_ip a)) (if_addresses d)) ifs))"

section \<open>The commands of one device\<close>

type_synonym tc_args = "gostring list"

definition tbfCommand :: "gostring \<Rightarrow> gostring \<Rightarrow> gostring \<Rightarrow> tbf_config \<Rightarrow> tc_args" where
  "tbfCommand device parent handle t =
     (let micros = (duration_or_zero (tbf_Latency t) + Microsecond - 1) div Microsecond
      in [''qdisc'', ''replace'', ''dev'', device, ''parent'', parent, ''handle'', handle, ''tbf'',
          ''rate'', FormatFloat (tbf_RateMbps t) @ ''mbit'',
          ''burst'', FormatFloat (tbf_BurstKbit t) @ ''kbit'',
          ''latency'', Itoa micros @ ''us''])"

text \<open>The loss, duplicate, corrupt and reorder arguments, in that order.\<close>

definition percent_args :: "network_config \<Rightarrow> gostring \<times> float64 option \<Rightarrow> tc_args" where
  "percent_args c f =
     (case snd f of None \<Rightarrow> []
      | Some v \<Rightarrow>
          if float_less (Fin 0) v then
            [fst f, FormatFloat v @ ''%'']
            @ (if fst f = ''reorder'' then
                 (case nw_ReorderCorrelationPercent c of None \<Rightarrow> []
                  | Some q \<Rightarrow> [FormatFloat q @ ''%'']) else [])
          else [])"

definition netem_options :: "network_config \<Rightarrow> tc_args" where
  "netem_options c =
     (let delay = duration_or_zero (nw_Delay c);
          jitter = duration_or_zero (nw_Jitter c);
          distribution = (if nw_JitterDistribution c = [] then ''normal'' else nw_JitterDistribution c)
      in (if 0 < delay then
            [''delay'', Itoa delay @ ''ns'']
            @ (if 0 < jitter then
                 [Itoa jitter @ ''ns'']
                 @ (if distribution \<noteq> ''uniform'' then [''distribution'', distribution] else [])
               else [])
          else [])
         @ concat (map (percent_args c)
             [(''loss'', nw_LossPercent c), (''duplicate'', nw_DuplicatePercent c),
              (''corrupt'', nw_CorruptPercent c), (''reorder'', nw_ReorderPercent c)])
         @ (case nw_RateMbps c of None \<Rightarrow> []
            | Some v \<Rightarrow> if float_less (Fin 0) v then [''rate'', FormatFloat v @ ''mbit''] else [])
         @ (case nw_QueueLimit c of None \<Rightarrow> [] | Some q \<Rightarrow> [''limit'', Itoa q]))"

definition portFilter :: "gostring \<Rightarrow> int \<Rightarrow> gostring \<Rightarrow> int \<Rightarrow> tc_args" where
  "portFilter device prio direction port =
     [''filter'', ''add'', ''dev'', device, ''protocol'', ''ip'', ''parent'', ''1:'', ''prio'', Itoa prio, ''u32'',
      ''match'', ''ip'', ''protocol'', ''6'', ''0xff'',
      ''match'', ''ip'', direction, Itoa port, ''0xffff'', ''flowid'', ''1:3'']"

definition netem_commands :: "gostring \<Rightarrow> network_config \<Rightarrow> int \<Rightarrow> tc_args list" where
  "netem_commands device c port =
     (if nw_Scope c = ''all'' then
        ([''qdisc'', ''replace'', ''dev'', device, ''root'', ''handle'', ''1:'', ''netem''] @ netem_options c)
        # (case nw_TBF c of None \<Rightarrow> [] | Some t \<Rightarrow> [tbfCommand device ''1:1'' ''2:'' t])
      else
        ([''qdisc'', ''replace'', ''dev'', device, ''root'', ''handle'', ''1:'', ''prio'', ''bands'', ''3'', ''priomap'']
           @ replicate 16 ''0'')
        # ([''qdisc'', ''replace'', ''dev'', device, ''parent'', ''1:3'', ''handle'', ''30:'', ''netem''] @ netem_options c)
        # (case nw_TBF c of None \<Rightarrow> [] | Some t \<Rightarrow> [tbfCommand device ''30:1'' ''31:'' t])
        @ [portFilter device 1 ''sport'' port, portFilter device 2 ''dport'' port])"

section \<open>Installing and rolling back\<close>

type_synonym 'w runner = "'w \<Rightarrow> tc_args \<Rightarrow> bool \<times> 'w"

definition delete_root :: "gostring \<Rightarrow> tc_args" where
  "delete_root device = [''qdisc'', ''del'', ''dev'', device, ''root'', ''handle'', ''1:'']"

text \<open>\<open>rollback\<close> runs over the installed devices backwards and keeps going after a failure; the result is
  the devices it could not clean.\<close>

fun rollback_devices :: "'w runner \<Rightarrow> gostring list \<Rightarrow> 'w \<Rightarrow> gostring list \<times> 'w" where
  "rollback_devices run [] w = ([], w)"
| "rollback_devices run (d # ds) w =
     (let (ok, w1) = run w (delete_root d); (failed, w2) = rollback_devices run ds w1
      in (if ok then failed else d # failed, w2))"

definition rollback :: "'w runner \<Rightarrow> gostring list \<Rightarrow> 'w \<Rightarrow> gostring list \<times> 'w" where
  "rollback run devices w = rollback_devices run (rev devices) w"

datatype netem_error =
    NetworkInvalid network_error
  | DistributionUnresolved
  | BadPort
  | NoInterface
  | TcFailed tc_args "gostring list"

text \<open>The commands of one device: whether the first one succeeded, and the one that failed.\<close>

fun run_commands :: "'w runner \<Rightarrow> tc_args list \<Rightarrow> 'w \<Rightarrow> tc_args option \<times> 'w" where
  "run_commands run [] w = (None, w)"
| "run_commands run (a # as) w =
     (case run w a of (ok, w1) \<Rightarrow> if \<not> ok then (Some a, w1) else run_commands run as w1)"

text \<open>The device loop; \<open>installed\<close> holds the devices whose root command succeeded, in order.\<close>

fun install_devices :: "'w runner \<Rightarrow> network_config \<Rightarrow> int \<Rightarrow> gostring list \<Rightarrow> gostring list \<Rightarrow> 'w
    \<Rightarrow> netem_error option \<times> 'w" where
  "install_devices run c port installed [] w = (None, w)"
| "install_devices run c port installed (d # ds) w =
     (case netem_commands d c port of
        [] \<Rightarrow> install_devices run c port installed ds w
      | first # rest \<Rightarrow>
          (case run w first of (ok, w1) \<Rightarrow>
             if \<not> ok then (case rollback run installed w1 of (failed, w2) \<Rightarrow> (Some (TcFailed first failed), w2))
             else (case run_commands run rest w1 of (bad, w2) \<Rightarrow>
                (case bad of
                   Some a \<Rightarrow> (case rollback run (installed @ [d]) w2 of (failed, w3) \<Rightarrow>
                                (Some (TcFailed a failed), w3))
                 | None \<Rightarrow> install_devices run c port (installed @ [d]) ds w2))))"

definition netem_apply :: "'w runner \<Rightarrow> network_config \<Rightarrow> int \<Rightarrow> network_interface list \<Rightarrow> 'w
    \<Rightarrow> netem_error option \<times> 'w" where
  "netem_apply run c p2pPort ifs w =
     (case Network_Validate c of Some e \<Rightarrow> (Some (NetworkInvalid e), w)
      | None \<Rightarrow>
        if nw_DelayDistribution c \<noteq> None then (Some DistributionUnresolved, w)
        else if \<not> Network_Enabled c then (None, w)
        else
          let port = (if p2pPort = 0 then DefaultP2PPort else p2pPort)
          in if port < 1 \<or> 65535 < port then (Some BadPort, w)
             else let devices = activeIPv4Interfaces ifs
                  in if devices = [] then (Some NoInterface, w)
                     else install_devices run c port [] devices w)"

section \<open>What tc promises\<close>

text \<open>
  \<open>roots w\<close> is the set of devices that carry a root qdisc with handle 1: in the namespace. A
  successful root command adds its device, a successful deletion removes it, and no other command
  touches it.
\<close>

definition installs_root :: "gostring \<Rightarrow> tc_args \<Rightarrow> bool" where
  "installs_root d a \<longleftrightarrow> take 5 a = [''qdisc'', ''replace'', ''dev'', d, ''root'']"

definition tc_contract :: "'w runner \<Rightarrow> ('w \<Rightarrow> gostring set) \<Rightarrow> bool" where
  "tc_contract run roots \<longleftrightarrow>
     (\<forall>w a ok w'. run w a = (ok, w') \<longrightarrow>
        (\<forall>d. installs_root d a \<longrightarrow> roots w' = (if ok then insert d (roots w) else roots w))
        \<and> (\<forall>d. a = delete_root d \<longrightarrow> roots w' = (if ok then roots w - {d} else roots w))
        \<and> ((\<forall>d. \<not> installs_root d a) \<and> (\<forall>d. a \<noteq> delete_root d) \<longrightarrow> roots w' = roots w))"

definition inner_command :: "tc_args \<Rightarrow> bool" where
  "inner_command a \<longleftrightarrow> (\<forall>d. \<not> installs_root d a) \<and> (\<forall>d. a \<noteq> delete_root d)"

lemma netem_commands_shape:
  "\<exists>first rest. netem_commands d c port = first # rest \<and> installs_root d first
     \<and> (\<forall>a \<in> set rest. inner_command a)"
  by (cases "nw_TBF c")
     (simp_all add: netem_commands_def installs_root_def inner_command_def tbfCommand_def portFilter_def
        delete_root_def Let_def)

lemma tc_inner: "tc_contract run roots \<Longrightarrow> run w a = (ok, w') \<Longrightarrow> inner_command a \<Longrightarrow> roots w' = roots w"
  unfolding tc_contract_def inner_command_def by blast

lemma tc_root: "tc_contract run roots \<Longrightarrow> run w a = (ok, w') \<Longrightarrow> installs_root d a \<Longrightarrow>
    roots w' = (if ok then insert d (roots w) else roots w)"
  unfolding tc_contract_def by blast

lemma tc_delete: "tc_contract run roots \<Longrightarrow> run w (delete_root d) = (ok, w') \<Longrightarrow>
    roots w' = (if ok then roots w - {d} else roots w)"
  unfolding tc_contract_def by blast

lemma run_commands_roots:
  "tc_contract run roots \<Longrightarrow> \<forall>a \<in> set as. inner_command a \<Longrightarrow> run_commands run as w = (bad, w') \<Longrightarrow>
   roots w' = roots w"
proof (induction as arbitrary: w)
  case (Cons a as)
  obtain ok w1 where r: "run w a = (ok, w1)" by (cases "run w a")
  then have "roots w1 = roots w" using tc_inner Cons.prems by fastforce
  with r Cons show ?case by (auto split: if_splits)
qed simp

lemma rollback_roots:
  "tc_contract run roots \<Longrightarrow> rollback_devices run ds w = (failed, w') \<Longrightarrow>
   set failed \<subseteq> set ds \<and> roots w - set ds \<subseteq> roots w' \<and> roots w' \<subseteq> roots w - set ds \<union> set failed"
proof (induction ds arbitrary: w failed w')
  case (Cons d ds)
  obtain ok w1 where r: "run w (delete_root d) = (ok, w1)" by (cases "run w (delete_root d)")
  obtain failed2 w2 where rb: "rollback_devices run ds w1 = (failed2, w2)" by (cases "rollback_devices run ds w1")
  have "roots w1 = (if ok then roots w - {d} else roots w)" by (rule tc_delete [OF Cons.prems(1) r])
  moreover have "failed = (if ok then failed2 else d # failed2)" "w' = w2"
    using Cons.prems(2) r rb by (auto split: if_splits)
  ultimately show ?case using Cons.IH [OF Cons.prems(1) rb] by (auto split: if_splits)
qed simp

lemma install_devices_roots:
  assumes "tc_contract run roots" and "install_devices run c port installed ds w = (e, w')"
    and "B \<inter> set (installed @ ds) = {}" and "roots w = B \<union> set installed"
  shows "case e of None \<Rightarrow> roots w' = B \<union> set installed \<union> set ds
    | Some (TcFailed a failed) \<Rightarrow> B \<subseteq> roots w' \<and> roots w' \<subseteq> B \<union> set failed | Some _ \<Rightarrow> False"
  using assms
proof (induction ds arbitrary: installed w)
  case Nil
  then show ?case by auto
next
  case (Cons d ds)
  obtain first rest where cmds: "netem_commands d c port = first # rest" "installs_root d first"
    "\<forall>a \<in> set rest. inner_command a" using netem_commands_shape by blast
  obtain ok w1 where r: "run w first = (ok, w1)" by (cases "run w first")
  have roots1: "roots w1 = (if ok then insert d (roots w) else roots w)"
    by (rule tc_root [OF Cons.prems(1) r cmds(2)])
  have undo: "B \<subseteq> roots v' \<and> roots v' \<subseteq> B \<union> set failed"
    if "rollback run is v = (failed, v')" "roots v = B \<union> set is" "B \<inter> set is = {}" for "is" v v' failed
    using rollback_roots [OF Cons.prems(1), of "rev is" v failed v'] that by (auto simp: rollback_def)
  show ?case
  proof (cases ok)
    case False
    obtain failed v where rb: "rollback run installed w1 = (failed, v)" by (cases "rollback run installed w1")
    have "roots w1 = B \<union> set installed" "B \<inter> set installed = {}"
      using False roots1 Cons.prems(3,4) by auto
    from undo [OF rb this] show ?thesis
      using Cons.prems(2) cmds(1) r False rb by auto
  next
    case True
    obtain bad w2 where rc: "run_commands run rest w1 = (bad, w2)" by (cases "run_commands run rest w1")
    have roots2: "roots w2 = B \<union> set (installed @ [d])"
      using run_commands_roots [OF Cons.prems(1) cmds(3) rc] roots1 True Cons.prems(4) by auto
    have disj: "B \<inter> set (installed @ [d]) = {}" using Cons.prems(3) by auto
    show ?thesis
    proof (cases bad)
      case None
      then have "install_devices run c port (installed @ [d]) ds w2 = (e, w')"
        using Cons.prems(2) cmds(1) r True rc by simp
      note ih = Cons.IH [OF Cons.prems(1) this _ roots2]
      have "B \<inter> set ((installed @ [d]) @ ds) = {}" using Cons.prems(3) by simp
      moreover have "B \<union> set (installed @ [d]) \<union> set ds = B \<union> set installed \<union> set (d # ds)" by auto
      ultimately show ?thesis using ih by (simp only:)
    next
      case (Some a)
      obtain failed v where rb: "rollback run (installed @ [d]) w2 = (failed, v)"
        by (cases "rollback run (installed @ [d]) w2")
      from undo [OF rb roots2 disj] show ?thesis
        using Cons.prems(2) cmds(1) r True rc Some rb by auto
    qed
  qed
qed

section \<open>Properties\<close>

text \<open>C9: Applying the impairments is all or nothing. If it succeeds with an enabled configuration,
  exactly the active IPv4 devices have gained a root qdisc; if it fails, none has, except the devices
  whose clean-up tc itself refused, and those are named in the error.\<close>

theorem netem_all_or_nothing:
  assumes "tc_contract run roots"
    and "roots w \<inter> set (activeIPv4Interfaces ifs) = {}"
  shows "case netem_apply run c port ifs w of
      (None, w') \<Rightarrow> roots w' = roots w \<union> (if Network_Enabled c then set (activeIPv4Interfaces ifs) else {})
    | (Some (TcFailed a failed), w') \<Rightarrow> roots w \<subseteq> roots w' \<and> roots w' \<subseteq> roots w \<union> set failed
    | (Some _, w') \<Rightarrow> w' = w"
proof -
  define p where "p = (if port = 0 then DefaultP2PPort else port)"
  obtain e w' where i: "install_devices run c p [] (activeIPv4Interfaces ifs) w = (e, w')"
    by (cases "install_devices run c p [] (activeIPv4Interfaces ifs) w")
  have res: "case e of None \<Rightarrow> roots w' = roots w \<union> set [] \<union> set (activeIPv4Interfaces ifs)
    | Some (TcFailed a failed) \<Rightarrow> roots w \<subseteq> roots w' \<and> roots w' \<subseteq> roots w \<union> set failed | Some _ \<Rightarrow> False"
    by (rule install_devices_roots [OF assms(1) i]) (use assms(2) in auto)
  consider (refused) x where "netem_apply run c port ifs w = (Some x, w)" "\<forall>a failed. x \<noteq> TcFailed a failed"
    | (off) "netem_apply run c port ifs w = (None, w)" "\<not> Network_Enabled c"
    | (ran) "netem_apply run c port ifs w = (e, w')" "Network_Enabled c"
    using i unfolding netem_apply_def p_def [symmetric] Let_def
    by (cases "Network_Validate c"; cases "nw_DelayDistribution c"; cases "Network_Enabled c";
        cases "p < 1 \<or> 65535 < p"; cases "activeIPv4Interfaces ifs = []") auto
  then show ?thesis
  proof cases
    case refused
    then show ?thesis by (cases x) auto
  next
    case off
    then show ?thesis by simp
  next
    case ran
    show ?thesis
    proof (cases e)
      case None
      with ran res show ?thesis by simp
    next
      case (Some x)
      with ran res show ?thesis by (cases x) auto
    qed
  qed
qed

text \<open>A namespace that refuses one command.\<close>

definition demo_tc :: "gostring set runner" where
  "demo_tc w a =
     (if take 1 a = [''filter''] \<and> a ! 3 = ''eth1'' then (False, w)
      else if installs_root (a ! 3) a then (True, insert (a ! 3) w)
      else if a = delete_root (a ! 3) then (True, w - {a ! 3})
      else (True, w))"

lemma demo_tc_contract: "tc_contract demo_tc (\<lambda>w. w)"
proof -
  have d: "a ! 3 = d" "take 1 a = [''qdisc'']" if "installs_root d a" for d a
  proof -
    have "take 5 a ! 3 = d" "take 1 (take 5 a) = [''qdisc'']"
      using that by (simp_all add: installs_root_def)
    then show "a ! 3 = d" "take 1 a = [''qdisc'']" by simp_all
  qed
  have x: "delete_root d ! 3 = d" "take 1 (delete_root d) = [''qdisc'']"
    "\<not> installs_root e (delete_root d)" for d e
    by (simp_all add: delete_root_def installs_root_def)
  show ?thesis
    unfolding tc_contract_def
  proof (intro allI impI conjI)
    fix w a ok w' d
    assume run: "demo_tc w a = (ok, w')"
    show "w' = (if ok then insert d w else w)" if "installs_root d a"
      using run that d [OF that] by (simp add: demo_tc_def split: if_splits)
    show "w' = (if ok then w - {d} else w)" if "a = delete_root d"
      using run x unfolding that by (simp add: demo_tc_def split: if_splits)
    show "w' = w" if "(\<forall>d. \<not> installs_root d a) \<and> (\<forall>d. a \<noteq> delete_root d)"
      using run that by (simp add: demo_tc_def split: if_splits)
  qed
qed

definition demo_interfaces :: "network_interface list" where
  "demo_interfaces =
     [\<lparr>if_name = ''lo'', if_up = True, if_loopback = True, if_addresses = [IPNet [127, 0, 0, 1]]\<rparr>,
      \<lparr>if_name = ''eth1'', if_up = True, if_loopback = False, if_addresses = [IPNet [10, 0, 0, 3]]\<rparr>,
      \<lparr>if_name = ''eth0'', if_up = True, if_loopback = False, if_addresses = [IPNet [10, 0, 0, 2]]\<rparr>]"

definition demo_loss :: network_config where
  "demo_loss = empty_network\<lparr>nw_LossPercent := Some (Fin 5)\<rparr>"

theorem netem_all_or_nothing_witness:
  "case netem_apply demo_tc demo_loss 0 demo_interfaces {} of
     (Some (TcFailed a failed), w') \<Rightarrow> w' \<subseteq> set failed | _ \<Rightarrow> False"
proof -
  have "\<exists>a. fst (netem_apply demo_tc demo_loss 0 demo_interfaces {}) = Some (TcFailed a [])"
    by (rule exI [of _ "portFilter ''eth1'' 1 ''sport'' 20000"]) code_simp
  with netem_all_or_nothing [OF demo_tc_contract, of "{}" demo_interfaces demo_loss 0]
  show ?thesis by (auto split: prod.splits)
qed

text \<open>The units on the command line are exact. For a valid TBF the latency argument is a whole
  number of microseconds in tc's unsigned 32-bit range, at least the configured latency and less than
  one microsecond above it.\<close>

theorem tbf_latency_rounds_up:
  assumes "Network_Validate c = None" and "nw_TBF c = Some t"
  shows "\<exists>micros. last (tbfCommand device parent handle t) = Itoa micros @ ''us''
     \<and> 1 \<le> micros \<and> micros \<le> MaxUint32
     \<and> duration_or_zero (tbf_Latency t) \<le> micros * Microsecond
     \<and> micros * Microsecond < duration_or_zero (tbf_Latency t) + Microsecond"
proof -
  have "tbfError c = None" using assms(1) by (simp add: Network_Validate_None)
  then obtain l where l: "networkDuration ''tbf latency'' (tbf_Latency t) = Inr l"
    "Microsecond \<le> l" "l \<le> MaxUint32 * Microsecond"
    using assms(2) by (auto simp: tbfError_def split: if_split_asm sum.split_asm)
  have d: "duration_or_zero (tbf_Latency t) = l"
    using l(1,2) by (auto simp: networkDuration_Inr duration_or_zero_def)
  let ?m = "(l + Microsecond - 1) div Microsecond"
  have "last (tbfCommand device parent handle t) = Itoa ?m @ ''us''"
    by (simp add: tbfCommand_def d Let_def)
  moreover have "1 \<le> ?m \<and> ?m \<le> MaxUint32 \<and> l \<le> ?m * Microsecond \<and> ?m * Microsecond < l + Microsecond"
  proof -
    have "l + Microsecond - 1 = ?m * Microsecond + (l + Microsecond - 1) mod Microsecond"
      by (rule div_mult_mod_eq [symmetric])
    moreover have "0 \<le> (l + Microsecond - 1) mod Microsecond" "(l + Microsecond - 1) mod Microsecond < Microsecond"
      by simp_all
    ultimately show ?thesis using l(2,3) by linarith
  qed
  ultimately show ?thesis unfolding d by blast
qed

definition demo_tbf :: network_config where
  "demo_tbf = empty_network\<lparr>nw_TBF := Some \<lparr>tbf_RateMbps = Fin 10, tbf_BurstKbit = Fin 32,
     tbf_Latency = ''1500ns''\<rparr>\<rparr>"

theorem tbf_latency_rounds_up_witness:
  "\<exists>micros. last (tbfCommand ''eth0'' ''30:1'' ''31:'' \<lparr>tbf_RateMbps = Fin 10, tbf_BurstKbit = Fin 32,
     tbf_Latency = ''1500ns''\<rparr>) = Itoa micros @ ''us'' \<and> 1 \<le> micros"
proof -
  have "Network_Validate demo_tbf = None" by code_simp
  from tbf_latency_rounds_up [OF this, of "\<lparr>tbf_RateMbps = Fin 10, tbf_BurstKbit = Fin 32,
     tbf_Latency = ''1500ns''\<rparr>" "''eth0''" "''30:1''" "''31:''"] show ?thesis
    by (auto simp: demo_tbf_def)
qed

end
