(* ===== verification/GoText.thy ===== *)
theory GoText
  imports GoStrconv
begin

text \<open>
  Two text functions of Go's standard library: the padded base64 decoder of
  \<open>base64.StdEncoding.DecodeString\<close>, and \<open>strings.ToLower\<close> as far as its result is compared with
  ASCII names.
\<close>

section \<open>Base64\<close>

definition base64_value :: "char \<Rightarrow> nat option" where
  "base64_value c =
     (let n = (of_char c :: nat)
      in if 65 \<le> n \<and> n \<le> 90 then Some (n - 65)
         else if 97 \<le> n \<and> n \<le> 122 then Some (n - 71)
         else if 48 \<le> n \<and> n \<le> 57 then Some (n + 4)
         else if n = 43 then Some 62
         else if n = 47 then Some 63
         else None)"

text \<open>The decoder skips line breaks, wants groups of four, and pads only the last one.\<close>

fun base64_groups :: "gostring \<Rightarrow> nat list option" where
  "base64_groups [] = Some []"
| "base64_groups (a # b # c # d # cs) =
     (case (base64_value a, base64_value b) of
        (Some x, Some y) \<Rightarrow>
          if c = CHR ''='' then
            (if d = CHR ''='' \<and> cs = [] then Some [(4 * x + y div 16) mod 256] else None)
          else (case base64_value c of None \<Rightarrow> None
            | Some z \<Rightarrow>
                if d = CHR ''='' then
                  (if cs = [] then Some [(4 * x + y div 16) mod 256, (16 * y + z div 4) mod 256] else None)
                else (case (base64_value d, base64_groups cs) of
                    (Some w, Some rest) \<Rightarrow>
                      Some ((4 * x + y div 16) mod 256 # (16 * y + z div 4) mod 256
                            # (64 * z + w) mod 256 # rest)
                  | _ \<Rightarrow> None))
      | _ \<Rightarrow> None)"
| "base64_groups _ = None"

definition base64_decode :: "gostring \<Rightarrow> nat list option" where
  "base64_decode s = base64_groups (filter (\<lambda>c. c \<noteq> CHR 0x0A \<and> c \<noteq> CHR 0x0D) s)"

section \<open>Lower case\<close>

text \<open>
  ASCII letters, and the two code points outside ASCII whose lower case is an ASCII letter: U+0130
  (bytes C4 B0, giving i) and U+212A (bytes E2 84 AA, giving k). The bytes of any other code point
  are kept; their lower case is never ASCII, so a comparison with an ASCII name is exact.
\<close>

definition lower_char :: "char \<Rightarrow> char" where
  "lower_char c = (let n = (of_char c :: nat) in if 65 \<le> n \<and> n \<le> 90 then char_of (n + 32) else c)"

fun ToLower :: "gostring \<Rightarrow> gostring" where
  "ToLower [] = []"
| "ToLower (c # cs) =
     (if c = CHR 0xC4 \<and> take 1 cs = [CHR 0xB0] then CHR ''i'' # ToLower (drop 1 cs)
      else if c = CHR 0xE2 \<and> take 2 cs = [CHR 0x84, CHR 0xAA] then CHR ''k'' # ToLower (drop 2 cs)
      else lower_char c # ToLower cs)"

lemma ToLower_examples:
  "ToLower ''GossiP-Only'' = ''gossip-only''"
  "base64_decode ''SGk='' = Some [72, 105]"
  by code_simp+

end
