(* ===== verification/GoCIDR.thy ===== *)
theory GoCIDR
  imports GoStrconv
begin

text \<open>
  Whether \<open>net.ParseCIDR\<close> of Go's standard library accepts a text: an IPv4 or IPv6 address without a
  zone, a slash and a prefix length. The configuration only asks for acceptance.
\<close>

text \<open>\<open>parseIPv4Fields\<close>: four decimal fields without leading zeros. \<open>pos\<close> counts finished fields.\<close>

fun ipv4_fields :: "nat \<Rightarrow> nat \<Rightarrow> int \<Rightarrow> gostring \<Rightarrow> bool" where
  "ipv4_fields pos digits val [] = (pos = 3 \<and> 0 < digits)"
| "ipv4_fields pos digits val (c # cs) =
     (if is_digit c then
        (if digits = 1 \<and> val = 0 then False
         else if 255 < val * 10 + digit_val c then False
         else ipv4_fields pos (digits + 1) (val * 10 + digit_val c) cs)
      else if c = CHR ''.'' then digits \<noteq> 0 \<and> cs \<noteq> [] \<and> pos \<noteq> 3 \<and> ipv4_fields (pos + 1) 0 0 cs
      else False)"

definition is_hex :: "char \<Rightarrow> bool" where
  "is_hex c \<longleftrightarrow> hex_val c \<noteq> None"

text \<open>
  The groups of \<open>parseIPv6\<close>: \<open>i\<close> bytes are filled, \<open>ellipsis\<close> says whether :: was seen. Every round
  fills two bytes, so eight rounds of fuel are enough.
\<close>

fun ipv6_groups :: "nat \<Rightarrow> nat \<Rightarrow> bool \<Rightarrow> gostring \<Rightarrow> bool" where
  "ipv6_groups 0 i ellipsis s = (s = [] \<and> \<not> ellipsis)"
| "ipv6_groups (Suc fuel) i ellipsis s =
     (let grp = takeWhile is_hex s; r = dropWhile is_hex s
      in if grp = [] \<or> 4 < length grp then False
         else if take 1 r = ''.'' then
           (if (\<not> ellipsis \<and> i \<noteq> 12) \<or> 16 < i + 4 then False
            else ipv4_fields 0 0 0 s \<and> (if i + 4 < 16 then ellipsis else \<not> ellipsis))
         else
           let i' = i + 2; finish = (\<lambda>e. if i' < 16 then e else \<not> e)
           in case r of
                [] \<Rightarrow> finish ellipsis
              | c # cs \<Rightarrow>
                  if c \<noteq> CHR '':'' \<or> cs = [] then False
                  else if hd cs = CHR '':'' then
                    (if ellipsis then False
                     else if tl cs = [] then finish True
                     else ipv6_groups fuel i' True (tl cs))
                  else ipv6_groups fuel i' ellipsis cs)"

definition ipv6_ok :: "gostring \<Rightarrow> bool" where
  "ipv6_ok s =
     (if CHR ''%'' \<in> set s then False
      else if take 2 s = ''::'' then drop 2 s = [] \<or> ipv6_groups 8 0 True (drop 2 s)
      else ipv6_groups 8 0 False s)"

text \<open>\<open>netip.ParseAddr\<close>: the first dot, colon or percent sign decides. The result is the bit length.\<close>

definition parse_addr_bits :: "gostring \<Rightarrow> int option" where
  "parse_addr_bits s =
     (case find (\<lambda>c. c \<in> set ''.:%'') s of
        None \<Rightarrow> None
      | Some c \<Rightarrow>
          if c = CHR ''.'' then (if ipv4_fields 0 0 0 s then Some 32 else None)
          else if c = CHR '':'' then (if ipv6_ok s then Some 128 else None)
          else None)"

definition valid_CIDR :: "gostring \<Rightarrow> bool" where
  "valid_CIDR s =
     (let addr = takeWhile (\<lambda>c. c \<noteq> CHR ''/'') s; r = dropWhile (\<lambda>c. c \<noteq> CHR ''/'') s; mask = tl r
      in if r = [] then False
         else case parse_addr_bits addr of None \<Rightarrow> False
         | Some bits \<Rightarrow> mask \<noteq> [] \<and> list_all is_digit mask \<and> digits_value mask < 16777215
                        \<and> digits_value mask \<le> bits)"

lemma valid_CIDR_slash: "valid_CIDR s \<Longrightarrow> CHR ''/'' \<in> set s"
  by (auto simp: valid_CIDR_def Let_def dropWhile_eq_Nil_conv split: if_split_asm)

end
