(* ===== verification/KademliaConfig.thy ===== *)
theory KademliaConfig
  imports GoCIDR
begin

text \<open>
  The DHT settings of a Peer (\<open>internal/model/kademlia_config.go\<close>). Pointers are options, slices whose
  nil-ness a merge sees are options of lists. Parsing a multiaddr is go-multiaddr's business: the
  parameter \<open>addr_info\<close> gives, for a text that parses, the Peer ID and the number of transport
  addresses.
\<close>

record kademlia_filter =
  kf_Policy :: gostring
  kf_AllowCIDRs :: "gostring list"
  kf_DenyCIDRs :: "gostring list"

record kademlia_diversity =
  kv_Enabled :: "bool option"
  kv_MaxPerCpl :: "int option"
  kv_MaxForTable :: "int option"

record kademlia_validator =
  kvd_Mode :: gostring
  kvd_Namespaces :: "(gostring, gostring) gomap"

record kademlia_provider_store =
  ks_Mode :: gostring
  ks_CleanupInterval :: gostring
  ks_CacheSize :: "int option"

record kademlia_config =
  kd_Enabled :: "bool option"
  kd_Mode :: gostring
  kd_ProtocolPrefix :: gostring
  kd_ProtocolID :: gostring
  kd_ProtocolExtension :: gostring
  kd_BucketSize :: "int option"
  kd_Concurrency :: "int option"
  kd_Resiliency :: "int option"
  kd_LookupCheckConcurrency :: "int option"
  kd_RoutingTableLatencyTolerance :: gostring
  kd_RoutingTableRefreshPeriod :: gostring
  kd_RoutingTableRefreshTimeout :: gostring
  kd_MaxRecordAge :: gostring
  kd_DisableAutoRefresh :: "bool option"
  kd_DisableProviders :: "bool option"
  kd_DisableValues :: "bool option"
  kd_OptimisticProvide :: "bool option"
  kd_OptimisticProvideJobsPoolSize :: "int option"
  kd_BootstrapTimeout :: gostring
  kd_BootstrapRetryInterval :: gostring
  kd_QueryFilter :: "kademlia_filter option"
  kd_RoutingTableFilter :: "kademlia_filter option"
  kd_AddressFilter :: "kademlia_filter option"
  kd_RoutingTableDiversity :: "kademlia_diversity option"
  kd_BootstrapSource :: gostring
  kd_BootstrapPeers :: "gostring list option"
  kd_Datastore :: gostring
  kd_Validator :: "kademlia_validator option"
  kd_ProviderStore :: "kademlia_provider_store option"
  kd_RequestHook :: gostring

definition empty_kademlia :: kademlia_config where
  "empty_kademlia = \<lparr>kd_Enabled = None, kd_Mode = [], kd_ProtocolPrefix = [], kd_ProtocolID = [],
     kd_ProtocolExtension = [], kd_BucketSize = None, kd_Concurrency = None, kd_Resiliency = None,
     kd_LookupCheckConcurrency = None, kd_RoutingTableLatencyTolerance = [],
     kd_RoutingTableRefreshPeriod = [], kd_RoutingTableRefreshTimeout = [], kd_MaxRecordAge = [],
     kd_DisableAutoRefresh = None, kd_DisableProviders = None, kd_DisableValues = None,
     kd_OptimisticProvide = None, kd_OptimisticProvideJobsPoolSize = None, kd_BootstrapTimeout = [],
     kd_BootstrapRetryInterval = [], kd_QueryFilter = None, kd_RoutingTableFilter = None,
     kd_AddressFilter = None, kd_RoutingTableDiversity = None, kd_BootstrapSource = [],
     kd_BootstrapPeers = None, kd_Datastore = [], kd_Validator = None, kd_ProviderStore = None,
     kd_RequestHook = []\<rparr>"

type_synonym addr_info = "gostring \<Rightarrow> (gostring \<times> nat) option"

section \<open>Validation\<close>

definition cidr_errors :: "gostring \<Rightarrow> gostring list \<Rightarrow> config_error option" where
  "cidr_errors name cidrs = first_error (map (\<lambda>c. guard (\<not> valid_CIDR c) (BadItem name c)) cidrs)"

definition filterError :: "gostring \<times> kademlia_filter option \<Rightarrow> config_error option" where
  "filterError nf =
     (case snd nf of None \<Rightarrow> None
      | Some f \<Rightarrow> first_error
          [guard (kf_Policy f \<notin> {[], ''all'', ''public'', ''private'', ''non-loopback''}) (BadItem (fst nf) ''policy''),
           at_error (fst nf) (cidr_errors ''allowCIDRs'' (kf_AllowCIDRs f)),
           at_error (fst nf) (cidr_errors ''denyCIDRs'' (kf_DenyCIDRs f))])"

definition diversityError :: "kademlia_diversity option \<Rightarrow> config_error option" where
  "diversityError d =
     (case d of None \<Rightarrow> None
      | Some v \<Rightarrow> first_error
          [guard (set_and (\<lambda>n. n \<le> 0) (kv_MaxPerCpl v)) (Bad ''maxPerCpl''),
           guard (set_and (\<lambda>n. n \<le> 0) (kv_MaxForTable v)) (Bad ''maxForTable'')])"

definition bootstrapPeerError :: "addr_info \<Rightarrow> gostring \<Rightarrow> config_error option" where
  "bootstrapPeerError info raw =
     guard (case info raw of None \<Rightarrow> True | Some (pid, addrs) \<Rightarrow> pid = [] \<or> addrs = 0)
       (BadItem ''bootstrapPeers'' raw)"

definition namespaceError :: "gostring \<Rightarrow> gostring \<times> gostring \<Rightarrow> config_error option" where
  "namespaceError mode = (\<lambda>(namespace, policy). first_error
     [guard (namespace = [] \<or> ContainsAny namespace [CHR ''/'', CHR '' '', CHR 0x09, CHR 0x0D, CHR 0x0A])
        (BadItem ''namespace'' namespace),
      guard (policy \<notin> {''public-key'', ''ipns'', ''bytes'', ''reject''}) (BadItem ''policy'' namespace),
      guard (policy = ''public-key'' \<and> namespace \<noteq> ''pk'' \<or> policy = ''ipns'' \<and> namespace \<noteq> ''ipns'')
        (BadItem ''standard'' namespace),
      guard (mode \<noteq> ''namespaced'' \<and> (namespace = ''pk'' \<and> policy \<noteq> ''public-key''
             \<or> namespace = ''ipns'' \<and> policy \<noteq> ''ipns''))
        (BadItem ''replacing'' namespace)])"

definition validatorError :: "kademlia_validator option \<Rightarrow> config_error option" where
  "validatorError v =
     (case v of None \<Rightarrow> None
      | Some d \<Rightarrow> first_error
          (guard (kvd_Mode d \<notin> {[], ''default'', ''namespaced''}) (Bad ''validator.mode'')
           # map (namespaceError (kvd_Mode d)) (kvd_Namespaces d)))"

definition providerStoreError :: "kademlia_provider_store option \<Rightarrow> config_error option" where
  "providerStoreError p =
     (case p of None \<Rightarrow> None
      | Some s \<Rightarrow> first_error
          [guard (ks_Mode s \<notin> {[], ''manager'', ''null''}) (Bad ''providerStore.mode''),
           guard (ks_Mode s = ''null'' \<and> (ks_CleanupInterval s \<noteq> [] \<or> ks_CacheSize s \<noteq> None))
             (Bad ''providerStore.null''),
           guard (ks_CleanupInterval s \<noteq> []
                  \<and> (case ParseDuration (ks_CleanupInterval s) of None \<Rightarrow> True | Some d \<Rightarrow> d \<le> 0))
             (Bad ''providerStore.cleanupInterval''),
           guard (set_and (\<lambda>n. n \<le> 0) (ks_CacheSize s)) (Bad ''providerStore.cacheSize'')])"

text \<open>Whether the settings speak the public Amino protocol.\<close>

definition aminoProtocol :: "kademlia_config \<Rightarrow> bool" where
  "aminoProtocol c \<longleftrightarrow>
     (if kd_ProtocolID c \<noteq> [] then kd_ProtocolID c = ''/ipfs/kad/1.0.0''
      else kd_ProtocolPrefix c @ kd_ProtocolExtension c = ''/ipfs'')"

definition aminoError :: "kademlia_config \<Rightarrow> config_error option" where
  "aminoError c =
     (if \<not> aminoProtocol c then None
      else first_error
        [guard (set_and (\<lambda>n. n \<noteq> 20) (kd_BucketSize c)) (Bad ''ipfs.bucketSize''),
         guard (set_and (\<lambda>b. b) (kd_DisableProviders c) \<or> set_and (\<lambda>b. b) (kd_DisableValues c))
           (Bad ''ipfs.providers''),
         (case kd_Validator c of None \<Rightarrow> None
          | Some v \<Rightarrow> first_error
              [first_error (map (\<lambda>(namespace, policy).
                  guard (namespace \<noteq> ''pk'' \<and> namespace \<noteq> ''ipns''
                         \<or> namespace = ''pk'' \<and> policy \<noteq> ''public-key''
                         \<or> namespace = ''ipns'' \<and> policy \<noteq> ''ipns'') (BadItem ''ipfs.validators'' namespace))
                  (kvd_Namespaces v)),
               guard (kvd_Mode v = ''namespaced'' \<and> (length (kvd_Namespaces v) \<noteq> 2
                      \<or> mget [] (kvd_Namespaces v) ''pk'' \<noteq> ''public-key''
                      \<or> mget [] (kvd_Namespaces v) ''ipns'' \<noteq> ''ipns'')) (Bad ''ipfs.validators'')])])"

definition Kademlia_Validate :: "addr_info \<Rightarrow> kademlia_config \<Rightarrow> config_error option" where
  "Kademlia_Validate info c = first_error
     ([filterError (''queryFilter'', kd_QueryFilter c),
       filterError (''routingTableFilter'', kd_RoutingTableFilter c),
       filterError (''addressFilter'', kd_AddressFilter c),
       diversityError (kd_RoutingTableDiversity c),
       guard (kd_BootstrapSource c \<notin> {[], ''none'', ''static'', ''controller''}) (Bad ''bootstrapSource''),
       guard (elems (kd_BootstrapPeers c) \<noteq> [] \<and> kd_BootstrapSource c \<noteq> ''static'') (Bad ''bootstrapPeers'')]
      @ map (bootstrapPeerError info) (elems (kd_BootstrapPeers c))
      @ [guard (kd_Datastore c \<notin> {[], ''memory'', ''null''}) (Bad ''datastore''),
         validatorError (kd_Validator c),
         providerStoreError (kd_ProviderStore c),
         guard (kd_RequestHook c \<notin> {[], ''none'', ''log''}) (Bad ''requestHook''),
         aminoError c])"

section \<open>Merging\<close>

text \<open>\<open>mergeNonZero\<close> on this struct: every set field of the overlay replaces the base's.\<close>

definition merge_kademlia :: "kademlia_config \<Rightarrow> kademlia_config \<Rightarrow> kademlia_config" where
  "merge_kademlia b v = \<lparr>
     kd_Enabled = over (kd_Enabled b) (kd_Enabled v),
     kd_Mode = over_string (kd_Mode b) (kd_Mode v),
     kd_ProtocolPrefix = over_string (kd_ProtocolPrefix b) (kd_ProtocolPrefix v),
     kd_ProtocolID = over_string (kd_ProtocolID b) (kd_ProtocolID v),
     kd_ProtocolExtension = over_string (kd_ProtocolExtension b) (kd_ProtocolExtension v),
     kd_BucketSize = over (kd_BucketSize b) (kd_BucketSize v),
     kd_Concurrency = over (kd_Concurrency b) (kd_Concurrency v),
     kd_Resiliency = over (kd_Resiliency b) (kd_Resiliency v),
     kd_LookupCheckConcurrency = over (kd_LookupCheckConcurrency b) (kd_LookupCheckConcurrency v),
     kd_RoutingTableLatencyTolerance =
       over_string (kd_RoutingTableLatencyTolerance b) (kd_RoutingTableLatencyTolerance v),
     kd_RoutingTableRefreshPeriod =
       over_string (kd_RoutingTableRefreshPeriod b) (kd_RoutingTableRefreshPeriod v),
     kd_RoutingTableRefreshTimeout =
       over_string (kd_RoutingTableRefreshTimeout b) (kd_RoutingTableRefreshTimeout v),
     kd_MaxRecordAge = over_string (kd_MaxRecordAge b) (kd_MaxRecordAge v),
     kd_DisableAutoRefresh = over (kd_DisableAutoRefresh b) (kd_DisableAutoRefresh v),
     kd_DisableProviders = over (kd_DisableProviders b) (kd_DisableProviders v),
     kd_DisableValues = over (kd_DisableValues b) (kd_DisableValues v),
     kd_OptimisticProvide = over (kd_OptimisticProvide b) (kd_OptimisticProvide v),
     kd_OptimisticProvideJobsPoolSize =
       over (kd_OptimisticProvideJobsPoolSize b) (kd_OptimisticProvideJobsPoolSize v),
     kd_BootstrapTimeout = over_string (kd_BootstrapTimeout b) (kd_BootstrapTimeout v),
     kd_BootstrapRetryInterval = over_string (kd_BootstrapRetryInterval b) (kd_BootstrapRetryInterval v),
     kd_QueryFilter = over (kd_QueryFilter b) (kd_QueryFilter v),
     kd_RoutingTableFilter = over (kd_RoutingTableFilter b) (kd_RoutingTableFilter v),
     kd_AddressFilter = over (kd_AddressFilter b) (kd_AddressFilter v),
     kd_RoutingTableDiversity = over (kd_RoutingTableDiversity b) (kd_RoutingTableDiversity v),
     kd_BootstrapSource = over_string (kd_BootstrapSource b) (kd_BootstrapSource v),
     kd_BootstrapPeers = over (kd_BootstrapPeers b) (kd_BootstrapPeers v),
     kd_Datastore = over_string (kd_Datastore b) (kd_Datastore v),
     kd_Validator = over (kd_Validator b) (kd_Validator v),
     kd_ProviderStore = over (kd_ProviderStore b) (kd_ProviderStore v),
     kd_RequestHook = over_string (kd_RequestHook b) (kd_RequestHook v)\<rparr>"

section \<open>Properties\<close>

lemma filterError_None:
  "filterError (name, Some f) = None \<Longrightarrow> \<forall>c \<in> set (kf_AllowCIDRs f @ kf_DenyCIDRs f). valid_CIDR c"
  by (auto simp: filterError_def cidr_errors_def first_error_None)

lemma bootstrap_None:
  "bootstrapPeerError info raw = None \<Longrightarrow> \<exists>pid addrs. info raw = Some (pid, addrs) \<and> pid \<noteq> [] \<and> 0 < addrs"
  by (auto simp: bootstrapPeerError_def split: option.split_asm)

lemma amino_None:
  assumes "aminoError c = None" and "aminoProtocol c"
  shows "kd_BucketSize c \<in> {None, Some 20}" "kd_DisableProviders c \<noteq> Some True" "kd_DisableValues c \<noteq> Some True"
    "kd_Validator c = Some v \<Longrightarrow> (namespace, policy) \<in> set (kvd_Namespaces v) \<Longrightarrow>
       (namespace, policy) \<in> {(''pk'', ''public-key''), (''ipns'', ''ipns'')}"
proof -
  show "kd_BucketSize c \<in> {None, Some 20}" "kd_DisableProviders c \<noteq> Some True" "kd_DisableValues c \<noteq> Some True"
    using assms by (cases "kd_BucketSize c"; simp add: aminoError_def first_error_None; fastforce)+
  assume v: "kd_Validator c = Some v" "(namespace, policy) \<in> set (kvd_Namespaces v)"
  then show "(namespace, policy) \<in> {(''pk'', ''public-key''), (''ipns'', ''ipns'')}"
    using assms by (fastforce simp: aminoError_def first_error_None)
qed

text \<open>An accepted DHT block that speaks the public Amino protocol keeps to its constants: bucket size
  20 or unset, providers and values on, and only the two standard validators. Static bootstrap peers
  all carry a Peer ID and a transport address, and every CIDR of the query filter parses.\<close>

theorem validated_kademlia:
  assumes "Kademlia_Validate info c = None"
  shows "(aminoProtocol c \<longrightarrow> kd_BucketSize c \<in> {None, Some 20}
       \<and> kd_DisableProviders c \<noteq> Some True \<and> kd_DisableValues c \<noteq> Some True
       \<and> (\<forall>v. kd_Validator c = Some v \<longrightarrow>
            set (kvd_Namespaces v) \<subseteq> {(''pk'', ''public-key''), (''ipns'', ''ipns'')}))
    \<and> (\<forall>raw \<in> set (elems (kd_BootstrapPeers c)). kd_BootstrapSource c = ''static''
         \<and> (\<exists>pid addrs. info raw = Some (pid, addrs) \<and> pid \<noteq> [] \<and> 0 < addrs))
    \<and> (\<forall>f. kd_QueryFilter c = Some f \<longrightarrow> (\<forall>r \<in> set (kf_AllowCIDRs f @ kf_DenyCIDRs f). valid_CIDR r))"
proof -
  have "aminoError c = None" "filterError (''queryFilter'', kd_QueryFilter c) = None"
    "\<forall>raw \<in> set (elems (kd_BootstrapPeers c)). bootstrapPeerError info raw = None"
    "elems (kd_BootstrapPeers c) \<noteq> [] \<longrightarrow> kd_BootstrapSource c = ''static''"
    using assms by (simp_all add: Kademlia_Validate_def first_error_None) blast?
  then show ?thesis
    using amino_None [of c] bootstrap_None [of info] filterError_None [of "''queryFilter''"] by fastforce
qed

definition demo_amino :: kademlia_config where
  "demo_amino = empty_kademlia\<lparr>kd_ProtocolPrefix := ''/ipfs'', kd_BucketSize := Some 20,
     kd_QueryFilter := Some \<lparr>kf_Policy = ''public'', kf_AllowCIDRs = [''10.0.0.0/8''], kf_DenyCIDRs = []\<rparr>,
     kd_BootstrapSource := ''static'', kd_BootstrapPeers := Some [''/ip4/10.0.0.1/tcp/1/p2p/a'']\<rparr>"

theorem validated_kademlia_witness: "valid_CIDR ''10.0.0.0/8''"
proof -
  have "Kademlia_Validate (\<lambda>_. Some (''a'', 1)) demo_amino = None" by code_simp
  from validated_kademlia [OF this] show ?thesis by (simp add: demo_amino_def)
qed

end
