(* ===== verification/ScoreConfig.thy ===== *)
theory ScoreConfig
  imports GoCIDR
begin

text \<open>
  Peer-score settings of GossipSub (\<open>internal/model/score_config.go\<close>): defaults and validation.
  \<open>decode_peer\<close> is go-libp2p's \<open>peer.Decode\<close>: the Peer ID a text stands for, if it is one. Loops over
  map literals run in the order the source writes them; the verdict does not depend on it.
\<close>

definition validNumber :: "float64 \<Rightarrow> bool" where
  "validNumber v \<longleftrightarrow> \<not> IsNaN v \<and> \<not> IsInf v"

definition validDecay :: "float64 \<Rightarrow> bool" where
  "validDecay v \<longleftrightarrow> validNumber v \<and> float_less (Fin 0) v \<and> float_less v (Fin 1)"

definition score_finitePositive :: "float64 \<Rightarrow> bool" where
  "score_finitePositive v \<longleftrightarrow> validNumber v \<and> float_less (Fin 0) v"

definition scoreDuration :: "gostring \<Rightarrow> gostring \<Rightarrow> config_error + duration" where
  "scoreDuration name raw =
     (if raw = [] then Inr 0
      else case ParseDuration raw of None \<Rightarrow> Inl (Bad name) | Some d \<Rightarrow> Inr d)"

record thresholds_config =
  th_SkipAtomicValidation :: bool
  th_GossipThreshold :: float64
  th_PublishThreshold :: float64
  th_GraylistThreshold :: float64
  th_AcceptPXThreshold :: float64
  th_OpportunisticGraftThreshold :: float64

record topic_score =
  ts_SkipAtomicValidation :: bool
  ts_TopicWeight :: float64
  ts_TimeInMeshWeight :: float64
  ts_TimeInMeshQuantum :: gostring
  ts_TimeInMeshCap :: float64
  ts_FirstMessageDeliveriesWeight :: float64
  ts_FirstMessageDeliveriesDecay :: float64
  ts_FirstMessageDeliveriesCap :: float64
  ts_MeshMessageDeliveriesWeight :: float64
  ts_MeshMessageDeliveriesDecay :: float64
  ts_MeshMessageDeliveriesThreshold :: float64
  ts_MeshMessageDeliveriesCap :: float64
  ts_MeshMessageDeliveriesActivation :: gostring
  ts_MeshMessageDeliveriesWindow :: gostring
  ts_MeshFailurePenaltyWeight :: float64
  ts_MeshFailurePenaltyDecay :: float64
  ts_InvalidMessageDeliveriesWeight :: float64
  ts_InvalidMessageDeliveriesDecay :: float64

record app_score =
  as_Default :: float64
  as_Peers :: "(gostring, float64) gomap option"

record score_config =
  sc_Enabled :: "bool option"
  sc_SkipAtomicValidation :: bool
  sc_TopicScoreCap :: float64
  sc_AppSpecificScore :: "app_score option"
  sc_AppSpecificWeight :: float64
  sc_IPColocationFactorWeight :: float64
  sc_IPColocationFactorThreshold :: int
  sc_IPColocationFactorWhitelist :: "gostring list"
  sc_BehaviourPenaltyWeight :: float64
  sc_BehaviourPenaltyThreshold :: float64
  sc_BehaviourPenaltyDecay :: float64
  sc_DecayInterval :: gostring
  sc_DecayToZero :: float64
  sc_RetainScore :: gostring
  sc_SeenMessageTTL :: gostring
  sc_Thresholds :: thresholds_config
  sc_Topics :: "(gostring, topic_score) gomap option"

abbreviation (input) is0 :: "float64 \<Rightarrow> bool" where "is0 v \<equiv> float_eq v (Fin 0)"
abbreviation (input) neg :: "float64 \<Rightarrow> bool" where "neg v \<equiv> float_less v (Fin 0)"
abbreviation (input) pos :: "float64 \<Rightarrow> bool" where "pos v \<equiv> float_less (Fin 0) v"

definition score_IsEnabled :: "score_config \<Rightarrow> bool" where
  "score_IsEnabled c \<longleftrightarrow> sc_Enabled c = Some True"

section \<open>Defaults\<close>

definition topic_defaults :: "bool \<Rightarrow> topic_score \<Rightarrow> topic_score" where
  "topic_defaults enabled p =
     (if enabled \<and> ts_SkipAtomicValidation p \<and> ts_TimeInMeshQuantum p = []
         \<and> is0 (ts_TimeInMeshWeight p) \<and> is0 (ts_TimeInMeshCap p)
      then p\<lparr>ts_TimeInMeshQuantum := ''1s''\<rparr> else p)"

text \<open>The copies the code makes of slices, maps and pointers are the same values here.\<close>

definition score_WithDefaults :: "score_config \<Rightarrow> score_config" where
  "score_WithDefaults c =
     (let c1 = (if score_IsEnabled c \<and> sc_SkipAtomicValidation c \<and> sc_DecayInterval c = []
                   \<and> is0 (sc_DecayToZero c)
                then c\<lparr>sc_DecayInterval := ''1s'', sc_DecayToZero := float_round 0.01\<rparr> else c)
      in c1\<lparr>sc_Topics := map_option (map_vals (\<lambda>_. topic_defaults (score_IsEnabled c))) (sc_Topics c1)\<rparr>)"

section \<open>Syntax\<close>

definition finiteScoreValues :: "(gostring \<times> float64) list \<Rightarrow> config_error option" where
  "finiteScoreValues vs = first_error (map (\<lambda>(name, v). guard (\<not> validNumber v) (Bad name)) vs)"

definition nonNegativeScoreDuration :: "gostring \<times> gostring \<Rightarrow> config_error option" where
  "nonNegativeScoreDuration = (\<lambda>(name, raw).
     case scoreDuration name raw of Inl e \<Rightarrow> Some e | Inr d \<Rightarrow> guard (d < 0) (Bad name))"

definition topic_validateSyntax :: "topic_score \<Rightarrow> config_error option" where
  "topic_validateSyntax c = first_error
     (finiteScoreValues
        [(''topicWeight'', ts_TopicWeight c),
         (''timeInMeshWeight'', ts_TimeInMeshWeight c),
         (''timeInMeshCap'', ts_TimeInMeshCap c),
         (''firstMessageDeliveriesWeight'', ts_FirstMessageDeliveriesWeight c),
         (''firstMessageDeliveriesDecay'', ts_FirstMessageDeliveriesDecay c),
         (''firstMessageDeliveriesCap'', ts_FirstMessageDeliveriesCap c),
         (''meshMessageDeliveriesWeight'', ts_MeshMessageDeliveriesWeight c),
         (''meshMessageDeliveriesDecay'', ts_MeshMessageDeliveriesDecay c),
         (''meshMessageDeliveriesThreshold'', ts_MeshMessageDeliveriesThreshold c),
         (''meshMessageDeliveriesCap'', ts_MeshMessageDeliveriesCap c),
         (''meshFailurePenaltyWeight'', ts_MeshFailurePenaltyWeight c),
         (''meshFailurePenaltyDecay'', ts_MeshFailurePenaltyDecay c),
         (''invalidMessageDeliveriesWeight'', ts_InvalidMessageDeliveriesWeight c),
         (''invalidMessageDeliveriesDecay'', ts_InvalidMessageDeliveriesDecay c)]
      # map nonNegativeScoreDuration
        [(''timeInMeshQuantum'', ts_TimeInMeshQuantum c),
         (''meshMessageDeliveriesActivation'', ts_MeshMessageDeliveriesActivation c),
         (''meshMessageDeliveriesWindow'', ts_MeshMessageDeliveriesWindow c)])"

text \<open>
  The Peer entries of the application score: every key decodes, no two keys name the same Peer, and
  the values are finite; \<open>seen\<close> holds the Peer IDs so far.
\<close>

fun appPeersError :: "(gostring \<Rightarrow> gostring option) \<Rightarrow> float64 \<Rightarrow> gostring list \<Rightarrow> (gostring, float64) gomap
    \<Rightarrow> config_error option" where
  "appPeersError decode_peer weight seen [] = None"
| "appPeersError decode_peer weight seen ((raw, score) # ps) =
     (case decode_peer raw of
        None \<Rightarrow> Some (BadItem ''peers'' raw)
      | Some pid \<Rightarrow>
          if pid \<in> set seen then Some (BadItem ''samePeer'' raw)
          else if \<not> validNumber score \<or> \<not> validNumber (float_mul score weight) then Some (BadItem ''score'' raw)
          else appPeersError decode_peer weight (pid # seen) ps)"

definition appScore_validate :: "(gostring \<Rightarrow> gostring option) \<Rightarrow> float64 \<Rightarrow> app_score \<Rightarrow> config_error option" where
  "appScore_validate decode_peer weight c = first_error
     [guard (\<not> validNumber (as_Default c) \<or> \<not> validNumber (float_mul (as_Default c) weight)) (Bad ''default''),
      appPeersError decode_peer weight [] (elems (as_Peers c))]"

definition score_validateSyntax :: "(gostring \<Rightarrow> gostring option) \<Rightarrow> score_config \<Rightarrow> config_error option" where
  "score_validateSyntax decode_peer c = first_error
     ([finiteScoreValues
        [(''topicScoreCap'', sc_TopicScoreCap c),
         (''appSpecificWeight'', sc_AppSpecificWeight c),
         (''ipColocationFactorWeight'', sc_IPColocationFactorWeight c),
         (''behaviourPenaltyWeight'', sc_BehaviourPenaltyWeight c),
         (''behaviourPenaltyThreshold'', sc_BehaviourPenaltyThreshold c),
         (''behaviourPenaltyDecay'', sc_BehaviourPenaltyDecay c),
         (''decayToZero'', sc_DecayToZero c)],
       (case sc_AppSpecificScore c of None \<Rightarrow> None
        | Some a \<Rightarrow> appScore_validate decode_peer
            (if score_IsEnabled c then sc_AppSpecificWeight c else Fin 0) a),
       finiteScoreValues
        [(''thresholds.gossipThreshold'', th_GossipThreshold (sc_Thresholds c)),
         (''thresholds.publishThreshold'', th_PublishThreshold (sc_Thresholds c)),
         (''thresholds.graylistThreshold'', th_GraylistThreshold (sc_Thresholds c)),
         (''thresholds.acceptPXThreshold'', th_AcceptPXThreshold (sc_Thresholds c)),
         (''thresholds.opportunisticGraftThreshold'', th_OpportunisticGraftThreshold (sc_Thresholds c))]]
      @ map nonNegativeScoreDuration
        [(''decayInterval'', sc_DecayInterval c), (''retainScore'', sc_RetainScore c),
         (''seenMessageTTL'', sc_SeenMessageTTL c)]
      @ map (\<lambda>r. guard (\<not> valid_CIDR r) (BadItem ''whitelist'' r)) (sc_IPColocationFactorWhitelist c)
      @ map (\<lambda>(topic, params). first_error
          [guard (TrimSpace topic = []) (Bad ''topicName''), at_error topic (topic_validateSyntax params)])
        (elems (sc_Topics c)))"

section \<open>Validation\<close>

definition thresholds_validate :: "thresholds_config \<Rightarrow> config_error option" where
  "thresholds_validate c = first_error
     [if \<not> th_SkipAtomicValidation c \<or> \<not> is0 (th_PublishThreshold c) \<or> \<not> is0 (th_GossipThreshold c)
         \<or> \<not> is0 (th_GraylistThreshold c)
      then first_error
        [guard (\<not> validNumber (th_GossipThreshold c) \<or> pos (th_GossipThreshold c)) (Bad ''gossipThreshold''),
         guard (\<not> validNumber (th_PublishThreshold c)
                \<or> float_less (th_GossipThreshold c) (th_PublishThreshold c)) (Bad ''publishThreshold''),
         guard (\<not> validNumber (th_GraylistThreshold c)
                \<or> float_less (th_PublishThreshold c) (th_GraylistThreshold c)) (Bad ''graylistThreshold'')]
      else None,
      guard ((\<not> th_SkipAtomicValidation c \<or> \<not> is0 (th_AcceptPXThreshold c))
             \<and> (\<not> validNumber (th_AcceptPXThreshold c) \<or> neg (th_AcceptPXThreshold c)))
        (Bad ''acceptPXThreshold''),
      guard ((\<not> th_SkipAtomicValidation c \<or> \<not> is0 (th_OpportunisticGraftThreshold c))
             \<and> (\<not> validNumber (th_OpportunisticGraftThreshold c) \<or> neg (th_OpportunisticGraftThreshold c)))
        (Bad ''opportunisticGraftThreshold'')]"

text \<open>The delivery parts of a topic, one definition per parameter group.\<close>

definition timeInMeshError :: "topic_score \<Rightarrow> config_error option" where
  "timeInMeshError c =
     (case scoreDuration ''timeInMeshQuantum'' (ts_TimeInMeshQuantum c) of Inl e \<Rightarrow> Some e
      | Inr quantum \<Rightarrow> first_error
          [guard (quantum \<le> 0) (Bad ''timeInMeshQuantum''),
           if \<not> ts_SkipAtomicValidation c \<or> \<not> is0 (ts_TimeInMeshWeight c) \<or> quantum \<noteq> 0
              \<or> \<not> is0 (ts_TimeInMeshCap c)
           then first_error
             [guard (\<not> validNumber (ts_TimeInMeshWeight c) \<or> neg (ts_TimeInMeshWeight c)) (Bad ''timeInMeshWeight''),
              guard (\<not> is0 (ts_TimeInMeshWeight c)
                     \<and> (quantum < 0 \<or> \<not> score_finitePositive (ts_TimeInMeshCap c))) (Bad ''timeInMeshCap'')]
           else None])"

definition firstMessageError :: "topic_score \<Rightarrow> config_error option" where
  "firstMessageError c =
     (if \<not> ts_SkipAtomicValidation c \<or> \<not> is0 (ts_FirstMessageDeliveriesWeight c)
         \<or> \<not> is0 (ts_FirstMessageDeliveriesDecay c) \<or> \<not> is0 (ts_FirstMessageDeliveriesCap c)
      then first_error
        [guard (\<not> validNumber (ts_FirstMessageDeliveriesWeight c) \<or> neg (ts_FirstMessageDeliveriesWeight c))
           (Bad ''firstMessageDeliveriesWeight''),
         guard (\<not> is0 (ts_FirstMessageDeliveriesWeight c)
                \<and> (\<not> validDecay (ts_FirstMessageDeliveriesDecay c)
                   \<or> \<not> score_finitePositive (ts_FirstMessageDeliveriesCap c))) (Bad ''firstMessage'')]
      else None)"

definition meshMessageError :: "topic_score \<Rightarrow> config_error option" where
  "meshMessageError c =
     (case scoreDuration ''meshMessageDeliveriesActivation'' (ts_MeshMessageDeliveriesActivation c) of
        Inl e \<Rightarrow> Some e
      | Inr activation \<Rightarrow>
        (case scoreDuration ''meshMessageDeliveriesWindow'' (ts_MeshMessageDeliveriesWindow c) of
           Inl e \<Rightarrow> Some e
         | Inr window \<Rightarrow>
           if \<not> ts_SkipAtomicValidation c \<or> \<not> is0 (ts_MeshMessageDeliveriesWeight c)
              \<or> \<not> is0 (ts_MeshMessageDeliveriesDecay c) \<or> \<not> is0 (ts_MeshMessageDeliveriesThreshold c)
              \<or> \<not> is0 (ts_MeshMessageDeliveriesCap c) \<or> activation \<noteq> 0 \<or> window \<noteq> 0
           then first_error
             [guard (\<not> validNumber (ts_MeshMessageDeliveriesWeight c) \<or> pos (ts_MeshMessageDeliveriesWeight c))
                (Bad ''meshMessageDeliveriesWeight''),
              guard (window < 0) (Bad ''meshMessageDeliveriesWindow''),
              guard (\<not> is0 (ts_MeshMessageDeliveriesWeight c)
                     \<and> (\<not> validDecay (ts_MeshMessageDeliveriesDecay c)
                        \<or> \<not> score_finitePositive (ts_MeshMessageDeliveriesThreshold c)
                        \<or> \<not> score_finitePositive (ts_MeshMessageDeliveriesCap c)
                        \<or> activation < Second)) (Bad ''meshMessage'')]
           else None))"

definition topic_validate :: "topic_score \<Rightarrow> config_error option" where
  "topic_validate c = first_error
     [topic_validateSyntax c,
      guard (\<not> validNumber (ts_TopicWeight c) \<or> neg (ts_TopicWeight c)) (Bad ''topicWeight''),
      timeInMeshError c,
      firstMessageError c,
      meshMessageError c,
      if \<not> ts_SkipAtomicValidation c \<or> \<not> is0 (ts_MeshFailurePenaltyWeight c)
         \<or> \<not> is0 (ts_MeshFailurePenaltyDecay c)
      then first_error
        [guard (\<not> validNumber (ts_MeshFailurePenaltyWeight c) \<or> pos (ts_MeshFailurePenaltyWeight c))
           (Bad ''meshFailurePenaltyWeight''),
         guard (\<not> is0 (ts_MeshFailurePenaltyWeight c) \<and> \<not> validDecay (ts_MeshFailurePenaltyDecay c))
           (Bad ''meshFailurePenaltyDecay'')]
      else None,
      if \<not> ts_SkipAtomicValidation c \<or> \<not> is0 (ts_InvalidMessageDeliveriesWeight c)
         \<or> \<not> is0 (ts_InvalidMessageDeliveriesDecay c)
      then first_error
        [guard (\<not> validNumber (ts_InvalidMessageDeliveriesWeight c) \<or> pos (ts_InvalidMessageDeliveriesWeight c))
           (Bad ''invalidMessageDeliveriesWeight''),
         guard (\<not> validDecay (ts_InvalidMessageDeliveriesDecay c)) (Bad ''invalidMessageDeliveriesDecay'')]
      else None]"

text \<open>The checks of an enabled block, on the settings with their defaults.\<close>

definition enabledScoreError :: "score_config \<Rightarrow> config_error option" where
  "enabledScoreError c = first_error
     ([guard (\<not> validNumber (sc_TopicScoreCap c) \<or> neg (sc_TopicScoreCap c)) (Bad ''topicScoreCap''),
       guard (\<not> validNumber (sc_AppSpecificWeight c)) (Bad ''appSpecificWeight''),
       guard (\<not> is0 (sc_AppSpecificWeight c) \<and> sc_AppSpecificScore c = None) (Bad ''appSpecificScore''),
       if \<not> sc_SkipAtomicValidation c \<or> \<not> is0 (sc_IPColocationFactorWeight c)
       then first_error
         [guard (\<not> validNumber (sc_IPColocationFactorWeight c) \<or> pos (sc_IPColocationFactorWeight c))
            (Bad ''ipColocationFactorWeight''),
          guard (\<not> is0 (sc_IPColocationFactorWeight c) \<and> sc_IPColocationFactorThreshold c < 1)
            (Bad ''ipColocationFactorThreshold'')]
       else None]
      @ map (\<lambda>r. guard (\<not> valid_CIDR r) (BadItem ''whitelist'' r)) (sc_IPColocationFactorWhitelist c)
      @ [if \<not> sc_SkipAtomicValidation c \<or> \<not> is0 (sc_BehaviourPenaltyWeight c)
            \<or> \<not> is0 (sc_BehaviourPenaltyThreshold c)
         then first_error
           [guard (\<not> validNumber (sc_BehaviourPenaltyWeight c) \<or> pos (sc_BehaviourPenaltyWeight c))
              (Bad ''behaviourPenaltyWeight''),
            guard (\<not> is0 (sc_BehaviourPenaltyWeight c) \<and> \<not> validDecay (sc_BehaviourPenaltyDecay c))
              (Bad ''behaviourPenaltyDecay''),
            guard (\<not> validNumber (sc_BehaviourPenaltyThreshold c) \<or> neg (sc_BehaviourPenaltyThreshold c))
              (Bad ''behaviourPenaltyThreshold'')]
         else None,
         (case scoreDuration ''decayInterval'' (sc_DecayInterval c) of Inl e \<Rightarrow> Some e
          | Inr d \<Rightarrow> guard (d < Second) (Bad ''decayInterval'')),
         guard (\<not> validDecay (sc_DecayToZero c)) (Bad ''decayToZero'')]
      @ map nonNegativeScoreDuration
          [(''retainScore'', sc_RetainScore c), (''seenMessageTTL'', sc_SeenMessageTTL c)]
      @ [at_error ''thresholds'' (thresholds_validate (sc_Thresholds c))]
      @ map (\<lambda>(topic, params). first_error
          [guard (TrimSpace topic = []) (Bad ''topicName''), at_error topic (topic_validate params)])
        (elems (sc_Topics c)))"

definition score_validate :: "(gostring \<Rightarrow> gostring option) \<Rightarrow> score_config \<Rightarrow> config_error option" where
  "score_validate decode_peer c0 =
     (let c = score_WithDefaults c0
      in case score_validateSyntax decode_peer c of Some e \<Rightarrow> Some e
         | None \<Rightarrow> if \<not> score_IsEnabled c then None else enabledScoreError c)"

end
