(* ===== verification/PubSubConfig.thy ===== *)
theory PubSubConfig
  imports GoText KademliaConfig ScoreConfig Distributions "HOL-Library.Word"
begin

text \<open>
  The PubSub settings of a Peer (\<open>internal/model/gossipsub_config.go\<close>, \<open>gossipsub_policies.go\<close>) and the
  checks of \<open>internal/model/gossipsub_validation.go\<close>. What go-libp2p, go-multiaddr and the regular
  expression engine decide is the parameter \<open>pubsub_env\<close>.
\<close>

section \<open>Settings\<close>

record pubsub_validator =
  pv_BasicSeqno :: bool
  pv_Result :: gostring
  pv_FailureResult :: gostring
  pv_MinBytes :: "int option"
  pv_MaxBytes :: "int option"
  pv_Pattern :: gostring
  pv_Format :: gostring
  pv_Delay :: gostring
  pv_Timeout :: gostring
  pv_Concurrency :: "int option"
  pv_Inline :: "bool option"
  pv_UseValidatorData :: bool

record pubsub_topic =
  pt_MessageID :: gostring
  pt_SubscriptionBufferSize :: "int option"
  pt_Validator :: "pubsub_validator option"

record peer_rule =
  pr_Allow :: "gostring list"
  pr_Deny :: "gostring list"

record peer_filter =
  pf_Allow :: "gostring list"
  pf_Deny :: "gostring list"
  pf_Topics :: "(gostring, peer_rule) gomap"

record subscription_filter =
  sf_Allowlist :: "gostring list"
  sf_Pattern :: gostring
  sf_MaxSubscriptions :: "int option"

record pubsub_protocol =
  pp_ID :: gostring
  pp_Features :: "gostring list"

record blacklist =
  bl_Peers :: "gostring list"
  bl_TTL :: gostring

record rpc_inspector =
  ri_MaxMessages :: "int option"
  ri_MaxSubscriptions :: "int option"
  ri_MaxControlEntries :: "int option"
  ri_MaxMessageIDs :: "int option"
  ri_MaxBytes :: "int option"
  ri_RejectPeers :: "gostring list"

record discovery_connector =
  dc_CacheSize :: "int option"
  dc_DialTimeout :: gostring
  dc_MinBackoff :: gostring
  dc_MaxBackoff :: gostring
  dc_TimeUnit :: gostring
  dc_Base :: "float64 option"
  dc_Offset :: gostring
  dc_Jitter :: gostring
  dc_Seed :: "int option"

record pubsub_discovery =
  pd_Mode :: gostring
  pd_TTL :: gostring
  pd_Limit :: "int option"
  pd_Connector :: "discovery_connector option"

record pubsub_author =
  pa_PeerID :: gostring
  pa_PrivateKey :: gostring
  pa_NoAuthor :: bool

text \<open>A decoded value of a \<open>map[string]any\<close>: only whether it is a string matters here.\<close>

datatype any_value = AnyString gostring | AnyOther

record pubsub_publish =
  pub_ReadinessMinPeers :: "int option"
  pub_ReadinessTimeout :: gostring
  pub_Local :: "bool option"
  pub_ValidatorData :: "(gostring, any_value) gomap"
  pub_Author :: "pubsub_author option"

record peer_gater =
  pg_Threshold :: "float64 option"
  pg_GlobalDecay :: "float64 option"
  pg_SourceDecay :: "float64 option"
  pg_DecayInterval :: gostring
  pg_DecayToZero :: "float64 option"
  pg_RetainStats :: gostring
  pg_Quiet :: gostring
  pg_DuplicateWeight :: "float64 option"
  pg_IgnoreWeight :: "float64 option"
  pg_RejectWeight :: "float64 option"
  pg_TopicDeliveryWeights :: "(gostring, float64) gomap"

record gossip_params =
  gp_D :: "int option"
  gp_DLow :: "int option"
  gp_DHigh :: "int option"
  gp_DScore :: "int option"
  gp_DOut :: "int option"
  gp_DLazy :: "int option"
  gp_HistoryLength :: "int option"
  gp_HistoryGossip :: "int option"
  gp_GossipFactor :: "float64 option"
  gp_GossipRetransmission :: "int option"
  gp_HeartbeatInitialDelay :: gostring
  gp_HeartbeatInterval :: gostring
  gp_SlowHeartbeatWarning :: "float64 option"
  gp_FanoutTTL :: gostring
  gp_PrunePeers :: "int option"
  gp_PruneBackoff :: gostring
  gp_UnsubscribeBackoff :: gostring
  gp_Connectors :: "int option"
  gp_MaxPendingConnections :: "int option"
  gp_ConnectionTimeout :: gostring
  gp_DirectConnectTicks :: "64 word option"
  gp_DirectConnectInitialDelay :: gostring
  gp_OpportunisticGraftTicks :: "64 word option"
  gp_OpportunisticGraftPeers :: "int option"
  gp_GraftFloodThreshold :: gostring
  gp_MaxIHaveLength :: "int option"
  gp_MaxIHaveMessages :: "int option"
  gp_MaxIDontWantLength :: "int option"
  gp_MaxIDontWantMessages :: "int option"
  gp_IWantFollowupTime :: gostring
  gp_IDontWantMessageThreshold :: "int option"
  gp_IDontWantMessageTTL :: "int option"

record gossipsub_config =
  gs_MessageID :: gostring
  gs_TopicOptions :: "(gostring, pubsub_topic) gomap option"
  gs_PeerFilter :: "peer_filter option"
  gs_DirectPeers :: "gostring list option"
  gs_PeerGater :: "peer_gater option"
  gs_SubscriptionFilter :: "subscription_filter option"
  gs_SeenMessagesStrategy :: gostring
  gs_Protocols :: "pubsub_protocol list option"
  gs_ProtocolMatch :: gostring
  gs_Blacklist :: "blacklist option"
  gs_DefaultValidators :: "pubsub_validator list option"
  gs_RPCInspector :: "rpc_inspector option"
  gs_Discovery :: "pubsub_discovery option"
  gs_Author :: "pubsub_author option"
  gs_Publish :: "pubsub_publish option"
  gs_Enabled :: "bool option"
  gs_Router :: gostring
  gs_TopicMode :: gostring
  gs_RandomDegree :: "int option"
  gs_RandomNetworkSize :: "int option"
  gs_Subscribe :: "bool option"
  gs_AllowPublish :: "bool option"
  gs_Topics :: "gostring list option"
  gs_Params :: gossip_params
  gs_Score :: "score_config option"
  gs_ScoreInspectInterval :: gostring
  gs_FloodPublish :: "bool option"
  gs_PeerExchange :: "bool option"
  gs_MaxMessageSize :: "int option"
  gs_PeerOutboundQueueSize :: "int option"
  gs_SignaturePolicy :: gostring
  gs_SeenMessagesTTL :: gostring
  gs_ValidateQueueSize :: "int option"
  gs_ValidateThrottle :: "int option"
  gs_ValidateWorkers :: "int option"
  gs_SubscriptionBufferSize :: "int option"

section \<open>What the libraries decide\<close>

text \<open>
  \<open>pe_Compile\<close> is \<open>regexp.Compile\<close> with the matcher of a compiled pattern; \<open>pe_UnmarshalKey\<close> is
  \<open>crypto.UnmarshalPrivateKey\<close> on the decoded bytes, and \<open>pe_KeyPeer\<close> is \<open>peer.IDFromPrivateKey\<close>.
\<close>

record 'k pubsub_env =
  pe_DecodePeer :: "gostring \<Rightarrow> gostring option"
  pe_AddrInfo :: addr_info
  pe_Compile :: "gostring \<Rightarrow> (gostring \<Rightarrow> bool) option"
  pe_UnmarshalKey :: "nat list \<Rightarrow> 'k option"
  pe_KeyPeer :: "'k \<Rightarrow> gostring option"

section \<open>Shared checks\<close>

definition validateMessageID :: "gostring \<Rightarrow> config_error option" where
  "validateMessageID v = guard (v \<notin> {[], ''default'', ''sha256'', ''topic-sha256''}) (BadItem ''messageId'' v)"

definition validatePeerIDs :: "(gostring \<Rightarrow> gostring option) \<Rightarrow> gostring list \<Rightarrow> config_error option" where
  "validatePeerIDs decode_peer values =
     first_error (map (\<lambda>v. guard (decode_peer v = None) (BadItem ''peer'' v)) values)"

definition pubsubContains :: "gostring list \<Rightarrow> gostring \<Rightarrow> bool" where
  "pubsubContains values needle \<longleftrightarrow> list_ex (\<lambda>v. v = needle) values"

definition pubsubDuration :: "gostring \<Rightarrow> gostring \<Rightarrow> bool \<Rightarrow> config_error option" where
  "pubsubDuration name value strict =
     (if value = [] then None
      else case ParseDuration value of None \<Rightarrow> Some (Bad name)
           | Some d \<Rightarrow> guard (d < 0 \<or> strict \<and> d = 0) (Bad name))"

definition negative :: "gostring \<times> int option \<Rightarrow> config_error option" where
  "negative = (\<lambda>(name, v). guard (set_and (\<lambda>n. n < 0) v) (Bad name))"

definition not_positive :: "gostring \<times> int option \<Rightarrow> config_error option" where
  "not_positive = (\<lambda>(name, v). guard (set_and (\<lambda>n. n \<le> 0) v) (Bad name))"

section \<open>Policies\<close>

definition Validator_Validate :: "'k pubsub_env \<Rightarrow> pubsub_validator \<Rightarrow> config_error option" where
  "Validator_Validate env c = first_error
     (map (\<lambda>(name, v). guard (\<not> pubsubContains [[], ''accept'', ''reject'', ''ignore''] v) (Bad name))
        [(''result'', pv_Result c), (''failureResult'', pv_FailureResult c)]
      @ [guard (pv_FailureResult c = ''accept'') (Bad ''failureResult''),
         guard (set_and (\<lambda>n. n < 0) (pv_MinBytes c) \<or> set_and (\<lambda>n. n < 0) (pv_MaxBytes c)) (Bad ''bytes''),
         guard (set_and (\<lambda>lo. set_and (\<lambda>hi. hi < lo) (pv_MaxBytes c)) (pv_MinBytes c)) (Bad ''minBytes''),
         guard (pv_Pattern c \<noteq> [] \<and> pe_Compile env (pv_Pattern c) = None) (Bad ''pattern''),
         guard (pv_Format c \<notin> {[], ''any'', ''json'', ''envelope''}) (Bad ''format''),
         pubsubDuration ''validator.delay'' (pv_Delay c) False,
         pubsubDuration ''validator.timeout'' (pv_Timeout c) False,
         not_positive (''concurrency'', pv_Concurrency c)])"

text \<open>One entry of the gater's table: its name, value, and whether it must be below or at least one.\<close>

definition gaterValueError :: "gostring \<times> float64 option \<Rightarrow> config_error option" where
  "gaterValueError = (\<lambda>(name, value).
     case value of None \<Rightarrow> None
     | Some v \<Rightarrow> first_error
         [guard (\<not> validNumber v \<or> float_le v (Fin 0)) (Bad name),
          guard (name \<in> {''globalDecay'', ''sourceDecay'', ''decayToZero''} \<and> float_le (Fin 1) v) (BadItem name ''below 1''),
          guard (name \<in> {''ignoreWeight'', ''rejectWeight''} \<and> float_less v (Fin 1)) (BadItem name ''at least 1'')])"

definition gaterDurationError :: "gostring \<times> gostring \<Rightarrow> config_error option" where
  "gaterDurationError = (\<lambda>(name, value). first_error
     [pubsubDuration name value False,
      guard (value \<noteq> [] \<and> name \<noteq> ''retainStats'' \<and> duration_or_zero value < Second) (BadItem name ''1s'')])"

definition PeerGater_Validate :: "peer_gater \<Rightarrow> config_error option" where
  "PeerGater_Validate c = first_error
     (map gaterValueError
        [(''threshold'', pg_Threshold c), (''globalDecay'', pg_GlobalDecay c), (''sourceDecay'', pg_SourceDecay c),
         (''decayToZero'', pg_DecayToZero c), (''duplicateWeight'', pg_DuplicateWeight c),
         (''ignoreWeight'', pg_IgnoreWeight c), (''rejectWeight'', pg_RejectWeight c)]
      @ map gaterDurationError
        [(''decayInterval'', pg_DecayInterval c), (''quiet'', pg_Quiet c), (''retainStats'', pg_RetainStats c)]
      @ map (\<lambda>(topic, weight). guard (topic = [] \<or> \<not> validNumber weight \<or> float_le weight (Fin 0))
                                 (BadItem ''topicDeliveryWeights'' topic))
          (pg_TopicDeliveryWeights c))"

definition connectorError :: "discovery_connector \<Rightarrow> config_error option" where
  "connectorError b =
     (let minimum = (if dc_MinBackoff b \<noteq> [] then duration_or_zero (dc_MinBackoff b) else 10 * Second);
          maximum = (if dc_MaxBackoff b \<noteq> [] then duration_or_zero (dc_MaxBackoff b) else Hour)
      in first_error
        ([not_positive (''connector.cacheSize'', dc_CacheSize b)]
         @ map (\<lambda>(name, v). pubsubDuration name v (name \<noteq> ''offset''))
             [(''dialTimeout'', dc_DialTimeout b), (''minBackoff'', dc_MinBackoff b),
              (''maxBackoff'', dc_MaxBackoff b), (''timeUnit'', dc_TimeUnit b), (''offset'', dc_Offset b)]
         @ [guard (maximum < minimum) (Bad ''connector.minBackoff''),
            guard (set_and (\<lambda>v. \<not> validNumber v \<or> float_le v (Fin 1)) (dc_Base b)) (Bad ''connector.base''),
            guard (dc_Jitter b \<notin> {[], ''full'', ''none''}) (Bad ''connector.jitter'')]))"

definition Discovery_Validate :: "pubsub_discovery \<Rightarrow> config_error option" where
  "Discovery_Validate c = first_error
     [guard (pd_Mode c \<notin> {[], ''controller'', ''routing'', ''none''}) (Bad ''mode''),
      guard (pd_Mode c = ''none'' \<and> (pd_TTL c \<noteq> [] \<or> pd_Limit c \<noteq> None \<or> pd_Connector c \<noteq> None)) (Bad ''none''),
      pubsubDuration ''ttl'' (pd_TTL c) True,
      not_positive (''limit'', pd_Limit c),
      (case pd_Connector c of None \<Rightarrow> None | Some b \<Rightarrow> connectorError b)]"

text \<open>\<open>PubSubAuthorConfig.Identity\<close>: the key, if one is configured, and the Peer ID.\<close>

definition author_Identity :: "'k pubsub_env \<Rightarrow> pubsub_author \<Rightarrow> config_error + ('k option \<times> gostring)" where
  "author_Identity env c =
     (if pa_NoAuthor c then
        (if pa_PeerID c \<noteq> [] \<or> pa_PrivateKey c \<noteq> [] then Inl (Bad ''noAuthor'') else Inr (None, []))
      else if pa_PeerID c = [] \<and> pa_PrivateKey c = [] then Inl (Bad ''peerId'')
      else case (if pa_PeerID c \<noteq> [] then pe_DecodePeer env (pa_PeerID c) else Some []) of
        None \<Rightarrow> Inl (Bad ''author peerId'')
      | Some pid \<Rightarrow>
          if pa_PrivateKey c = [] then Inr (None, pid)
          else case base64_decode (pa_PrivateKey c) of None \<Rightarrow> Inl (Bad ''base64'')
          | Some data \<Rightarrow>
              (case pe_UnmarshalKey env data of None \<Rightarrow> Inl (Bad ''privateKey'')
               | Some key \<Rightarrow>
                   (case pe_KeyPeer env key of None \<Rightarrow> Inl (Bad ''derive'')
                    | Some derived \<Rightarrow>
                        if pid \<noteq> [] \<and> pid \<noteq> derived then Inl (Bad ''mismatch'')
                        else Inr (Some key, derived))))"

definition identityError :: "'k pubsub_env \<Rightarrow> pubsub_author \<Rightarrow> config_error option" where
  "identityError env a = (case author_Identity env a of Inl e \<Rightarrow> Some e | Inr _ \<Rightarrow> None)"

section \<open>The extended checks\<close>

text \<open>Protocols: \<open>seen\<close> holds the IDs, or the features, met so far.\<close>

fun featureErrors :: "gostring list \<Rightarrow> gostring list \<Rightarrow> config_error option" where
  "featureErrors seen [] = first_error
     [guard (''none'' \<in> set seen \<and> 1 < card (set seen)) (Bad ''feature none''),
      guard ((''px'' \<in> set seen \<or> ''idontwant'' \<in> set seen) \<and> ''mesh'' \<notin> set seen) (Bad ''feature mesh'')]"
| "featureErrors seen (f # fs) =
     (if f \<notin> {''none'', ''mesh'', ''px'', ''idontwant''} then Some (BadItem ''feature'' f)
      else if f \<in> set seen then Some (BadItem ''duplicate feature'' f)
      else featureErrors (f # seen) fs)"

fun protocolErrors :: "gostring \<Rightarrow> gostring list \<Rightarrow> pubsub_protocol list \<Rightarrow> config_error option" where
  "protocolErrors router seen [] = None"
| "protocolErrors router seen (p # ps) =
     (if \<not> HasPrefix (pp_ID p) ''/'' \<or> TrimSpace (pp_ID p) \<noteq> pp_ID p \<or> pp_ID p \<in> set seen
      then Some (BadItem ''protocol'' (pp_ID p))
      else if router = ''floodsub'' \<and> pp_Features p \<noteq> [] then Some (Bad ''floodsub features'')
      else case featureErrors [] (pp_Features p) of Some e \<Rightarrow> Some e
      | None \<Rightarrow> protocolErrors router (pp_ID p # seen) ps)"

definition directPeerError :: "'k pubsub_env \<Rightarrow> gostring \<Rightarrow> config_error option" where
  "directPeerError env raw =
     guard (case pe_AddrInfo env raw of None \<Rightarrow> True | Some (_, addrs) \<Rightarrow> addrs = 0) (BadItem ''directPeers'' raw)"

definition peerFilterError :: "'k pubsub_env \<Rightarrow> peer_filter \<Rightarrow> config_error option" where
  "peerFilterError env f = first_error
     (validatePeerIDs (pe_DecodePeer env) (pf_Allow f @ pf_Deny f)
      # map (\<lambda>(topic, rule). first_error
          [guard (topic = []) (Bad ''peerFilter''),
           at_error topic (validatePeerIDs (pe_DecodePeer env) (pr_Allow rule @ pr_Deny rule))]) (pf_Topics f))"

definition blacklistError :: "'k pubsub_env \<Rightarrow> blacklist \<Rightarrow> config_error option" where
  "blacklistError env b = first_error
     [validatePeerIDs (pe_DecodePeer env) (bl_Peers b), pubsubDuration ''blacklist.ttl'' (bl_TTL b) True]"

definition subscriptionFilterError :: "'k pubsub_env \<Rightarrow> gostring list \<Rightarrow> subscription_filter \<Rightarrow> config_error option" where
  "subscriptionFilterError env topics f = first_error
     ([guard (sf_Allowlist f \<noteq> [] \<and> sf_Pattern f \<noteq> []) (Bad ''subscriptionFilter''),
       guard (sf_Pattern f \<noteq> [] \<and> pe_Compile env (sf_Pattern f) = None) (Bad ''subscriptionFilter.pattern''),
       not_positive (''maxSubscriptions'', sf_MaxSubscriptions f)]
      @ map (\<lambda>topic. first_error
          [guard (sf_Pattern f \<noteq> []
                  \<and> (case pe_Compile env (sf_Pattern f) of None \<Rightarrow> False | Some matches \<Rightarrow> \<not> matches topic))
             (BadItem ''excludes'' topic),
           guard (sf_Allowlist f \<noteq> [] \<and> \<not> pubsubContains (sf_Allowlist f) topic) (BadItem ''excludes'' topic)])
        topics)"

definition validatorPolicyError :: "'k pubsub_env \<Rightarrow> gossipsub_config \<Rightarrow> pubsub_validator \<Rightarrow> config_error option" where
  "validatorPolicyError env c v = first_error
     [guard (pv_BasicSeqno v \<and> gs_SignaturePolicy c \<notin> {[], ''strict-sign''}) (Bad ''basicSeqno''),
      Validator_Validate env v]"

definition topicOptionError :: "'k pubsub_env \<Rightarrow> gossipsub_config \<Rightarrow> gostring \<times> pubsub_topic \<Rightarrow> config_error option" where
  "topicOptionError env c = (\<lambda>(topic, options). first_error
     [guard (\<not> pubsubContains (elems (gs_Topics c)) topic) (BadItem ''unjoined'' topic),
      at_error topic (validateMessageID (pt_MessageID options)),
      guard (set_and (\<lambda>n. n < 0) (pt_SubscriptionBufferSize options)) (BadItem ''subscriptionBufferSize'' topic),
      guard (pt_SubscriptionBufferSize options \<noteq> None \<and> gs_TopicMode c \<notin> {[], ''subscribe''})
        (BadItem ''topicMode'' topic),
      (case pt_Validator options of None \<Rightarrow> None | Some v \<Rightarrow> at_error topic (validatorPolicyError env c v))])"

definition rpcInspectorError :: "'k pubsub_env \<Rightarrow> rpc_inspector \<Rightarrow> config_error option" where
  "rpcInspectorError env r = first_error
     (map negative
        [(''maxMessages'', ri_MaxMessages r), (''maxSubscriptions'', ri_MaxSubscriptions r),
         (''maxControlEntries'', ri_MaxControlEntries r), (''maxMessageIds'', ri_MaxMessageIDs r),
         (''maxBytes'', ri_MaxBytes r)]
      @ [validatePeerIDs (pe_DecodePeer env) (ri_RejectPeers r)])"

text \<open>The message ID policy of a topic: its own, or the block's.\<close>

definition topic_message_id :: "gossipsub_config \<Rightarrow> gostring \<Rightarrow> gostring" where
  "topic_message_id c topic =
     (case map_of (elems (gs_TopicOptions c)) topic of
        None \<Rightarrow> gs_MessageID c
      | Some opts \<Rightarrow> if pt_MessageID opts \<noteq> [] then pt_MessageID opts else gs_MessageID c)"

definition unsigned_policy :: "gossipsub_config \<Rightarrow> bool" where
  "unsigned_policy c \<longleftrightarrow> gs_SignaturePolicy c = ''strict-no-sign'' \<or> gs_SignaturePolicy c = ''lax-no-sign''"

definition authorError :: "'k pubsub_env \<Rightarrow> gossipsub_config \<Rightarrow> pubsub_author \<Rightarrow> config_error option" where
  "authorError env c a = first_error
     ([at_error ''author'' (identityError env a)]
      @ (if pa_NoAuthor a
         then guard (\<not> unsigned_policy c) (Bad ''author.noAuthor'')
           # map (\<lambda>topic. guard (topic_message_id c topic \<in> {[], ''default''}) (BadItem ''messageId'' topic))
               (elems (gs_Topics c))
         else []))"

definition uses_validator_data :: "gossipsub_config \<Rightarrow> bool" where
  "uses_validator_data c \<longleftrightarrow>
     list_ex pv_UseValidatorData (elems (gs_DefaultValidators c))
     \<or> list_ex (\<lambda>topic. case map_of (elems (gs_TopicOptions c)) topic of None \<Rightarrow> False
          | Some opts \<Rightarrow> set_and pv_UseValidatorData (pt_Validator opts)) (elems (gs_Topics c))"

definition publishError :: "'k pubsub_env \<Rightarrow> gossipsub_config \<Rightarrow> pubsub_publish \<Rightarrow> config_error option" where
  "publishError env c p = first_error
     [negative (''readinessMinPeers'', pub_ReadinessMinPeers p),
      pubsubDuration ''publish.readinessTimeout'' (pub_ReadinessTimeout p) True,
      guard (pub_ReadinessTimeout p \<noteq> [] \<and> 10 * Second < duration_or_zero (pub_ReadinessTimeout p))
        (Bad ''publish request budget''),
      guard (pub_ReadinessTimeout p \<noteq> [] \<and> pub_ReadinessMinPeers p = None) (Bad ''readinessTimeout''),
      (case pub_Author p of None \<Rightarrow> None
       | Some a \<Rightarrow> first_error
           [guard (set_and (\<lambda>b. b) (pub_Local p)) (Bad ''publish.author local''),
            guard (pa_NoAuthor a \<or> pa_PrivateKey a = []) (Bad ''publish.author privateKey''),
            at_error ''publish.author'' (identityError env a),
            guard (unsigned_policy c \<or> set_and pa_NoAuthor (gs_Author c)) (Bad ''publish.author signing'')]),
      (if pub_ValidatorData p = [] then None
       else first_error
         [guard (\<not> uses_validator_data c) (Bad ''publish.validatorData''),
          guard (case map_of (pub_ValidatorData p) ''result'' of
                   Some (AnyString r) \<Rightarrow> \<not> pubsubContains [''accept'', ''reject'', ''ignore''] r
                 | _ \<Rightarrow> True) (Bad ''publish.validatorData.result'')])]"

definition opt_error :: "('a \<Rightarrow> config_error option) \<Rightarrow> 'a option \<Rightarrow> config_error option" where
  "opt_error check v = (case v of None \<Rightarrow> None | Some x \<Rightarrow> check x)"

lemma opt_error_simps [simp]: "opt_error f None = None" "opt_error f (Some x) = f x"
  by (simp_all add: opt_error_def)

definition ValidateExtended :: "'k pubsub_env \<Rightarrow> gossipsub_config \<Rightarrow> config_error option" where
  "ValidateExtended env c = first_error
     ([validateMessageID (gs_MessageID c),
       guard (gs_SeenMessagesStrategy c \<notin> {[], ''first-seen'', ''last-seen''}) (Bad ''seenMessagesStrategy''),
       guard (gs_ProtocolMatch c \<notin> {[], ''exact'', ''prefix''}) (Bad ''protocolMatch''),
       guard (gs_ProtocolMatch c = ''prefix'' \<and> elems (gs_Protocols c) = []) (Bad ''protocolMatch prefix''),
       guard (gs_Router c \<notin> {[], ''gossipsub''} \<and> (elems (gs_DirectPeers c) \<noteq> [] \<or> gs_PeerGater c \<noteq> None))
         (Bad ''directPeers''),
       guard (gs_Router c = ''randomsub'' \<and> elems (gs_Protocols c) \<noteq> []) (Bad ''randomsub protocols''),
       protocolErrors (gs_Router c) [] (elems (gs_Protocols c))]
      @ map (directPeerError env) (elems (gs_DirectPeers c))
      @ [opt_error (peerFilterError env) (gs_PeerFilter c),
         opt_error (blacklistError env) (gs_Blacklist c),
         opt_error (subscriptionFilterError env (elems (gs_Topics c))) (gs_SubscriptionFilter c)]
      @ map (topicOptionError env c) (elems (gs_TopicOptions c))
      @ map (validatorPolicyError env c) (elems (gs_DefaultValidators c))
      @ [opt_error (rpcInspectorError env) (gs_RPCInspector c),
         opt_error PeerGater_Validate (gs_PeerGater c),
         opt_error Discovery_Validate (gs_Discovery c),
         opt_error (authorError env c) (gs_Author c),
         opt_error (publishError env c) (gs_Publish c)])"

end
