(* ===== verification/NodeSettings.thy ===== *)
theory NodeSettings
  imports PubSubConfig NetworkConfig
begin

text \<open>
  The per-node configuration (\<open>internal/model/config.go\<close>): its structs, their zero values and the
  overlay \<open>mergeNonZero\<close>. The code walks the structs by reflection; here each struct has the
  field-by-field function it computes. A pointer, slice or map that is nil is None.
\<close>

section \<open>Settings\<close>

record connection_manager =
  cm_LowWater :: int
  cm_HighWater :: int
  cm_GracePeriod :: gostring

record libp2p_config =
  lc_UserAgent :: gostring
  lc_NATPortMap :: "bool option"
  lc_Relay :: "bool option"
  lc_RelayService :: "bool option"
  lc_ConnectionLimit :: "int option"
  lc_ConnectionManager :: "connection_manager option"
  lc_DialTimeout :: gostring

record node_config =
  nc_Type :: gostring
  nc_Topics :: "gostring list option"
  nc_D :: int
  nc_DLow :: int
  nc_DHigh :: int
  nc_DOut :: int
  nc_DLazy :: int
  nc_Heartbeat :: gostring
  nc_ConnectLimit :: int
  nc_Libp2p :: libp2p_config
  nc_Kademlia :: kademlia_config
  nc_GossipSub :: gossipsub_config
  nc_Network :: network_config

section \<open>Empty settings: the zero values\<close>

definition empty_params :: gossip_params where
  "empty_params = \<lparr>gp_D = None, gp_DLow = None, gp_DHigh = None, gp_DScore = None, gp_DOut = None, gp_DLazy =
     None, gp_HistoryLength = None, gp_HistoryGossip = None, gp_GossipFactor = None,
     gp_GossipRetransmission = None, gp_HeartbeatInitialDelay = [], gp_HeartbeatInterval = [],
     gp_SlowHeartbeatWarning = None, gp_FanoutTTL = [], gp_PrunePeers = None, gp_PruneBackoff = [],
     gp_UnsubscribeBackoff = [], gp_Connectors = None, gp_MaxPendingConnections = None,
     gp_ConnectionTimeout = [], gp_DirectConnectTicks = None, gp_DirectConnectInitialDelay = [],
     gp_OpportunisticGraftTicks = None, gp_OpportunisticGraftPeers = None, gp_GraftFloodThreshold =
     [], gp_MaxIHaveLength = None, gp_MaxIHaveMessages = None, gp_MaxIDontWantLength = None,
     gp_MaxIDontWantMessages = None, gp_IWantFollowupTime = [], gp_IDontWantMessageThreshold = None,
     gp_IDontWantMessageTTL = None\<rparr>"

definition empty_gossipsub :: gossipsub_config where
  "empty_gossipsub = \<lparr>gs_MessageID = [], gs_TopicOptions = None, gs_PeerFilter = None, gs_DirectPeers = None,
     gs_PeerGater = None, gs_SubscriptionFilter = None, gs_SeenMessagesStrategy = [], gs_Protocols =
     None, gs_ProtocolMatch = [], gs_Blacklist = None, gs_DefaultValidators = None, gs_RPCInspector
     = None, gs_Discovery = None, gs_Author = None, gs_Publish = None, gs_Enabled = None, gs_Router
     = [], gs_TopicMode = [], gs_RandomDegree = None, gs_RandomNetworkSize = None, gs_Subscribe =
     None, gs_AllowPublish = None, gs_Topics = None, gs_Params = empty_params, gs_Score = None,
     gs_ScoreInspectInterval = [], gs_FloodPublish = None, gs_PeerExchange = None, gs_MaxMessageSize
     = None, gs_PeerOutboundQueueSize = None, gs_SignaturePolicy = [], gs_SeenMessagesTTL = [],
     gs_ValidateQueueSize = None, gs_ValidateThrottle = None, gs_ValidateWorkers = None,
     gs_SubscriptionBufferSize = None\<rparr>"

definition empty_libp2p :: libp2p_config where
  "empty_libp2p = \<lparr>lc_UserAgent = [], lc_NATPortMap = None, lc_Relay = None, lc_RelayService = None,
     lc_ConnectionLimit = None, lc_ConnectionManager = None, lc_DialTimeout = []\<rparr>"

definition empty_node :: node_config where
  "empty_node = \<lparr>nc_Type = [], nc_Topics = None, nc_D = 0, nc_DLow = 0, nc_DHigh = 0, nc_DOut = 0, nc_DLazy = 0,
     nc_Heartbeat = [], nc_ConnectLimit = 0, nc_Libp2p = empty_libp2p, nc_Kademlia = empty_kademlia,
     nc_GossipSub = empty_gossipsub, nc_Network = empty_network\<rparr>"

section \<open>mergeNonZero\<close>

definition over_int :: "int \<Rightarrow> int \<Rightarrow> int" where
  "over_int base overlay = (if overlay = 0 then base else overlay)"

lemma over_int_simps [simp]: "over_int b 0 = b" "over_int 0 x = x"
  by (simp_all add: over_int_def)

lemma over_again [simp]:
  "over (over b v) v = over b v" "over_string (over_string a w) w = over_string a w"
  "over_int (over_int i j) j = over_int i j"
  by (simp_all add: over_def over_string_def over_int_def split: option.split)

definition merge_params :: "gossip_params \<Rightarrow> gossip_params \<Rightarrow> gossip_params" where
  "merge_params b v = \<lparr>
     gp_D = over (gp_D b) (gp_D v),
     gp_DLow = over (gp_DLow b) (gp_DLow v),
     gp_DHigh = over (gp_DHigh b) (gp_DHigh v),
     gp_DScore = over (gp_DScore b) (gp_DScore v),
     gp_DOut = over (gp_DOut b) (gp_DOut v),
     gp_DLazy = over (gp_DLazy b) (gp_DLazy v),
     gp_HistoryLength = over (gp_HistoryLength b) (gp_HistoryLength v),
     gp_HistoryGossip = over (gp_HistoryGossip b) (gp_HistoryGossip v),
     gp_GossipFactor = over (gp_GossipFactor b) (gp_GossipFactor v),
     gp_GossipRetransmission = over (gp_GossipRetransmission b) (gp_GossipRetransmission v),
     gp_HeartbeatInitialDelay = over_string (gp_HeartbeatInitialDelay b) (gp_HeartbeatInitialDelay v),
     gp_HeartbeatInterval = over_string (gp_HeartbeatInterval b) (gp_HeartbeatInterval v),
     gp_SlowHeartbeatWarning = over (gp_SlowHeartbeatWarning b) (gp_SlowHeartbeatWarning v),
     gp_FanoutTTL = over_string (gp_FanoutTTL b) (gp_FanoutTTL v),
     gp_PrunePeers = over (gp_PrunePeers b) (gp_PrunePeers v),
     gp_PruneBackoff = over_string (gp_PruneBackoff b) (gp_PruneBackoff v),
     gp_UnsubscribeBackoff = over_string (gp_UnsubscribeBackoff b) (gp_UnsubscribeBackoff v),
     gp_Connectors = over (gp_Connectors b) (gp_Connectors v),
     gp_MaxPendingConnections = over (gp_MaxPendingConnections b) (gp_MaxPendingConnections v),
     gp_ConnectionTimeout = over_string (gp_ConnectionTimeout b) (gp_ConnectionTimeout v),
     gp_DirectConnectTicks = over (gp_DirectConnectTicks b) (gp_DirectConnectTicks v),
     gp_DirectConnectInitialDelay = over_string (gp_DirectConnectInitialDelay b) (gp_DirectConnectInitialDelay v),
     gp_OpportunisticGraftTicks = over (gp_OpportunisticGraftTicks b) (gp_OpportunisticGraftTicks v),
     gp_OpportunisticGraftPeers = over (gp_OpportunisticGraftPeers b) (gp_OpportunisticGraftPeers v),
     gp_GraftFloodThreshold = over_string (gp_GraftFloodThreshold b) (gp_GraftFloodThreshold v),
     gp_MaxIHaveLength = over (gp_MaxIHaveLength b) (gp_MaxIHaveLength v),
     gp_MaxIHaveMessages = over (gp_MaxIHaveMessages b) (gp_MaxIHaveMessages v),
     gp_MaxIDontWantLength = over (gp_MaxIDontWantLength b) (gp_MaxIDontWantLength v),
     gp_MaxIDontWantMessages = over (gp_MaxIDontWantMessages b) (gp_MaxIDontWantMessages v),
     gp_IWantFollowupTime = over_string (gp_IWantFollowupTime b) (gp_IWantFollowupTime v),
     gp_IDontWantMessageThreshold = over (gp_IDontWantMessageThreshold b) (gp_IDontWantMessageThreshold v),
     gp_IDontWantMessageTTL = over (gp_IDontWantMessageTTL b) (gp_IDontWantMessageTTL v)\<rparr>"

definition merge_gossipsub :: "gossipsub_config \<Rightarrow> gossipsub_config \<Rightarrow> gossipsub_config" where
  "merge_gossipsub b v = \<lparr>
     gs_MessageID = over_string (gs_MessageID b) (gs_MessageID v),
     gs_TopicOptions = over (gs_TopicOptions b) (gs_TopicOptions v),
     gs_PeerFilter = over (gs_PeerFilter b) (gs_PeerFilter v),
     gs_DirectPeers = over (gs_DirectPeers b) (gs_DirectPeers v),
     gs_PeerGater = over (gs_PeerGater b) (gs_PeerGater v),
     gs_SubscriptionFilter = over (gs_SubscriptionFilter b) (gs_SubscriptionFilter v),
     gs_SeenMessagesStrategy = over_string (gs_SeenMessagesStrategy b) (gs_SeenMessagesStrategy v),
     gs_Protocols = over (gs_Protocols b) (gs_Protocols v),
     gs_ProtocolMatch = over_string (gs_ProtocolMatch b) (gs_ProtocolMatch v),
     gs_Blacklist = over (gs_Blacklist b) (gs_Blacklist v),
     gs_DefaultValidators = over (gs_DefaultValidators b) (gs_DefaultValidators v),
     gs_RPCInspector = over (gs_RPCInspector b) (gs_RPCInspector v),
     gs_Discovery = over (gs_Discovery b) (gs_Discovery v),
     gs_Author = over (gs_Author b) (gs_Author v),
     gs_Publish = over (gs_Publish b) (gs_Publish v),
     gs_Enabled = over (gs_Enabled b) (gs_Enabled v),
     gs_Router = over_string (gs_Router b) (gs_Router v),
     gs_TopicMode = over_string (gs_TopicMode b) (gs_TopicMode v),
     gs_RandomDegree = over (gs_RandomDegree b) (gs_RandomDegree v),
     gs_RandomNetworkSize = over (gs_RandomNetworkSize b) (gs_RandomNetworkSize v),
     gs_Subscribe = over (gs_Subscribe b) (gs_Subscribe v),
     gs_AllowPublish = over (gs_AllowPublish b) (gs_AllowPublish v),
     gs_Topics = over (gs_Topics b) (gs_Topics v),
     gs_Params = merge_params (gs_Params b) (gs_Params v),
     gs_Score = over (gs_Score b) (gs_Score v),
     gs_ScoreInspectInterval = over_string (gs_ScoreInspectInterval b) (gs_ScoreInspectInterval v),
     gs_FloodPublish = over (gs_FloodPublish b) (gs_FloodPublish v),
     gs_PeerExchange = over (gs_PeerExchange b) (gs_PeerExchange v),
     gs_MaxMessageSize = over (gs_MaxMessageSize b) (gs_MaxMessageSize v),
     gs_PeerOutboundQueueSize = over (gs_PeerOutboundQueueSize b) (gs_PeerOutboundQueueSize v),
     gs_SignaturePolicy = over_string (gs_SignaturePolicy b) (gs_SignaturePolicy v),
     gs_SeenMessagesTTL = over_string (gs_SeenMessagesTTL b) (gs_SeenMessagesTTL v),
     gs_ValidateQueueSize = over (gs_ValidateQueueSize b) (gs_ValidateQueueSize v),
     gs_ValidateThrottle = over (gs_ValidateThrottle b) (gs_ValidateThrottle v),
     gs_ValidateWorkers = over (gs_ValidateWorkers b) (gs_ValidateWorkers v),
     gs_SubscriptionBufferSize = over (gs_SubscriptionBufferSize b) (gs_SubscriptionBufferSize v)\<rparr>"

definition merge_libp2p :: "libp2p_config \<Rightarrow> libp2p_config \<Rightarrow> libp2p_config" where
  "merge_libp2p b v = \<lparr>
     lc_UserAgent = over_string (lc_UserAgent b) (lc_UserAgent v),
     lc_NATPortMap = over (lc_NATPortMap b) (lc_NATPortMap v),
     lc_Relay = over (lc_Relay b) (lc_Relay v),
     lc_RelayService = over (lc_RelayService b) (lc_RelayService v),
     lc_ConnectionLimit = over (lc_ConnectionLimit b) (lc_ConnectionLimit v),
     lc_ConnectionManager = over (lc_ConnectionManager b) (lc_ConnectionManager v),
     lc_DialTimeout = over_string (lc_DialTimeout b) (lc_DialTimeout v)\<rparr>"

definition merge_network :: "network_config \<Rightarrow> network_config \<Rightarrow> network_config" where
  "merge_network b v = \<lparr>
     nw_Scope = over_string (nw_Scope b) (nw_Scope v),
     nw_Delay = over_string (nw_Delay b) (nw_Delay v),
     nw_DelayDistribution = over (nw_DelayDistribution b) (nw_DelayDistribution v),
     nw_Jitter = over_string (nw_Jitter b) (nw_Jitter v),
     nw_JitterDistribution = over_string (nw_JitterDistribution b) (nw_JitterDistribution v),
     nw_LossPercent = over (nw_LossPercent b) (nw_LossPercent v),
     nw_DuplicatePercent = over (nw_DuplicatePercent b) (nw_DuplicatePercent v),
     nw_CorruptPercent = over (nw_CorruptPercent b) (nw_CorruptPercent v),
     nw_ReorderPercent = over (nw_ReorderPercent b) (nw_ReorderPercent v),
     nw_ReorderCorrelationPercent = over (nw_ReorderCorrelationPercent b) (nw_ReorderCorrelationPercent v),
     nw_RateMbps = over (nw_RateMbps b) (nw_RateMbps v),
     nw_TBF = over (nw_TBF b) (nw_TBF v),
     nw_QueueLimit = over (nw_QueueLimit b) (nw_QueueLimit v)\<rparr>"

definition mergeNonZero :: "node_config \<Rightarrow> node_config \<Rightarrow> node_config" where
  "mergeNonZero b v = \<lparr>
     nc_Type = over_string (nc_Type b) (nc_Type v),
     nc_Topics = over (nc_Topics b) (nc_Topics v),
     nc_D = over_int (nc_D b) (nc_D v),
     nc_DLow = over_int (nc_DLow b) (nc_DLow v),
     nc_DHigh = over_int (nc_DHigh b) (nc_DHigh v),
     nc_DOut = over_int (nc_DOut b) (nc_DOut v),
     nc_DLazy = over_int (nc_DLazy b) (nc_DLazy v),
     nc_Heartbeat = over_string (nc_Heartbeat b) (nc_Heartbeat v),
     nc_ConnectLimit = over_int (nc_ConnectLimit b) (nc_ConnectLimit v),
     nc_Libp2p = merge_libp2p (nc_Libp2p b) (nc_Libp2p v),
     nc_Kademlia = merge_kademlia (nc_Kademlia b) (nc_Kademlia v),
     nc_GossipSub = merge_gossipsub (nc_GossipSub b) (nc_GossipSub v),
     nc_Network = merge_network (nc_Network b) (nc_Network v)\<rparr>"

end
