(* ===== verification/NodeConfig.thy ===== *)
theory NodeConfig
  imports NodeSettings
begin

text \<open>
  The operations of a node configuration (\<open>internal/model/config.go\<close>): presets, overlays, defaults and
  validation. The code's writes through \<open>&c.GossipSub.Params\<close> are record updates; the parts of
  \<open>WithDefaults\<close> and \<open>Validate\<close> that touch one struct are one definition each.
\<close>

section \<open>Legacy fields\<close>

text \<open>A legacy number fills the nested pointer unless it is set.\<close>

definition promote_int :: "int \<Rightarrow> int option \<Rightarrow> int option" where
  "promote_int legacy p = (if legacy \<noteq> 0 \<and> p = None then Some legacy else p)"

definition promoteLegacy :: "node_config \<Rightarrow> node_config" where
  "promoteLegacy c =
     (let g = nc_GossipSub c; p = gs_Params g;
          p' = p\<lparr>gp_D := promote_int (nc_D c) (gp_D p),
                 gp_DLow := promote_int (nc_DLow c) (gp_DLow p),
                 gp_DHigh := promote_int (nc_DHigh c) (gp_DHigh p),
                 gp_DOut := promote_int (nc_DOut c) (gp_DOut p),
                 gp_DLazy := promote_int (nc_DLazy c) (gp_DLazy p),
                 gp_HeartbeatInterval :=
                   (if nc_Heartbeat c \<noteq> [] \<and> gp_HeartbeatInterval p = [] then nc_Heartbeat c
                    else gp_HeartbeatInterval p)\<rparr>;
          topics = (if elems (gs_Topics g) = [] \<and> elems (nc_Topics c) \<noteq> []
                    then Some (elems (nc_Topics c)) else gs_Topics g)
      in c\<lparr>nc_GossipSub := g\<lparr>gs_Topics := topics, gs_Params := p'\<rparr>,
           nc_Libp2p := (nc_Libp2p c)\<lparr>lc_ConnectionLimit :=
             promote_int (nc_ConnectLimit c) (lc_ConnectionLimit (nc_Libp2p c))\<rparr>\<rparr>)"

section \<open>Merge\<close>

definition overlay_topic_mode :: "gossipsub_config \<Rightarrow> gossipsub_config" where
  "overlay_topic_mode g =
     (if gs_TopicMode g = [] then
        (case gs_Subscribe g of None \<Rightarrow> g
         | Some b \<Rightarrow> g\<lparr>gs_TopicMode := (if b then ''subscribe'' else ''publish'')\<rparr>)
      else g)"

text \<open>What an overlay resets in the base before the fields are copied.\<close>

definition reset_kademlia :: "kademlia_config \<Rightarrow> kademlia_config \<Rightarrow> kademlia_config" where
  "reset_kademlia b v =
     (let b1 = (if kd_ProtocolID v \<noteq> [] \<and> kd_ProtocolPrefix v = []
                then b\<lparr>kd_ProtocolPrefix := [],
                       kd_ProtocolExtension := (if kd_ProtocolExtension v = [] then []
                                                else kd_ProtocolExtension b)\<rparr>
                else b);
          b2 = (if kd_ProtocolPrefix v \<noteq> [] \<and> kd_ProtocolID v = [] then b1\<lparr>kd_ProtocolID := []\<rparr> else b1)
      in if (kd_BootstrapSource v = ''none'' \<or> kd_BootstrapSource v = ''controller'') \<and> kd_BootstrapPeers v = None
         then b2\<lparr>kd_BootstrapPeers := None\<rparr> else b2)"

definition reset_network :: "network_config \<Rightarrow> network_config \<Rightarrow> network_config" where
  "reset_network b v = b\<lparr>
     nw_DelayDistribution := (if nw_Delay v \<noteq> [] \<and> nw_DelayDistribution v = None then None
                              else nw_DelayDistribution b),
     nw_Delay := (if nw_DelayDistribution v \<noteq> None \<and> nw_Delay v = [] then [] else nw_Delay b),
     nw_RateMbps := (if nw_TBF v \<noteq> None \<and> nw_RateMbps v = None then None else nw_RateMbps b),
     nw_TBF := (if nw_RateMbps v \<noteq> None \<and> nw_TBF v = None then None else nw_TBF b)\<rparr>"

definition node_Merge :: "node_config \<Rightarrow> node_config \<Rightarrow> node_config" where
  "node_Merge c overlay0 =
     (let overlay1 = promoteLegacy overlay0;
          overlay = overlay1\<lparr>nc_GossipSub := overlay_topic_mode (nc_GossipSub overlay1)\<rparr>;
          base = c\<lparr>nc_Kademlia := reset_kademlia (nc_Kademlia c) (nc_Kademlia overlay),
                   nc_Network := reset_network (nc_Network c) (nc_Network overlay)\<rparr>
      in mergeNonZero base overlay)"

section \<open>WithDefaults\<close>

definition gossipsub_defaults :: "gossipsub_config \<Rightarrow> gossipsub_config" where
  "gossipsub_defaults g =
     (let mode = (if gs_TopicMode g = []
                  then (if gs_Subscribe g = Some False then ''publish'' else ''subscribe'')
                  else gs_TopicMode g);
          score = map_option score_WithDefaults (gs_Score g)
      in g\<lparr>gs_Enabled := over (Some True) (gs_Enabled g),
           gs_Router := over_string ''gossipsub'' (gs_Router g),
           gs_TopicMode := mode,
           gs_Subscribe := Some (mode = ''subscribe''),
           gs_AllowPublish := over (Some True) (gs_AllowPublish g),
           gs_Score := score,
           gs_ScoreInspectInterval :=
             (if set_and score_IsEnabled score \<and> gs_ScoreInspectInterval g = [] then ''1s''
              else gs_ScoreInspectInterval g),
           gs_Topics := (if elems (gs_Topics g) = [] then Some [''kpl/default''] else gs_Topics g)\<rparr>)"

definition kademlia_defaults :: "kademlia_config \<Rightarrow> kademlia_config" where
  "kademlia_defaults k = k\<lparr>
     kd_Enabled := over (Some True) (kd_Enabled k),
     kd_Mode := over_string ''server'' (kd_Mode k),
     kd_ProtocolPrefix := (if kd_ProtocolPrefix k = [] \<and> kd_ProtocolID k = [] then ''/k-p2p-lab/v3''
                           else kd_ProtocolPrefix k),
     kd_BucketSize := over (Some 20) (kd_BucketSize k),
     kd_BootstrapTimeout := over_string ''60s'' (kd_BootstrapTimeout k),
     kd_BootstrapRetryInterval := over_string ''1s'' (kd_BootstrapRetryInterval k)\<rparr>"

definition params_defaults :: "gossip_params \<Rightarrow> gossip_params" where
  "params_defaults p = p\<lparr>
     gp_D := over (Some 6) (gp_D p),
     gp_DLow := over (Some 5) (gp_DLow p),
     gp_DHigh := over (Some 12) (gp_DHigh p),
     gp_DScore := over (Some 4) (gp_DScore p),
     gp_DOut := over (Some 2) (gp_DOut p),
     gp_DLazy := over (Some 6) (gp_DLazy p),
     gp_HistoryLength := over (Some 5) (gp_HistoryLength p),
     gp_HistoryGossip := over (Some 3) (gp_HistoryGossip p),
     gp_GossipFactor := over (Some (float_round 0.25)) (gp_GossipFactor p),
     gp_GossipRetransmission := over (Some 3) (gp_GossipRetransmission p),
     gp_HeartbeatInitialDelay := over_string ''100ms'' (gp_HeartbeatInitialDelay p),
     gp_HeartbeatInterval := over_string ''1s'' (gp_HeartbeatInterval p),
     gp_SlowHeartbeatWarning := over (Some (float_round 0.1)) (gp_SlowHeartbeatWarning p),
     gp_FanoutTTL := over_string ''1m'' (gp_FanoutTTL p),
     gp_PrunePeers := over (Some 16) (gp_PrunePeers p),
     gp_PruneBackoff := over_string ''1m'' (gp_PruneBackoff p),
     gp_UnsubscribeBackoff := over_string ''10s'' (gp_UnsubscribeBackoff p),
     gp_Connectors := over (Some 8) (gp_Connectors p),
     gp_MaxPendingConnections := over (Some 128) (gp_MaxPendingConnections p),
     gp_ConnectionTimeout := over_string ''30s'' (gp_ConnectionTimeout p),
     gp_DirectConnectTicks := over (Some 300) (gp_DirectConnectTicks p),
     gp_DirectConnectInitialDelay := over_string ''1s'' (gp_DirectConnectInitialDelay p),
     gp_OpportunisticGraftTicks := over (Some 60) (gp_OpportunisticGraftTicks p),
     gp_OpportunisticGraftPeers := over (Some 2) (gp_OpportunisticGraftPeers p),
     gp_GraftFloodThreshold := over_string ''10s'' (gp_GraftFloodThreshold p),
     gp_MaxIHaveLength := over (Some 5000) (gp_MaxIHaveLength p),
     gp_MaxIHaveMessages := over (Some 10) (gp_MaxIHaveMessages p),
     gp_MaxIDontWantLength := over (Some 10) (gp_MaxIDontWantLength p),
     gp_MaxIDontWantMessages := over (Some 1000) (gp_MaxIDontWantMessages p),
     gp_IWantFollowupTime := over_string ''3s'' (gp_IWantFollowupTime p),
     gp_IDontWantMessageThreshold := over (Some 1024) (gp_IDontWantMessageThreshold p),
     gp_IDontWantMessageTTL := over (Some 3) (gp_IDontWantMessageTTL p)\<rparr>"

text \<open>The flat fields mirror the nested ones; \<open>params_defaults\<close> has set every pointer read here.\<close>

definition mirror_legacy :: "node_config \<Rightarrow> node_config" where
  "mirror_legacy c =
     (let p = gs_Params (nc_GossipSub c)
      in c\<lparr>nc_Topics := (if elems (gs_Topics (nc_GossipSub c)) = [] then None
                         else Some (elems (gs_Topics (nc_GossipSub c)))),
           nc_D := the (gp_D p), nc_DLow := the (gp_DLow p), nc_DHigh := the (gp_DHigh p),
           nc_DOut := the (gp_DOut p), nc_DLazy := the (gp_DLazy p),
           nc_Heartbeat := gp_HeartbeatInterval p,
           nc_ConnectLimit := (case lc_ConnectionLimit (nc_Libp2p c) of None \<Rightarrow> nc_ConnectLimit c
                               | Some n \<Rightarrow> n)\<rparr>)"

definition node_WithDefaults :: "node_config \<Rightarrow> node_config" where
  "node_WithDefaults c0 =
     (let c = promoteLegacy c0;
          g = gossipsub_defaults (nc_GossipSub c)
      in mirror_legacy (c\<lparr>nc_Type := over_string ''full'' (nc_Type c),
           nc_GossipSub := g\<lparr>gs_Params := params_defaults (gs_Params g)\<rparr>,
           nc_Kademlia := kademlia_defaults (nc_Kademlia c)\<rparr>))"

section \<open>Presets\<close>

definition applyV2WorkerGossipDefaults :: "gossipsub_config \<Rightarrow> gossipsub_config" where
  "applyV2WorkerGossipDefaults g = g\<lparr>gs_Params := (gs_Params g)\<lparr>gp_DLow := Some 5, gp_DScore := Some 3,
     gp_MaxIHaveLength := Some 5500, gp_HeartbeatInitialDelay := ''1s''\<rparr>\<rparr>"

text \<open>A preset: the type, the DHT settings, the connection limit and the changes to the PubSub block.\<close>

definition preset :: "gostring \<Rightarrow> kademlia_config \<Rightarrow> int option \<Rightarrow> gossipsub_config \<Rightarrow> node_config" where
  "preset type kademlia limit gossip = empty_node\<lparr>nc_Type := type, nc_Kademlia := kademlia,
     nc_Libp2p := empty_libp2p\<lparr>lc_ConnectionLimit := limit\<rparr>, nc_GossipSub := gossip\<rparr>"

definition preset_config :: "gostring \<Rightarrow> node_config option" where
  "preset_config kind =
     (let server = empty_kademlia\<lparr>kd_Mode := ''server''\<rparr>; client = empty_kademlia\<lparr>kd_Mode := ''client''\<rparr>;
          off = empty_gossipsub\<lparr>gs_Enabled := Some False\<rparr>;
          worker = applyV2WorkerGossipDefaults empty_gossipsub
      in if kind = ''boot'' then
           Some (preset kind server None (off\<lparr>gs_Params := empty_params\<lparr>gp_DScore := Some 3\<rparr>\<rparr>))
         else if kind = ''full'' \<or> kind = ''worker'' then Some (preset ''full'' server (Some 55) worker)
         else if kind = ''light'' then Some (preset kind client (Some 32) worker)
         else if kind = ''publisher'' then
           Some (preset kind client (Some 55) (worker\<lparr>gs_Subscribe := Some False, gs_TopicMode := ''publish''\<rparr>))
         else if kind = ''subscriber'' \<or> kind = ''observer'' then
           Some (preset kind client (Some 55) (worker\<lparr>gs_AllowPublish := Some False\<rparr>))
         else if kind = ''relay'' then
           Some (preset kind client (Some 55) (worker\<lparr>gs_TopicMode := ''relay'', gs_AllowPublish := Some False\<rparr>))
         else if kind = ''flood'' then
           Some (preset kind client (Some 55) (empty_gossipsub\<lparr>gs_Router := ''floodsub''\<rparr>))
         else if kind = ''random'' then
           Some (preset kind client (Some 55) (empty_gossipsub\<lparr>gs_Router := ''randomsub'',
             gs_RandomDegree := Some 6, gs_RandomNetworkSize := Some 100\<rparr>))
         else if kind = ''dht-only'' then Some (preset kind server (Some 55) off)
         else if kind = ''gossip-only'' then
           Some (preset kind (empty_kademlia\<lparr>kd_Enabled := Some False\<rparr>) (Some 55) worker)
         else if kind = ''non-gossip'' \<or> kind = ''mesh-only'' then
           Some (preset kind server (Some 55) (worker\<lparr>gs_Params := (gs_Params worker)\<lparr>
             gp_HistoryGossip := Some 0, gp_GossipFactor := Some (Fin 0)\<rparr>\<rparr>))
         else None)"

definition BuiltInNodeConfig :: "gostring \<Rightarrow> node_config option" where
  "BuiltInNodeConfig kind = map_option node_WithDefaults (preset_config (ToLower (TrimSpace kind)))"

section \<open>Validate\<close>

datatype node_error = NetworkBad network_error | ConfigBad config_error

text \<open>The shared scalar settings of an enabled DHT.\<close>

definition kademliaNodeError :: "'k pubsub_env \<Rightarrow> kademlia_config \<Rightarrow> config_error option" where
  "kademliaNodeError env k =
     (if kd_Enabled k \<noteq> Some True then None
      else first_error
        [at_error ''kademlia'' (Kademlia_Validate (pe_AddrInfo env) k),
         guard (kd_ProtocolID k \<noteq> [] \<and> kd_ProtocolPrefix k \<noteq> []) (Bad ''protocolPrefix''),
         guard (kd_ProtocolID k \<noteq> [] \<and> kd_ProtocolExtension k \<noteq> []) (Bad ''protocolExtension''),
         guard (kd_Mode k \<notin> {''auto'', ''auto-server'', ''client'', ''server''}) (BadItem ''kademlia mode'' (kd_Mode k)),
         not_positive (''bucketSize'', kd_BucketSize k),
         not_positive (''concurrency'', kd_Concurrency k),
         negative (''resiliency'', kd_Resiliency k),
         not_positive (''lookupCheckConcurrency'', kd_LookupCheckConcurrency k),
         not_positive (''optimisticProvideJobsPoolSize'', kd_OptimisticProvideJobsPoolSize k)])"

text \<open>Routing discovery needs the DHT's providers.\<close>

definition discoveryError :: "kademlia_config \<Rightarrow> pubsub_discovery option \<Rightarrow> config_error option" where
  "discoveryError k d =
     guard (set_and (\<lambda>x. pd_Mode x = ''routing'') d
            \<and> (kd_Enabled k \<noteq> Some True \<or> set_and (\<lambda>b. b) (kd_DisableProviders k)
               \<or> set_and (\<lambda>s. ks_Mode s = ''null'') (kd_ProviderStore k)))
       (Bad ''routing discovery'')"

text \<open>The router's parameters, whose pointers the defaults have set.\<close>

definition paramsError :: "gossip_params \<Rightarrow> config_error option" where
  "paramsError p =
     (let D = the (gp_D p); DLow = the (gp_DLow p); DHigh = the (gp_DHigh p); DScore = the (gp_DScore p);
          DOut = the (gp_DOut p); DLazy = the (gp_DLazy p); len = the (gp_HistoryLength p);
          gossip = the (gp_HistoryGossip p); factor = the (gp_GossipFactor p);
          warning = the (gp_SlowHeartbeatWarning p)
      in first_error
        ([guard (D < DLow \<or> DHigh < D) (Bad ''degree''),
          guard (D \<le> 0 \<or> DLow < 0 \<or> DHigh \<le> 0 \<or> DScore < 0 \<or> D < DScore \<or> DLazy < 0) (Bad ''degrees''),
          guard (DOut < 0 \<or> DLow \<le> DOut \<or> D div 2 < DOut) (Bad ''dOut''),
          guard (len \<le> 0 \<or> gossip < 0 \<or> len < gossip) (Bad ''history''),
          guard (the (gp_DirectConnectTicks p) = 0 \<or> the (gp_OpportunisticGraftTicks p) = 0) (Bad ''ticks''),
          guard (\<not> validNumber factor \<or> float_less factor (Fin 0) \<or> float_less (Fin 1) factor) (Bad ''gossipFactor''),
          guard (\<not> validNumber warning \<or> float_less warning (Fin 0)) (Bad ''slowHeartbeatWarning'')]
         @ map (\<lambda>(name, v). guard (the v < 0) (Bad name))
            [(''gossipRetransmission'', gp_GossipRetransmission p), (''prunePeers'', gp_PrunePeers p),
             (''connectors'', gp_Connectors p), (''maxPendingConnections'', gp_MaxPendingConnections p),
             (''opportunisticGraftPeers'', gp_OpportunisticGraftPeers p), (''maxIHaveLength'', gp_MaxIHaveLength p),
             (''maxIHaveMessages'', gp_MaxIHaveMessages p), (''maxIDontWantLength'', gp_MaxIDontWantLength p),
             (''maxIDontWantMessages'', gp_MaxIDontWantMessages p),
             (''iDontWantMessageThreshold'', gp_IDontWantMessageThreshold p),
             (''iDontWantMessageTTL'', gp_IDontWantMessageTTL p)]))"

definition score_on :: "gossipsub_config \<Rightarrow> bool" where
  "score_on g \<longleftrightarrow> set_and score_IsEnabled (gs_Score g)"

definition pubsubNodeError :: "'k pubsub_env \<Rightarrow> kademlia_config \<Rightarrow> gossipsub_config \<Rightarrow> config_error option" where
  "pubsubNodeError env k g =
     (if gs_Enabled g \<noteq> Some True then None
      else first_error
        ([at_error ''gossipsub'' (ValidateExtended env g),
          discoveryError k (gs_Discovery g)]
         @ (if score_on g
            then map (\<lambda>(topic, _). guard (\<not> pubsubContains (elems (gs_Topics g)) topic) (BadItem ''score topic'' topic))
                   (case gs_Score g of None \<Rightarrow> [] | Some s \<Rightarrow> elems (sc_Topics s))
            else [])
         @ [guard (elems (gs_Topics g) = []) (Bad ''topics''),
            guard (gs_Router g \<notin> {''gossipsub'', ''floodsub'', ''randomsub''}) (BadItem ''router'' (gs_Router g)),
            guard (gs_TopicMode g \<notin> {''subscribe'', ''relay'', ''publish''}) (BadItem ''topicMode'' (gs_TopicMode g))]
         @ (if gs_Router g = ''randomsub''
            then map (\<lambda>(name, v). guard (\<not> set_and (\<lambda>n. 0 < n) v) (Bad name))
                   [(''randomDegree'', gs_RandomDegree g), (''randomNetworkSize'', gs_RandomNetworkSize g)]
            else [])
         @ (if gs_Router g \<noteq> ''gossipsub''
            then [guard (score_on g) (Bad ''score router''),
                  guard (gs_FloodPublish g \<noteq> None \<or> gs_PeerExchange g \<noteq> None) (Bad ''floodPublish'')]
            else [])
         @ map not_positive
            [(''peerOutboundQueueSize'', gs_PeerOutboundQueueSize g), (''validateQueueSize'', gs_ValidateQueueSize g),
             (''validateWorkers'', gs_ValidateWorkers g)]
         @ map negative
            [(''maxMessageSize'', gs_MaxMessageSize g), (''subscriptionBufferSize'', gs_SubscriptionBufferSize g),
             (''validateThrottle'', gs_ValidateThrottle g)]
         @ (if gs_Router g = ''gossipsub'' then [paramsError (gs_Params g)] else [])
         @ [guard (gs_SignaturePolicy g \<notin> {[], ''strict-sign'', ''strict-no-sign'', ''lax-sign'', ''lax-no-sign''})
              (BadItem ''signaturePolicy'' (gs_SignaturePolicy g)),
            opt_error (\<lambda>s. at_error ''score'' (score_validate (pe_DecodePeer env) s)) (gs_Score g)]))"

text \<open>The durations, with whether zero is refused; the map literals are listed in source order.\<close>

definition node_durations :: "node_config \<Rightarrow> (gostring \<times> gostring \<times> bool) list" where
  "node_durations c =
     (let k = nc_Kademlia c; g = nc_GossipSub c; p = gs_Params g
      in [(''libp2p.dialTimeout'', lc_DialTimeout (nc_Libp2p c), True),
          (''kademlia.routingTableLatencyTolerance'', kd_RoutingTableLatencyTolerance k, False),
          (''kademlia.routingTableRefreshPeriod'', kd_RoutingTableRefreshPeriod k, True),
          (''kademlia.routingTableRefreshTimeout'', kd_RoutingTableRefreshTimeout k, True),
          (''kademlia.maxRecordAge'', kd_MaxRecordAge k, False),
          (''kademlia.bootstrapTimeout'', kd_BootstrapTimeout k, True),
          (''kademlia.bootstrapRetryInterval'', kd_BootstrapRetryInterval k, True),
          (''gossipsub.seenMessagesTTL'', gs_SeenMessagesTTL g, False),
          (''gossipsub.scoreInspectInterval'', gs_ScoreInspectInterval g, False)]
         @ (if gs_Enabled g = Some True \<and> gs_Router g = ''gossipsub'' then
              [(''gossipsub.heartbeatInitialDelay'', gp_HeartbeatInitialDelay p, False),
               (''gossipsub.heartbeatInterval'', gp_HeartbeatInterval p, True),
               (''gossipsub.fanoutTTL'', gp_FanoutTTL p, False),
               (''gossipsub.pruneBackoff'', gp_PruneBackoff p, False),
               (''gossipsub.unsubscribeBackoff'', gp_UnsubscribeBackoff p, False),
               (''gossipsub.connectionTimeout'', gp_ConnectionTimeout p, False),
               (''gossipsub.directConnectInitialDelay'', gp_DirectConnectInitialDelay p, False),
               (''gossipsub.graftFloodThreshold'', gp_GraftFloodThreshold p, False),
               (''gossipsub.iWantFollowupTime'', gp_IWantFollowupTime p, False)]
            else []))"

definition nodeDurationError :: "gostring \<times> gostring \<times> bool \<Rightarrow> config_error option" where
  "nodeDurationError = (\<lambda>(name, value, strict). pubsubDuration name value strict)"

definition connectionManagerError :: "connection_manager \<Rightarrow> config_error option" where
  "connectionManagerError m = first_error
     [guard (cm_LowWater m < 0 \<or> cm_HighWater m \<le> 0 \<or> cm_HighWater m < cm_LowWater m) (Bad ''connectionManager''),
      pubsubDuration ''connectionManager.gracePeriod'' (cm_GracePeriod m) False]"

definition Node_Validate :: "'k pubsub_env \<Rightarrow> node_config \<Rightarrow> node_error option" where
  "Node_Validate env c0 =
     (let c = node_WithDefaults c0
      in case Network_Validate (nc_Network c) of Some e \<Rightarrow> Some (NetworkBad e)
         | None \<Rightarrow> map_option ConfigBad (first_error
             ([guard (nc_Type c = []) (Bad ''type''),
               negative (''connectionLimit'', lc_ConnectionLimit (nc_Libp2p c)),
               kademliaNodeError env (nc_Kademlia c),
               pubsubNodeError env (nc_Kademlia c) (nc_GossipSub c)]
              @ map nodeDurationError (node_durations c)
              @ [opt_error connectionManagerError (lc_ConnectionManager (nc_Libp2p c))])))"

definition PublishAllowed :: "node_config \<Rightarrow> bool" where
  "PublishAllowed c0 \<longleftrightarrow>
     (let g = nc_GossipSub (node_WithDefaults c0)
      in gs_Enabled g = Some True \<and> gs_AllowPublish g = Some True)"

end
