(* ===== verification/NodeProperties.thy ===== *)
theory NodeProperties
  imports NodeConfig
begin

text \<open>Properties of node configurations: defaults, overlays, presets and what validation guarantees.\<close>

section \<open>Defaults\<close>

lemma over_default [simp]:
  "over a (over a y) = over a y" "over_string s (over_string s w) = over_string s w"
  by (simp_all add: over_def over_string_def split: option.split)

lemma over_Some [simp]: "over (Some a) y \<noteq> None" "over (Some a) y = Some b \<longleftrightarrow> y = Some b \<or> y = None \<and> a = b"
  by (auto simp: over_def split: option.split)

lemma over_string_nonempty [simp]: "over_string (x # s) w \<noteq> []"
  by (simp add: over_string_def)

lemma promote_int_set [simp]: "promote_int n (Some v) = Some v" "promote_int 0 p = p"
  by (simp_all add: promote_int_def)

lemma promote_int_over [simp]: "promote_int n (over (Some a) y) = over (Some a) y"
  by (simp add: promote_int_def)

lemma params_defaults_idem: "params_defaults (params_defaults p) = params_defaults p"
  by (simp add: params_defaults_def)

lemma kademlia_defaults_idem: "kademlia_defaults (kademlia_defaults k) = kademlia_defaults k"
  by (simp add: kademlia_defaults_def)

lemma topic_defaults_idem: "topic_defaults b (topic_defaults b t) = topic_defaults b t"
  by (simp add: topic_defaults_def)

lemma score_defaults_enabled [simp]: "score_IsEnabled (score_WithDefaults s) = score_IsEnabled s"
  by (simp add: score_WithDefaults_def score_IsEnabled_def Let_def)

lemma map_vals_twice: "map_vals (\<lambda>_. f) (map_vals (\<lambda>_. f) m) = map_vals (\<lambda>_. \<lambda>x. f (f x)) m"
  by (simp add: map_vals_def case_prod_beta)

lemma score_defaults_idem: "score_WithDefaults (score_WithDefaults s) = score_WithDefaults s"
  by (simp add: score_WithDefaults_def score_IsEnabled_def Let_def option.map_comp o_def map_vals_twice
      topic_defaults_idem)

lemma gossipsub_defaults_idem:
  "gossipsub_defaults ((gossipsub_defaults g)\<lparr>gs_Params := p\<rparr>) = (gossipsub_defaults g)\<lparr>gs_Params := p\<rparr>"
  by (simp add: gossipsub_defaults_def Let_def option.map_comp o_def score_defaults_idem split: option.split)

lemma gossipsub_defaults_topics: "elems (gs_Topics (gossipsub_defaults g)) \<noteq> []"
  by (simp add: gossipsub_defaults_def Let_def)

lemma params_defaults_set:
  "gp_D (params_defaults p) \<noteq> None" "gp_DLow (params_defaults p) \<noteq> None"
  "gp_DHigh (params_defaults p) \<noteq> None" "gp_DOut (params_defaults p) \<noteq> None"
  "gp_DLazy (params_defaults p) \<noteq> None" "gp_HeartbeatInterval (params_defaults p) \<noteq> []"
  by (simp_all add: params_defaults_def)

lemma promote_int_kept: "p \<noteq> None \<Longrightarrow> promote_int n p = p"
  by (simp add: promote_int_def)

text \<open>Promotion changes nothing once the nested settings are there.\<close>

lemma promoteLegacy_kept:
  assumes "elems (gs_Topics (nc_GossipSub c)) \<noteq> []"
    and "gs_Params (nc_GossipSub c) = params_defaults p"
    and "lc_ConnectionLimit (nc_Libp2p c) = None \<longrightarrow> nc_ConnectLimit c = 0"
  shows "promoteLegacy c = c"
proof -
  have "promote_int (nc_ConnectLimit c) (lc_ConnectionLimit (nc_Libp2p c)) = lc_ConnectionLimit (nc_Libp2p c)"
    using assms(3) by (cases "lc_ConnectionLimit (nc_Libp2p c)") simp_all
  then show ?thesis
    using assms(1,2) params_defaults_set [of p]
    by (simp add: promoteLegacy_def Let_def promote_int_kept)
qed

lemma mirror_legacy_frame [simp]:
  "nc_GossipSub (mirror_legacy c) = nc_GossipSub c" "nc_Libp2p (mirror_legacy c) = nc_Libp2p c"
  "nc_Kademlia (mirror_legacy c) = nc_Kademlia c" "nc_Network (mirror_legacy c) = nc_Network c"
  "nc_Type (mirror_legacy c) = nc_Type c"
  "nc_ConnectLimit (mirror_legacy c) =
     (case lc_ConnectionLimit (nc_Libp2p c) of None \<Rightarrow> nc_ConnectLimit c | Some n \<Rightarrow> n)"
  by (simp_all add: mirror_legacy_def Let_def)

lemma mirror_legacy_idem: "mirror_legacy (mirror_legacy c) = mirror_legacy c"
  by (simp add: mirror_legacy_def Let_def split: option.split)

lemma node_defaults_parts:
  "nc_GossipSub (node_WithDefaults c) =
     (gossipsub_defaults (nc_GossipSub (promoteLegacy c)))\<lparr>gs_Params :=
        params_defaults (gs_Params (gossipsub_defaults (nc_GossipSub (promoteLegacy c))))\<rparr>"
  "nc_Kademlia (node_WithDefaults c) = kademlia_defaults (nc_Kademlia c)"
  "nc_Network (node_WithDefaults c) = nc_Network c"
  "nc_Type (node_WithDefaults c) = over_string ''full'' (nc_Type c)"
  "nc_Libp2p (node_WithDefaults c) = nc_Libp2p (promoteLegacy c)"
  by (simp_all add: node_WithDefaults_def Let_def) (simp_all add: promoteLegacy_def Let_def)

lemma node_defaults_limit:
  "lc_ConnectionLimit (nc_Libp2p (node_WithDefaults c)) = None \<longrightarrow> nc_ConnectLimit (node_WithDefaults c) = 0"
  by (cases "lc_ConnectionLimit (nc_Libp2p c)")
     (simp_all add: node_WithDefaults_def Let_def promoteLegacy_def promote_int_def)

lemma node_defaults_promoted: "promoteLegacy (node_WithDefaults c) = node_WithDefaults c"
proof (rule promoteLegacy_kept)
  show "elems (gs_Topics (nc_GossipSub (node_WithDefaults c))) \<noteq> []"
    using gossipsub_defaults_topics by (simp add: node_defaults_parts)
  show "gs_Params (nc_GossipSub (node_WithDefaults c)) =
      params_defaults (gs_Params (gossipsub_defaults (nc_GossipSub (promoteLegacy c))))"
    by (simp add: node_defaults_parts)
  show "lc_ConnectionLimit (nc_Libp2p (node_WithDefaults c)) = None \<longrightarrow> nc_ConnectLimit (node_WithDefaults c) = 0"
    by (rule node_defaults_limit)
qed

lemma defaults_idem: "node_WithDefaults (node_WithDefaults c) = node_WithDefaults c"
proof -
  let ?c = "node_WithDefaults c"
  let ?g = "gossipsub_defaults (nc_GossipSub (promoteLegacy c))"
  have g: "nc_GossipSub ?c = ?g\<lparr>gs_Params := params_defaults (gs_Params ?g)\<rparr>" by (simp add: node_defaults_parts)
  have gg: "gossipsub_defaults (nc_GossipSub ?c) = nc_GossipSub ?c"
    unfolding g by (rule gossipsub_defaults_idem)
  have pp: "params_defaults (gs_Params (nc_GossipSub ?c)) = gs_Params (nc_GossipSub ?c)"
    by (simp add: g params_defaults_idem)
  have kk: "kademlia_defaults (nc_Kademlia ?c) = nc_Kademlia ?c"
    by (simp add: node_defaults_parts kademlia_defaults_idem)
  have tt: "over_string ''full'' (nc_Type ?c) = nc_Type ?c" by (simp add: node_defaults_parts)
  have "node_WithDefaults ?c = mirror_legacy (?c\<lparr>nc_Type := nc_Type ?c, nc_GossipSub := (nc_GossipSub ?c)
      \<lparr>gs_Params := gs_Params (nc_GossipSub ?c)\<rparr>, nc_Kademlia := nc_Kademlia ?c\<rparr>)"
    by (subst node_WithDefaults_def) (simp add: Let_def node_defaults_promoted gg pp kk tt)
  also have "\<dots> = mirror_legacy ?c" by simp
  also have "\<dots> = ?c"
    by (subst (1 2) node_WithDefaults_def) (simp only: Let_def mirror_legacy_idem)
  finally show ?thesis .
qed

text \<open>Applying the defaults is idempotent: a configuration that has its defaults is unchanged by
  applying them again, so the manifest a node reports can be fed back in.\<close>

theorem withDefaults_idempotent: "node_WithDefaults (node_WithDefaults c) = node_WithDefaults c"
  by (rule defaults_idem)

section \<open>Presets\<close>

definition valid_preset :: "'k pubsub_env \<Rightarrow> gostring \<Rightarrow> bool" where
  "valid_preset env kind \<longleftrightarrow> (case preset_config kind of None \<Rightarrow> False | Some c \<Rightarrow> Node_Validate env c = None)"

definition preset_kinds :: "gostring list" where
  "preset_kinds = [''boot'', ''full'', ''worker'', ''light'', ''publisher'', ''subscriber'', ''observer'', ''relay'',
     ''flood'', ''random'', ''dht-only'', ''gossip-only'', ''non-gossip'', ''mesh-only'']"

lemma presets_evaluated: "list_all (valid_preset env) preset_kinds"
  by code_simp

lemma preset_config_kinds: "preset_config kind \<noteq> None \<longleftrightarrow> kind \<in> set preset_kinds"
  by (auto simp: preset_config_def preset_kinds_def Let_def)

lemma validate_defaults: "Node_Validate env (node_WithDefaults c) = Node_Validate env c"
  by (simp add: Node_Validate_def defaults_idem)

text \<open>C10: The built-in presets are exactly the fourteen names (up to case and surrounding space), and
  every one of them is a valid configuration with its defaults already applied, whatever the
  libraries decide about keys, addresses and patterns.\<close>

theorem builtin_presets_valid:
  "case BuiltInNodeConfig kind of
     None \<Rightarrow> ToLower (TrimSpace kind) \<notin> set preset_kinds
   | Some c \<Rightarrow> ToLower (TrimSpace kind) \<in> set preset_kinds \<and> Node_Validate env c = None
       \<and> node_WithDefaults c = c"
proof (cases "preset_config (ToLower (TrimSpace kind))")
  case None
  then have "ToLower (TrimSpace kind) \<notin> set preset_kinds" using preset_config_kinds by blast
  with None show ?thesis by (simp add: BuiltInNodeConfig_def)
next
  case (Some c)
  then have k: "ToLower (TrimSpace kind) \<in> set preset_kinds" using preset_config_kinds by blast
  with presets_evaluated [of env] have "valid_preset env (ToLower (TrimSpace kind))" by (simp add: list_all_iff)
  with Some k show ?thesis
    by (simp add: BuiltInNodeConfig_def valid_preset_def validate_defaults defaults_idem)
qed

section \<open>Overlays\<close>

lemma merge_params_empty [simp]: "merge_params p empty_params = p"
  by (simp add: merge_params_def empty_params_def)

lemma merge_gossipsub_empty [simp]: "merge_gossipsub g empty_gossipsub = g"
  by (simp add: merge_gossipsub_def empty_gossipsub_def)

lemma merge_kademlia_empty [simp]: "merge_kademlia k empty_kademlia = k"
  by (simp add: merge_kademlia_def empty_kademlia_def)

lemma merge_libp2p_empty [simp]: "merge_libp2p l empty_libp2p = l"
  by (simp add: merge_libp2p_def empty_libp2p_def)

lemma merge_network_empty [simp]: "merge_network n empty_network = n"
  by (simp add: merge_network_def empty_network_def)

lemma merge_params_again [simp]: "merge_params (merge_params p v) v = merge_params p v"
  by (simp add: merge_params_def)

lemma merge_gossipsub_again [simp]: "merge_gossipsub (merge_gossipsub g v) v = merge_gossipsub g v"
  by (simp add: merge_gossipsub_def)

lemma merge_libp2p_again [simp]: "merge_libp2p (merge_libp2p l v) v = merge_libp2p l v"
  by (simp add: merge_libp2p_def)

lemma merge_kademlia_again [simp]:
  "merge_kademlia (reset_kademlia (merge_kademlia (reset_kademlia k v) v) v) v
     = merge_kademlia (reset_kademlia k v) v"
  by (cases "kd_ProtocolID v = []"; cases "kd_ProtocolPrefix v = []"; cases "kd_ProtocolExtension v = []";
      cases "kd_BootstrapPeers v")
     (simp_all add: merge_kademlia_def reset_kademlia_def Let_def)

lemma merge_network_again [simp]:
  "merge_network (reset_network (merge_network (reset_network n v) v) v) v
     = merge_network (reset_network n v) v"
  by (cases "nw_Delay v = []"; cases "nw_DelayDistribution v"; cases "nw_TBF v"; cases "nw_RateMbps v")
     (simp_all add: merge_network_def reset_network_def)

lemma promote_empty: "promoteLegacy empty_node = empty_node"
  by (simp add: promoteLegacy_def empty_node_def empty_gossipsub_def empty_params_def empty_libp2p_def Let_def)

lemma resets_empty [simp]: "reset_kademlia k empty_kademlia = k" "reset_network n empty_network = n"
  by (simp_all add: reset_kademlia_def empty_kademlia_def reset_network_def empty_network_def Let_def)

lemma overlay_empty [simp]: "overlay_topic_mode empty_gossipsub = empty_gossipsub"
  by (simp add: overlay_topic_mode_def empty_gossipsub_def)

text \<open>An overlay behaves as one: the empty overlay changes nothing, and applying the same overlay a
  second time changes nothing more, for every base and every overlay.\<close>

theorem merge_overlay_laws:
  "node_Merge c empty_node = c \<and> node_Merge (node_Merge c v) v = node_Merge c v"
proof
  show "node_Merge c empty_node = c"
    by (simp add: node_Merge_def promote_empty Let_def mergeNonZero_def)
       (simp add: empty_node_def)
  show "node_Merge (node_Merge c v) v = node_Merge c v"
    by (simp add: node_Merge_def Let_def mergeNonZero_def)
qed

end
