(* ===== verification/NodeValidation.thy ===== *)
theory NodeValidation
  imports NodeProperties
begin

text \<open>What a successful validation guarantees about the configuration a node runs with.\<close>

section \<open>Conflicting alternatives\<close>

text \<open>The alternatives an overlay switches between: at most one of each pair is configured.\<close>

definition exclusive_network :: "network_config \<Rightarrow> bool" where
  "exclusive_network n \<longleftrightarrow> (nw_Delay n = [] \<or> nw_DelayDistribution n = None)
     \<and> (nw_TBF n = None \<or> nw_RateMbps n = None)"

definition exclusive_protocol :: "kademlia_config \<Rightarrow> bool" where
  "exclusive_protocol k \<longleftrightarrow> kd_ProtocolID k = [] \<or> kd_ProtocolPrefix k = []"

lemma exclusive_network_merge:
  "exclusive_network n \<Longrightarrow> exclusive_network v \<Longrightarrow> exclusive_network (merge_network (reset_network n v) v)"
  by (cases "nw_DelayDistribution v"; cases "nw_TBF v"; cases "nw_RateMbps v"; cases "nw_Delay v")
     (auto simp: exclusive_network_def merge_network_def reset_network_def)

lemma exclusive_protocol_merge:
  "exclusive_protocol k \<Longrightarrow> exclusive_protocol v \<Longrightarrow> exclusive_protocol (merge_kademlia (reset_kademlia k v) v)"
  by (cases "kd_ProtocolID v"; cases "kd_ProtocolPrefix v")
     (auto simp: exclusive_protocol_def merge_kademlia_def reset_kademlia_def Let_def)

lemma promote_frame [simp]:
  "nc_Network (promoteLegacy c) = nc_Network c" "nc_Kademlia (promoteLegacy c) = nc_Kademlia c"
  by (simp_all add: promoteLegacy_def Let_def)

lemma node_Merge_parts:
  "nc_Network (node_Merge c v) = merge_network (reset_network (nc_Network c) (nc_Network v)) (nc_Network v)"
  "nc_Kademlia (node_Merge c v) = merge_kademlia (reset_kademlia (nc_Kademlia c) (nc_Kademlia v)) (nc_Kademlia v)"
  by (simp_all add: node_Merge_def mergeNonZero_def Let_def)

text \<open>C11: Switching between alternatives through an overlay never leaves both behind. If neither the base
  nor the overlay configures a delay together with a delay distribution, a rate together with a token
  bucket, or a protocol prefix together with a protocol ID, then neither does the result, and the
  alternative the overlay names is the one in force.\<close>

theorem merge_keeps_alternatives_exclusive:
  assumes "exclusive_network (nc_Network c)" "exclusive_network (nc_Network v)"
    and "exclusive_protocol (nc_Kademlia c)" "exclusive_protocol (nc_Kademlia v)"
  defines "r \<equiv> node_Merge c v"
  shows "exclusive_network (nc_Network r) \<and> exclusive_protocol (nc_Kademlia r)
    \<and> (nw_Delay (nc_Network v) \<noteq> [] \<longrightarrow> nw_Delay (nc_Network r) = nw_Delay (nc_Network v)
         \<and> nw_DelayDistribution (nc_Network r) = None)
    \<and> (nw_DelayDistribution (nc_Network v) \<noteq> None \<longrightarrow> nw_Delay (nc_Network r) = []
         \<and> nw_DelayDistribution (nc_Network r) = nw_DelayDistribution (nc_Network v))
    \<and> (nw_TBF (nc_Network v) \<noteq> None \<longrightarrow> nw_TBF (nc_Network r) = nw_TBF (nc_Network v)
         \<and> nw_RateMbps (nc_Network r) = None)
    \<and> (kd_ProtocolID (nc_Kademlia v) \<noteq> [] \<longrightarrow> kd_ProtocolID (nc_Kademlia r) = kd_ProtocolID (nc_Kademlia v)
         \<and> kd_ProtocolPrefix (nc_Kademlia r) = [])"
proof -
  let ?n = "nc_Network v" and ?k = "nc_Kademlia v"
  have "exclusive_network (nc_Network r)" "exclusive_protocol (nc_Kademlia r)"
    unfolding r_def node_Merge_parts
    by (rule exclusive_network_merge [OF assms(1,2)], rule exclusive_protocol_merge [OF assms(3,4)])
  moreover have "nw_Delay (nc_Network r) = nw_Delay ?n" if "nw_Delay ?n \<noteq> []"
    using that by (simp add: r_def node_Merge_parts merge_network_def over_string_def)
  moreover have "nw_DelayDistribution (nc_Network r) = nw_DelayDistribution ?n" if "nw_DelayDistribution ?n \<noteq> None"
    using that by (auto simp: r_def node_Merge_parts merge_network_def)
  moreover have "nw_TBF (nc_Network r) = nw_TBF ?n" if "nw_TBF ?n \<noteq> None"
    using that by (auto simp: r_def node_Merge_parts merge_network_def)
  moreover have "kd_ProtocolID (nc_Kademlia r) = kd_ProtocolID ?k" if "kd_ProtocolID ?k \<noteq> []"
    using that by (simp add: r_def node_Merge_parts merge_kademlia_def over_string_def)
  ultimately show ?thesis
    unfolding exclusive_network_def exclusive_protocol_def by (metis option.distinct(1))
qed

section \<open>Taking a validation apart\<close>

lemma first_error_Cons: "first_error (c # cs) = None \<longleftrightarrow> c = None \<and> first_error cs = None"
  by (cases c) auto

lemma first_error_map: "first_error (map f xs) = None \<longleftrightarrow> (\<forall>x \<in> set xs. f x = None)"
  by (simp add: first_error_None)

lemma Node_Validate_None:
  "Node_Validate env c0 = None \<longleftrightarrow>
     (let c = node_WithDefaults c0
      in Network_Validate (nc_Network c) = None
         \<and> nc_Type c \<noteq> [] \<and> negative (''connectionLimit'', lc_ConnectionLimit (nc_Libp2p c)) = None
         \<and> kademliaNodeError env (nc_Kademlia c) = None
         \<and> pubsubNodeError env (nc_Kademlia c) (nc_GossipSub c) = None
         \<and> (\<forall>d \<in> set (node_durations c). nodeDurationError d = None)
         \<and> opt_error connectionManagerError (lc_ConnectionManager (nc_Libp2p c)) = None)"
  by (auto simp: Node_Validate_def Let_def first_error_None split: option.split)

lemma pubsubNodeErrorD:
  assumes "pubsubNodeError env k g = None" and "gs_Enabled g = Some True"
  shows "ValidateExtended env g = None"
    and "discoveryError k (gs_Discovery g) = None"
    and "gs_Router g \<in> {''gossipsub'', ''floodsub'', ''randomsub''}"
    and "gs_TopicMode g \<in> {''subscribe'', ''relay'', ''publish''}"
    and "gs_Router g = ''gossipsub'' \<Longrightarrow> paramsError (gs_Params g) = None"
    and "score_on g \<Longrightarrow> gs_Score g = Some s \<Longrightarrow>
           first_error (map (\<lambda>(topic, _). guard (\<not> pubsubContains (elems (gs_Topics g)) topic)
             (BadItem ''score topic'' topic)) (elems (sc_Topics s))) = None"
  using assms
  by (simp_all only: pubsubNodeError_def first_error_append_None first_error_Cons guard_None at_error_None
      if_False if_True simp_thms option.case)

lemma validated_score_topic:
  assumes "pubsubNodeError env k g = None" and "gs_Enabled g = Some True"
    and "score_on g" "gs_Score g = Some s" "(topic, t) \<in> set (elems (sc_Topics s))"
  shows "topic \<in> set (elems (gs_Topics g))"
  using pubsubNodeErrorD(6) [OF assms(1-4)] assms(5)
  by (auto simp: first_error_map pubsubContains_def list_ex_iff)

lemma validated_pubsub:
  "Node_Validate env c = None \<Longrightarrow>
     pubsubNodeError env (nc_Kademlia (node_WithDefaults c)) (nc_GossipSub (node_WithDefaults c)) = None"
  by (simp add: Node_Validate_None Let_def)

lemma validated_params:
  assumes "paramsError p = None"
  shows "the (gp_DLow p) \<le> the (gp_D p)" "the (gp_D p) \<le> the (gp_DHigh p)"
    "0 \<le> the (gp_DScore p)" "the (gp_DScore p) \<le> the (gp_D p)"
    "0 \<le> the (gp_DOut p)" "the (gp_DOut p) < the (gp_DLow p)" "the (gp_DOut p) \<le> the (gp_D p) div 2"
    "0 \<le> the (gp_HistoryGossip p)" "the (gp_HistoryGossip p) \<le> the (gp_HistoryLength p)"
    "the (gp_DirectConnectTicks p) \<noteq> 0" "the (gp_OpportunisticGraftTicks p) \<noteq> 0"
    "validNumber (the (gp_GossipFactor p))" "\<not> float_less (the (gp_GossipFactor p)) (Fin 0)"
    "\<not> float_less (Fin 1) (the (gp_GossipFactor p))"
  using assms by (simp_all add: paramsError_def Let_def first_error_None not_less)

section \<open>What holds of an accepted configuration\<close>

lemma router_params:
  "\<exists>p'. gs_Params (nc_GossipSub (node_WithDefaults c)) = params_defaults p'"
  by (auto simp: node_defaults_parts)

lemma params_defaults_Some:
  "gp_D (params_defaults p) = Some (the (gp_D (params_defaults p)))"
  "gp_DLow (params_defaults p) = Some (the (gp_DLow (params_defaults p)))"
  "gp_DHigh (params_defaults p) = Some (the (gp_DHigh (params_defaults p)))"
  "gp_DScore (params_defaults p) = Some (the (gp_DScore (params_defaults p)))"
  "gp_DOut (params_defaults p) = Some (the (gp_DOut (params_defaults p)))"
  "gp_HistoryLength (params_defaults p) = Some (the (gp_HistoryLength (params_defaults p)))"
  "gp_HistoryGossip (params_defaults p) = Some (the (gp_HistoryGossip (params_defaults p)))"
  by (simp_all add: params_defaults_def over_def split: option.split)

lemma validated_heartbeat:
  assumes "Node_Validate env c0 = None"
    and "gs_Enabled (nc_GossipSub (node_WithDefaults c0)) = Some True"
    and "gs_Router (nc_GossipSub (node_WithDefaults c0)) = ''gossipsub''"
  shows "\<exists>d. ParseDuration (gp_HeartbeatInterval (gs_Params (nc_GossipSub (node_WithDefaults c0)))) = Some d \<and> 0 < d"
proof -
  let ?p = "gs_Params (nc_GossipSub (node_WithDefaults c0))"
  have "(''gossipsub.heartbeatInterval'', gp_HeartbeatInterval ?p, True) \<in> set (node_durations (node_WithDefaults c0))"
    using assms(2,3) by (simp add: node_durations_def Let_def)
  then have "pubsubDuration ''gossipsub.heartbeatInterval'' (gp_HeartbeatInterval ?p) True = None"
    using assms(1) by (fastforce simp: Node_Validate_None Let_def nodeDurationError_def)
  moreover have "gp_HeartbeatInterval ?p \<noteq> []"
    using params_defaults_set(6) router_params [of c0] by metis
  ultimately show ?thesis
    by (auto simp: pubsubDuration_def split: option.split_asm)
qed

text \<open>C12: An accepted configuration that runs the gossipsub router runs it with sound parameters: every
  degree is set, \<open>0 <= dOut < dLow <= d <= dHigh\<close>, \<open>2 * dOut <= d\<close>, \<open>0 <= dScore <= d\<close>, the gossip window
  lies within the history, the gossip factor is in [0, 1], and the heartbeat interval parses to a
  positive duration.\<close>

theorem validated_router_parameters:
  assumes "Node_Validate env c0 = None"
    and "gs_Enabled (nc_GossipSub (node_WithDefaults c0)) = Some True"
    and "gs_Router (nc_GossipSub (node_WithDefaults c0)) = ''gossipsub''"
  shows "\<exists>p D DLow DHigh DScore DOut window hist factor heartbeat.
      p = gs_Params (nc_GossipSub (node_WithDefaults c0))
    \<and> gp_D p = Some D \<and> gp_DLow p = Some DLow \<and> gp_DHigh p = Some DHigh \<and> gp_DScore p = Some DScore
    \<and> gp_DOut p = Some DOut \<and> 0 \<le> DOut \<and> DOut < DLow \<and> DLow \<le> D \<and> D \<le> DHigh \<and> 2 * DOut \<le> D
    \<and> 0 \<le> DScore \<and> DScore \<le> D
    \<and> gp_HistoryGossip p = Some window \<and> gp_HistoryLength p = Some hist \<and> 0 \<le> window \<and> window \<le> hist
    \<and> the (gp_GossipFactor p) = Fin factor \<and> 0 \<le> factor \<and> factor \<le> 1
    \<and> ParseDuration (gp_HeartbeatInterval p) = Some heartbeat \<and> 0 < heartbeat"
proof -
  let ?p = "gs_Params (nc_GossipSub (node_WithDefaults c0))"
  have v: "paramsError ?p = None"
    by (rule pubsubNodeErrorD(5) [OF validated_pubsub [OF assms(1)] assms(2,3)])
  obtain p' where p': "?p = params_defaults p'" using router_params by blast
  obtain d where d: "ParseDuration (gp_HeartbeatInterval ?p) = Some d" "0 < d"
    using validated_heartbeat [OF assms] by blast
  obtain f where f: "the (gp_GossipFactor ?p) = Fin f"
    using validated_params(12) [OF v] by (cases "the (gp_GossipFactor ?p)") (auto simp: validNumber_def IsNaN_def IsInf_def)
  have "2 * the (gp_DOut ?p) \<le> the (gp_D ?p)" using validated_params(7) [OF v] by presburger
  moreover have "0 \<le> f" "f \<le> 1" using validated_params(13,14) [OF v] f by simp_all
  ultimately show ?thesis
    using validated_params(1-9) [OF v] d f params_defaults_Some [of p', folded p'] by blast
qed

definition demo_env :: "unit pubsub_env" where
  "demo_env = \<lparr>pe_DecodePeer = Some, pe_AddrInfo = (\<lambda>_. None), pe_Compile = (\<lambda>p. Some (\<lambda>s. HasPrefix s p)),
     pe_UnmarshalKey = (\<lambda>_. None), pe_KeyPeer = (\<lambda>_. None)\<rparr>"

lemma demo_full_facts:
  "Node_Validate demo_env empty_node = None"
  "gs_Enabled (nc_GossipSub (node_WithDefaults empty_node)) = Some True"
  "gs_Router (nc_GossipSub (node_WithDefaults empty_node)) = ''gossipsub''"
  by code_simp+

theorem validated_router_parameters_witness:
  "\<exists>p D DLow. p = gs_Params (nc_GossipSub (node_WithDefaults empty_node))
     \<and> gp_D p = Some D \<and> gp_DLow p = Some DLow \<and> DLow \<le> D"
  using validated_router_parameters [OF demo_full_facts] by blast

lemma ValidateExtendedD:
  assumes "ValidateExtended env g = None"
  shows "validateMessageID (gs_MessageID g) = None"
    and "opt_error (subscriptionFilterError env (elems (gs_Topics g))) (gs_SubscriptionFilter g) = None"
    and "first_error (map (topicOptionError env g) (elems (gs_TopicOptions g))) = None"
    and "opt_error (authorError env g) (gs_Author g) = None"
  using assms by (simp_all only: ValidateExtended_def first_error_append_None first_error_Cons)

lemma option_joined:
  "ValidateExtended env g = None \<Longrightarrow> (topic, opts) \<in> set (elems (gs_TopicOptions g)) \<Longrightarrow>
     topic \<in> set (elems (gs_Topics g)) \<and> validateMessageID (pt_MessageID opts) = None"
  using ValidateExtendedD(3) [of env g]
  by (fastforce simp: first_error_map topicOptionError_def first_error_Cons pubsubContains_def list_ex_iff)

lemma filter_admits:
  assumes "ValidateExtended env g = None" and "gs_SubscriptionFilter g = Some f"
    and "topic \<in> set (elems (gs_Topics g))"
  shows "(sf_Allowlist f \<noteq> [] \<longrightarrow> topic \<in> set (sf_Allowlist f))
    \<and> (sf_Pattern f \<noteq> [] \<longrightarrow> (\<exists>matches. pe_Compile env (sf_Pattern f) = Some matches \<and> matches topic))"
proof -
  have e: "subscriptionFilterError env (elems (gs_Topics g)) f = None"
    using ValidateExtendedD(2) [OF assms(1)] assms(2) by simp
  then have "sf_Pattern f \<noteq> [] \<longrightarrow> pe_Compile env (sf_Pattern f) \<noteq> None"
    by (auto simp: subscriptionFilterError_def first_error_Cons)
  moreover have "\<forall>t \<in> set (elems (gs_Topics g)). first_error
      [guard (sf_Pattern f \<noteq> [] \<and> (case pe_Compile env (sf_Pattern f) of None \<Rightarrow> False | Some matches \<Rightarrow> \<not> matches t))
         (BadItem ''excludes'' t),
       guard (sf_Allowlist f \<noteq> [] \<and> \<not> pubsubContains (sf_Allowlist f) t) (BadItem ''excludes'' t)] = None"
    using e unfolding subscriptionFilterError_def first_error_append_None first_error_map by (rule conjunct2)
  ultimately show ?thesis
    using assms(3) by (auto simp: first_error_Cons pubsubContains_def list_ex_iff)
qed

lemma message_id_checked:
  assumes "ValidateExtended env g = None"
  shows "validateMessageID (topic_message_id g topic) = None"
proof (cases "map_of (elems (gs_TopicOptions g)) topic")
  case None
  then show ?thesis using ValidateExtendedD(1) [OF assms] by (simp add: topic_message_id_def)
next
  case (Some opts)
  then have "validateMessageID (pt_MessageID opts) = None"
    using option_joined [OF assms] map_of_SomeD by fastforce
  with Some show ?thesis using ValidateExtendedD(1) [OF assms] by (simp add: topic_message_id_def)
qed

lemma anonymous_topics:
  assumes "ValidateExtended env g = None" and "gs_Author g = Some a" and "pa_NoAuthor a"
    and "topic \<in> set (elems (gs_Topics g))"
  shows "unsigned_policy g \<and> topic_message_id g topic \<in> {''sha256'', ''topic-sha256''}"
proof -
  have "authorError env g a = None" using ValidateExtendedD(4) [OF assms(1)] assms(2) by simp
  then have "unsigned_policy g \<and> topic_message_id g topic \<notin> {[], ''default''}"
    using assms(3,4) by (simp add: authorError_def first_error_append_None first_error_Cons first_error_map)
  with message_id_checked [OF assms(1), of topic] show ?thesis by (auto simp: validateMessageID_def)
qed

lemma routing_needs_dht:
  "discoveryError k d = None \<Longrightarrow> set_and (\<lambda>x. pd_Mode x = ''routing'') d \<Longrightarrow>
     kd_Enabled k = Some True \<and> kd_DisableProviders k \<noteq> Some True"
  by (auto simp: discoveryError_def)

text \<open>C13: The parts of an accepted PubSub block agree with each other. Topic options and enabled topic
  scores only name joined topics; the subscription filter admits every joined topic; a node without an
  author runs under an unsigned policy and gives every topic a content-based message ID; and routing
  discovery has an enabled DHT with providers behind it.\<close>

theorem validated_pubsub_consistent:
  assumes "Node_Validate env c0 = None"
    and "gs_Enabled (nc_GossipSub (node_WithDefaults c0)) = Some True"
  defines "g \<equiv> nc_GossipSub (node_WithDefaults c0)" and "k \<equiv> nc_Kademlia (node_WithDefaults c0)"
  shows "(\<forall>(topic, opts) \<in> set (elems (gs_TopicOptions g)). topic \<in> set (elems (gs_Topics g)))
    \<and> (\<forall>s. gs_Score g = Some s \<and> score_IsEnabled s \<longrightarrow>
         (\<forall>(topic, t) \<in> set (elems (sc_Topics s)). topic \<in> set (elems (gs_Topics g))))
    \<and> (\<forall>f. gs_SubscriptionFilter g = Some f \<longrightarrow> (\<forall>topic \<in> set (elems (gs_Topics g)).
         (sf_Allowlist f \<noteq> [] \<longrightarrow> topic \<in> set (sf_Allowlist f))
         \<and> (sf_Pattern f \<noteq> [] \<longrightarrow> (\<exists>matches. pe_Compile env (sf_Pattern f) = Some matches \<and> matches topic))))
    \<and> (\<forall>a. gs_Author g = Some a \<and> pa_NoAuthor a \<longrightarrow> (\<forall>topic \<in> set (elems (gs_Topics g)).
         unsigned_policy g \<and> topic_message_id g topic \<in> {''sha256'', ''topic-sha256''}))
    \<and> (\<forall>d. gs_Discovery g = Some d \<and> pd_Mode d = ''routing'' \<longrightarrow>
         kd_Enabled k = Some True \<and> kd_DisableProviders k \<noteq> Some True)"
proof -
  have e: "pubsubNodeError env k g = None" and on: "gs_Enabled g = Some True"
    using validated_pubsub [OF assms(1)] assms(2) by (simp_all add: g_def k_def)
  note x = pubsubNodeErrorD [OF e on]
  have "topic \<in> set (elems (gs_Topics g))" if "gs_Score g = Some s" "score_IsEnabled s"
    "(topic, t) \<in> set (elems (sc_Topics s))" for s topic t
    by (rule validated_score_topic [OF e on]) (use that in \<open>auto simp: score_on_def\<close>)
  then show ?thesis
    using option_joined [OF x(1)] filter_admits [OF x(1)] anonymous_topics [OF x(1)]
      routing_needs_dht [OF x(2)] by fastforce
qed

definition demo_filtered :: node_config where
  "demo_filtered = empty_node\<lparr>nc_GossipSub := empty_gossipsub\<lparr>
     gs_Topics := Some [''kpl/a''], gs_SubscriptionFilter := Some \<lparr>sf_Allowlist = [],
       sf_Pattern = ''kpl/'', sf_MaxSubscriptions = None\<rparr>\<rparr>\<rparr>"

lemma demo_filtered_facts:
  "Node_Validate demo_env demo_filtered = None"
  "gs_Enabled (nc_GossipSub (node_WithDefaults demo_filtered)) = Some True"
  "gs_Topics (nc_GossipSub (node_WithDefaults demo_filtered)) = Some [''kpl/a'']"
  "gs_SubscriptionFilter (nc_GossipSub (node_WithDefaults demo_filtered)) = Some \<lparr>sf_Allowlist = [],
       sf_Pattern = ''kpl/'', sf_MaxSubscriptions = None\<rparr>"
  by code_simp+

theorem validated_pubsub_consistent_witness:
  "\<exists>matches. pe_Compile demo_env ''kpl/'' = Some matches \<and> matches ''kpl/a''"
  using validated_pubsub_consistent [OF demo_filtered_facts(1,2)] demo_filtered_facts(3,4) by simp

theorem merge_keeps_alternatives_exclusive_witness:
  "nw_Delay (nc_Network (node_Merge (empty_node\<lparr>nc_Network := demo_network\<rparr>)
     (empty_node\<lparr>nc_Network := empty_network\<lparr>nw_Delay := ''5ms''\<rparr>\<rparr>))) = ''5ms''"
proof -
  have "exclusive_network (nc_Network (empty_node\<lparr>nc_Network := demo_network\<rparr>))"
    "exclusive_network (nc_Network (empty_node\<lparr>nc_Network := empty_network\<lparr>nw_Delay := ''5ms''\<rparr>\<rparr>))"
    "exclusive_protocol (nc_Kademlia (empty_node\<lparr>nc_Network := demo_network\<rparr>))"
    "exclusive_protocol (nc_Kademlia (empty_node\<lparr>nc_Network := empty_network\<lparr>nw_Delay := ''5ms''\<rparr>\<rparr>))"
    by (simp_all add: exclusive_network_def exclusive_protocol_def demo_network_def empty_network_def
        empty_node_def empty_kademlia_def)
  from merge_keeps_alternatives_exclusive [OF this] show ?thesis by (simp add: empty_network_def)
qed

section \<open>Protocols\<close>

definition sound_features :: "gostring list \<Rightarrow> bool" where
  "sound_features fs \<longleftrightarrow> distinct fs \<and> set fs \<subseteq> {''none'', ''mesh'', ''px'', ''idontwant''}
     \<and> (''none'' \<in> set fs \<longrightarrow> fs = [''none''])
     \<and> (''px'' \<in> set fs \<or> ''idontwant'' \<in> set fs \<longrightarrow> ''mesh'' \<in> set fs)"

definition compatible_features :: "gostring set \<Rightarrow> bool" where
  "compatible_features F \<longleftrightarrow> (''none'' \<in> F \<longrightarrow> card F \<le> 1) \<and> (''px'' \<in> F \<or> ''idontwant'' \<in> F \<longrightarrow> ''mesh'' \<in> F)"

abbreviation (input) known_features :: "gostring set" where
  "known_features \<equiv> {''none'', ''mesh'', ''px'', ''idontwant''}"

lemma featureErrors_None:
  "featureErrors seen fs = None \<longleftrightarrow>
     distinct fs \<and> set fs \<inter> set seen = {} \<and> set fs \<subseteq> known_features \<and> compatible_features (set seen \<union> set fs)"
proof (induction fs arbitrary: seen)
  case Nil
  then show ?case by (auto simp: first_error_Cons not_less compatible_features_def)
next
  case (Cons f fs)
  show ?case
  proof (cases "f \<in> known_features \<and> f \<notin> set seen")
    case True
    then have "featureErrors seen (f # fs) = featureErrors (f # seen) fs" by auto
    moreover have "set (f # seen) \<union> set fs = set seen \<union> set (f # fs)" by auto
    ultimately have "featureErrors seen (f # fs) = None \<longleftrightarrow>
        distinct fs \<and> set fs \<inter> set (f # seen) = {} \<and> set fs \<subseteq> known_features
        \<and> compatible_features (set seen \<union> set (f # fs))"
      by (simp only: Cons.IH)
    also have "\<dots> \<longleftrightarrow> distinct (f # fs) \<and> set (f # fs) \<inter> set seen = {} \<and> set (f # fs) \<subseteq> known_features
        \<and> compatible_features (set seen \<union> set (f # fs))"
      using True by auto
    finally show ?thesis .
  next
    case False
    then have "featureErrors seen (f # fs) \<noteq> None" by (simp split: if_split) blast?
    with False show ?thesis by auto
  qed
qed

lemma featureErrors_sound:
  assumes "featureErrors [] fs = None"
  shows "sound_features fs"
proof -
  have d: "distinct fs" and k: "set fs \<subseteq> known_features" and c: "compatible_features (set fs)"
    using assms by (simp_all add: featureErrors_None)
  have "fs = [''none'']" if "''none'' \<in> set fs"
  proof -
    have "length fs \<le> 1" using c that d by (simp add: compatible_features_def distinct_card)
    with that show ?thesis by (cases fs) auto
  qed
  with d k c show ?thesis by (simp add: sound_features_def compatible_features_def)
qed

lemma protocolErrors_sound:
  "protocolErrors router seen ps = None \<Longrightarrow>
     distinct (map pp_ID ps) \<and> set (map pp_ID ps) \<inter> set seen = {}
     \<and> (\<forall>p \<in> set ps. HasPrefix (pp_ID p) ''/'' \<and> TrimSpace (pp_ID p) = pp_ID p \<and> sound_features (pp_Features p)
          \<and> (router = ''floodsub'' \<longrightarrow> pp_Features p = []))"
proof (induction ps arbitrary: seen)
  case Nil
  then show ?case by simp
next
  case (Cons p ps)
  from Cons.prems have ok: "HasPrefix (pp_ID p) ''/''" "TrimSpace (pp_ID p) = pp_ID p" "pp_ID p \<notin> set seen"
    "router = ''floodsub'' \<longrightarrow> pp_Features p = []" "featureErrors [] (pp_Features p) = None"
    "protocolErrors router (pp_ID p # seen) ps = None"
    by (auto split: if_split_asm option.split_asm)
  from Cons.IH [OF ok(6)] ok featureErrors_sound [OF ok(5)] show ?case by auto
qed

text \<open>The PubSub protocols of an accepted configuration are well formed: the IDs are distinct, start
  with a slash and carry no surrounding space; the features of each are distinct and known, px and
  idontwant come with mesh, none stands alone, and floodsub has no features at all.\<close>

theorem validated_protocols:
  assumes "Node_Validate env c0 = None"
    and "gs_Enabled (nc_GossipSub (node_WithDefaults c0)) = Some True"
  defines "g \<equiv> nc_GossipSub (node_WithDefaults c0)"
  shows "distinct (map pp_ID (elems (gs_Protocols g)))
    \<and> (\<forall>p \<in> set (elems (gs_Protocols g)). HasPrefix (pp_ID p) ''/'' \<and> TrimSpace (pp_ID p) = pp_ID p
         \<and> sound_features (pp_Features p) \<and> (gs_Router g = ''floodsub'' \<longrightarrow> pp_Features p = []))"
proof -
  have "ValidateExtended env g = None"
    using pubsubNodeErrorD(1) [OF validated_pubsub [OF assms(1)] assms(2)] by (simp add: g_def)
  then have "protocolErrors (gs_Router g) [] (elems (gs_Protocols g)) = None"
    by (simp only: ValidateExtended_def first_error_append_None first_error_Cons)
  then show ?thesis using protocolErrors_sound by blast
qed

definition demo_protocols :: node_config where
  "demo_protocols = empty_node\<lparr>nc_GossipSub := empty_gossipsub\<lparr>
     gs_Protocols := Some [\<lparr>pp_ID = ''/kpl/mesh'', pp_Features = [''px'', ''mesh'']\<rparr>]\<rparr>\<rparr>"

lemma demo_protocols_facts:
  "Node_Validate demo_env demo_protocols = None"
  "gs_Enabled (nc_GossipSub (node_WithDefaults demo_protocols)) = Some True"
  "gs_Protocols (nc_GossipSub (node_WithDefaults demo_protocols)) =
     Some [\<lparr>pp_ID = ''/kpl/mesh'', pp_Features = [''px'', ''mesh'']\<rparr>]"
  by code_simp+

theorem validated_protocols_witness: "sound_features [''px'', ''mesh'']"
  using validated_protocols [OF demo_protocols_facts(1,2)] demo_protocols_facts(3) by simp

end
