(* ===== verification/ScoreProperties.thy ===== *)
theory ScoreProperties
  imports ScoreConfig
begin

text \<open>Properties of the score settings: what an accepted block guarantees, and that the verdict does not
  depend on the order in which Go walks its maps.\<close>

section \<open>Thresholds\<close>

lemma score_validate_None:
  "score_validate decode_peer c = None \<longleftrightarrow>
     score_validateSyntax decode_peer (score_WithDefaults c) = None
     \<and> (score_IsEnabled (score_WithDefaults c) \<longrightarrow> enabledScoreError (score_WithDefaults c) = None)"
  by (simp add: score_validate_def Let_def split: option.split)

lemma score_defaults_frame [simp]:
  "sc_Thresholds (score_WithDefaults c) = sc_Thresholds c" "score_IsEnabled (score_WithDefaults c) = score_IsEnabled c"
  "sc_AppSpecificScore (score_WithDefaults c) = sc_AppSpecificScore c"
  "sc_Topics (score_WithDefaults c) = map_option (map_vals (\<lambda>_. topic_defaults (score_IsEnabled c))) (sc_Topics c)"
  by (simp_all add: score_WithDefaults_def score_IsEnabled_def Let_def)

lemma validNumber_Fin: "validNumber v \<longleftrightarrow> (\<exists>x. v = Fin x)"
  by (cases v) (auto simp: validNumber_def IsNaN_def IsInf_def)

lemma thresholds_ordered:
  assumes "thresholds_validate t = None"
  shows "\<exists>gossip publish graylist. th_GossipThreshold t = Fin gossip \<and> th_PublishThreshold t = Fin publish
    \<and> th_GraylistThreshold t = Fin graylist \<and> graylist \<le> publish \<and> publish \<le> gossip \<and> gossip \<le> 0"
proof (cases "\<not> th_SkipAtomicValidation t \<or> \<not> is0 (th_PublishThreshold t) \<or> \<not> is0 (th_GossipThreshold t)
    \<or> \<not> is0 (th_GraylistThreshold t)")
  case True
  with assms have "validNumber (th_GossipThreshold t) \<and> \<not> pos (th_GossipThreshold t)
      \<and> validNumber (th_PublishThreshold t) \<and> \<not> float_less (th_GossipThreshold t) (th_PublishThreshold t)
      \<and> validNumber (th_GraylistThreshold t) \<and> \<not> float_less (th_PublishThreshold t) (th_GraylistThreshold t)"
    by (simp add: thresholds_validate_def first_error_None)
  then show ?thesis by (auto simp: validNumber_Fin)
next
  case False
  then show ?thesis by (simp add: float_eq_def)
qed

lemma enabled_parts:
  assumes "enabledScoreError c = None"
  shows "thresholds_validate (sc_Thresholds c) = None"
    "\<exists>d. scoreDuration ''decayInterval'' (sc_DecayInterval c) = Inr d \<and> Second \<le> d"
    "validDecay (sc_DecayToZero c)"
  using assms
  by (auto simp: enabledScoreError_def first_error_None at_error_None split: sum.split_asm)

text \<open>An accepted, enabled score block has ordered thresholds
  \<open>graylist <= publish <= gossip <= 0\<close>, all finite, a decay interval of at least one second, and a
  decay-to-zero strictly between zero and one, also when selective validation skips a group.\<close>

theorem enabled_score_thresholds:
  assumes "score_validate decode_peer c = None" and "score_IsEnabled c"
  shows "\<exists>gossip publish graylist interval zero.
      th_GossipThreshold (sc_Thresholds c) = Fin gossip \<and> th_PublishThreshold (sc_Thresholds c) = Fin publish
    \<and> th_GraylistThreshold (sc_Thresholds c) = Fin graylist
    \<and> graylist \<le> publish \<and> publish \<le> gossip \<and> gossip \<le> 0
    \<and> scoreDuration ''decayInterval'' (sc_DecayInterval (score_WithDefaults c)) = Inr interval \<and> Second \<le> interval
    \<and> sc_DecayToZero (score_WithDefaults c) = Fin zero \<and> 0 < zero \<and> zero < 1"
proof -
  have e: "enabledScoreError (score_WithDefaults c) = None"
    using assms by (simp add: score_validate_None)
  obtain z where "sc_DecayToZero (score_WithDefaults c) = Fin z" "0 < z" "z < 1"
    using enabled_parts(3) [OF e] by (auto simp: validDecay_def validNumber_Fin)
  moreover obtain g p q where "th_GossipThreshold (sc_Thresholds c) = Fin g"
    "th_PublishThreshold (sc_Thresholds c) = Fin p" "th_GraylistThreshold (sc_Thresholds c) = Fin q"
    "q \<le> p" "p \<le> g" "g \<le> 0"
    using thresholds_ordered [OF enabled_parts(1) [OF e]] by auto
  ultimately show ?thesis using enabled_parts(2) [OF e] by blast
qed

definition demo_score :: score_config where
  "demo_score = \<lparr>sc_Enabled = Some True, sc_SkipAtomicValidation = True, sc_TopicScoreCap = Fin 0,
     sc_AppSpecificScore = None, sc_AppSpecificWeight = Fin 0, sc_IPColocationFactorWeight = Fin 0,
     sc_IPColocationFactorThreshold = 0, sc_IPColocationFactorWhitelist = [], sc_BehaviourPenaltyWeight = Fin 0,
     sc_BehaviourPenaltyThreshold = Fin 0, sc_BehaviourPenaltyDecay = Fin 0, sc_DecayInterval = [],
     sc_DecayToZero = Fin 0, sc_RetainScore = [], sc_SeenMessageTTL = [],
     sc_Thresholds = \<lparr>th_SkipAtomicValidation = False, th_GossipThreshold = Fin (- 10), th_PublishThreshold = Fin (- 50),
       th_GraylistThreshold = Fin (- 80), th_AcceptPXThreshold = Fin 0, th_OpportunisticGraftThreshold = Fin 0\<rparr>,
     sc_Topics = None\<rparr>"

theorem enabled_score_thresholds_witness:
  "\<exists>interval. scoreDuration ''decayInterval'' (sc_DecayInterval (score_WithDefaults demo_score)) = Inr interval
     \<and> Second \<le> interval"
proof -
  have "score_validate Some demo_score = None" by code_simp
  moreover have "score_IsEnabled demo_score" by code_simp
  ultimately show ?thesis using enabled_score_thresholds [of Some demo_score] by blast
qed

section \<open>Map order\<close>

text \<open>The Peer entries pass exactly when every key decodes, the Peers differ and the values are finite.\<close>

definition peer_entry_ok :: "(gostring \<Rightarrow> gostring option) \<Rightarrow> float64 \<Rightarrow> gostring \<times> float64 \<Rightarrow> bool" where
  "peer_entry_ok decode_peer weight = (\<lambda>(raw, score). decode_peer raw \<noteq> None \<and> validNumber score
     \<and> validNumber (float_mul score weight))"

lemma appPeersError_None:
  "appPeersError decode_peer weight seen ps = None \<longleftrightarrow>
     list_all (peer_entry_ok decode_peer weight) ps
     \<and> distinct (map (\<lambda>p. decode_peer (fst p)) ps)
     \<and> (\<forall>p \<in> set ps. \<forall>pid \<in> set seen. decode_peer (fst p) \<noteq> Some pid)"
proof (induction ps arbitrary: seen)
  case Nil
  then show ?case by simp
next
  case (Cons p ps)
  obtain raw score where p: "p = (raw, score)" by (cases p)
  show ?case
  proof (cases "decode_peer raw")
    case None
    then show ?thesis by (simp add: p peer_entry_ok_def)
  next
    case (Some pid)
    have "(\<forall>q \<in> set ps. decode_peer (fst q) \<noteq> Some pid) \<longleftrightarrow> Some pid \<notin> (\<lambda>p. decode_peer (fst p)) ` set ps"
      by (metis (no_types, lifting) imageE image_eqI)
    with Some Cons.IH [of "pid # seen"] show ?thesis by (auto simp: p peer_entry_ok_def)
  qed
qed

lemma appPeersError_order:
  assumes "mset ps = mset qs"
  shows "appPeersError decode_peer weight [] ps = None \<longleftrightarrow> appPeersError decode_peer weight [] qs = None"
proof -
  have "distinct (map (\<lambda>p. decode_peer (fst p)) ps) \<longleftrightarrow> distinct (map (\<lambda>p. decode_peer (fst p)) qs)"
    by (metis assms mset_eq_imp_distinct_iff mset_map)
  with mset_eq_setD [OF assms] show ?thesis by (simp add: appPeersError_None list_all_iff)
qed

lemma first_error_map_order:
  "mset xs = mset ys \<Longrightarrow> first_error (map f xs) = None \<longleftrightarrow> first_error (map f ys) = None"
  by (drule mset_eq_setD) (simp add: first_error_None)

lemma map_vals_order: "mset m = mset m' \<Longrightarrow> mset (map_vals f m) = mset (map_vals f m')"
  by (simp add: map_vals_def)

text \<open>Whether a score block is accepted does not depend on the iteration order of its two maps: the
  verdict is the same for any order of the topics and of the application scores.\<close>

theorem score_verdict_map_order:
  assumes "mset topics = mset topics'" and "mset peers = mset peers'"
  shows "score_validate decode_peer (c\<lparr>sc_Topics := Some topics,
        sc_AppSpecificScore := Some \<lparr>as_Default = d, as_Peers = Some peers\<rparr>\<rparr>) = None
     \<longleftrightarrow> score_validate decode_peer (c\<lparr>sc_Topics := Some topics',
        sc_AppSpecificScore := Some \<lparr>as_Default = d, as_Peers = Some peers'\<rparr>\<rparr>) = None"
proof -
  define block where "block ts ps = score_WithDefaults (c\<lparr>sc_Topics := Some ts,
        sc_AppSpecificScore := Some \<lparr>as_Default = d, as_Peers = Some ps\<rparr>\<rparr>)" for ts ps
  define e where "e = score_IsEnabled c"
  define base where "base = score_WithDefaults c"
  have block: "block ts ps = base\<lparr>sc_Topics := Some (map_vals (\<lambda>_. topic_defaults e) ts),
      sc_AppSpecificScore := Some \<lparr>as_Default = d, as_Peers = Some ps\<rparr>\<rparr>" for ts ps
    by (simp add: block_def base_def e_def score_WithDefaults_def score_IsEnabled_def Let_def)
  note orders = first_error_map_order [OF map_vals_order [OF assms(1)]] appPeersError_order [OF assms(2)]
  have "score_validateSyntax decode_peer (block topics peers) = None
      \<longleftrightarrow> score_validateSyntax decode_peer (block topics' peers') = None"
    unfolding block score_validateSyntax_def first_error_append_None
    by (simp add: orders appScore_validate_def first_error_None [of "[_, _]"] first_error_None [of "[_, _, _]"]
        score_IsEnabled_def)
  moreover have "enabledScoreError (block topics peers) = None \<longleftrightarrow> enabledScoreError (block topics' peers') = None"
    unfolding block enabledScoreError_def first_error_append_None
    by (simp add: orders first_error_None [of "[_, _, _, _]"])
  moreover have "score_IsEnabled (block topics peers) = score_IsEnabled (block topics' peers')"
    by (simp add: block score_IsEnabled_def)
  ultimately show ?thesis unfolding score_validate_None block_def by simp
qed

theorem score_verdict_map_order_witness:
  "score_validate Some (demo_score\<lparr>sc_Topics := Some [], sc_AppSpecificScore :=
      Some \<lparr>as_Default = Fin 0, as_Peers = Some [(''peer-a'', Fin 1), (''peer-b'', Fin 2)]\<rparr>\<rparr>) = None
   \<longleftrightarrow> score_validate Some (demo_score\<lparr>sc_Topics := Some [], sc_AppSpecificScore :=
      Some \<lparr>as_Default = Fin 0, as_Peers = Some [(''peer-b'', Fin 2), (''peer-a'', Fin 1)]\<rparr>\<rparr>) = None"
  by (rule score_verdict_map_order) (simp_all add: add_mset_commute)

end
