(* ===== verification/ScenarioModel.thy ===== *)
theory ScenarioModel
  imports NodeConfig
begin

text \<open>
  Scenario files and their validation (\<open>internal/scenario/scenario.go\<close>). \<open>Validate\<close> fills in defaults
  while it checks, so a phase step returns the phase it leaves behind together with the two tables the
  loop carries: the background joins nobody has waited for, by group, and the background jobs started
  since the last stop-all. Decoding the YAML text is the library's.
\<close>

record phase =
  ph_Name :: gostring
  ph_Job :: gostring
  ph_Jobs :: "gostring list"
  ph_Action :: gostring
  ph_OnError :: gostring
  ph_AgentID :: gostring
  ph_Placement :: gostring
  ph_Group :: gostring
  ph_Role :: gostring
  ph_Profile :: gostring
  ph_NodeType :: gostring
  ph_Count :: int
  ph_Repeat :: int
  ph_Parallel :: bool
  ph_Parallelism :: int
  ph_Await :: "bool option"
  ph_Duration :: gostring
  ph_Timeout :: gostring
  ph_Message :: gostring
  ph_ReadyRatio :: float64
  ph_MinCount :: int
  ph_PayloadSize :: int
  ph_PayloadEncoding :: gostring
  ph_DeliveryWindow :: gostring
  ph_Topic :: gostring
  ph_Interval :: distribution
  ph_Lifetime :: distribution
  ph_Node :: node_config

record scenario =
  scn_Version :: int
  scn_Name :: gostring
  scn_Seed :: int
  scn_OnExit :: gostring
  scn_JobShutdownTimeout :: gostring
  scn_Profiles :: "(gostring, node_config) gomap"
  scn_Phases :: "phase list"

datatype phase_error =
    PhaseBad gostring
  | UnknownJob gostring
  | UnwaitedJoin gostring
  | DuplicateJob gostring
  | UnknownAction gostring
  | UnknownProfile gostring
  | IntervalBad distribution_error
  | LifetimeBad distribution_error
  | NodeBad node_error

datatype scenario_error =
    UnsupportedVersion int
  | ScenarioBad gostring
  | InPhase gostring phase_error

definition MaxPublishPayloadBytes :: int where
  "MaxPublishPayloadBytes = 16777216"

definition ShouldAwait :: "phase \<Rightarrow> bool" where
  "ShouldAwait p \<longleftrightarrow> ph_Await p \<noteq> Some False"

section \<open>Background joins\<close>

type_synonym joins = "(gostring, gostring list) gomap"

definition scenario_contains :: "gostring list \<Rightarrow> gostring \<Rightarrow> bool" where
  "scenario_contains values target \<longleftrightarrow> list_ex (\<lambda>v. v = target) values"

text \<open>A set of jobs is a list without repetitions.\<close>

definition add_join :: "joins \<Rightarrow> gostring \<Rightarrow> gostring \<Rightarrow> joins" where
  "add_join b grp job = AList.update grp (List.insert job (mget [] b grp)) b"

definition firstUnwaitedBackgroundJoin :: "joins \<Rightarrow> gostring \<Rightarrow> gostring list \<Rightarrow> gostring" where
  "firstUnwaitedBackgroundJoin b grp waited =
     (let candidates = concat (map (\<lambda>(g, jobs). if grp \<noteq> [] \<and> g \<noteq> grp then []
                                 else filter (\<lambda>j. \<not> scenario_contains waited j) jobs) b)
      in case sort_Strings candidates of [] \<Rightarrow> [] | j # _ \<Rightarrow> j)"

definition removeBackgroundJoinJobs :: "joins \<Rightarrow> gostring list \<Rightarrow> joins" where
  "removeBackgroundJoinJobs b waited =
     filter (\<lambda>(g, jobs). jobs \<noteq> [])
       (map (\<lambda>(g, jobs). (g, filter (\<lambda>j. \<not> scenario_contains waited j) jobs)) b)"

section \<open>The node configuration of a join\<close>

definition resolved_kind :: "(gostring, node_config) gomap \<Rightarrow> phase \<Rightarrow> gostring" where
  "resolved_kind profiles p =
     (let k0 = ph_NodeType p;
          k1 = (case map_of profiles (ph_Profile p) of
                  Some prof \<Rightarrow> if k0 = [] \<and> nc_Type prof \<noteq> [] then nc_Type prof else k0
                | None \<Rightarrow> if k0 = [] \<and> ph_Profile p \<noteq> [] then ph_Profile p else k0)
      in if k1 = [] then (if ph_Role p = ''boot'' then ''boot'' else ''full'') else k1)"

definition base_config :: "gostring \<Rightarrow> node_config" where
  "base_config kind =
     (case BuiltInNodeConfig kind of Some c \<Rightarrow> c
      | None \<Rightarrow> (case BuiltInNodeConfig ''full'' of Some c \<Rightarrow> c | None \<Rightarrow> empty_node)\<lparr>nc_Type := kind\<rparr>)"

text \<open>Preset aliases become the preset's own type.\<close>

definition canonical_type :: "gostring \<Rightarrow> gostring" where
  "canonical_type t = (case BuiltInNodeConfig t of None \<Rightarrow> t | Some c \<Rightarrow> nc_Type c)"

definition resolveNodeConfig :: "'k pubsub_env \<Rightarrow> (gostring, node_config) gomap \<Rightarrow> phase
    \<Rightarrow> phase_error + phase" where
  "resolveNodeConfig env profiles p =
     (let kind = resolved_kind profiles p;
          base = base_config kind
      in case (if ph_Profile p = [] then Some base
               else case map_of profiles (ph_Profile p) of
                      Some prof \<Rightarrow> Some (node_Merge base prof)
                    | None \<Rightarrow> if BuiltInNodeConfig kind = None then None else Some base) of
        None \<Rightarrow> Inl (UnknownProfile (ph_Profile p))
      | Some base1 \<Rightarrow>
          let base2 = node_Merge base1 (ph_Node p);
              base3 = (if ph_NodeType p \<noteq> [] then base2\<lparr>nc_Type := ph_NodeType p\<rparr> else base2);
              c = node_WithDefaults (base3\<lparr>nc_Type := canonical_type (nc_Type base3)\<rparr>)
          in case Node_Validate env c of Some e \<Rightarrow> Inl (NodeBad e)
             | None \<Rightarrow> Inr (p\<lparr>ph_Node := c, ph_NodeType := nc_Type c,
                 ph_Profile := over_string (nc_Type c) (ph_Profile p)\<rparr>))"

section \<open>One phase\<close>

text \<open>The defaults filled in before the checks; \<open>i\<close> is the phase's index.\<close>

definition normalize_phase :: "nat \<Rightarrow> phase \<Rightarrow> phase" where
  "normalize_phase i p =
     (let action = (if ph_Action p = ''sleep'' then ''wait''
                    else if ph_Action p = ''reset'' then ''stop-all'' else ph_Action p);
          number = Itoa (int i + 1)
      in p\<lparr>ph_Action := action,
           ph_Name := over_string (action @ ''-'' @ number) (ph_Name p),
           ph_NodeType := (if ph_NodeType p \<noteq> [] then canonical_type (ph_NodeType p) else []),
           ph_Job := over_string (''phase-'' @ number) (ph_Job p),
           ph_Repeat := (if ph_Repeat p = 0 then 1 else ph_Repeat p),
           ph_OnError := (if (action = ''publish'' \<or> action = ''leave'') \<and> ph_OnError p = [] then ''fail''
                          else ph_OnError p)\<rparr>)"

definition phaseError :: "phase \<Rightarrow> phase_error option" where
  "phaseError p = first_error
     [guard (ph_Repeat p < 1) (PhaseBad ''repeat''),
      guard (ph_Parallelism p < 0) (PhaseBad ''parallelism''),
      guard (ph_Jobs p \<noteq> [] \<and> ph_Action p \<notin> {''wait-ready'', ''wait-jobs''}) (PhaseBad ''jobs''),
      guard (if ph_Action p = ''publish'' \<or> ph_Action p = ''leave''
             then ph_OnError p \<noteq> ''fail'' \<and> ph_OnError p \<noteq> ''continue''
             else ph_OnError p \<noteq> []) (PhaseBad ''onError''),
      guard (ph_Action p \<noteq> ''join'' \<and> (ph_AgentID p \<noteq> [] \<or> ph_Placement p \<noteq> [])) (PhaseBad ''agentId''),
      guard (ph_Action p \<noteq> ''publish'' \<and> ph_PayloadEncoding p \<noteq> []) (PhaseBad ''payloadEncoding''),
      guard (ph_Action p \<noteq> ''publish'' \<and> ph_DeliveryWindow p \<noteq> []) (PhaseBad ''deliveryWindow'')]"

text \<open>The checks after the switch; \<open>known\<close> are the background jobs started so far.\<close>

definition closingError :: "gostring list \<Rightarrow> phase \<Rightarrow> phase_error option" where
  "closingError known p = first_error
     [guard (\<not> ShouldAwait p \<and> ph_Action p \<notin> {''join'', ''publish'', ''leave''}) (PhaseBad ''await''),
      guard (ph_Parallel p \<and> ph_Action p \<notin> {''join'', ''publish'', ''leave''}) (PhaseBad ''parallel''),
      guard (\<not> ShouldAwait p \<and> scenario_contains known (ph_Job p)) (DuplicateJob (ph_Job p))]"

text \<open>A duration setting with a default that must be positive.\<close>

definition positiveSetting :: "gostring \<Rightarrow> gostring \<Rightarrow> phase_error option" where
  "positiveSetting name value =
     guard (case ParseDuration value of None \<Rightarrow> True | Some d \<Rightarrow> d \<le> 0) (PhaseBad name)"

type_synonym loop_state = "joins \<times> gostring list"

definition reject :: "phase_error option \<Rightarrow> 'a \<Rightarrow> phase_error + 'a" where
  "reject e v = (case e of Some x \<Rightarrow> Inl x | None \<Rightarrow> Inr v)"

definition distributionError :: "(distribution_error \<Rightarrow> phase_error) \<Rightarrow> distribution \<Rightarrow> phase_error option" where
  "distributionError wrap d = map_option wrap (Distribution_Validate True d)"

definition join_phase :: "'k pubsub_env \<Rightarrow> (gostring, node_config) gomap \<Rightarrow> loop_state \<Rightarrow> phase
    \<Rightarrow> phase_error + (phase \<times> loop_state)" where
  "join_phase env profiles = (\<lambda>(b, known) p0.
     let p = p0\<lparr>ph_Placement := over_string ''balanced'' (ph_Placement p0),
                ph_Role := over_string ''worker'' (ph_Role p0)\<rparr>
     in case first_error
          [guard (ph_Placement p \<notin> {''balanced'', ''single-agent'', ''random''}) (PhaseBad ''placement''),
           guard (ph_AgentID p \<noteq> [] \<and> TrimSpace (ph_AgentID p) \<noteq> ph_AgentID p) (PhaseBad ''agentId''),
           guard (ph_Group p = [] \<or> ph_Count p < 1) (PhaseBad ''join''),
           guard (ph_Role p \<noteq> ''boot'' \<and> ph_Role p \<noteq> ''worker'') (PhaseBad ''role''),
           distributionError IntervalBad (ph_Interval p),
           distributionError LifetimeBad (ph_Lifetime p)] of
        Some e \<Rightarrow> Inl e
      | None \<Rightarrow>
          (case resolveNodeConfig env profiles p of Inl e \<Rightarrow> Inl e
           | Inr q \<Rightarrow> Inr (q, (if ShouldAwait q then b else add_join b (ph_Group q) (ph_Job q), known))))"

definition unknown_job :: "gostring list \<Rightarrow> gostring list \<Rightarrow> phase_error option" where
  "unknown_job known jobs = first_error (map (\<lambda>j. guard (\<not> scenario_contains known j) (UnknownJob j)) jobs)"

definition wait_ready_phase :: "loop_state \<Rightarrow> phase \<Rightarrow> phase_error + (phase \<times> loop_state)" where
  "wait_ready_phase = (\<lambda>(b, known) p0.
     let job = firstUnwaitedBackgroundJoin b (ph_Group p0) (ph_Jobs p0);
         p = p0\<lparr>ph_ReadyRatio := (if float_eq (ph_ReadyRatio p0) (Fin 0) then Fin 1 else ph_ReadyRatio p0),
                ph_Timeout := over_string ''1m'' (ph_Timeout p0)\<rparr>
     in reject (first_error
          [guard (ph_MinCount p < 0) (PhaseBad ''minCount''),
           unknown_job known (ph_Jobs p),
           guard (job \<noteq> [] \<and> ph_MinCount p = 0) (UnwaitedJoin job),
           guard (IsNaN (ph_ReadyRatio p) \<or> float_le (ph_ReadyRatio p) (Fin 0) \<or> float_less (Fin 1) (ph_ReadyRatio p))
             (PhaseBad ''readyRatio''),
           positiveSetting ''timeout'' (ph_Timeout p)])
        (p, removeBackgroundJoinJobs b (ph_Jobs p), known))"

definition wait_jobs_phase :: "loop_state \<Rightarrow> phase \<Rightarrow> phase_error + (phase \<times> loop_state)" where
  "wait_jobs_phase = (\<lambda>(b, known) p0.
     let p = p0\<lparr>ph_Timeout := over_string ''5m'' (ph_Timeout p0)\<rparr>
     in reject (first_error
          [guard (\<not> ShouldAwait p) (PhaseBad ''await''),
           positiveSetting ''timeout'' (ph_Timeout p),
           unknown_job known (ph_Jobs p)])
        (p, if ph_Jobs p = [] then [] else removeBackgroundJoinJobs b (ph_Jobs p), known))"

definition publish_phase :: "loop_state \<Rightarrow> phase \<Rightarrow> phase_error + (phase \<times> loop_state)" where
  "publish_phase = (\<lambda>st p0.
     let p = p0\<lparr>ph_DeliveryWindow := over_string ''10s'' (ph_DeliveryWindow p0),
                ph_PayloadEncoding := over_string ''envelope'' (ph_PayloadEncoding p0),
                ph_PayloadSize := (if ph_PayloadSize p0 \<le> 0 then 32 else ph_PayloadSize p0)\<rparr>
     in reject (first_error
          [guard (case ParseDuration (ph_DeliveryWindow p) of None \<Rightarrow> True | Some d \<Rightarrow> d \<le> 0 \<or> Hour < d)
             (PhaseBad ''deliveryWindow''),
           guard (ph_PayloadEncoding p \<noteq> ''envelope'' \<and> ph_PayloadEncoding p \<noteq> ''raw'') (PhaseBad ''payloadEncoding''),
           guard (ph_Group p = [] \<or> ph_Count p < 1) (PhaseBad ''publish''),
           guard (MaxPublishPayloadBytes < ph_PayloadSize p) (PhaseBad ''payloadSize''),
           distributionError IntervalBad (ph_Interval p)])
        (p, st))"

text \<open>The switch over the action of a normalized phase.\<close>

definition action_phase :: "'k pubsub_env \<Rightarrow> (gostring, node_config) gomap \<Rightarrow> loop_state \<Rightarrow> phase
    \<Rightarrow> phase_error + (phase \<times> loop_state)" where
  "action_phase env profiles st p =
     (if ph_Action p = ''join'' then join_phase env profiles st p
      else if ph_Action p = ''wait'' then reject (positiveSetting ''duration'' (ph_Duration p)) (p, st)
      else if ph_Action p = ''wait-ready'' then wait_ready_phase st p
      else if ph_Action p = ''wait-jobs'' then wait_jobs_phase st p
      else if ph_Action p = ''publish'' then publish_phase st p
      else if ph_Action p = ''leave'' then
        reject (first_error [guard (ph_Group p = [] \<or> ph_Count p < 1) (PhaseBad ''leave''),
                             distributionError IntervalBad (ph_Interval p)]) (p, st)
      else if ph_Action p = ''stop-all'' then Inr (p, [], [])
      else if ph_Action p = ''log'' then Inr (p, st)
      else Inl (UnknownAction (ph_Action p)))"

definition validate_phase :: "'k pubsub_env \<Rightarrow> (gostring, node_config) gomap \<Rightarrow> nat \<Rightarrow> loop_state \<Rightarrow> phase
    \<Rightarrow> (gostring \<times> phase_error) + (phase \<times> loop_state)" where
  "validate_phase env profiles i st p0 =
     (let p = normalize_phase i p0
      in case phaseError p of Some e \<Rightarrow> Inl (ph_Name p, e)
         | None \<Rightarrow>
           (case action_phase env profiles st p of Inl e \<Rightarrow> Inl (ph_Name p, e)
            | Inr (q, b, known) \<Rightarrow>
                (case closingError known q of Some e \<Rightarrow> Inl (ph_Name q, e)
                 | None \<Rightarrow> Inr (q, b, if ShouldAwait q then known else ph_Job q # known))))"

fun validate_phases :: "'k pubsub_env \<Rightarrow> (gostring, node_config) gomap \<Rightarrow> nat \<Rightarrow> loop_state \<Rightarrow> phase list
    \<Rightarrow> (gostring \<times> phase_error) + phase list" where
  "validate_phases env profiles i st [] = Inr []"
| "validate_phases env profiles i st (p # ps) =
     (case validate_phase env profiles i st p of Inl e \<Rightarrow> Inl e
      | Inr (q, st') \<Rightarrow>
          (case validate_phases env profiles (i + 1) st' ps of Inl e \<Rightarrow> Inl e | Inr qs \<Rightarrow> Inr (q # qs)))"

section \<open>The scenario\<close>

definition Scenario_Validate :: "'k pubsub_env \<Rightarrow> scenario \<Rightarrow> scenario_error + scenario" where
  "Scenario_Validate env s0 =
     (let s = s0\<lparr>scn_Version := (if scn_Version s0 = 0 then 1 else scn_Version s0),
                 scn_OnExit := over_string ''cancel'' (scn_OnExit s0),
                 scn_JobShutdownTimeout := over_string ''3m'' (scn_JobShutdownTimeout s0)\<rparr>
      in case first_error
           [guard (scn_Version s \<noteq> 1 \<and> scn_Version s \<noteq> 2) (UnsupportedVersion (scn_Version s)),
            guard (TrimSpace (scn_Name s) = []) (ScenarioBad ''name''),
            guard (scn_Phases s = []) (ScenarioBad ''phases''),
            guard (scn_OnExit s \<noteq> ''cancel'' \<and> scn_OnExit s \<noteq> ''drain'') (ScenarioBad ''onExit''),
            guard (case ParseDuration (scn_JobShutdownTimeout s) of None \<Rightarrow> True | Some d \<Rightarrow> d \<le> 0)
              (ScenarioBad ''jobShutdownTimeout'')] of
         Some e \<Rightarrow> Inl e
       | None \<Rightarrow>
           (case validate_phases env (scn_Profiles s) 0 ([], []) (scn_Phases s) of
              Inl (name, e) \<Rightarrow> Inl (InPhase name e)
            | Inr ps \<Rightarrow> Inr (s\<lparr>scn_Phases := ps\<rparr>)))"

end
