(* ===== verification/ScenarioProperties.thy ===== *)
theory ScenarioProperties
  imports ScenarioModel NodeProperties
begin

text \<open>What an accepted scenario guarantees to the runner: the discipline of its background jobs, and the
  shape of every phase.\<close>

section \<open>The table of background joins as a relation\<close>

definition held_joins :: "joins \<Rightarrow> (gostring \<times> gostring) set" where
  "held_joins b = {(g, j). j \<in> set (mget [] b g)}"

definition joins_ok :: "joins \<Rightarrow> bool" where
  "joins_ok b \<longleftrightarrow> wf_map b \<and> (\<forall>(g, j) \<in> held_joins b. j \<noteq> [])"

lemma held_empty [simp]: "held_joins [] = {}" "joins_ok []"
  by (simp_all add: held_joins_def joins_ok_def mget_def)

lemma held_add [simp]: "held_joins (add_join b g j) = insert (g, j) (held_joins b)"
  by (auto simp: held_joins_def add_join_def split: if_split_asm)

lemma joins_ok_add: "joins_ok b \<Longrightarrow> j \<noteq> [] \<Longrightarrow> joins_ok (add_join b g j)"
  by (auto simp: joins_ok_def) (simp add: add_join_def)

lemma contains_iff [simp]: "scenario_contains vs t \<longleftrightarrow> t \<in> set vs"
  by (auto simp: scenario_contains_def list_ex_iff)

lemma keys_value_map: "map fst (map (\<lambda>(g, v). (g, f v)) b) = map fst b"
  by (induction b) auto

lemma wf_remove: "wf_map b \<Longrightarrow> wf_map (removeBackgroundJoinJobs b w)"
  unfolding removeBackgroundJoinJobs_def by (rule wf_map_filter) (simp only: keys_value_map)

lemma held_entry: "wf_map b \<Longrightarrow> (g, j) \<in> held_joins b \<longleftrightarrow> (\<exists>jobs. (g, jobs) \<in> set b \<and> j \<in> set jobs)"
  by (auto simp: held_joins_def mget_def dest: map_of_SomeD map_of_SomeI_wf split: option.splits)

lemma remove_entries:
  "(\<exists>jobs. (g, jobs) \<in> set (removeBackgroundJoinJobs b w) \<and> j \<in> set jobs)
     \<longleftrightarrow> (\<exists>jobs. (g, jobs) \<in> set b \<and> j \<in> set jobs) \<and> j \<notin> set w" (is "?left \<longleftrightarrow> ?right")
proof
  assume ?left
  then obtain jobs where jobs: "(g, jobs) \<in> set (removeBackgroundJoinJobs b w)" "j \<in> set jobs" by blast
  then obtain js where "(g, js) \<in> set b" "jobs = filter (\<lambda>j. j \<notin> set w) js"
    by (auto simp: removeBackgroundJoinJobs_def)
  with jobs show ?right by auto
next
  assume ?right
  then obtain js where js: "(g, js) \<in> set b" "j \<in> set js" "j \<notin> set w" by blast
  let ?kept = "filter (\<lambda>j. \<not> scenario_contains w j) js"
  have "(g, ?kept) \<in> set (map (\<lambda>(g, jobs). (g, filter (\<lambda>j. \<not> scenario_contains w j) jobs)) b)"
    using js(1) by force
  moreover have "j \<in> set ?kept" using js(2,3) by simp
  then have "?kept \<noteq> []" by (metis empty_iff list.set(1))
  ultimately show ?left
    using \<open>j \<in> set ?kept\<close> unfolding removeBackgroundJoinJobs_def by (intro exI [of _ ?kept]) (simp only: set_filter, simp)
qed

lemma held_remove:
  assumes "wf_map b"
  shows "held_joins (removeBackgroundJoinJobs b w) = {(g, j) \<in> held_joins b. j \<notin> set w}"
proof -
  have "(g, j) \<in> held_joins (removeBackgroundJoinJobs b w) \<longleftrightarrow> (g, j) \<in> held_joins b \<and> j \<notin> set w" for g j
    by (simp only: held_entry [OF wf_remove [OF assms]] held_entry [OF assms] remove_entries)
  then show ?thesis by auto
qed

lemma joins_ok_remove: "joins_ok b \<Longrightarrow> joins_ok (removeBackgroundJoinJobs b w)"
  by (simp add: joins_ok_def held_remove wf_remove) blast

lemma set_concat_entries:
  "x \<in> set (concat (map (\<lambda>(g, v). f g v) b)) \<longleftrightarrow> (\<exists>g v. (g, v) \<in> set b \<and> x \<in> set (f g v))"
  by (induction b) auto

lemma candidate_mem:
  assumes "wf_map b"
  shows "x \<in> set (concat (map (\<lambda>(g, jobs). if grp \<noteq> [] \<and> g \<noteq> grp then []
      else filter (\<lambda>j. \<not> scenario_contains w j) jobs) b))
     \<longleftrightarrow> (\<exists>g. (g, x) \<in> held_joins b \<and> (grp = [] \<or> g = grp) \<and> x \<notin> set w)"
  unfolding held_entry [OF assms] set_concat_entries by (simp split: if_split) blast

lemma first_unwaited:
  assumes "joins_ok b" and "firstUnwaitedBackgroundJoin b grp w = []"
    and "(g, j) \<in> held_joins b" and "grp = [] \<or> g = grp"
  shows "j \<in> set w"
proof (rule ccontr)
  assume "j \<notin> set w"
  define cs where "cs = concat (map (\<lambda>(g, jobs). if grp \<noteq> [] \<and> g \<noteq> grp then []
      else filter (\<lambda>j. \<not> scenario_contains w j) jobs) b)"
  have wf: "wf_map b" using assms(1) by (simp add: joins_ok_def)
  note mem = candidate_mem [OF wf, of _ grp w, folded cs_def]
  have "j \<in> set cs" using assms(3,4) \<open>j \<notin> set w\<close> mem by blast
  then obtain x xs where s: "sort_Strings cs = x # xs"
    using set_sort_Strings [of cs] by (cases "sort_Strings cs") auto
  then have "x \<in> set cs" using set_sort_Strings [of cs] by auto
  then have "x \<noteq> []" using assms(1) mem by (auto simp: joins_ok_def)
  with assms(2) s show False by (simp add: firstUnwaitedBackgroundJoin_def cs_def [symmetric] Let_def)
qed

section \<open>One step of the loop\<close>

text \<open>A phase ends the wait for a background job.\<close>

definition releases :: "phase \<Rightarrow> gostring \<Rightarrow> bool" where
  "releases p job \<longleftrightarrow> ph_Action p = ''stop-all''
     \<or> ph_Action p = ''wait-jobs'' \<and> (ph_Jobs p = [] \<or> job \<in> set (ph_Jobs p))
     \<or> ph_Action p = ''wait-ready'' \<and> job \<in> set (ph_Jobs p)"

definition background_join :: "phase \<Rightarrow> bool" where
  "background_join p \<longleftrightarrow> ph_Action p = ''join'' \<and> \<not> ShouldAwait p"

definition step_joins :: "phase \<Rightarrow> (gostring \<times> gostring) set \<Rightarrow> (gostring \<times> gostring) set" where
  "step_joins q H = {(g, j) \<in> H. \<not> releases q j} \<union> (if background_join q then {(ph_Group q, ph_Job q)} else {})"

lemma normalize_frame [simp]:
  "ph_Jobs (normalize_phase i p) = ph_Jobs p" "ph_Group (normalize_phase i p) = ph_Group p"
  "ph_Await (normalize_phase i p) = ph_Await p" "ph_MinCount (normalize_phase i p) = ph_MinCount p"
  "ph_Job (normalize_phase i p) \<noteq> []"
  by (simp_all add: normalize_phase_def Let_def over_string_def)

lemma resolve_frame:
  assumes "resolveNodeConfig env profiles p = Inr q"
  shows "ph_Job q = ph_Job p" "ph_Group q = ph_Group p" "ph_Await q = ph_Await p" "ph_Action q = ph_Action p"
    "ph_Jobs q = ph_Jobs p" "ph_Count q = ph_Count p"
  using assms
  by (auto simp: resolveNodeConfig_def Let_def split: option.split_asm if_split_asm)

lemma join_phase_result:
  assumes "join_phase env profiles (b, known) p = Inr (q, st')"
  shows "st' = (if ShouldAwait q then b else add_join b (ph_Group q) (ph_Job q), known)"
    "ph_Job q = ph_Job p" "ph_Await q = ph_Await p" "ph_Action q = ph_Action p"
  using assms
  by (auto simp: join_phase_def Let_def ShouldAwait_def split: option.split_asm sum.split_asm dest: resolve_frame)

lemma reject_Inr [simp]: "reject e v = Inr w \<longleftrightarrow> e = None \<and> w = v"
  by (auto simp: reject_def split: option.split)

lemma action_phase_joins:
  assumes "action_phase env profiles (b, known) p = Inr (q, b', known')" and "joins_ok b" and "ph_Job p \<noteq> []"
  shows "joins_ok b'" "held_joins b' = step_joins q (held_joins b)" "ph_Job q \<noteq> []"
    "ph_Action q = ph_Action p" "ph_Job q = ph_Job p" "ph_Await q = ph_Await p"
proof -
  have wf: "wf_map b" using assms(2) by (simp add: joins_ok_def)
  have "joins_ok b' \<and> held_joins b' = step_joins q (held_joins b) \<and> ph_Action q = ph_Action p
      \<and> ph_Job q = ph_Job p \<and> ph_Await q = ph_Await p"
  proof (cases "ph_Action p = ''join''")
    case True
    then have j: "join_phase env profiles (b, known) p = Inr (q, b', known')"
      using assms(1) by (simp add: action_phase_def)
    note r = join_phase_result [OF j]
    have "joins_ok b'" using r(1,2) assms(2,3) by (auto intro: joins_ok_add)
    moreover have "held_joins b' = step_joins q (held_joins b)"
      using r True by (auto simp: step_joins_def background_join_def releases_def ShouldAwait_def)
    ultimately show ?thesis using r by simp
  next
    case False
    then show ?thesis
      using assms(1,2) wf joins_ok_remove [of b]
      by (auto simp: action_phase_def wait_ready_phase_def wait_jobs_phase_def publish_phase_def Let_def
          step_joins_def background_join_def releases_def held_remove split: if_split_asm)
  qed
  then show "joins_ok b'" "held_joins b' = step_joins q (held_joins b)" "ph_Job q \<noteq> []"
    "ph_Action q = ph_Action p" "ph_Job q = ph_Job p" "ph_Await q = ph_Await p"
    using assms(3) by simp_all
qed

lemma action_phase_ready:
  assumes "action_phase env profiles (b, known) p = Inr (q, st')" and "joins_ok b"
    and "ph_Action q = ''wait-ready''" and "ph_Action p = ''wait-ready''" and "ph_MinCount q = 0"
    and "(g, j) \<in> held_joins b" and "ph_Group q = [] \<or> g = ph_Group q"
  shows "j \<in> set (ph_Jobs q)"
proof -
  have "firstUnwaitedBackgroundJoin b (ph_Group q) (ph_Jobs q) = []"
    using assms(1,4,5) by (auto simp: action_phase_def wait_ready_phase_def Let_def first_error_None)
  from first_unwaited [OF assms(2) this assms(6,7)] show ?thesis .
qed

lemma validate_phase_Inr:
  assumes "validate_phase env profiles i (b, known) p0 = Inr (q, b', known')"
  obtains known1 where "action_phase env profiles (b, known) (normalize_phase i p0) = Inr (q, b', known1)"
    "phaseError (normalize_phase i p0) = None" "closingError known1 q = None"
    "known' = (if ShouldAwait q then known1 else ph_Job q # known1)"
  using assms by (auto simp: validate_phase_def Let_def split: option.split_asm sum.split_asm)

text \<open>The prefix of an accepted list, and the state the loop is in behind it.\<close>

lemma validate_phases_append:
  "validate_phases env profiles i (b, known) ps = Inr (pre @ rest) \<Longrightarrow> joins_ok b \<Longrightarrow>
   \<exists>i' b' known' ps'. validate_phases env profiles i' (b', known') ps' = Inr rest \<and> joins_ok b'
     \<and> held_joins b' = fold step_joins pre (held_joins b)"
proof (induction pre arbitrary: i b known ps)
  case Nil
  then show ?case by auto
next
  case (Cons q pre)
  from Cons.prems(1) obtain p0 ps0 b1 known1 where ps: "ps = p0 # ps0"
    "validate_phase env profiles i (b, known) p0 = Inr (q, b1, known1)"
    "validate_phases env profiles (i + 1) (b1, known1) ps0 = Inr (pre @ rest)"
    by (cases ps) (auto split: sum.split_asm)
  from ps(2) obtain k where a: "action_phase env profiles (b, known) (normalize_phase i p0) = Inr (q, b1, k)"
    by (rule validate_phase_Inr)
  have "joins_ok b1" "held_joins b1 = step_joins q (held_joins b)"
    by (rule action_phase_joins [OF a Cons.prems(2)], simp)+
  with Cons.IH [OF ps(3)] show ?case by simp
qed

lemma fold_joins_keep:
  "(g, j) \<in> H \<Longrightarrow> \<forall>r \<in> set rs. \<not> releases r j \<Longrightarrow> (g, j) \<in> fold step_joins rs H"
  by (induction rs arbitrary: H) (auto simp: step_joins_def)

lemma accepted_wait_ready:
  assumes v: "validate_phases env profiles i (b, known) ps = Inr (a @ q # bs @ p # post)" and ok: "joins_ok b"
    and q: "background_join q" and p: "ph_Action p = ''wait-ready''" "ph_MinCount p = 0"
      "ph_Group p = [] \<or> ph_Group q = ph_Group p"
    and kept: "\<forall>r \<in> set bs. \<not> releases r (ph_Job q)"
  shows "ph_Job q \<in> set (ph_Jobs p)"
proof -
  obtain i' b' known' ps' where r: "validate_phases env profiles i' (b', known') ps' = Inr (p # post)"
    "joins_ok b'" "held_joins b' = fold step_joins (a @ q # bs) (held_joins b)"
    using validate_phases_append [of env profiles i b known ps "a @ q # bs" "p # post"] v ok by auto
  have "(ph_Group q, ph_Job q) \<in> held_joins b'"
    unfolding r(3) by (simp add: fold_joins_keep [OF _ kept] step_joins_def q)
  moreover obtain p0 ps0 st'' where "validate_phase env profiles i' (b', known') p0 = Inr (p, st'')"
    using r(1) by (cases ps') (auto split: sum.split_asm)
  then obtain b'' k where a: "action_phase env profiles (b', known') (normalize_phase i' p0) = Inr (p, b'', k)"
    by (cases st'') (auto elim: validate_phase_Inr)
  moreover have "ph_Action (normalize_phase i' p0) = ''wait-ready''"
    using action_phase_joins(4) [OF a r(2)] p(1) by simp
  ultimately show ?thesis
    using action_phase_ready [OF a r(2) p(1) _ p(2)] p(3) by blast
qed

lemma accepted_phases:
  assumes "Scenario_Validate env s = Inr s'"
  shows "validate_phases env (scn_Profiles s) 0 ([], []) (scn_Phases s) = Inr (scn_Phases s')"
  using assms
  by (cases "validate_phases env (scn_Profiles s) 0 ([], []) (scn_Phases s)")
     (auto simp: Scenario_Validate_def Let_def split: option.split_asm)

text \<open>C14: In an accepted scenario no wait-ready phase can be overtaken by a join that is still running. If
  a phase waits for readiness without a minimum count, every earlier background join of its group (of
  any group, when it names none) is one of the jobs it waits for, unless a phase in between has already
  waited for that job or stopped everything.\<close>

theorem wait_ready_covers_background_joins:
  assumes "Scenario_Validate env s = Inr s'" and "scn_Phases s' = before @ j # between @ w # after"
    and "background_join j" and "ph_Action w = ''wait-ready''" and "ph_MinCount w = 0"
    and "ph_Group w = [] \<or> ph_Group j = ph_Group w"
  shows "ph_Job j \<in> set (ph_Jobs w) \<or> (\<exists>r \<in> set between. releases r (ph_Job j))"
proof -
  have v: "validate_phases env (scn_Profiles s) 0 ([], []) (scn_Phases s) = Inr (before @ j # between @ w # after)"
    using accepted_phases [OF assms(1)] assms(2) by simp
  show ?thesis using accepted_wait_ready [OF v _ assms(3-6)] by auto
qed

section \<open>Names of background jobs\<close>

lemma action_phase_known:
  assumes "action_phase env profiles (b, known) p = Inr (q, b', known')"
  shows "known' = (if ph_Action p = ''stop-all'' then [] else known)"
  using assms
  by (auto simp: action_phase_def join_phase_def wait_ready_phase_def wait_jobs_phase_def publish_phase_def Let_def
      split: if_split_asm option.split_asm sum.split_asm)

definition step_known :: "phase \<Rightarrow> gostring set \<Rightarrow> gostring set" where
  "step_known q K = (if ph_Action q = ''stop-all'' then {} else K) \<union> (if ShouldAwait q then {} else {ph_Job q})"

lemma validate_phase_known:
  assumes "validate_phase env profiles i (b, known) p0 = Inr (q, b', known')" and "joins_ok b"
  shows "joins_ok b'" "set known' = step_known q (set known)"
    "\<not> ShouldAwait q \<Longrightarrow> ph_Action q \<noteq> ''stop-all'' \<and> ph_Job q \<notin> set known"
proof -
  obtain k where a: "action_phase env profiles (b, known) (normalize_phase i p0) = Inr (q, b', k)"
    "closingError k q = None" "known' = (if ShouldAwait q then k else ph_Job q # k)"
    using validate_phase_Inr [OF assms(1)] by metis
  note j = action_phase_joins [OF a(1) assms(2) normalize_frame(5)]
  have k: "k = (if ph_Action q = ''stop-all'' then [] else known)"
    using action_phase_known [OF a(1)] j(4) by simp
  show "joins_ok b'" by (rule j(1))
  show "set known' = step_known q (set known)" using a(3) k by (auto simp: step_known_def)
  show "ph_Action q \<noteq> ''stop-all'' \<and> ph_Job q \<notin> set known" if "\<not> ShouldAwait q"
    using a(2) k that by (auto simp: closingError_def first_error_None)
qed

lemma known_step:
  "validate_phases env profiles i (b, known) ps = Inr (pre @ rest) \<Longrightarrow> joins_ok b \<Longrightarrow>
   \<exists>i' b' known' ps'. validate_phases env profiles i' (b', known') ps' = Inr rest \<and> joins_ok b'
     \<and> set known' = fold step_known pre (set known)"
proof (induction pre arbitrary: i b known ps)
  case Nil
  then show ?case by auto
next
  case (Cons q pre)
  from Cons.prems(1) obtain p0 ps0 b1 known1 where ps: "validate_phase env profiles i (b, known) p0 = Inr (q, b1, known1)"
    "validate_phases env profiles (i + 1) (b1, known1) ps0 = Inr (pre @ rest)"
    by (cases ps) (auto split: sum.split_asm)
  from Cons.IH [OF ps(2)] validate_phase_known [OF ps(1) Cons.prems(2)] show ?case by simp
qed

lemma fold_known_keep:
  "j \<in> K \<Longrightarrow> \<forall>r \<in> set rs. ph_Action r \<noteq> ''stop-all'' \<Longrightarrow> j \<in> fold step_known rs K"
  by (induction rs arbitrary: K) (auto simp: step_known_def)

text \<open>Background jobs of an accepted scenario have names of their own: two background phases never
  share a job name unless a stop-all phase lies between them.\<close>

theorem background_jobs_distinct:
  assumes "Scenario_Validate env s = Inr s'" and "scn_Phases s' = before @ p # between @ q # after"
    and "\<not> ShouldAwait p" and "\<not> ShouldAwait q" and "ph_Job p = ph_Job q"
  shows "\<exists>r \<in> set between. ph_Action r = ''stop-all''"
proof (rule ccontr)
  assume none: "\<not> ?thesis"
  have v: "validate_phases env (scn_Profiles s) 0 ([], []) (scn_Phases s) = Inr ((before @ p # between) @ q # after)"
    using accepted_phases [OF assms(1)] assms(2) by simp
  from known_step [OF v held_empty(2)] obtain i b known ps' where r:
    "validate_phases env (scn_Profiles s) i (b, known) ps' = Inr (q # after)" "joins_ok b"
    "set known = fold step_known (before @ p # between) {}" by auto
  have "ph_Job p \<in> set known"
    unfolding r(3) using none assms(3) by (simp add: fold_known_keep step_known_def)
  moreover obtain p0 b' k' where "validate_phase env (scn_Profiles s) i (b, known) p0 = Inr (q, b', k')"
    using r(1) by (cases ps') (auto split: sum.split_asm)
  ultimately show False using validate_phase_known(3) [OF _ r(2)] assms(4,5) by metis
qed

section \<open>The shape of a phase\<close>

definition phase_ok :: "'k pubsub_env \<Rightarrow> phase \<Rightarrow> bool" where
  "phase_ok env p \<longleftrightarrow>
     ph_Name p \<noteq> [] \<and> ph_Job p \<noteq> [] \<and> 1 \<le> ph_Repeat p \<and> 0 \<le> ph_Parallelism p
     \<and> (ph_Action p \<in> {''join'', ''publish'', ''leave''} \<longrightarrow> ph_Group p \<noteq> [] \<and> 1 \<le> ph_Count p
          \<and> Distribution_Validate True (ph_Interval p) = None)
     \<and> (ph_Action p = ''join'' \<longrightarrow> Distribution_Validate True (ph_Lifetime p) = None
          \<and> ph_Placement p \<in> {''balanced'', ''single-agent'', ''random''} \<and> ph_Role p \<in> {''boot'', ''worker''}
          \<and> Node_Validate env (ph_Node p) = None \<and> node_WithDefaults (ph_Node p) = ph_Node p
          \<and> ph_NodeType p = nc_Type (ph_Node p))
     \<and> (ph_Action p = ''wait'' \<longrightarrow> (\<exists>d > 0. ParseDuration (ph_Duration p) = Some d))
     \<and> (ph_Action p \<in> {''wait-ready'', ''wait-jobs''} \<longrightarrow> (\<exists>d > 0. ParseDuration (ph_Timeout p) = Some d))
     \<and> (ph_Action p = ''wait-ready'' \<longrightarrow> 0 \<le> ph_MinCount p \<and> (\<exists>r. ph_ReadyRatio p = Fin r \<and> 0 < r \<and> r \<le> 1))
     \<and> (ph_Action p = ''publish'' \<longrightarrow> 1 \<le> ph_PayloadSize p \<and> ph_PayloadSize p \<le> MaxPublishPayloadBytes
          \<and> ph_PayloadEncoding p \<in> {''envelope'', ''raw''}
          \<and> (\<exists>d. ParseDuration (ph_DeliveryWindow p) = Some d \<and> 0 < d \<and> d \<le> Hour))
     \<and> ph_Action p \<in> {''join'', ''wait'', ''wait-ready'', ''wait-jobs'', ''publish'', ''leave'', ''stop-all'', ''log''}
     \<and> (\<not> ShouldAwait p \<or> ph_Parallel p \<longrightarrow> ph_Action p \<in> {''join'', ''publish'', ''leave''})"

lemma positiveSetting_None: "positiveSetting n v = None \<longleftrightarrow> (\<exists>d > 0. ParseDuration v = Some d)"
  by (auto simp: positiveSetting_def not_le split: option.split)

lemma distributionError_None [simp]: "distributionError w d = None \<longleftrightarrow> Distribution_Validate True d = None"
  by (simp add: distributionError_def)

lemma resolve_result:
  assumes "resolveNodeConfig env profiles p = Inr q"
  shows "Node_Validate env (ph_Node q) = None" "node_WithDefaults (ph_Node q) = ph_Node q"
    "ph_NodeType q = nc_Type (ph_Node q)" "ph_Name q = ph_Name p" "ph_Placement q = ph_Placement p"
    "ph_Role q = ph_Role p" "ph_Interval q = ph_Interval p" "ph_Lifetime q = ph_Lifetime p"
    "ph_Repeat q = ph_Repeat p" "ph_Parallelism q = ph_Parallelism p" "ph_Parallel q = ph_Parallel p"
  using assms
  by (auto simp: resolveNodeConfig_def Let_def defaults_idem split: option.split_asm if_split_asm)

lemma ratio_range:
  "\<not> (IsNaN v \<or> float_le v (Fin 0) \<or> float_less (Fin 1) v) \<Longrightarrow> \<exists>r. v = Fin r \<and> 0 < r \<and> r \<le> 1"
  by (cases v) (auto simp: IsNaN_def float_le_def float_eq_def)

lemma join_phase_ok:
  assumes "join_phase env profiles st p = Inr (q, st')" and "ph_Action p = ''join''"
    and "ph_Name p \<noteq> []" "ph_Job p \<noteq> []" "phaseError p = None" and "closingError k q = None"
  shows "phase_ok env q"
proof -
  obtain b known where st: "st = (b, known)" by (cases st)
  let ?p = "p\<lparr>ph_Placement := over_string ''balanced'' (ph_Placement p), ph_Role := over_string ''worker'' (ph_Role p)\<rparr>"
  have r: "resolveNodeConfig env profiles ?p = Inr q"
    and c: "ph_Placement ?p \<in> {''balanced'', ''single-agent'', ''random''}" "ph_Role ?p \<in> {''boot'', ''worker''}"
      "ph_Group p \<noteq> []" "1 \<le> ph_Count p" "Distribution_Validate True (ph_Interval p) = None"
      "Distribution_Validate True (ph_Lifetime p) = None"
    using assms(1) unfolding st
    by (auto simp: join_phase_def Let_def first_error_None split: option.split_asm sum.split_asm)
  have g: "1 \<le> ph_Repeat p" "0 \<le> ph_Parallelism p" using assms(5) by (simp_all add: phaseError_def first_error_None)
  from resolve_result [OF r] resolve_frame [OF r] c g assms(2-4) show ?thesis by (simp add: phase_ok_def)
qed

lemma validate_phase_ok:
  assumes "validate_phase env profiles i st p0 = Inr (q, st')"
  shows "phase_ok env q"
proof -
  obtain b known where st: "st = (b, known)" by (cases st)
  obtain b' k' where st': "st' = (b', k')" by (cases st')
  let ?p = "normalize_phase i p0"
  obtain k where a: "action_phase env profiles (b, known) ?p = Inr (q, b', k)" "phaseError ?p = None"
    "closingError k q = None"
    using validate_phase_Inr assms unfolding st st' by metis
  have n: "ph_Name ?p \<noteq> []" by (simp add: normalize_phase_def Let_def over_string_def)
  show ?thesis
  proof (cases "ph_Action ?p = ''join''")
    case True
    then have "join_phase env profiles (b, known) ?p = Inr (q, b', k)" using a(1) by (simp add: action_phase_def)
    from join_phase_ok [OF this True n normalize_frame(5) a(2,3)] show ?thesis .
  next
    case False
    have g: "1 \<le> ph_Repeat ?p" "0 \<le> ph_Parallelism ?p"
      using a(2) by (simp_all add: phaseError_def first_error_None)
    have c: "\<not> ShouldAwait q \<or> ph_Parallel q \<longrightarrow> ph_Action q \<in> {''join'', ''publish'', ''leave''}"
      using a(3) by (auto simp: closingError_def first_error_None)
    from a(1) False show ?thesis
    proof (unfold action_phase_def, simp only: if_False split: if_split_asm, goal_cases)
      case 1
      then show ?case using c n g by (auto simp: phase_ok_def positiveSetting_None)
    next
      case 2
      then show ?case using c n g ratio_range
        by (auto simp: phase_ok_def positiveSetting_None wait_ready_phase_def Let_def first_error_None)
    next
      case 3
      then show ?case using c n g
        by (auto simp: phase_ok_def positiveSetting_None wait_jobs_phase_def Let_def first_error_None)
    next
      case 4
      then show ?case using c n g
        by (auto simp: phase_ok_def publish_phase_def Let_def first_error_None not_le not_less split: option.split_asm)
    qed (use c n g in \<open>auto simp: phase_ok_def first_error_None\<close>)
  qed
qed

lemma validate_phases_ok: "validate_phases env profiles i st ps = Inr qs \<Longrightarrow> list_all (phase_ok env) qs"
proof (induction ps arbitrary: i st qs)
  case Nil
  then show ?case by simp
next
  case (Cons p ps)
  obtain q st1 where q: "validate_phase env profiles i st p = Inr (q, st1)"
    using Cons.prems by (cases "validate_phase env profiles i st p") auto
  obtain qs' where qs: "validate_phases env profiles (i + 1) st1 ps = Inr qs'" "qs = q # qs'"
    using Cons.prems q by (cases "validate_phases env profiles (i + 1) st1 ps") auto
  from validate_phase_ok [OF q] Cons.IH [OF qs(1)] show ?case by (simp add: qs(2))
qed

text \<open>Every phase of an accepted scenario has the shape the runner relies on: a known action with its
  settings in range (counts, durations, ratio, payload size, placement, role), background and parallel
  execution only where they are supported, and for a join a node configuration that is valid and
  already carries its defaults.\<close>

theorem accepted_phase_shape:
  assumes "Scenario_Validate env s = Inr s'"
  shows "list_all (phase_ok env) (scn_Phases s')"
  by (rule validate_phases_ok [OF accepted_phases [OF assms]])

section \<open>A scenario\<close>

definition no_distribution :: distribution where
  "no_distribution = demo_fixed\<lparr>ds_Model := []\<rparr>"

definition demo_phase :: phase where
  "demo_phase = \<lparr>ph_Name = [], ph_Job = [], ph_Jobs = [], ph_Action = [], ph_OnError = [], ph_AgentID = [],
     ph_Placement = [], ph_Group = ''g'', ph_Role = [], ph_Profile = [], ph_NodeType = [], ph_Count = 1,
     ph_Repeat = 0, ph_Parallel = False, ph_Parallelism = 0, ph_Await = None, ph_Duration = [],
     ph_Timeout = [], ph_Message = [], ph_ReadyRatio = Fin 0, ph_MinCount = 0, ph_PayloadSize = 0,
     ph_PayloadEncoding = [], ph_DeliveryWindow = [], ph_Topic = [], ph_Interval = no_distribution,
     ph_Lifetime = no_distribution, ph_Node = empty_node\<rparr>"

definition demo_scenario :: "phase list \<Rightarrow> scenario" where
  "demo_scenario ps = \<lparr>scn_Version = 0, scn_Name = ''demo'', scn_Seed = 1, scn_OnExit = [],
     scn_JobShutdownTimeout = [], scn_Profiles = [], scn_Phases = ps\<rparr>"

definition demo_background :: scenario where
  "demo_background = demo_scenario [demo_phase\<lparr>ph_Action := ''join'', ph_Await := Some False\<rparr>,
     demo_phase\<lparr>ph_Action := ''wait-ready'', ph_Jobs := [''phase-1'']\<rparr>]"

definition demo_libraries :: "unit pubsub_env" where
  "demo_libraries = \<lparr>pe_DecodePeer = Some, pe_AddrInfo = (\<lambda>_. None), pe_Compile = (\<lambda>_. None),
     pe_UnmarshalKey = (\<lambda>_. None), pe_KeyPeer = (\<lambda>_. None)\<rparr>"

lemma demo_background_eval:
  "case Scenario_Validate demo_libraries demo_background of Inl _ \<Rightarrow> False
   | Inr s \<Rightarrow> (case scn_Phases s of [j, w] \<Rightarrow> background_join j \<and> ph_Action w = ''wait-ready''
       \<and> ph_MinCount w = 0 \<and> ph_Group j = ph_Group w | _ \<Rightarrow> False)"
  by code_simp

theorem wait_ready_covers_background_joins_witness:
  "\<exists>s j w. Scenario_Validate demo_libraries demo_background = Inr s \<and> scn_Phases s = [j, w]
     \<and> ph_Job j \<in> set (ph_Jobs w)"
proof -
  obtain s j w where s: "Scenario_Validate demo_libraries demo_background = Inr s" "scn_Phases s = [] @ j # [] @ w # []"
    "background_join j" "ph_Action w = ''wait-ready''" "ph_MinCount w = 0" "ph_Group w = [] \<or> ph_Group j = ph_Group w"
    using demo_background_eval by (auto split: sum.split_asm list.split_asm)
  from wait_ready_covers_background_joins [OF s] s(1,2) show ?thesis by auto
qed

definition demo_jobs :: scenario where
  "demo_jobs = demo_scenario [demo_phase\<lparr>ph_Action := ''publish'', ph_Await := Some False, ph_Job := ''x''\<rparr>,
     demo_phase\<lparr>ph_Action := ''reset''\<rparr>,
     demo_phase\<lparr>ph_Action := ''publish'', ph_Await := Some False, ph_Job := ''x''\<rparr>]"

lemma demo_jobs_eval:
  "case Scenario_Validate demo_libraries demo_jobs of Inl _ \<Rightarrow> False
   | Inr s \<Rightarrow> (case scn_Phases s of [p, r, q] \<Rightarrow> \<not> ShouldAwait p \<and> \<not> ShouldAwait q \<and> ph_Job p = ph_Job q | _ \<Rightarrow> False)"
  by code_simp

theorem background_jobs_distinct_witness:
  "\<exists>s p r q. Scenario_Validate demo_libraries demo_jobs = Inr s \<and> scn_Phases s = [p, r, q]
     \<and> ph_Action r = ''stop-all''"
proof -
  obtain s p r q where s: "Scenario_Validate demo_libraries demo_jobs = Inr s" "scn_Phases s = [] @ p # [r] @ q # []"
    "\<not> ShouldAwait p" "\<not> ShouldAwait q" "ph_Job p = ph_Job q"
    using demo_jobs_eval by (auto split: sum.split_asm list.split_asm)
  from background_jobs_distinct [OF s] s(1,2) show ?thesis by auto
qed

theorem accepted_phase_shape_witness:
  "case Scenario_Validate demo_libraries demo_jobs of Inl _ \<Rightarrow> False
   | Inr s \<Rightarrow> list_all (phase_ok demo_libraries) (scn_Phases s) \<and> length (scn_Phases s) = 3"
  using demo_jobs_eval accepted_phase_shape [of demo_libraries demo_jobs]
  by (auto split: sum.split_asm list.split_asm)

end
