(* ===== verification/MeasurementEvents.thy ===== *)
theory MeasurementEvents
  imports GoFloat "HOL-Library.Word"
begin

text \<open>
  The telemetry events the Controller measures a run from (\<open>internal/model/model.go\<close>,
  \<open>internal/model/bandwidth.go\<close>), and how the code reads the loosely typed \<open>fields\<close> of one
  (\<open>internal/controller/run_metrics.go\<close>, \<open>metrics.go\<close>).
\<close>

section \<open>Values of fields\<close>

text \<open>
  The dynamic types the code tells apart in a value of type \<open>any\<close>. A \<open>float32\<close> is given as the
  double it converts to; the number types without a constructor of their own (\<open>int32\<close>, \<open>uint\<close>,
  \<open>uint64\<close>, \<open>uint32\<close>) are \<open>AnyOtherInt\<close>. A \<open>json.Number\<close> is given by the result of its
  \<open>Float64\<close> method: the value, and whether there was no error. A nil slice is None.
\<close>

datatype any_value =
    AnyNil
  | AnyBool bool
  | AnyString gostring
  | AnyFloat64 float64
  | AnyFloat32 float64
  | AnyInt int
  | AnyInt64 int
  | AnyOtherInt int
  | AnyNumber float64 bool
  | AnyStrings "gostring list option"
  | AnyList "any_value list option"
  | AnyMap "(gostring \<times> any_value) list"

type_synonym event_fields = "(gostring, any_value) gomap"

text \<open>\<open>v, _ := fields[key].(string)\<close> and the same for a bool: the zero value of the wrong type.\<close>

definition as_string :: "any_value option \<Rightarrow> gostring option" where
  "as_string v = (case v of Some (AnyString s) \<Rightarrow> Some s | _ \<Rightarrow> None)"

definition string_field :: "event_fields \<Rightarrow> gostring \<Rightarrow> gostring" where
  "string_field fs k = (case as_string (map_of fs k) of Some s \<Rightarrow> s | None \<Rightarrow> [])"

definition bool_field :: "event_fields \<Rightarrow> gostring \<Rightarrow> bool" where
  "bool_field fs k = (case map_of fs k of Some (AnyBool b) \<Rightarrow> b | _ \<Rightarrow> False)"

definition numericEventField :: "event_fields \<Rightarrow> gostring \<Rightarrow> float64 \<times> bool" where
  "numericEventField fs k =
     (case map_of fs k of
        Some (AnyFloat64 f) \<Rightarrow> (f, True)
      | Some (AnyFloat32 f) \<Rightarrow> (f, True)
      | Some (AnyInt i) \<Rightarrow> (float_of_int i, True)
      | Some (AnyInt64 i) \<Rightarrow> (float_of_int i, True)
      | Some (AnyNumber f ok) \<Rightarrow> (f, ok)
      | _ \<Rightarrow> (Fin 0, False))"

fun all_strings :: "any_value list \<Rightarrow> gostring list option" where
  "all_strings [] = Some []"
| "all_strings (AnyString s # vs) = map_option (Cons s) (all_strings vs)"
| "all_strings (_ # _) = None"

text \<open>The identifiers of a list field, and whether they are known; unknown ones are empty.\<close>

definition targetNodeIDs :: "any_value option \<Rightarrow> gostring list \<times> bool" where
  "targetNodeIDs v =
     (case v of
        Some (AnyStrings ss) \<Rightarrow> (elems ss, ss \<noteq> None)
      | Some (AnyList (Some vs)) \<Rightarrow>
          (case all_strings vs of Some ids \<Rightarrow> (ids, True) | None \<Rightarrow> ([], False))
      | _ \<Rightarrow> ([], False))"

definition nonnegativeMetricNumber :: "any_value option \<Rightarrow> float64 \<times> bool" where
  "nonnegativeMetricNumber v =
     (let read = (case v of
          Some (AnyFloat64 f) \<Rightarrow> Some f
        | Some (AnyFloat32 f) \<Rightarrow> Some f
        | Some (AnyInt i) \<Rightarrow> Some (float_of_int i)
        | Some (AnyInt64 i) \<Rightarrow> Some (float_of_int i)
        | Some (AnyOtherInt i) \<Rightarrow> Some (float_of_int i)
        | Some (AnyNumber f ok) \<Rightarrow> if ok then Some f else None
        | _ \<Rightarrow> None)
      in case read of
           None \<Rightarrow> (Fin 0, False)
         | Some f \<Rightarrow> (f, float_le (Fin 0) f \<and> \<not> IsNaN f \<and> \<not> IsInf f))"

fun is_integral :: "float64 \<Rightarrow> bool" where
  "is_integral (Fin x) = (of_int (float_trunc (Fin x)) = x)"
| "is_integral NaN = False"
| "is_integral _ = True"

definition nonnegativeMetricCount :: "any_value option \<Rightarrow> float64 \<times> bool" where
  "nonnegativeMetricCount v =
     (case nonnegativeMetricNumber v of (f, ok) \<Rightarrow> (f, ok \<and> is_integral f))"

definition nonnegativeEventCount :: "event_fields \<Rightarrow> gostring \<Rightarrow> int" where
  "nonnegativeEventCount fs k =
     (case nonnegativeMetricCount (map_of fs k) of
        (f, ok) \<Rightarrow> if \<not> ok \<or> float_less (Fin 2147483647) f then 0 else float_trunc f)"

lemma nonnegativeMetricNumber_ok:
  assumes "nonnegativeMetricNumber v = (f, True)" shows "\<exists>x \<ge> 0. f = Fin x"
proof -
  have "float_le (Fin 0) f \<and> \<not> IsNaN f \<and> \<not> IsInf f"
    using assms unfolding nonnegativeMetricNumber_def Let_def by (simp split: option.splits)
  then show ?thesis by (cases f) (auto simp: IsNaN_def IsInf_def float_le_def float_eq_def)
qed

lemma nonnegativeEventCount_bounds:
  "0 \<le> nonnegativeEventCount fs k \<and> nonnegativeEventCount fs k \<le> 2147483647"
proof (cases "nonnegativeMetricNumber (map_of fs k)")
  case (Pair f ok)
  have "0 \<le> float_trunc f \<and> float_trunc f \<le> 2147483647" if ok: ok "\<not> float_less (Fin 2147483647) f"
  proof -
    obtain x where x: "f = Fin x" "0 \<le> x"
      using nonnegativeMetricNumber_ok [of "map_of fs k" f] Pair ok(1) by auto
    then have "x \<le> 2147483647" using ok(2) by simp
    then show ?thesis using x by (simp add: floor_le_iff)
  qed
  then show ?thesis by (simp add: nonnegativeEventCount_def nonnegativeMetricCount_def Pair)
qed

section \<open>Bandwidth samples and events\<close>

record bandwidth_protocol =
  bp_Protocol :: gostring
  bp_ReceivedBytes :: int
  bp_SentBytes :: int

record bandwidth_sample =
  bs_ElapsedNS :: int
  bs_ReceivedBytes :: int
  bs_SentBytes :: int
  bs_Protocols :: "bandwidth_protocol list"
  bs_Final :: bool

record trace_event =
  te_Group :: gostring
  te_Bandwidth :: "bandwidth_sample option"
  te_SessionID :: gostring
  te_Sequence :: "64 word"
  te_EventID :: gostring
  te_RunID :: gostring
  te_AgentID :: gostring
  te_NodeID :: gostring
  te_PeerID :: gostring
  te_Type :: gostring
  te_MessageID :: gostring
  te_RemotePeerID :: gostring
  te_Topic :: gostring
  te_Timestamp :: go_time
  te_LatencyMS :: float64
  te_Fields :: event_fields

definition zero_event :: trace_event where
  "zero_event = \<lparr>te_Group = [], te_Bandwidth = None, te_SessionID = [], te_Sequence = 0, te_EventID = [],
     te_RunID = [], te_AgentID = [], te_NodeID = [], te_PeerID = [], te_Type = [], te_MessageID = [],
     te_RemotePeerID = [], te_Topic = [], te_Timestamp = 0, te_LatencyMS = Fin 0, te_Fields = []\<rparr>"

text \<open>A measurement session is one source of events: a Peer node and a session of it.\<close>

record session_key =
  sk_nodeID :: gostring
  sk_sessionID :: gostring

definition session_of :: "trace_event \<Rightarrow> session_key" where
  "session_of e = \<lparr>sk_nodeID = te_NodeID e, sk_sessionID = te_SessionID e\<rparr>"

end
