(* ===== verification/Bandwidth.thy ===== *)
theory Bandwidth
  imports MeasurementEvents
begin

text \<open>
  The bandwidth accumulator of a run (\<open>internal/controller/bandwidth.go\<close>): cumulative counters per
  session, checked before they are installed, and their whole-run totals.
\<close>

section \<open>The code\<close>

record bandwidth_interval =
  bi_at :: go_time
  bi_durationNS :: int
  bi_receivedBytes :: int
  bi_sentBytes :: int
  bi_protocols :: "bandwidth_protocol list"

record bandwidth_session =
  bw_agentID :: gostring
  bw_at :: go_time
  bw_sample :: bandwidth_sample
  bw_interval :: bandwidth_interval

record bandwidth_accumulator =
  ba_sessions :: "(session_key, bandwidth_session) gomap"
  ba_receivedBytes :: int
  ba_sentBytes :: int
  ba_samples :: nat
  ba_rejected :: nat
  ba_superseded :: nat

definition empty_bandwidth :: bandwidth_accumulator where
  "empty_bandwidth = \<lparr>ba_sessions = [], ba_receivedBytes = 0, ba_sentBytes = 0, ba_samples = 0,
     ba_rejected = 0, ba_superseded = 0\<rparr>"

definition zero_sample :: bandwidth_sample where
  "zero_sample = \<lparr>bs_ElapsedNS = 0, bs_ReceivedBytes = 0, bs_SentBytes = 0, bs_Protocols = [], bs_Final = False\<rparr>"

definition zero_protocol :: bandwidth_protocol where
  "zero_protocol = \<lparr>bp_Protocol = [], bp_ReceivedBytes = 0, bp_SentBytes = 0\<rparr>"

fun protocols_valid :: "gostring set \<Rightarrow> int \<Rightarrow> int \<Rightarrow> bandwidth_protocol list \<Rightarrow> bool" where
  "protocols_valid seen remainingIn remainingOut [] = True"
| "protocols_valid seen remainingIn remainingOut (p # ps) =
     (if bp_Protocol p \<in> seen \<or> bp_ReceivedBytes p < 0 \<or> bp_SentBytes p < 0
         \<or> remainingIn < bp_ReceivedBytes p \<or> remainingOut < bp_SentBytes p then False
      else protocols_valid (insert (bp_Protocol p) seen) (remainingIn - bp_ReceivedBytes p)
             (remainingOut - bp_SentBytes p) ps)"

definition validBandwidthSample :: "trace_event \<Rightarrow> bool" where
  "validBandwidthSample e \<longleftrightarrow>
     (case te_Bandwidth e of
        None \<Rightarrow> False
      | Some s \<Rightarrow>
          \<not> (te_NodeID e = [] \<or> te_SessionID e = [] \<or> IsZero (te_Timestamp e) \<or> bs_ElapsedNS s \<le> 0
             \<or> bs_ReceivedBytes s < 0 \<or> bs_SentBytes s < 0)
          \<and> protocols_valid {} (bs_ReceivedBytes s) (bs_SentBytes s) (bs_Protocols s))"

definition by_protocol :: "bandwidth_protocol list \<Rightarrow> (gostring, bandwidth_protocol) gomap" where
  "by_protocol ps = foldl (\<lambda>m p. AList.update (bp_Protocol p) p m) [] ps"

text \<open>
  The loop over the protocols of a sample: None when one of them went back, otherwise the
  differences and the protocols of the previous sample that the new one does not name.
\<close>

fun protocol_deltas :: "(gostring, bandwidth_protocol) gomap \<Rightarrow> bandwidth_protocol list
    \<Rightarrow> (bandwidth_protocol list \<times> (gostring, bandwidth_protocol) gomap) option" where
  "protocol_deltas old [] = Some ([], old)"
| "protocol_deltas old (p # ps) =
     (let before = mget zero_protocol old (bp_Protocol p)
      in if bp_ReceivedBytes p < bp_ReceivedBytes before \<or> bp_SentBytes p < bp_SentBytes before then None
         else case protocol_deltas (AList.delete (bp_Protocol p) old) ps of
                None \<Rightarrow> None
              | Some (ds, rest) \<Rightarrow>
                  Some (\<lparr>bp_Protocol = bp_Protocol p, bp_ReceivedBytes = bp_ReceivedBytes p - bp_ReceivedBytes before,
                         bp_SentBytes = bp_SentBytes p - bp_SentBytes before\<rparr> # ds, rest))"

definition bandwidth_observe ::
  "trace_event \<Rightarrow> bandwidth_accumulator \<Rightarrow> bandwidth_interval option \<times> bandwidth_accumulator" where
  "bandwidth_observe e a =
     (let reject = (None, a\<lparr>ba_rejected := ba_rejected a + 1\<rparr>)
      in if te_Type e \<noteq> ''bandwidth'' then (None, a)
         else if \<not> validBandwidthSample e then reject
         else
           let s = (case te_Bandwidth e of Some s \<Rightarrow> s | None \<Rightarrow> zero_sample);
               key = session_of e;
               old = map_of (ba_sessions a) key;
               prev = (case old of Some b \<Rightarrow> bw_sample b | None \<Rightarrow> zero_sample)
           in if old \<noteq> None \<and> bs_ElapsedNS s \<le> bs_ElapsedNS prev
              then (None, a\<lparr>ba_superseded := ba_superseded a + 1\<rparr>)
              else if old \<noteq> None \<and> (bs_Final prev \<or> bs_ReceivedBytes s < bs_ReceivedBytes prev
                                      \<or> bs_SentBytes s < bs_SentBytes prev) then reject
              else
                let received = bs_ReceivedBytes s - bs_ReceivedBytes prev;
                    sent = bs_SentBytes s - bs_SentBytes prev
                in if MaxInt64 - ba_receivedBytes a < received \<or> MaxInt64 - ba_sentBytes a < sent then reject
                   else
                     case protocol_deltas (by_protocol (bs_Protocols prev)) (bs_Protocols s) of
                       None \<Rightarrow> reject
                     | Some (ds, rest) \<Rightarrow>
                         if rest \<noteq> [] then reject
                         else
                           let interval = \<lparr>bi_at = te_Timestamp e, bi_durationNS = bs_ElapsedNS s - bs_ElapsedNS prev,
                                 bi_receivedBytes = received, bi_sentBytes = sent, bi_protocols = ds\<rparr>
                           in (Some interval,
                               a\<lparr>ba_sessions := AList.update key
                                    \<lparr>bw_agentID = te_AgentID e, bw_at = te_Timestamp e, bw_sample = s, bw_interval = interval\<rparr>
                                    (ba_sessions a),
                                 ba_receivedBytes := ba_receivedBytes a + received,
                                 ba_sentBytes := ba_sentBytes a + sent,
                                 ba_samples := ba_samples a + 1\<rparr>))"

definition bandwidthSampleMaxAge :: duration where "bandwidthSampleMaxAge = 15 * Second"

definition rateFactor :: "go_time \<Rightarrow> bandwidth_session \<Rightarrow> float64 \<times> bool" where
  "rateFactor now b =
     (if bs_Final (bw_sample b) then (Fin 0, True)
      else
        let age = time_Sub now (bw_at b)
        in if age < - bandwidthSampleMaxAge \<or> bandwidthSampleMaxAge < age \<or> bi_durationNS (bw_interval b) \<le> 0
           then (Fin 0, False)
           else (float_div (Fin 8000000000) (float_of_int (bi_durationNS (bw_interval b))), True))"

record bandwidth_rates =
  br_Available :: bool
  br_SentBitsPerSecond :: float64
  br_ReceivedBitsPerSecond :: float64
  br_ReportingSessions :: nat
  br_StaleSessions :: nat

definition add_rate :: "go_time \<Rightarrow> bandwidth_rates \<Rightarrow> bandwidth_session \<Rightarrow> bandwidth_rates" where
  "add_rate now r b =
     (case rateFactor now b of (factor, fresh) \<Rightarrow>
        if \<not> fresh then r\<lparr>br_StaleSessions := br_StaleSessions r + 1\<rparr>
        else r\<lparr>br_ReportingSessions := br_ReportingSessions r + (if bs_Final (bw_sample b) then 0 else 1),
               br_SentBitsPerSecond := float_add (br_SentBitsPerSecond r)
                 (float_mul (float_of_int (bi_sentBytes (bw_interval b))) factor),
               br_ReceivedBitsPerSecond := float_add (br_ReceivedBitsPerSecond r)
                 (float_mul (float_of_int (bi_receivedBytes (bw_interval b))) factor)\<rparr>)"

definition currentRates :: "go_time \<Rightarrow> bandwidth_accumulator \<Rightarrow> bandwidth_rates" where
  "currentRates now a =
     (let r = foldl (add_rate now)
            \<lparr>br_Available = False, br_SentBitsPerSecond = Fin 0, br_ReceivedBitsPerSecond = Fin 0,
             br_ReportingSessions = 0, br_StaleSessions = 0\<rparr> (map snd (ba_sessions a))
      in r\<lparr>br_Available := 0 < br_ReportingSessions r \<or> (0 < length (ba_sessions a) \<and> br_StaleSessions r = 0)\<rparr>)"

record bandwidth_summary =
  bu_Scope :: gostring
  bu_Sessions :: nat
  bu_FinalizedSessions :: nat
  bu_Samples :: nat
  bu_RejectedSamples :: nat
  bu_SupersededSamples :: nat
  bu_ReceivedBytes :: int
  bu_SentBytes :: int
  bu_Protocols :: "bandwidth_protocol list"
  bu_LatestAt :: go_time

definition BandwidthScope :: gostring where "BandwidthScope = ''libp2p-stream-v1''"

definition add_protocol_total :: "(gostring, bandwidth_protocol) gomap \<Rightarrow> bandwidth_protocol
    \<Rightarrow> (gostring, bandwidth_protocol) gomap" where
  "add_protocol_total m p =
     (let total = mget zero_protocol m (bp_Protocol p)
      in AList.update (bp_Protocol p)
           \<lparr>bp_Protocol = bp_Protocol p, bp_ReceivedBytes = bp_ReceivedBytes total + bp_ReceivedBytes p,
            bp_SentBytes = bp_SentBytes total + bp_SentBytes p\<rparr> m)"

definition protocol_totals :: "bandwidth_session list \<Rightarrow> (gostring, bandwidth_protocol) gomap" where
  "protocol_totals bs = foldl (\<lambda>m b. foldl add_protocol_total m (bs_Protocols (bw_sample b))) [] bs"

definition bandwidth_summarize :: "bandwidth_accumulator \<Rightarrow> bandwidth_summary option" where
  "bandwidth_summarize a =
     (if ba_samples a = 0 \<and> ba_rejected a = 0 then None
      else
        let bs = map snd (ba_sessions a)
        in Some \<lparr>bu_Scope = BandwidthScope, bu_Sessions = length bs,
             bu_FinalizedSessions = length (filter (\<lambda>b. bs_Final (bw_sample b)) bs),
             bu_Samples = ba_samples a, bu_RejectedSamples = ba_rejected a,
             bu_SupersededSamples = ba_superseded a,
             bu_ReceivedBytes = ba_receivedBytes a, bu_SentBytes = ba_sentBytes a,
             bu_Protocols = sort_Slice (\<lambda>p q. bp_Protocol p < bp_Protocol q) (map snd (protocol_totals bs)),
             bu_LatestAt = foldl (\<lambda>t b. if t < bw_at b then bw_at b else t) 0 bs\<rparr>)"

end
