(* ===== verification/SequenceRanges.thy ===== *)
theory SequenceRanges
  imports "HOL-Library.Word" GoPrelude
begin

text \<open>
  The gap-tracking set of sequence numbers a measurement session keeps
  (\<open>internal/controller/run_metrics_window.go\<close>, \<open>sequenceRanges\<close>): a sorted list of intervals of 64-bit
  words, updated in place. Subtractions wrap as in the code; the invariant is what keeps them from
  wrapping.
\<close>

section \<open>sort.Search\<close>

text \<open>The binary search of package \<open>sort\<close> over the half-open index range.\<close>

function search_between :: "(nat \<Rightarrow> bool) \<Rightarrow> nat \<Rightarrow> nat \<Rightarrow> nat" where
  "search_between f i j =
     (if i < j then
        let h = (i + j) div 2 in if \<not> f h then search_between f (h + 1) j else search_between f i h
      else i)"
  by pat_completeness auto
termination by (relation "measure (\<lambda>(f, i, j). j - i)") auto

declare search_between.simps [simp del]

definition sort_Search :: "nat \<Rightarrow> (nat \<Rightarrow> bool) \<Rightarrow> nat" where
  "sort_Search n f = search_between f 0 n"

definition stays_true :: "nat \<Rightarrow> (nat \<Rightarrow> bool) \<Rightarrow> bool" where
  "stays_true n f \<longleftrightarrow> (\<forall>a b. a \<le> b \<longrightarrow> b < n \<longrightarrow> f a \<longrightarrow> f b)"

definition first_true :: "nat \<Rightarrow> (nat \<Rightarrow> bool) \<Rightarrow> nat \<Rightarrow> bool" where
  "first_true n f k \<longleftrightarrow> k \<le> n \<and> (\<forall>a < k. \<not> f a) \<and> (k < n \<longrightarrow> f k)"

lemma search_between_spec:
  "stays_true n f \<Longrightarrow> i \<le> j \<Longrightarrow> j \<le> n \<Longrightarrow> \<forall>a < i. \<not> f a \<Longrightarrow> j < n \<longrightarrow> f j \<Longrightarrow>
   first_true n f (search_between f i j)"
proof (induction f i j rule: search_between.induct)
  case (1 f i j)
  show ?case
  proof (cases "i < j")
    case False
    then have "search_between f i j = i" by (subst search_between.simps) simp
    then show ?thesis using False "1.prems" by (simp add: first_true_def)
  next
    case True
    let ?h = "(i + j) div 2"
    have h: "i \<le> ?h" "?h < j" using True by auto
    show ?thesis
    proof (cases "f ?h")
      case False
      have "\<forall>a < ?h + 1. \<not> f a"
      proof (intro allI impI notI)
        fix a assume a: "a < ?h + 1" "f a"
        have "a \<le> ?h" "?h < n" using a(1) h "1.prems"(3) by simp_all
        with "1.prems"(1) a(2) False show False unfolding stays_true_def by blast
      qed
      moreover have "search_between f i j = search_between f (?h + 1) j"
        using True False by (subst search_between.simps) (simp add: Let_def)
      ultimately show ?thesis
        using "1.IH"(1) [OF True refl False "1.prems"(1)] h "1.prems"(3,5) by simp
    next
      case fh: True
      have "search_between f i j = search_between f i ?h"
        using True fh by (subst search_between.simps) (simp add: Let_def)
      moreover have "\<not> \<not> f ?h" using fh by simp
      ultimately show ?thesis
        using "1.IH"(2) [OF True refl _ "1.prems"(1)] h fh "1.prems"(3,4) by simp
    qed
  qed
qed

text \<open>For a predicate that stays true once it is, the result is its first index.\<close>

lemma sort_Search_spec: "stays_true n f \<Longrightarrow> first_true n f (sort_Search n f)"
  unfolding sort_Search_def by (rule search_between_spec) simp_all

section \<open>The intervals\<close>

type_synonym sequence = "64 word"

record sequence_range =
  sr_first :: sequence
  sr_last :: sequence

abbreviation (input) interval :: "sequence \<Rightarrow> sequence \<Rightarrow> sequence_range" where
  "interval a b \<equiv> \<lparr>sr_first = a, sr_last = b\<rparr>"

definition ranges_add :: "sequence_range list \<Rightarrow> sequence \<Rightarrow> sequence_range list" where
  "ranges_add rs s =
     (if s = 0 then rs
      else
        let i = sort_Search (length rs) (\<lambda>i. s \<le> sr_last (rs ! i) \<or> sr_last (rs ! i) = s - 1)
        in if i = length rs then rs @ [interval s s]
           else
             let r = rs ! i
             in if s < sr_first r \<and> 1 < sr_first r - s then take i rs @ [interval s s] @ drop i rs
                else
                  let r' = interval (min (sr_first r) s) (max (sr_last r) s)
                  in if i + 1 < length rs \<and> sr_first (rs ! (i + 1)) - sr_last r' \<le> 1
                     then take i rs @ [interval (sr_first r') (max (sr_last r') (sr_last (rs ! (i + 1))))]
                          @ drop (i + 2) rs
                     else rs[i := r'])"

definition ranges_through :: "sequence_range list \<Rightarrow> sequence \<Rightarrow> sequence" where
  "ranges_through rs start =
     (let i = sort_Search (length rs) (\<lambda>i. start \<le> sr_last (rs ! i))
      in if start = 0 \<or> i = length rs \<or> start < sr_first (rs ! i) then 0 else sr_last (rs ! i))"

section \<open>The invariant and what the list stands for\<close>

text \<open>Two intervals are apart: at least one number is missing between them.\<close>

definition apart :: "sequence_range \<Rightarrow> sequence_range \<Rightarrow> bool" where
  "apart a b \<longleftrightarrow> unat (sr_last a) + 1 < unat (sr_first b)"

definition proper :: "sequence_range \<Rightarrow> bool" where
  "proper r \<longleftrightarrow> 0 < sr_first r \<and> sr_first r \<le> sr_last r"

definition ranges_ok :: "sequence_range list \<Rightarrow> bool" where
  "ranges_ok rs \<longleftrightarrow> list_all proper rs \<and> sorted_wrt apart rs"

definition covered :: "sequence_range list \<Rightarrow> sequence set" where
  "covered rs = (\<Union>r \<in> set rs. {sr_first r..sr_last r})"

lemma covered_simps [simp]:
  "covered [] = {}" "covered (r # rs) = {sr_first r..sr_last r} \<union> covered rs"
  "covered (rs @ qs) = covered rs \<union> covered qs"
  by (auto simp: covered_def)

lemma ranges_ok_append:
  "ranges_ok (xs @ ys) \<longleftrightarrow> ranges_ok xs \<and> ranges_ok ys \<and> (\<forall>x \<in> set xs. \<forall>y \<in> set ys. apart x y)"
  by (auto simp: ranges_ok_def sorted_wrt_append)

lemma ranges_ok_Cons:
  "ranges_ok (r # rs) \<longleftrightarrow> proper r \<and> ranges_ok rs \<and> (\<forall>y \<in> set rs. apart r y)"
  by (auto simp: ranges_ok_def)

lemma ranges_ok_Nil [simp]: "ranges_ok []"
  by (simp add: ranges_ok_def)

text \<open>Word facts read as natural numbers.\<close>

lemmas word_nat = word_less_nat_alt word_le_nat_alt

lemma unat_pred: "s \<noteq> 0 \<Longrightarrow> unat (s - 1) = unat s - 1" for s :: sequence
  by (rule unat_minus_one)

lemma unat_diff: "a \<le> b \<Longrightarrow> unat (b - a) = unat b - unat a" for a b :: sequence
  by (rule unat_sub)

lemma reach_iff: "s \<noteq> 0 \<Longrightarrow> s \<le> x \<or> x = s - 1 \<longleftrightarrow> unat s \<le> unat x + 1" for s :: sequence
proof -
  assume s: "s \<noteq> 0"
  then have "x = s - 1 \<longleftrightarrow> unat x = unat s - 1" by (metis unat_pred word_unat_eq_iff)
  moreover have "0 < unat s" using s by (simp add: unat_gt_0)
  ultimately show ?thesis by (auto simp: word_le_nat_alt)
qed

lemma ok_lasts:
  assumes "ranges_ok rs" "a \<le> b" "b < length rs"
  shows "sr_last (rs ! a) \<le> sr_last (rs ! b)"
proof (cases "a = b")
  case False
  then have "apart (rs ! a) (rs ! b)"
    using assms by (auto simp: ranges_ok_def intro: sorted_wrt_nth_less)
  moreover have "proper (rs ! b)" using assms by (auto simp: ranges_ok_def list_all_length)
  ultimately show ?thesis by (auto simp: apart_def proper_def word_nat)
qed simp

text \<open>The list is cut at the first interval that reaches the number.\<close>

lemma search_cut:
  assumes "ranges_ok rs" and "\<forall>x y. x \<le> y \<longrightarrow> P x \<longrightarrow> P y"
    and "i = sort_Search (length rs) (\<lambda>i. P (sr_last (rs ! i)))"
  shows "i \<le> length rs" "\<forall>r \<in> set (take i rs). \<not> P (sr_last r)"
    "i < length rs \<Longrightarrow> rs = take i rs @ rs ! i # drop (i + 1) rs \<and> P (sr_last (rs ! i))"
proof -
  have "stays_true (length rs) (\<lambda>i. P (sr_last (rs ! i)))"
    unfolding stays_true_def using assms(2) ok_lasts [OF assms(1)] by blast
  then have s: "first_true (length rs) (\<lambda>i. P (sr_last (rs ! i))) i"
    unfolding assms(3) by (rule sort_Search_spec)
  then show le: "i \<le> length rs" by (simp add: first_true_def)
  show "\<forall>r \<in> set (take i rs). \<not> P (sr_last r)"
    using s by (auto simp: in_set_conv_nth first_true_def)
  show "rs = take i rs @ rs ! i # drop (i + 1) rs \<and> P (sr_last (rs ! i))" if "i < length rs"
    using that s by (simp add: id_take_nth_drop first_true_def)
qed

section \<open>Adding a number\<close>

lemma word_positive: "s \<noteq> 0 \<Longrightarrow> 0 < unat s" for s :: sequence
  by (simp add: unat_gt_0)

lemma add_at_end:
  assumes "ranges_ok rs" "s \<noteq> 0" "\<forall>r \<in> set rs. unat (sr_last r) + 1 < unat s"
  shows "ranges_ok (rs @ [interval s s])" "covered (rs @ [interval s s]) = insert s (covered rs)"
  using assms word_positive [of s]
  by (auto simp: ranges_ok_append ranges_ok_Cons apart_def proper_def word_nat)

lemma add_in_gap:
  assumes "ranges_ok (pre @ r # post)" "s \<noteq> 0" "\<forall>r \<in> set pre. unat (sr_last r) + 1 < unat s"
    and "unat s + 1 < unat (sr_first r)"
  shows "ranges_ok (pre @ interval s s # r # post)"
    "covered (pre @ interval s s # r # post) = insert s (covered (pre @ r # post))"
proof -
  have r: "proper r" and first: "apart r y" if "y \<in> set post" for y
    using that assms(1) by (simp_all add: ranges_ok_append ranges_ok_Cons)
  have "proper r" using assms(1) by (simp add: ranges_ok_append ranges_ok_Cons)
  then have "unat s + 1 < unat (sr_first y)" if "y \<in> set (r # post)" for y
    using that assms(4) first [of y] by (cases "y = r") (auto simp: apart_def proper_def word_nat)
  then have "\<forall>y \<in> set (r # post). apart (interval s s) y" by (simp add: apart_def)
  moreover have "\<forall>x \<in> set pre. apart x (interval s s)" using assms(3) by (simp add: apart_def)
  moreover have "proper (interval s s)"
    using word_positive [OF assms(2)] by (simp add: proper_def word_nat)
  ultimately show "ranges_ok (pre @ interval s s # r # post)"
    using assms(1) by (simp add: ranges_ok_append ranges_ok_Cons)
  show "covered (pre @ interval s s # r # post) = insert s (covered (pre @ r # post))" by auto
qed

definition widen :: "sequence_range \<Rightarrow> sequence \<Rightarrow> sequence_range" where
  "widen r s = interval (min (sr_first r) s) (max (sr_last r) s)"

text \<open>The number touches the interval: it lies inside or next to it.\<close>

lemma widen_interval:
  assumes "proper r" "s \<noteq> 0" "unat s \<le> unat (sr_last r) + 1" "unat (sr_first r) \<le> unat s + 1"
  shows "proper (widen r s)" "{sr_first (widen r s)..sr_last (widen r s)} = insert s {sr_first r..sr_last r}"
    "unat (sr_last (widen r s)) \<le> unat (sr_last r) + 1"
    "unat (sr_first (widen r s)) = min (unat (sr_first r)) (unat s)"
proof -
  show "proper (widen r s)"
    using assms word_positive [of s] by (auto simp: widen_def proper_def word_nat min_def max_def)
  show "unat (sr_last (widen r s)) \<le> unat (sr_last r) + 1" using assms by (simp add: widen_def max_def)
  show "unat (sr_first (widen r s)) = min (unat (sr_first r)) (unat s)"
    by (simp add: widen_def min_def word_nat)
  have "x \<in> {sr_first (widen r s)..sr_last (widen r s)} \<longleftrightarrow> x \<in> insert s {sr_first r..sr_last r}" for x
    using assms by (auto simp: widen_def word_nat min_def max_def word_unat_eq_iff proper_def)
  then show "{sr_first (widen r s)..sr_last (widen r s)} = insert s {sr_first r..sr_last r}" by blast
qed

lemma add_widen:
  assumes ok: "ranges_ok (pre @ r # post)" and s: "s \<noteq> 0" "\<forall>r \<in> set pre. unat (sr_last r) + 1 < unat s"
    and touch: "unat s \<le> unat (sr_last r) + 1" "unat (sr_first r) \<le> unat s + 1"
    and free: "\<forall>y \<in> set post. unat (sr_last (widen r s)) + 1 < unat (sr_first y)"
  shows "ranges_ok (pre @ widen r s # post)"
    "covered (pre @ widen r s # post) = insert s (covered (pre @ r # post))"
proof -
  have r: "proper r" using ok by (simp add: ranges_ok_append ranges_ok_Cons)
  note w = widen_interval [OF r s(1) touch]
  have "apart x (widen r s)" if "x \<in> set pre" for x
    using that s(2) ok w(4) by (auto simp: ranges_ok_append apart_def)
  then show "ranges_ok (pre @ widen r s # post)"
    using ok w(1) free by (auto simp: ranges_ok_append ranges_ok_Cons apart_def)
  show "covered (pre @ widen r s # post) = insert s (covered (pre @ r # post))"
    unfolding covered_simps w(2) by auto
qed

lemma add_merge:
  assumes ok: "ranges_ok (pre @ r # y # post)" and s: "s \<noteq> 0" "\<forall>r \<in> set pre. unat (sr_last r) + 1 < unat s"
    and touch: "unat s \<le> unat (sr_last r) + 1" "unat (sr_first r) \<le> unat s + 1"
    and meet: "unat (sr_first y) \<le> unat (sr_last (widen r s)) + 1"
  defines "m \<equiv> interval (sr_first (widen r s)) (max (sr_last (widen r s)) (sr_last y))"
  shows "ranges_ok (pre @ m # post)" "covered (pre @ m # post) = insert s (covered (pre @ r # y # post))"
proof -
  have r: "proper r" and y: "proper y" and ry: "unat (sr_last r) + 1 < unat (sr_first y)"
    using ok by (simp_all add: ranges_ok_append ranges_ok_Cons apart_def)
  note w = widen_interval [OF r s(1) touch]
  have last: "sr_last m = sr_last y"
    using w(3) ry y by (auto simp: m_def max_def proper_def word_nat)
  have m: "proper m" using w(1) y ry w(3) last by (auto simp: m_def proper_def word_nat)
  have "apart x m" if "x \<in> set pre" for x
    using that s(2) ok w(4) by (auto simp: ranges_ok_append apart_def m_def)
  then show "ranges_ok (pre @ m # post)"
    using ok m last by (auto simp: ranges_ok_append ranges_ok_Cons apart_def)
  have "{sr_first m..sr_last m} = {sr_first (widen r s)..sr_last (widen r s)} \<union> {sr_first y..sr_last y}"
  proof -
    have "x \<in> {sr_first m..sr_last m} \<longleftrightarrow>
        x \<in> {sr_first (widen r s)..sr_last (widen r s)} \<union> {sr_first y..sr_last y}" for x
      using w(1,3) y ry meet last by (auto simp: m_def proper_def word_nat)
    then show ?thesis by blast
  qed
  then show "covered (pre @ m # post) = insert s (covered (pre @ r # y # post))"
    unfolding covered_simps w(2) by auto
qed

section \<open>The operations on the list\<close>

lemma gap_test:
  "proper r \<Longrightarrow> s < sr_first r \<and> 1 < sr_first r - s \<longleftrightarrow> unat s + 1 < unat (sr_first r)"
  by (auto simp: word_nat unat_diff)

lemma meet_test:
  "unat a < unat b \<Longrightarrow> b - a \<le> 1 \<longleftrightarrow> unat b \<le> unat a + 1" for a b :: sequence
  by (auto simp: word_nat unat_diff)

lemma reach_mono:
  "s \<noteq> 0 \<Longrightarrow> x \<le> y \<Longrightarrow> s \<le> x \<or> x = s - 1 \<Longrightarrow> s \<le> y \<or> y = s - 1" for s :: sequence
  using reach_iff [of s x] reach_iff [of s y] unfolding word_le_nat_alt by linarith

text \<open>The code's step on the interval the search finds.\<close>

definition add_at :: "sequence_range list \<Rightarrow> sequence_range \<Rightarrow> sequence_range list \<Rightarrow> sequence
    \<Rightarrow> sequence_range list" where
  "add_at pre r post s =
     (if s < sr_first r \<and> 1 < sr_first r - s then pre @ interval s s # r # post
      else case post of
        [] \<Rightarrow> pre @ [widen r s]
      | y # rest \<Rightarrow>
          if sr_first y - sr_last (widen r s) \<le> 1
          then pre @ interval (sr_first (widen r s)) (max (sr_last (widen r s)) (sr_last y)) # rest
          else pre @ widen r s # y # rest)"

lemma ranges_add_cut:
  assumes "s \<noteq> 0" "i = sort_Search (length rs) (\<lambda>i. s \<le> sr_last (rs ! i) \<or> sr_last (rs ! i) = s - 1)"
    and "i < length rs"
  shows "ranges_add rs s = add_at (take i rs) (rs ! i) (drop (i + 1) rs) s"
proof -
  have d: "drop i rs = rs ! i # drop (i + 1) rs" using assms(3) by (simp add: Cons_nth_drop_Suc)
  have u: "rs[i := x] = take i rs @ x # drop (i + 1) rs" for x
    using assms(3) by (simp add: upd_conv_take_nth_drop)
  show ?thesis
  proof (cases "i + 1 < length rs")
    case True
    then have p: "drop (i + 1) rs = rs ! (i + 1) # drop (i + 2) rs" by (simp add: Cons_nth_drop_Suc)
    show ?thesis
      using assms True unfolding ranges_add_def add_at_def Let_def assms(2) [symmetric] u d p
      by (simp add: widen_def)
  next
    case False
    then have p: "drop (i + 1) rs = []" by simp
    show ?thesis
      using assms False unfolding ranges_add_def add_at_def Let_def assms(2) [symmetric] u d p
      by (simp add: widen_def)
  qed
qed

lemma add_at_ok:
  assumes ok: "ranges_ok (pre @ r # post)" and s: "s \<noteq> 0"
    and before: "\<forall>r \<in> set pre. unat (sr_last r) + 1 < unat s" and reach: "unat s \<le> unat (sr_last r) + 1"
  shows "ranges_ok (add_at pre r post s) \<and> covered (add_at pre r post s) = insert s (covered (pre @ r # post))"
proof (cases "s < sr_first r \<and> 1 < sr_first r - s")
  case True
  have r: "proper r" using ok by (simp add: ranges_ok_append ranges_ok_Cons)
  with True have "unat s + 1 < unat (sr_first r)" by (simp only: gap_test)
  then show ?thesis using add_in_gap [OF ok s before] True by (simp add: add_at_def)
next
  case gap: False
  have r: "proper r" using ok by (simp add: ranges_ok_append ranges_ok_Cons)
  with gap have touch: "unat (sr_first r) \<le> unat s + 1" unfolding gap_test [OF r] by simp
  note w = widen_interval [OF r s reach touch]
  show ?thesis
  proof (cases post)
    case Nil
    then have "add_at pre r post s = pre @ [widen r s]" using gap by (auto simp: add_at_def)
    then show ?thesis using add_widen [OF ok s before reach touch] Nil by simp
  next
    case (Cons y rest)
    have y: "apart r y" "\<forall>z \<in> set rest. apart y z" "proper y"
      using ok Cons by (simp_all add: ranges_ok_append ranges_ok_Cons)
    then have "unat (sr_last (widen r s)) < unat (sr_first y)"
      using w(3) reach by (auto simp: apart_def widen_def max_def)
    note meet = meet_test [OF this]
    show ?thesis
    proof (cases "sr_first y - sr_last (widen r s) \<le> 1")
      case True
      then have "unat (sr_first y) \<le> unat (sr_last (widen r s)) + 1" by (simp only: meet)
      then show ?thesis
        using add_merge [OF ok [unfolded Cons] s before reach touch] gap True Cons by (auto simp: add_at_def)
    next
      case False
      then have "unat (sr_last (widen r s)) + 1 < unat (sr_first y)" unfolding meet by simp
      moreover have "unat (sr_first y) < unat (sr_first z)" if "z \<in> set rest" for z
        using that y(2,3) by (fastforce simp: apart_def proper_def word_nat)
      ultimately have "\<forall>z \<in> set post. unat (sr_last (widen r s)) + 1 < unat (sr_first z)"
        unfolding Cons by fastforce
      then show ?thesis
        using add_widen [OF ok s before reach touch] gap False Cons by (auto simp: add_at_def)
    qed
  qed
qed

lemma ranges_add_ok:
  assumes "ranges_ok rs"
  shows "ranges_ok (ranges_add rs s) \<and> covered (ranges_add rs s) = (if s = 0 then {} else {s}) \<union> covered rs"
proof (cases "s = 0")
  case True
  then show ?thesis using assms by (simp add: ranges_add_def)
next
  case s: False
  define i where "i = sort_Search (length rs) (\<lambda>i. s \<le> sr_last (rs ! i) \<or> sr_last (rs ! i) = s - 1)"
  have mono: "\<forall>x y. x \<le> y \<longrightarrow> s \<le> x \<or> x = s - 1 \<longrightarrow> s \<le> y \<or> y = s - 1"
    using reach_mono [OF s] by blast
  note cut = search_cut [of rs "\<lambda>x. s \<le> x \<or> x = s - 1", OF assms mono i_def]
  have before: "\<forall>r \<in> set (take i rs). unat (sr_last r) + 1 < unat s"
    using cut(2) unfolding reach_iff [OF s] by (simp add: not_le)
  show ?thesis
  proof (cases "i < length rs")
    case True
    then have rs: "rs = take i rs @ rs ! i # drop (i + 1) rs"
      and reach: "unat s \<le> unat (sr_last (rs ! i)) + 1"
      using cut(3) unfolding reach_iff [OF s] by blast+
    have ok: "ranges_ok (take i rs @ rs ! i # drop (i + 1) rs)" using assms rs by simp
    show ?thesis
      using add_at_ok [OF ok s before reach] s
      unfolding ranges_add_cut [OF s i_def True] rs [symmetric] by simp
  next
    case False
    then have "i = length rs" using cut(1) by simp
    moreover from this have "ranges_add rs s = rs @ [interval s s]"
      using s i_def by (simp add: ranges_add_def Let_def)
    ultimately show ?thesis using add_at_end [OF assms s] before s by simp
  qed
qed

text \<open>The end of the run that starts at a number.\<close>

lemma ranges_through_found:
  assumes "ranges_ok rs" "start \<in> covered rs"
  shows "\<exists>r \<in> set rs. start \<in> {sr_first r..sr_last r} \<and> ranges_through rs start = sr_last r"
proof -
  define i where "i = sort_Search (length rs) (\<lambda>i. start \<le> sr_last (rs ! i))"
  have mono: "\<forall>x y. x \<le> y \<longrightarrow> start \<le> x \<longrightarrow> start \<le> y" by (blast intro: order_trans)
  note cut = search_cut [of rs "\<lambda>x. start \<le> x", OF assms(1) mono i_def]
  obtain r where r: "r \<in> set rs" "sr_first r \<le> start" "start \<le> sr_last r"
    using assms(2) by (auto simp: covered_def)
  have i: "i < length rs"
  proof (rule ccontr)
    assume "\<not> i < length rs"
    then have "take i rs = rs" using cut(1) by simp
    then show False using cut(2) r(1,3) by auto
  qed
  have "r = rs ! i"
  proof -
    have rs: "rs = take i rs @ rs ! i # drop (i + 1) rs" and reach: "start \<le> sr_last (rs ! i)"
      using cut(3) [OF i] by blast+
    have "r \<notin> set (take i rs)" using cut(2) r(3) by auto
    moreover have "r \<notin> set (drop (i + 1) rs)"
    proof
      assume "r \<in> set (drop (i + 1) rs)"
      moreover have "ranges_ok (take i rs @ rs ! i # drop (i + 1) rs)" using assms(1) rs by simp
      ultimately have "apart (rs ! i) r" by (simp add: ranges_ok_append ranges_ok_Cons)
      then show False using reach r(2) by (simp add: apart_def word_nat)
    qed
    moreover have "r \<in> set (take i rs @ rs ! i # drop (i + 1) rs)" using r(1) rs by simp
    ultimately show ?thesis by simp
  qed
  moreover have "0 < sr_first r"
    using assms(1) r(1) by (auto simp: ranges_ok_def list_all_iff proper_def)
  ultimately have "ranges_through rs start = sr_last r"
    using i r(2) i_def by (auto simp: ranges_through_def Let_def)
  then show ?thesis using r by auto
qed

lemma after_last_missing:
  assumes "ranges_ok rs" "r \<in> set rs"
  shows "sr_last r + 1 \<notin> covered rs"
proof
  assume "sr_last r + 1 \<in> covered rs"
  then obtain q where q: "q \<in> set rs" "sr_first q \<le> sr_last r + 1" "sr_last r + 1 \<le> sr_last q"
    by (auto simp: covered_def)
  have p: "proper q" "proper r"
    using assms q(1) by (auto simp: ranges_ok_def list_all_iff)
  have pos: "sr_last r + 1 \<noteq> 0" using q(2) p(1) by (auto simp: proper_def)
  then have s: "unat (sr_last r + 1) = unat (sr_last r) + 1"
    by (metis Suc_eq_plus1 add.commute unatSuc)
  consider "q = r" | "apart q r" | "apart r q"
    using assms q(1) by (induction rs) (auto simp: ranges_ok_Cons)
  then show False
    using q(2,3) s p by cases (auto simp: apart_def proper_def word_nat)
qed

lemma ranges_through_missing:
  assumes "ranges_ok rs" "start \<notin> covered rs"
  shows "ranges_through rs start = 0"
proof -
  define i where "i = sort_Search (length rs) (\<lambda>i. start \<le> sr_last (rs ! i))"
  have mono: "\<forall>x y. x \<le> y \<longrightarrow> start \<le> x \<longrightarrow> start \<le> y" by (blast intro: order_trans)
  note cut = search_cut [of rs "\<lambda>x. start \<le> x", OF assms(1) mono i_def]
  show ?thesis
  proof (cases "i = length rs")
    case True
    then show ?thesis using i_def by (simp add: ranges_through_def)
  next
    case False
    then have i: "i < length rs" using cut(1) by simp
    then have "rs ! i \<in> set rs" "start \<le> sr_last (rs ! i)" using cut(3) by simp_all
    then have "start < sr_first (rs ! i)" using assms(2) by (force simp: covered_def)
    then show ?thesis using i_def by (simp add: ranges_through_def)
  qed
qed

section \<open>Arrival in any order\<close>

lemma received_ok:
  "ranges_ok rs \<Longrightarrow> ranges_ok (foldl ranges_add rs xs) \<and>
   covered (foldl ranges_add rs xs) = (set xs - {0}) \<union> covered rs"
proof (induction xs arbitrary: rs)
  case (Cons x xs)
  show ?case
    using Cons.IH [of "ranges_add rs x"] ranges_add_ok [OF Cons.prems, of x] by auto
qed simp

text \<open>Separated intervals are a normal form of the set they stand for.\<close>

lemma covered_least:
  assumes "ranges_ok (r # rs)" "x \<in> covered (r # rs)"
  shows "sr_first r \<le> x"
  using assms by (fastforce simp: covered_def ranges_ok_Cons apart_def proper_def word_nat)

lemma covered_head:
  assumes "ranges_ok (r # rs)"
  shows "covered rs = covered (r # rs) - {sr_first r..sr_last r}"
proof -
  have "x \<notin> {sr_first r..sr_last r}" if "x \<in> covered rs" for x
    using that assms by (fastforce simp: covered_def ranges_ok_Cons apart_def word_nat)
  then show ?thesis by auto
qed

lemma head_not_shorter:
  assumes "ranges_ok (r # rs)" "ranges_ok (q # qs)" "covered (r # rs) = covered (q # qs)"
    "sr_first r = sr_first q"
  shows "sr_last q \<le> sr_last r"
proof (rule ccontr)
  assume "\<not> ?thesis"
  then have less: "sr_last r < sr_last q" by simp
  have not_top: "1 + sr_last r \<noteq> 0"
  proof
    assume "1 + sr_last r = 0"
    then have "sr_last r = -1" by (metis add.commute eq_neg_iff_add_eq_0)
    then show False using less word_order.extremum [of "sr_last q"] by simp
  qed
  have "sr_last r + 1 \<le> sr_last q" using less by (rule inc_le)
  moreover have "sr_first q \<le> sr_last r + 1"
  proof -
    have "sr_first r \<le> sr_last r" using assms(1) by (simp add: ranges_ok_Cons proper_def)
    moreover have "sr_last r \<le> sr_last r + 1" 
      using unatSuc [of "sr_last r"] not_top by (simp add: word_le_nat_alt add.commute)
    ultimately show ?thesis using assms(4) by (metis order_trans)
  qed
  ultimately have "sr_last r + 1 \<in> covered (r # rs)" unfolding assms(3) by simp
  then show False using after_last_missing [OF assms(1), of r] by simp
qed

lemma normal_form:
  "ranges_ok rs \<Longrightarrow> ranges_ok qs \<Longrightarrow> covered rs = covered qs \<Longrightarrow> rs = qs"
proof (induction rs arbitrary: qs)
  case Nil
  then show ?case by (cases qs) (auto simp: ranges_ok_Cons proper_def)
next
  case (Cons r rs)
  then obtain q qs' where qs: "qs = q # qs'" by (cases qs) (auto simp: ranges_ok_Cons proper_def)
  have p: "proper r" "proper q" using Cons.prems qs by (simp_all add: ranges_ok_Cons)
  have first: "sr_first r = sr_first q"
  proof (rule antisym)
    have "sr_first q \<in> covered (r # rs)" using Cons.prems(3) qs p by (simp add: proper_def)
    then show "sr_first r \<le> sr_first q" by (rule covered_least [OF Cons.prems(1)])
    have "sr_first r \<in> covered (q # qs')" using Cons.prems(3) [symmetric] qs p by (simp add: proper_def)
    then show "sr_first q \<le> sr_first r" by (rule covered_least [OF Cons.prems(2) [unfolded qs]])
  qed
  note same = Cons.prems [unfolded qs]
  have "sr_last r = sr_last q"
    by (rule antisym [OF head_not_shorter [OF same(2,1) same(3) [symmetric] first [symmetric]]
          head_not_shorter [OF same first]])
  with first have "r = q" by simp
  moreover from this have "covered rs = covered qs'"
    using covered_head [of r rs] covered_head [of q qs'] Cons.prems \<open>r = q\<close> unfolding qs by simp
  ultimately show ?case using Cons qs by (simp add: ranges_ok_Cons)
qed

section \<open>The properties\<close>

text \<open>C18: The interval list is a faithful set of the sequence numbers received, whatever their order and
  repetition: starting from the empty list, after any sequence of \<open>add\<close> calls the intervals are
  non-empty, in increasing order, with at least one missing number between neighbours, and they cover
  exactly the numbers received, except 0, which means that there is none.\<close>

theorem received_sequences_exact:
  "let rs = foldl ranges_add [] received
   in list_all proper rs \<and> sorted_wrt apart rs \<and> covered rs = set received - {0}"
  using received_ok [of "[]" received] by (simp add: Let_def ranges_ok_def)

text \<open>The list depends on the set of numbers only: two arrivals of the same numbers, in any order and
  with any repetition, end in the same intervals, so a late batch leaves no trace in later decisions.\<close>

theorem arrival_order_irrelevant:
  assumes "set received - {0} = set other - {0}"
  shows "foldl ranges_add [] received = foldl ranges_add [] other"
  using received_ok [of "[]" received] received_ok [of "[]" other] assms
  by (intro normal_form) simp_all

theorem arrival_order_irrelevant_witness:
  "foldl ranges_add [] [3, 1, 2, 18446744073709551615, 5] = foldl ranges_add [] [18446744073709551615, 5, 0, 1, 2, 3, 2]"
  by (rule arrival_order_irrelevant) auto

text \<open>\<open>through\<close> is the end of the gap-free run that begins at the start number: when the start was
  received, every number from it up to the result was received and the next one was not (the next of the
  greatest 64-bit number wraps to 0, which is never received); when it was not, the result is 0.\<close>

theorem through_is_contiguous_end:
  "let rs = foldl ranges_add [] received; got = set received - {0}; e = ranges_through rs start
   in if start \<in> got then start \<le> e \<and> {start..e} \<subseteq> got \<and> e + 1 \<notin> got else e = 0"
proof -
  define rs where "rs = foldl ranges_add [] received"
  have ok: "ranges_ok rs" and got: "covered rs = set received - {0}"
    using received_ok [of "[]" received] by (simp_all add: rs_def)
  show ?thesis
  proof (cases "start \<in> covered rs")
    case True
    then obtain r where r: "r \<in> set rs" "start \<in> {sr_first r..sr_last r}"
      "ranges_through rs start = sr_last r"
      using ranges_through_found [OF ok] by blast
    moreover have "{sr_first r..sr_last r} \<subseteq> covered rs" using r(1) by (auto simp: covered_def)
    ultimately have "start \<le> ranges_through rs start \<and> {start..ranges_through rs start} \<subseteq> covered rs
        \<and> ranges_through rs start + 1 \<notin> covered rs"
      using after_last_missing [OF ok r(1)] by fastforce
    then show ?thesis using True unfolding Let_def rs_def [symmetric] got [symmetric] by simp
  next
    case False
    then show ?thesis
      using ranges_through_missing [OF ok False] unfolding Let_def rs_def [symmetric] got [symmetric] by simp
  qed
qed

end
