(* ===== verification/SessionWindow.thy ===== *)
theory SessionWindow
  imports Bandwidth SequenceRanges DurationText
begin

text \<open>
  The session-window accumulator of a run, \<open>sessionWindowAccumulator\<close> of
  \<open>internal/controller/run_metrics_window.go\<close>: what it keeps of every event (\<open>window_observe\<close>), the
  evaluation of one measurement session (\<open>evaluateSession\<close>) and of the receipts of one message in one
  session (\<open>inspectWindowReceipts\<close>). A nil map is the empty one.
\<close>

section \<open>Data\<close>

definition sessionWindowDefinition :: gostring where
  "sessionWindowDefinition = ''session-window-v1''"

record message_key =
  mk_topic :: gostring
  mk_id :: gostring

record session_proof =
  pr_at :: go_time
  pr_sequence :: sequence

record measurement_session =
  ms_key :: session_key
  ms_started :: bool
  ms_start :: session_proof
  ms_topics :: "gostring list"
  ms_known :: bool
  ms_sequences :: "sequence_range list"
  ms_proofs :: "session_proof list"
  ms_stop :: "session_proof option"
  ms_invalid :: bool

record window_publication =
  wp_key :: message_key
  wp_publisher :: gostring
  wp_sessionID :: gostring
  wp_auditTargets :: "gostring list"
  wp_at :: go_time
  wp_deadline :: go_time
  wp_valid :: bool
  wp_local :: bool

record delivery_metric =
  dm_timestamp :: go_time
  dm_agentID :: gostring
  dm_latencyMS :: float64
  dm_latencyAvailable :: bool
  dm_clockSynchronized :: bool
  dm_latencyUncertaintyMS :: float64

record window_delivery =
  wd_proof :: session_proof
  wd_value :: delivery_metric

record window_receipts =
  wr_deliveries :: "window_delivery list"
  wr_duplicates :: "session_proof list"

record window_accumulator =
  wa_enabled :: bool
  wa_incomplete :: bool
  wa_sessions :: "(session_key, measurement_session) gomap"
  wa_publications :: "(message_key, window_publication) gomap"
  wa_receipts :: "(message_key, (session_key, window_receipts) gomap) gomap"
  wa_terminations :: "(gostring, go_time list) gomap"

definition empty_window :: window_accumulator where
  "empty_window = \<lparr>wa_enabled = False, wa_incomplete = False, wa_sessions = [], wa_publications = [],
     wa_receipts = [], wa_terminations = []\<rparr>"

definition new_session :: "session_key \<Rightarrow> measurement_session" where
  "new_session k = \<lparr>ms_key = k, ms_started = False, ms_start = \<lparr>pr_at = 0, pr_sequence = 0\<rparr>, ms_topics = [],
     ms_known = False, ms_sequences = [], ms_proofs = [], ms_stop = None, ms_invalid = False\<rparr>"

definition new_receipts :: window_receipts where
  "new_receipts = \<lparr>wr_deliveries = [], wr_duplicates = []\<rparr>"

section \<open>Observing an event\<close>

definition isLifecycle :: "trace_event \<Rightarrow> bool" where
  "isLifecycle e \<longleftrightarrow> te_Type e \<in> {''measurement_start'', ''measurement_checkpoint'', ''measurement_stop''}"

definition message_of :: "trace_event \<Rightarrow> message_key" where
  "message_of e = \<lparr>mk_topic = te_Topic e, mk_id = te_MessageID e\<rparr>"

definition proof_of :: "trace_event \<Rightarrow> session_proof" where
  "proof_of e = \<lparr>pr_at = te_Timestamp e, pr_sequence = te_Sequence e\<rparr>"

definition observe_start :: "trace_event \<Rightarrow> measurement_session \<Rightarrow> measurement_session" where
  "observe_start e s =
     (if \<not> ms_started s \<or> te_Sequence e < pr_sequence (ms_start s) then
        let (topics, known) = targetNodeIDs (map_of (te_Fields e) ''subscribedTopics'')
        in s\<lparr>ms_started := True, ms_start := proof_of e, ms_known := known, ms_topics := remdups topics\<rparr>
      else s)"

definition observe_checkpoint :: "trace_event \<Rightarrow> measurement_session \<Rightarrow> measurement_session" where
  "observe_checkpoint e s =
     (let stops = (te_Type e = ''measurement_stop''
            \<and> (case ms_stop s of None \<Rightarrow> True | Some q \<Rightarrow> te_Sequence e < pr_sequence q))
      in s\<lparr>ms_proofs := ms_proofs s @ [proof_of e], ms_stop := (if stops then Some (proof_of e) else ms_stop s)\<rparr>)"

definition observe_session :: "trace_event \<Rightarrow> measurement_session \<Rightarrow> measurement_session" where
  "observe_session e s0 =
     (let s = s0\<lparr>ms_sequences := ranges_add (ms_sequences s0) (te_Sequence e),
                 ms_invalid := ms_invalid s0 \<or> te_Sequence e = 0\<rparr>
      in if te_Type e = ''measurement_start'' then observe_start e s
         else if te_Type e = ''measurement_checkpoint'' \<or> te_Type e = ''measurement_stop'' then observe_checkpoint e s
         else s)"

text \<open>The window a publication asks for, and whether it is usable.\<close>

definition publication_window :: "trace_event \<Rightarrow> duration \<times> bool" where
  "publication_window e =
     (let valid = (\<not> IsZero (te_Timestamp e) \<and> te_MessageID e \<noteq> [] \<and> te_NodeID e \<noteq> [])
      in case map_of (te_Fields e) ''deliveryWindow'' of
           None \<Rightarrow> (10 * Second, valid)
         | Some v \<Rightarrow>
             case as_string (Some v) of
               None \<Rightarrow> (10 * Second, False)
             | Some text \<Rightarrow>
                 case ParseDuration text of
                   None \<Rightarrow> (10 * Second, False)
                 | Some parsed \<Rightarrow> if parsed \<le> 0 \<or> Hour < parsed then (10 * Second, False) else (parsed, valid))"

definition publication_of :: "trace_event \<Rightarrow> window_publication" where
  "publication_of e =
     (case publication_window e of (window, valid) \<Rightarrow>
        \<lparr>wp_key = message_of e, wp_publisher = te_NodeID e, wp_sessionID = te_SessionID e,
         wp_auditTargets = fst (targetNodeIDs (map_of (te_Fields e) ''targetNodeIds'')),
         wp_at = te_Timestamp e, wp_deadline = te_Timestamp e + window, wp_valid = valid,
         wp_local = bool_field (te_Fields e) ''localPublication''\<rparr>)"

definition delivery_of :: "trace_event \<Rightarrow> window_delivery" where
  "delivery_of e =
     \<lparr>wd_proof = proof_of e,
      wd_value = \<lparr>dm_timestamp = te_Timestamp e, dm_agentID = te_AgentID e, dm_latencyMS = te_LatencyMS e,
        dm_latencyAvailable = (string_field (te_Fields e) ''payloadEncoding'' = ''envelope''
          \<and> bool_field (te_Fields e) ''latencyAvailable''),
        dm_clockSynchronized = bool_field (te_Fields e) ''latencyClockSynchronized'',
        dm_latencyUncertaintyMS = fst (numericEventField (te_Fields e) ''latencyUncertaintyMs'')\<rparr>\<rparr>"

definition observe_receipt :: "trace_event \<Rightarrow> window_receipts \<Rightarrow> window_receipts" where
  "observe_receipt e r =
     (if te_Type e = ''duplicate'' then r\<lparr>wr_duplicates := wr_duplicates r @ [proof_of e]\<rparr>
      else r\<lparr>wr_deliveries := wr_deliveries r @ [delivery_of e]\<rparr>)"

text \<open>The steps of the method, in its order.\<close>

definition windowed :: "trace_event \<Rightarrow> bool" where
  "windowed e \<longleftrightarrow> string_field (te_Fields e) ''measurementDefinition'' = sessionWindowDefinition"

definition observe_enabled :: "trace_event \<Rightarrow> window_accumulator \<Rightarrow> window_accumulator" where
  "observe_enabled e w =
     (if te_Type e \<noteq> ''bandwidth'' \<and> (te_SessionID e \<noteq> [] \<or> windowed e \<or> isLifecycle e)
      then w\<lparr>wa_enabled := True\<rparr> else w)"

definition observe_sessions :: "trace_event \<Rightarrow> window_accumulator \<Rightarrow> window_accumulator" where
  "observe_sessions e w =
     (let key = session_of e
      in if te_SessionID e \<noteq> [] \<and> te_NodeID e \<noteq> []
         then w\<lparr>wa_sessions := AList.update key
                (observe_session e (mget (new_session key) (wa_sessions w) key)) (wa_sessions w)\<rparr>
         else if isLifecycle e \<or> windowed e then w\<lparr>wa_incomplete := True\<rparr> else w)"

definition observe_publication :: "trace_event \<Rightarrow> window_accumulator \<Rightarrow> window_accumulator" where
  "observe_publication e w =
     (let m = message_of e
      in if te_Type e = ''publish'' \<and> windowed e \<and> \<not> mhas (wa_publications w) m
         then w\<lparr>wa_publications := AList.update m (publication_of e) (wa_publications w)\<rparr> else w)"

definition observe_receipts :: "trace_event \<Rightarrow> window_accumulator \<Rightarrow> window_accumulator" where
  "observe_receipts e w =
     (if te_MessageID e = [] \<or> te_NodeID e = [] \<or> te_Type e \<noteq> ''deliver'' \<and> te_Type e \<noteq> ''duplicate''
         \<or> bool_field (te_Fields e) ''localDelivery'' then w
      else
        let m = message_of e; key = session_of e; per = mget [] (wa_receipts w) m
        in w\<lparr>wa_receipts := AList.update m
              (AList.update key (observe_receipt e (mget new_receipts per key)) per) (wa_receipts w)\<rparr>)"

definition observe_termination :: "trace_event \<Rightarrow> window_accumulator \<Rightarrow> window_accumulator" where
  "observe_termination e w =
     (if te_NodeID e \<noteq> [] \<and> \<not> IsZero (te_Timestamp e)
      then w\<lparr>wa_terminations := AList.update (te_NodeID e)
             (mget [] (wa_terminations w) (te_NodeID e) @ [te_Timestamp e]) (wa_terminations w)\<rparr>
      else w)"

definition window_observe :: "trace_event \<Rightarrow> window_accumulator \<Rightarrow> window_accumulator" where
  "window_observe e w =
     (if te_Type e = ''measurement_terminated'' then observe_termination e w
      else observe_receipts e (observe_publication e (observe_sessions e (observe_enabled e w))))"

section \<open>Evaluating a session\<close>

record evaluated_session =
  ev_source :: measurement_session
  ev_aliveThrough :: go_time
  ev_completeUntil :: go_time
  ev_stopComplete :: bool
  ev_end :: "go_time option"

text \<open>The loop over the checkpoints: None where the code gives up on the session.\<close>

fun evaluate_proofs :: "measurement_session \<Rightarrow> sequence \<Rightarrow> session_proof list \<Rightarrow> evaluated_session
    \<Rightarrow> evaluated_session option" where
  "evaluate_proofs s through [] r = Some r"
| "evaluate_proofs s through (p # ps) r =
     (if pr_sequence p < pr_sequence (ms_start s) \<or> pr_at p < pr_at (ms_start s) \<or> IsZero (pr_at p) then None
      else if (case ms_stop s of None \<Rightarrow> False | Some q \<Rightarrow> pr_sequence q < pr_sequence p \<or> pr_at q < pr_at p) then None
      else
        let r1 = (if ev_aliveThrough r < pr_at p then r\<lparr>ev_aliveThrough := pr_at p\<rparr> else r);
            r2 = (if pr_sequence p \<le> through \<and> ev_completeUntil r1 < pr_at p
                  then r1\<lparr>ev_completeUntil := pr_at p\<rparr> else r1)
        in evaluate_proofs s through ps r2)"

definition evaluateSession :: "measurement_session \<Rightarrow> evaluated_session option" where
  "evaluateSession s =
     (if \<not> ms_started s \<or> \<not> ms_known s \<or> ms_invalid s \<or> IsZero (pr_at (ms_start s)) \<or> pr_sequence (ms_start s) = 0
      then None
      else if (case ms_stop s of None \<Rightarrow> False
                 | Some q \<Rightarrow> pr_at q < pr_at (ms_start s) \<or> pr_sequence q < pr_sequence (ms_start s)) then None
      else
        let through = ranges_through (ms_sequences s) (pr_sequence (ms_start s))
        in case evaluate_proofs s through (ms_proofs s)
             \<lparr>ev_source = s, ev_aliveThrough = 0, ev_completeUntil = 0, ev_stopComplete = False,
              ev_end = map_option pr_at (ms_stop s)\<rparr> of
             None \<Rightarrow> None
           | Some r \<Rightarrow> Some (r\<lparr>ev_stopComplete :=
               (case ms_stop s of None \<Rightarrow> False | Some q \<Rightarrow> pr_sequence q \<le> through)\<rparr>))"

section \<open>The receipts of one message in one session\<close>

record receipt_result =
  rr_ontime :: "window_delivery option"
  rr_late :: bool
  rr_invalid :: bool
  rr_duplicates :: nat

definition empty_receipt :: receipt_result where
  "empty_receipt = \<lparr>rr_ontime = None, rr_late = False, rr_invalid = False, rr_duplicates = 0\<rparr>"

definition clockBounded :: "delivery_metric \<Rightarrow> bool" where
  "clockBounded v \<longleftrightarrow>
     dm_clockSynchronized v \<and> dm_latencyAvailable v \<and> float_le (Fin 0) (dm_latencyUncertaintyMS v)
     \<and> \<not> IsNaN (dm_latencyMS v) \<and> \<not> IsInf (dm_latencyMS v)
     \<and> \<not> IsNaN (dm_latencyUncertaintyMS v) \<and> \<not> IsInf (dm_latencyUncertaintyMS v)"

text \<open>The delivery lies outside what the session can vouch for.\<close>

definition outside_session :: "window_publication \<Rightarrow> evaluated_session \<Rightarrow> window_delivery \<Rightarrow> bool" where
  "outside_session pub e d \<longleftrightarrow>
     (let s = ev_source e; arrived = pr_at (wd_proof d)
      in (\<not> clockBounded (wd_value d) \<and> arrived < wp_at pub) \<or> arrived < pr_at (ms_start s)
         \<or> pr_sequence (wd_proof d) < pr_sequence (ms_start s)
         \<or> (case ev_end e of None \<Rightarrow> False | Some t \<Rightarrow> t < arrived)
         \<or> (case ms_stop s of None \<Rightarrow> False
              | Some q \<Rightarrow> pr_at q < arrived \<or> pr_sequence q < pr_sequence (wd_proof d)))"

definition windowMS :: "window_publication \<Rightarrow> float64" where
  "windowMS pub = float_div (float_of_int (time_Sub (wp_deadline pub) (wp_at pub))) (float_of_int Millisecond)"

definition take_ontime :: "window_delivery \<Rightarrow> receipt_result \<Rightarrow> receipt_result" where
  "take_ontime d r =
     (if (case rr_ontime r of None \<Rightarrow> True | Some o' \<Rightarrow> pr_at (wd_proof d) < pr_at (wd_proof o'))
      then r\<lparr>rr_ontime := Some d\<rparr> else r)"

definition inspect_delivery :: "window_publication \<Rightarrow> evaluated_session \<Rightarrow> receipt_result \<Rightarrow> window_delivery
    \<Rightarrow> receipt_result" where
  "inspect_delivery pub e r d =
     (let v = wd_value d
      in if outside_session pub e d then r\<lparr>rr_invalid := True\<rparr>
         else if clockBounded v then
           let upper = float_add (dm_latencyMS v) (dm_latencyUncertaintyMS v);
               lower = float_sub (dm_latencyMS v) (dm_latencyUncertaintyMS v)
           in if float_less upper (Fin 0) then r\<lparr>rr_invalid := True\<rparr>
              else if float_less (windowMS pub) upper then
                if float_less (windowMS pub) lower then r\<lparr>rr_late := True\<rparr> else r\<lparr>rr_invalid := True\<rparr>
              else take_ontime d r
         else if dm_latencyAvailable v
                 \<and> (float_less (dm_latencyMS v) (Fin 0) \<or> IsNaN (dm_latencyMS v) \<or> IsInf (dm_latencyMS v))
              then r\<lparr>rr_invalid := True\<rparr>
         else if wp_deadline pub < pr_at (wd_proof d) then r\<lparr>rr_late := True\<rparr>
         else take_ontime d r)"

definition counted_duplicate :: "window_publication \<Rightarrow> evaluated_session \<Rightarrow> session_proof \<Rightarrow> bool" where
  "counted_duplicate pub e p \<longleftrightarrow>
     (let s = ev_source e
      in \<not> pr_at p < wp_at pub \<and> \<not> wp_deadline pub < pr_at p \<and> pr_sequence (ms_start s) \<le> pr_sequence p
         \<and> (case ev_end e of None \<Rightarrow> True | Some t \<Rightarrow> \<not> t < pr_at p)
         \<and> (case ms_stop s of None \<Rightarrow> True | Some q \<Rightarrow> \<not> pr_at q < pr_at p \<and> pr_sequence p \<le> pr_sequence q))"

definition inspectWindowReceipts :: "window_receipts option \<Rightarrow> window_publication \<Rightarrow> evaluated_session
    \<Rightarrow> receipt_result" where
  "inspectWindowReceipts rs pub e =
     (case rs of
        None \<Rightarrow> empty_receipt
      | Some r \<Rightarrow>
          (foldl (inspect_delivery pub e) empty_receipt (wr_deliveries r))
            \<lparr>rr_duplicates := length (filter (counted_duplicate pub e) (wr_duplicates r))\<rparr>)"

end
