(* ===== verification/SessionSummary.thy ===== *)
theory SessionSummary
  imports SessionWindow
begin

text \<open>
  The summary of the session-window accumulator (\<open>summarizeContext\<close> of
  \<open>internal/controller/run_metrics_window.go\<close>, with a context that is never cancelled, as \<open>summarize\<close>
  calls it): one sweep over each topic pairs every finalized publication with the sessions that were
  active when it was published.
\<close>

section \<open>Metrics\<close>

record control_metric =
  cm_AgentID :: gostring
  cm_Direction :: gostring
  cm_ControlType :: gostring
  cm_RPCs :: int
  cm_Entries :: int
  cm_MessageIDs :: int
  cm_PeerExchangeRecords :: int

record metrics =
  mt_DeliveryWindows :: "gostring list"
  mt_Definition :: gostring
  mt_RunID :: gostring
  mt_Published :: int
  mt_Delivered :: int
  mt_Duplicates :: int
  mt_AverageLatencyMS :: float64
  mt_P95LatencyMS :: float64
  mt_Reachability :: float64
  mt_EligibleDeliveries :: int
  mt_ExpectedDeliveries :: int
  mt_DeliveryRatioAvailable :: bool
  mt_LatencySamples :: int
  mt_InvalidLatencySamples :: int
  mt_AverageDuplicates :: float64
  mt_EligibleDuplicates :: int
  mt_DuplicateSamples :: int
  mt_UnscopedPublications :: int
  mt_DeliveryRatioUpperBound :: float64
  mt_UnknownDeliveries :: int
  mt_MissedDeliveries :: int
  mt_LateDeliveries :: int
  mt_PendingPublications :: int
  mt_FinalizedPublications :: int
  mt_InitialExpectedDeliveries :: int
  mt_InitialEligibleDeliveries :: int
  mt_InitialUnknownDeliveries :: int
  mt_InitialDeliveryRatio :: float64
  mt_InitialDeliveryRatioUpperBound :: float64
  mt_InitialDeliveryRatioAvailable :: bool
  mt_DepartedPairs :: int
  mt_PublicationAvailabilityUnknownPairs :: int
  mt_ContinuityUnknownPairs :: int
  mt_AvailabilityUnknownPairs :: int
  mt_StableCoverage :: float64
  mt_StableCoverageUpperBound :: float64
  mt_StableCoverageAvailable :: bool
  mt_LegacyPublications :: int
  mt_MeasurementIncomplete :: bool
  mt_Bandwidth :: "bandwidth_summary option"
  mt_GossipSubControl :: "control_metric list"

definition zero_metrics :: metrics where
  "zero_metrics = \<lparr>mt_DeliveryWindows = [], mt_Definition = [], mt_RunID = [], mt_Published = 0, mt_Delivered = 0,
     mt_Duplicates = 0, mt_AverageLatencyMS = Fin 0, mt_P95LatencyMS = Fin 0, mt_Reachability = Fin 0,
     mt_EligibleDeliveries = 0, mt_ExpectedDeliveries = 0, mt_DeliveryRatioAvailable = False,
     mt_LatencySamples = 0, mt_InvalidLatencySamples = 0, mt_AverageDuplicates = Fin 0,
     mt_EligibleDuplicates = 0, mt_DuplicateSamples = 0, mt_UnscopedPublications = 0,
     mt_DeliveryRatioUpperBound = Fin 0, mt_UnknownDeliveries = 0, mt_MissedDeliveries = 0,
     mt_LateDeliveries = 0, mt_PendingPublications = 0, mt_FinalizedPublications = 0,
     mt_InitialExpectedDeliveries = 0, mt_InitialEligibleDeliveries = 0, mt_InitialUnknownDeliveries = 0,
     mt_InitialDeliveryRatio = Fin 0, mt_InitialDeliveryRatioUpperBound = Fin 0,
     mt_InitialDeliveryRatioAvailable = False, mt_DepartedPairs = 0, mt_PublicationAvailabilityUnknownPairs = 0,
     mt_ContinuityUnknownPairs = 0, mt_AvailabilityUnknownPairs = 0, mt_StableCoverage = Fin 0,
     mt_StableCoverageUpperBound = Fin 0, mt_StableCoverageAvailable = False, mt_LegacyPublications = 0,
     mt_MeasurementIncomplete = False, mt_Bandwidth = None, mt_GossipSubControl = []\<rparr>"

record propagation_sample =
  ps_agentID :: gostring
  ps_topic :: gostring
  ps_seconds :: float64
  ps_nodeID :: gostring

text \<open>What the loops over pairs accumulate.\<close>

record tally =
  ta_metrics :: metrics
  ta_latencies :: "float64 list"
  ta_samples :: "propagation_sample list"

section \<open>One pair of a publication and a session\<close>

definition departed :: "window_publication \<Rightarrow> evaluated_session \<Rightarrow> bool" where
  "departed pub e \<longleftrightarrow> (case ev_end e of None \<Rightarrow> False | Some t \<Rightarrow> t < wp_deadline pub)"

definition initial_counts :: "window_publication \<Rightarrow> evaluated_session \<Rightarrow> receipt_result \<Rightarrow> metrics \<Rightarrow> metrics" where
  "initial_counts pub e r m =
     (let m1 = m\<lparr>mt_InitialExpectedDeliveries := mt_InitialExpectedDeliveries m + 1\<rparr>
      in if rr_ontime r \<noteq> None then m1\<lparr>mt_InitialEligibleDeliveries := mt_InitialEligibleDeliveries m1 + 1\<rparr>
         else if rr_invalid r \<or> (departed pub e \<and> \<not> ev_stopComplete e)
                 \<or> (\<not> departed pub e \<and> ev_completeUntil e < wp_deadline pub)
         then m1\<lparr>mt_InitialUnknownDeliveries := mt_InitialUnknownDeliveries m1 + 1\<rparr> else m1)"

definition absent_counts :: "window_publication \<Rightarrow> evaluated_session \<Rightarrow> receipt_result \<Rightarrow> metrics \<Rightarrow> metrics" where
  "absent_counts pub e r m =
     (let m1 = (if rr_invalid r \<or> ev_completeUntil e < wp_deadline pub
                then m\<lparr>mt_UnknownDeliveries := mt_UnknownDeliveries m + 1\<rparr>
                else m\<lparr>mt_MissedDeliveries := mt_MissedDeliveries m + 1\<rparr>);
          m2 = (if rr_late r then m1\<lparr>mt_LateDeliveries := mt_LateDeliveries m1 + 1\<rparr> else m1)
      in if rr_invalid r then m2\<lparr>mt_InvalidLatencySamples := mt_InvalidLatencySamples m2 + 1\<rparr> else m2)"

definition usable_latency :: "float64 \<Rightarrow> bool" where
  "usable_latency f \<longleftrightarrow> float_le (Fin 0) f \<and> \<not> IsNaN f \<and> \<not> IsInf f"

definition eligible_counts :: "window_publication \<Rightarrow> gostring \<Rightarrow> receipt_result \<Rightarrow> delivery_metric \<Rightarrow> tally
    \<Rightarrow> tally" where
  "eligible_counts pub nodeID r v t =
     (let m = ta_metrics t;
          m1 = m\<lparr>mt_EligibleDeliveries := mt_EligibleDeliveries m + 1,
                 mt_EligibleDuplicates := mt_EligibleDuplicates m + int (rr_duplicates r)\<rparr>
      in if dm_latencyAvailable v \<and> usable_latency (dm_latencyMS v)
         then t\<lparr>ta_metrics := m1, ta_latencies := ta_latencies t @ [dm_latencyMS v],
                ta_samples := ta_samples t @ [\<lparr>ps_agentID = dm_agentID v, ps_topic = mk_topic (wp_key pub),
                  ps_seconds = float_div (dm_latencyMS v) (Fin 1000), ps_nodeID = nodeID\<rparr>]\<rparr>
         else if dm_latencyAvailable v
         then t\<lparr>ta_metrics := m1\<lparr>mt_InvalidLatencySamples := mt_InvalidLatencySamples m1 + 1\<rparr>\<rparr>
         else t\<lparr>ta_metrics := m1\<rparr>)"

definition pair_step :: "window_accumulator \<Rightarrow> window_publication \<Rightarrow> session_key \<times> evaluated_session \<Rightarrow> tally
    \<Rightarrow> tally" where
  "pair_step w pub ke t =
     (case ke of (key, e) \<Rightarrow>
        let m = ta_metrics t
        in if sk_nodeID key = wp_publisher pub then t
           else if ev_aliveThrough e < wp_at pub
           then t\<lparr>ta_metrics := m\<lparr>mt_PublicationAvailabilityUnknownPairs := mt_PublicationAvailabilityUnknownPairs m + 1,
                                mt_AvailabilityUnknownPairs := mt_AvailabilityUnknownPairs m + 1\<rparr>\<rparr>
           else
             let r = inspectWindowReceipts (map_of (mget [] (wa_receipts w) (wp_key pub)) key) pub e;
                 m1 = initial_counts pub e r m
             in if departed pub e then t\<lparr>ta_metrics := m1\<lparr>mt_DepartedPairs := mt_DepartedPairs m1 + 1\<rparr>\<rparr>
                else if ev_aliveThrough e < wp_deadline pub
                then t\<lparr>ta_metrics := m1\<lparr>mt_ContinuityUnknownPairs := mt_ContinuityUnknownPairs m1 + 1,
                                     mt_AvailabilityUnknownPairs := mt_AvailabilityUnknownPairs m1 + 1\<rparr>\<rparr>
                else
                  let m2 = m1\<lparr>mt_ExpectedDeliveries := mt_ExpectedDeliveries m1 + 1\<rparr>
                  in case rr_ontime r of
                       None \<Rightarrow> t\<lparr>ta_metrics := absent_counts pub e r m2\<rparr>
                     | Some d \<Rightarrow> eligible_counts pub (sk_nodeID key) r (wd_value d) (t\<lparr>ta_metrics := m2\<rparr>))"

section \<open>The sweep of a topic\<close>

record topic_index =
  ti_starts :: "evaluated_session list"
  ti_ends :: "evaluated_session list"
  ti_publications :: "window_publication list"

definition empty_index :: topic_index where
  "empty_index = \<lparr>ti_starts = [], ti_ends = [], ti_publications = []\<rparr>"

definition started_at :: "evaluated_session \<Rightarrow> go_time" where
  "started_at e = pr_at (ms_start (ev_source e))"

definition ended_at :: "evaluated_session \<Rightarrow> go_time" where
  "ended_at e = (case ev_end e of Some t \<Rightarrow> t | None \<Rightarrow> 0)"

text \<open>The two inner loops: sessions that started by the publication enter, those that ended leave.\<close>

fun admit :: "go_time \<Rightarrow> evaluated_session list \<Rightarrow> (session_key, evaluated_session) gomap
    \<Rightarrow> evaluated_session list \<times> (session_key, evaluated_session) gomap" where
  "admit now [] active = ([], active)"
| "admit now (e # es) active =
     (if \<not> now < started_at e then admit now es (AList.update (ms_key (ev_source e)) e active) else (e # es, active))"

fun retire :: "go_time \<Rightarrow> evaluated_session list \<Rightarrow> (session_key, evaluated_session) gomap
    \<Rightarrow> evaluated_session list \<times> (session_key, evaluated_session) gomap" where
  "retire now [] active = ([], active)"
| "retire now (e # es) active =
     (if \<not> now < ended_at e then retire now es (AList.delete (ms_key (ev_source e)) active) else (e # es, active))"

fun sweep :: "window_accumulator \<Rightarrow> window_publication list \<Rightarrow> evaluated_session list \<Rightarrow> evaluated_session list
    \<Rightarrow> (session_key, evaluated_session) gomap \<Rightarrow> tally \<Rightarrow> tally" where
  "sweep w [] starts ends active t = t"
| "sweep w (pub # pubs) starts ends active t =
     (case admit (wp_at pub) starts active of (starts', active1) \<Rightarrow>
        case retire (wp_at pub) ends active1 of (ends', active2) \<Rightarrow>
          sweep w pubs starts' ends' active2 (fold (pair_step w pub) active2 t))"

definition sweep_topic :: "window_accumulator \<Rightarrow> topic_index \<Rightarrow> tally \<Rightarrow> tally" where
  "sweep_topic w index t =
     sweep w (sort_Slice (\<lambda>p q. wp_at p < wp_at q) (ti_publications index))
       (sort_Slice (\<lambda>a b. started_at a < started_at b) (ti_starts index))
       (sort_Slice (\<lambda>a b. ended_at a < ended_at b) (ti_ends index)) [] t"

section \<open>The index of sessions and publications\<close>

record window_index =
  wi_topics :: "(gostring, topic_index) gomap"
  wi_nodes :: "gostring list"
  wi_metrics :: metrics

definition update_index :: "gostring \<Rightarrow> (topic_index \<Rightarrow> topic_index) \<Rightarrow> window_index \<Rightarrow> window_index" where
  "update_index topic f x =
     x\<lparr>wi_topics := AList.update topic (f (mget empty_index (wi_topics x) topic)) (wi_topics x)\<rparr>"

definition mark_incomplete :: "bool \<Rightarrow> window_index \<Rightarrow> window_index" where
  "mark_incomplete bad x =
     (if bad then x\<lparr>wi_metrics := (wi_metrics x)\<lparr>mt_MeasurementIncomplete := True\<rparr>\<rparr> else x)"

text \<open>A confirmed termination after the start caps the session.\<close>

definition cap_session :: "go_time \<Rightarrow> evaluated_session \<Rightarrow> evaluated_session" where
  "cap_session terminated e =
     (if \<not> terminated < started_at e \<and> (case ev_end e of None \<Rightarrow> True | Some t \<Rightarrow> terminated < t)
      then e\<lparr>ev_end := Some terminated, ev_stopComplete := False\<rparr> else e)"

definition add_topic :: "evaluated_session \<Rightarrow> gostring \<Rightarrow> window_index \<Rightarrow> window_index" where
  "add_topic e topic x =
     update_index topic (\<lambda>ix. ix\<lparr>ti_starts := ti_starts ix @ [e],
       ti_ends := (if ev_end e \<noteq> None then ti_ends ix @ [e] else ti_ends ix)\<rparr>) x"

definition index_session :: "window_accumulator \<Rightarrow> session_key \<times> measurement_session \<Rightarrow> window_index \<Rightarrow> window_index" where
  "index_session w ks x =
     (case evaluateSession (snd ks) of
        None \<Rightarrow> mark_incomplete True x
      | Some e0 \<Rightarrow>
          let nodeID = sk_nodeID (ms_key (snd ks));
              x1 = x\<lparr>wi_nodes := List.insert nodeID (wi_nodes x)\<rparr>;
              e = fold cap_session (mget [] (wa_terminations w) nodeID) e0
          in if (case ev_end e of None \<Rightarrow> False | Some t \<Rightarrow> t < ev_aliveThrough e) then mark_incomplete True x1
             else fold (add_topic e) (ms_topics (snd ks)) x1)"

definition containsWindow :: "gostring list \<Rightarrow> gostring \<Rightarrow> bool" where
  "containsWindow windows candidate \<longleftrightarrow> list_ex (\<lambda>window. candidate = window) windows"

definition note_window :: "window_publication \<Rightarrow> metrics \<Rightarrow> metrics" where
  "note_window pub m =
     (let window = duration_String (time_Sub (wp_deadline pub) (wp_at pub))
      in if containsWindow (mt_DeliveryWindows m) window then m
         else m\<lparr>mt_DeliveryWindows := mt_DeliveryWindows m @ [window]\<rparr>)"

definition index_publication :: "window_accumulator \<Rightarrow> go_time \<Rightarrow> message_key \<times> window_publication \<Rightarrow> window_index
    \<Rightarrow> window_index" where
  "index_publication w asOf kp x =
     (case kp of (key, pub) \<Rightarrow>
        if wp_local pub then x
        else if \<not> wp_valid pub then mark_incomplete True x
        else
          let x1 = mark_incomplete (list_ex (\<lambda>n. n \<noteq> [] \<and> n \<notin> set (wi_nodes x)) (wp_auditTargets pub)) x;
              x2 = x1\<lparr>wi_metrics := note_window pub (wi_metrics x1)\<rparr>;
              x3 = mark_incomplete (list_ex (\<lambda>ks. sk_sessionID (fst ks) = []) (mget [] (wa_receipts w) key)) x2;
              m = wi_metrics x3
          in if asOf < wp_deadline pub
             then x3\<lparr>wi_metrics := m\<lparr>mt_PendingPublications := mt_PendingPublications m + 1\<rparr>\<rparr>
             else update_index (mk_topic key) (\<lambda>ix. ix\<lparr>ti_publications := ti_publications ix @ [pub]\<rparr>)
                    (x3\<lparr>wi_metrics := m\<lparr>mt_FinalizedPublications := mt_FinalizedPublications m + 1\<rparr>\<rparr>))"

section \<open>Ratios and latencies\<close>

definition ratio :: "int \<Rightarrow> int \<Rightarrow> float64" where
  "ratio a b = float_div (float_of_int a) (float_of_int b)"

definition window_ratios :: "metrics \<Rightarrow> metrics" where
  "window_ratios m =
     (let expected = mt_ExpectedDeliveries m; initial = mt_InitialExpectedDeliveries m;
          m1 = m\<lparr>mt_DeliveryRatioAvailable := 0 < expected\<rparr>;
          m2 = (if 0 < expected
                then m1\<lparr>mt_Reachability := ratio (mt_EligibleDeliveries m) expected,
                        mt_DeliveryRatioUpperBound := ratio (mt_EligibleDeliveries m + mt_UnknownDeliveries m) expected\<rparr>
                else m1);
          m3 = m2\<lparr>mt_InitialDeliveryRatioAvailable := 0 < initial, mt_StableCoverageAvailable := 0 < initial\<rparr>
      in if 0 < initial
         then m3\<lparr>mt_InitialDeliveryRatio := ratio (mt_InitialEligibleDeliveries m) initial,
                 mt_InitialDeliveryRatioUpperBound :=
                   ratio (mt_InitialEligibleDeliveries m + mt_InitialUnknownDeliveries m) initial,
                 mt_StableCoverage := ratio expected initial,
                 mt_StableCoverageUpperBound := ratio (expected + mt_ContinuityUnknownPairs m) initial\<rparr>
         else m3)"

definition duplicate_average :: "metrics \<Rightarrow> metrics" where
  "duplicate_average m =
     (let m1 = m\<lparr>mt_DuplicateSamples := mt_EligibleDeliveries m\<rparr>
      in if 0 < mt_DuplicateSamples m1
         then m1\<lparr>mt_AverageDuplicates := ratio (mt_EligibleDuplicates m1) (mt_DuplicateSamples m1)\<rparr> else m1)"

fun running_mean :: "float64 \<Rightarrow> int \<Rightarrow> float64 list \<Rightarrow> float64" where
  "running_mean mean i [] = mean"
| "running_mean mean i (v # vs) =
     running_mean (float_add mean (float_div (float_sub v mean) (float_of_int (i + 1)))) (i + 1) vs"

fun float_ceil :: "float64 \<Rightarrow> int" where
  "float_ceil (Fin x) = \<lceil>x\<rceil>"
| "float_ceil _ = MinInt64"

text \<open>The index of the 95th percentile in a sorted list of \<open>n\<close> values.\<close>

definition p95_index :: "nat \<Rightarrow> int" where
  "p95_index n = float_ceil (float_mul (float_round (95 / 100)) (float_of_int (int n))) - 1"

definition latency_metrics :: "float64 list \<Rightarrow> metrics \<Rightarrow> metrics" where
  "latency_metrics latencies m =
     (let m1 = m\<lparr>mt_LatencySamples := int (length latencies)\<rparr>
      in if latencies \<noteq> []
         then let sorted = sort_Slice float_less latencies
              in m1\<lparr>mt_AverageLatencyMS := running_mean (mt_AverageLatencyMS m1) 0 sorted,
                    mt_P95LatencyMS := sorted ! nat (p95_index (length latencies))\<rparr>
         else m1)"

section \<open>The whole summary\<close>

definition window_start_metrics :: "window_accumulator \<Rightarrow> gostring \<Rightarrow> int \<Rightarrow> int \<Rightarrow> int \<Rightarrow> metrics" where
  "window_start_metrics w runID published delivered duplicates =
     zero_metrics\<lparr>mt_Definition := sessionWindowDefinition, mt_RunID := runID, mt_Published := published,
       mt_Delivered := delivered, mt_Duplicates := duplicates,
       mt_LegacyPublications := max 0 (published - int (length (wa_publications w))),
       mt_MeasurementIncomplete := wa_incomplete w\<rparr>"

definition window_indexed :: "window_accumulator \<Rightarrow> go_time \<Rightarrow> metrics \<Rightarrow> window_index" where
  "window_indexed w asOf m =
     fold (index_publication w asOf) (wa_publications w)
       (fold (index_session w) (wa_sessions w) \<lparr>wi_topics = [], wi_nodes = [], wi_metrics = m\<rparr>)"

definition window_summarize :: "window_accumulator \<Rightarrow> gostring \<Rightarrow> go_time \<Rightarrow> int \<Rightarrow> int \<Rightarrow> int
    \<Rightarrow> metrics \<times> propagation_sample list" where
  "window_summarize w runID asOf published delivered duplicates =
     (let x = window_indexed w asOf (window_start_metrics w runID published delivered duplicates);
          m = wi_metrics x;
          t = fold (\<lambda>(topic, ix). sweep_topic w ix) (wi_topics x)
                \<lparr>ta_metrics = m\<lparr>mt_DeliveryWindows := sort_Strings (mt_DeliveryWindows m)\<rparr>,
                 ta_latencies = [], ta_samples = []\<rparr>
      in (latency_metrics (ta_latencies t) (duplicate_average (window_ratios (ta_metrics t))), ta_samples t))"

end
