(* ===== verification/SessionCounts.thy ===== *)
theory SessionCounts
  imports SessionSummary
begin

text \<open>
  The accounting of the session-window summary: what one pair of a publication and a session adds is
  independent of the rest, so the order of the pairs is irrelevant, and every total is a sum of parts.
\<close>

section \<open>A pair adds a fixed amount\<close>

text \<open>The part of a tally that does not depend on the order of the pairs.\<close>

definition plus_counts :: "metrics \<Rightarrow> metrics \<Rightarrow> metrics" where
  "plus_counts m d = m\<lparr>
     mt_EligibleDeliveries := mt_EligibleDeliveries m + mt_EligibleDeliveries d,
     mt_ExpectedDeliveries := mt_ExpectedDeliveries m + mt_ExpectedDeliveries d,
     mt_InvalidLatencySamples := mt_InvalidLatencySamples m + mt_InvalidLatencySamples d,
     mt_EligibleDuplicates := mt_EligibleDuplicates m + mt_EligibleDuplicates d,
     mt_UnknownDeliveries := mt_UnknownDeliveries m + mt_UnknownDeliveries d,
     mt_MissedDeliveries := mt_MissedDeliveries m + mt_MissedDeliveries d,
     mt_LateDeliveries := mt_LateDeliveries m + mt_LateDeliveries d,
     mt_InitialExpectedDeliveries := mt_InitialExpectedDeliveries m + mt_InitialExpectedDeliveries d,
     mt_InitialEligibleDeliveries := mt_InitialEligibleDeliveries m + mt_InitialEligibleDeliveries d,
     mt_InitialUnknownDeliveries := mt_InitialUnknownDeliveries m + mt_InitialUnknownDeliveries d,
     mt_DepartedPairs := mt_DepartedPairs m + mt_DepartedPairs d,
     mt_PublicationAvailabilityUnknownPairs :=
       mt_PublicationAvailabilityUnknownPairs m + mt_PublicationAvailabilityUnknownPairs d,
     mt_ContinuityUnknownPairs := mt_ContinuityUnknownPairs m + mt_ContinuityUnknownPairs d,
     mt_AvailabilityUnknownPairs := mt_AvailabilityUnknownPairs m + mt_AvailabilityUnknownPairs d\<rparr>"

type_synonym view = "metrics \<times> float64 multiset \<times> propagation_sample multiset"

definition view_of :: "tally \<Rightarrow> view" where
  "view_of t = (ta_metrics t, mset (ta_latencies t), mset (ta_samples t))"

fun plus_view :: "view \<Rightarrow> view \<Rightarrow> view" where
  "plus_view (m, l, s) (d, l', s') = (plus_counts m d, l + l', s + s')"

definition empty_tally :: tally where
  "empty_tally = \<lparr>ta_metrics = zero_metrics, ta_latencies = [], ta_samples = []\<rparr>"

definition pair_amount :: "window_accumulator \<Rightarrow> window_publication \<Rightarrow> session_key \<times> evaluated_session \<Rightarrow> view" where
  "pair_amount w pub ke = view_of (pair_step w pub ke empty_tally)"

lemma plus_counts_comm: "plus_counts (plus_counts m a) b = plus_counts (plus_counts m b) a"
  by (simp add: plus_counts_def)

lemma plus_view_comm: "plus_view (plus_view v a) b = plus_view (plus_view v b) a"
  by (cases v; cases a; cases b) (simp add: plus_counts_comm ac_simps)

lemma plus_counts_assoc: "plus_counts (plus_counts m a) b = plus_counts m (plus_counts a b)"
  by (simp add: plus_counts_def add.assoc)

lemma plus_counts_zero [simp]: "plus_counts m zero_metrics = m"
  by (simp add: plus_counts_def zero_metrics_def)

text \<open>The single increments of the code.\<close>

lemma count_steps:
  "m\<lparr>mt_InitialExpectedDeliveries := mt_InitialExpectedDeliveries m + 1\<rparr>
     = plus_counts m (zero_metrics\<lparr>mt_InitialExpectedDeliveries := 1\<rparr>)"
  "m\<lparr>mt_InitialEligibleDeliveries := mt_InitialEligibleDeliveries m + 1\<rparr>
     = plus_counts m (zero_metrics\<lparr>mt_InitialEligibleDeliveries := 1\<rparr>)"
  "m\<lparr>mt_InitialUnknownDeliveries := mt_InitialUnknownDeliveries m + 1\<rparr>
     = plus_counts m (zero_metrics\<lparr>mt_InitialUnknownDeliveries := 1\<rparr>)"
  "m\<lparr>mt_UnknownDeliveries := mt_UnknownDeliveries m + 1\<rparr> = plus_counts m (zero_metrics\<lparr>mt_UnknownDeliveries := 1\<rparr>)"
  "m\<lparr>mt_MissedDeliveries := mt_MissedDeliveries m + 1\<rparr> = plus_counts m (zero_metrics\<lparr>mt_MissedDeliveries := 1\<rparr>)"
  "m\<lparr>mt_LateDeliveries := mt_LateDeliveries m + 1\<rparr> = plus_counts m (zero_metrics\<lparr>mt_LateDeliveries := 1\<rparr>)"
  "m\<lparr>mt_InvalidLatencySamples := mt_InvalidLatencySamples m + 1\<rparr>
     = plus_counts m (zero_metrics\<lparr>mt_InvalidLatencySamples := 1\<rparr>)"
  "m\<lparr>mt_DepartedPairs := mt_DepartedPairs m + 1\<rparr> = plus_counts m (zero_metrics\<lparr>mt_DepartedPairs := 1\<rparr>)"
  "m\<lparr>mt_ExpectedDeliveries := mt_ExpectedDeliveries m + 1\<rparr> = plus_counts m (zero_metrics\<lparr>mt_ExpectedDeliveries := 1\<rparr>)"
  "m\<lparr>mt_PublicationAvailabilityUnknownPairs := mt_PublicationAvailabilityUnknownPairs m + 1,
     mt_AvailabilityUnknownPairs := mt_AvailabilityUnknownPairs m + 1\<rparr>
     = plus_counts m (zero_metrics\<lparr>mt_PublicationAvailabilityUnknownPairs := 1, mt_AvailabilityUnknownPairs := 1\<rparr>)"
  "m\<lparr>mt_ContinuityUnknownPairs := mt_ContinuityUnknownPairs m + 1,
     mt_AvailabilityUnknownPairs := mt_AvailabilityUnknownPairs m + 1\<rparr>
     = plus_counts m (zero_metrics\<lparr>mt_ContinuityUnknownPairs := 1, mt_AvailabilityUnknownPairs := 1\<rparr>)"
  "m\<lparr>mt_EligibleDeliveries := mt_EligibleDeliveries m + 1, mt_EligibleDuplicates := mt_EligibleDuplicates m + n\<rparr>
     = plus_counts m (zero_metrics\<lparr>mt_EligibleDeliveries := 1, mt_EligibleDuplicates := n\<rparr>)"
  by (simp_all add: plus_counts_def zero_metrics_def)

lemma initial_counts_amount:
  "initial_counts pub e r (plus_counts m a) = plus_counts m (initial_counts pub e r a)"
  by (simp add: initial_counts_def Let_def count_steps plus_counts_assoc)

lemma absent_counts_amount:
  "absent_counts pub e r (plus_counts m a) = plus_counts m (absent_counts pub e r a)"
  by (simp add: absent_counts_def Let_def count_steps plus_counts_assoc)

lemma eligible_counts_amount:
  assumes "view_of t = plus_view v (view_of u)"
  shows "view_of (eligible_counts pub n r d t) = plus_view v (view_of (eligible_counts pub n r d u))"
  using assms
  by (cases v) (simp add: view_of_def eligible_counts_def Let_def count_steps plus_counts_assoc)

lemma metrics_amount:
  assumes "view_of t = plus_view v (view_of u)"
    and "\<And>m a. f (plus_counts m a) = plus_counts m (f a)"
  shows "view_of (t\<lparr>ta_metrics := f (ta_metrics t)\<rparr>) = plus_view v (view_of (u\<lparr>ta_metrics := f (ta_metrics u)\<rparr>))"
  using assms by (cases v) (simp add: view_of_def)

lemma pair_step_shift:
  assumes "view_of t = plus_view v (view_of u)"
  shows "view_of (pair_step w pub ke t) = plus_view v (view_of (pair_step w pub ke u))"
proof (cases ke)
  case (Pair key e)
  note m = metrics_amount [OF assms]
  define r where "r = inspectWindowReceipts (map_of (mget [] (wa_receipts w) (wp_key pub)) key) pub e"
  show ?thesis
  proof (cases "sk_nodeID key = wp_publisher pub \<or> ev_aliveThrough e < wp_at pub
      \<or> departed pub e \<or> ev_aliveThrough e < wp_deadline pub \<or> rr_ontime r = None")
    case True
    then show ?thesis
      using assms unfolding Pair pair_step_def prod.case Let_def r_def [symmetric] count_steps
      by (auto intro!: m simp: initial_counts_amount absent_counts_amount plus_counts_assoc)
  next
    case False
    then obtain d where d: "rr_ontime r = Some d" by auto
    have "view_of (t\<lparr>ta_metrics := plus_counts (initial_counts pub e r (ta_metrics t)) (zero_metrics\<lparr>mt_ExpectedDeliveries := 1\<rparr>)\<rparr>)
        = plus_view v (view_of (u\<lparr>ta_metrics := plus_counts (initial_counts pub e r (ta_metrics u)) (zero_metrics\<lparr>mt_ExpectedDeliveries := 1\<rparr>)\<rparr>))"
      by (rule m) (simp add: initial_counts_amount plus_counts_assoc)
    from eligible_counts_amount [OF this] show ?thesis
      using False d unfolding Pair pair_step_def prod.case Let_def r_def [symmetric] count_steps by simp
  qed
qed

lemma pair_step_amount:
  "view_of (pair_step w pub ke t) = plus_view (view_of t) (pair_amount w pub ke)"
  unfolding pair_amount_def
  by (rule pair_step_shift) (simp add: view_of_def empty_tally_def)

text \<open>Hence any order of the pairs gives the same amounts.\<close>

lemma view_fold:
  "view_of (fold (\<lambda>x. pair_step w (fst x) (snd x)) xs t)
     = fold (\<lambda>x v. plus_view v (pair_amount w (fst x) (snd x))) xs (view_of t)"
  by (induction xs arbitrary: t) (simp_all add: pair_step_amount)

lemma view_fold_order:
  assumes "mset xs = mset ys"
  shows "view_of (fold (\<lambda>x. pair_step w (fst x) (snd x)) xs t) = view_of (fold (\<lambda>x. pair_step w (fst x) (snd x)) ys t)"
  unfolding view_fold
  by (rule arg_cong [where f = "\<lambda>g. g (view_of t)"], rule fold_multiset_equiv [OF _ assms])
     (simp add: fun_eq_iff plus_view_comm)

section \<open>The totals are sums of parts\<close>

definition counts_ok :: "tally \<Rightarrow> bool" where
  "counts_ok t \<longleftrightarrow>
     (let m = ta_metrics t in
      mt_ExpectedDeliveries m = mt_EligibleDeliveries m + mt_UnknownDeliveries m + mt_MissedDeliveries m
      \<and> mt_InitialExpectedDeliveries m = mt_DepartedPairs m + mt_ContinuityUnknownPairs m + mt_ExpectedDeliveries m
      \<and> mt_AvailabilityUnknownPairs m = mt_PublicationAvailabilityUnknownPairs m + mt_ContinuityUnknownPairs m
      \<and> mt_InitialEligibleDeliveries m + mt_InitialUnknownDeliveries m \<le> mt_InitialExpectedDeliveries m
      \<and> mt_EligibleDeliveries m \<le> mt_InitialEligibleDeliveries m
      \<and> mt_UnknownDeliveries m \<le> mt_InitialUnknownDeliveries m
      \<and> 0 \<le> mt_EligibleDeliveries m \<and> 0 \<le> mt_UnknownDeliveries m \<and> 0 \<le> mt_MissedDeliveries m
      \<and> 0 \<le> mt_DepartedPairs m \<and> 0 \<le> mt_ContinuityUnknownPairs m \<and> 0 \<le> mt_EligibleDuplicates m
      \<and> mt_LateDeliveries m \<le> mt_UnknownDeliveries m + mt_MissedDeliveries m
      \<and> length (ta_samples t) = length (ta_latencies t) \<and> int (length (ta_latencies t)) \<le> mt_EligibleDeliveries m
      \<and> list_all usable_latency (ta_latencies t))"

lemma pair_step_counts_ok:
  assumes "counts_ok t" shows "counts_ok (pair_step w pub ke t)"
proof (cases ke)
  case (Pair key e)
  define r where "r = inspectWindowReceipts (map_of (mget [] (wa_receipts w) (wp_key pub)) key) pub e"
  show ?thesis
    using assms unfolding Pair pair_step_def prod.case Let_def r_def [symmetric]
    by (cases "rr_ontime r")
       (simp_all add: counts_ok_def Let_def initial_counts_def absent_counts_def eligible_counts_def)
qed

lemma fold_counts_ok: "counts_ok t \<Longrightarrow> counts_ok (fold (pair_step w pub) active t)"
  by (induction active arbitrary: t) (simp_all add: pair_step_counts_ok)

lemma sweep_counts_ok: "counts_ok t \<Longrightarrow> counts_ok (sweep w pubs starts ends active t)"
proof (induction pubs arbitrary: starts ends active t)
  case (Cons pub pubs)
  then show ?case by (simp add: fold_counts_ok split: prod.split)
qed simp

end
