(* ===== verification/SessionSweep.thy ===== *)
theory SessionSweep
  imports SessionCounts
begin

text \<open>
  The sweep of a topic against its specification: the pairs it counts are exactly those a scan of every
  session for every publication would count.
\<close>

section \<open>The scan\<close>

text \<open>A session is active for a publication when it started by then and has not ended by then.\<close>

definition active_at :: "go_time \<Rightarrow> evaluated_session \<Rightarrow> bool" where
  "active_at now e \<longleftrightarrow> started_at e \<le> now \<and> (case ev_end e of None \<Rightarrow> True | Some t \<Rightarrow> now < t)"

definition session_key_of :: "evaluated_session \<Rightarrow> session_key" where
  "session_key_of e = ms_key (ev_source e)"

definition scan_pairs :: "window_publication list \<Rightarrow> evaluated_session list
    \<Rightarrow> (window_publication \<times> session_key \<times> evaluated_session) list" where
  "scan_pairs pubs es =
     concat (map (\<lambda>pub. map (\<lambda>e. (pub, session_key_of e, e)) (filter (active_at (wp_at pub)) es)) pubs)"

definition scan_topic :: "window_accumulator \<Rightarrow> topic_index \<Rightarrow> tally \<Rightarrow> tally" where
  "scan_topic w ix t =
     fold (\<lambda>x. pair_step w (fst x) (snd x)) (scan_pairs (ti_publications ix) (ti_starts ix)) t"

text \<open>What the index guarantees: one entry per session, which does not end before it starts.\<close>

definition lifetime_ok :: "evaluated_session \<Rightarrow> bool" where
  "lifetime_ok e \<longleftrightarrow> ev_end e = None \<or> started_at e \<le> ended_at e"

definition sessions_ok :: "evaluated_session list \<Rightarrow> bool" where
  "sessions_ok es \<longleftrightarrow> distinct (map session_key_of es) \<and> list_all lifetime_ok es"

definition index_ok :: "topic_index \<Rightarrow> bool" where
  "index_ok ix \<longleftrightarrow> sessions_ok (ti_starts ix) \<and> ti_ends ix = filter (\<lambda>e. ev_end e \<noteq> None) (ti_starts ix)"

section \<open>The inner loops\<close>

interpretation start_order: slice_order "\<lambda>a b. started_at a < started_at b" started_at "\<lambda>_. True"
  by unfold_locales auto

interpretation end_order: slice_order "\<lambda>a b. ended_at a < ended_at b" ended_at "\<lambda>_. True"
  by unfold_locales auto

interpretation publication_order: slice_order "\<lambda>p q. wp_at p < wp_at q" wp_at "\<lambda>_. True"
  by unfold_locales auto

definition enter :: "evaluated_session list \<Rightarrow> (session_key, evaluated_session) gomap \<Rightarrow> (session_key, evaluated_session) gomap" where
  "enter es active = fold (\<lambda>e. AList.update (session_key_of e) e) es active"

definition leave :: "evaluated_session list \<Rightarrow> (session_key, evaluated_session) gomap \<Rightarrow> (session_key, evaluated_session) gomap" where
  "leave es active = fold (\<lambda>e. AList.delete (session_key_of e)) es active"

lemma admit_filter:
  "sorted_wrt (\<lambda>a b. started_at a \<le> started_at b) es \<Longrightarrow>
   admit now es active = (filter (\<lambda>e. now < started_at e) es, enter (filter (\<lambda>e. \<not> now < started_at e) es) active)"
proof (induction es arbitrary: active)
  case (Cons e es)
  have "filter (\<lambda>e. now < started_at e) es = es" "filter (\<lambda>e. \<not> now < started_at e) es = []"
    if "now < started_at e"
    using that Cons.prems by (auto simp: filter_id_conv filter_empty_conv)
  then show ?case using Cons by (simp add: enter_def session_key_of_def)
qed (simp add: enter_def)

lemma retire_filter:
  "sorted_wrt (\<lambda>a b. ended_at a \<le> ended_at b) es \<Longrightarrow>
   retire now es active = (filter (\<lambda>e. now < ended_at e) es, leave (filter (\<lambda>e. \<not> now < ended_at e) es) active)"
proof (induction es arbitrary: active)
  case (Cons e es)
  have "filter (\<lambda>e. now < ended_at e) es = es" "filter (\<lambda>e. \<not> now < ended_at e) es = []"
    if "now < ended_at e"
    using that Cons.prems by (auto simp: filter_id_conv filter_empty_conv)
  then show ?case using Cons by (simp add: leave_def session_key_of_def)
qed (simp add: leave_def)

lemma map_of_enter:
  "inj_on session_key_of (set es) \<Longrightarrow>
   map_of (enter es active) k = Some v \<longleftrightarrow>
     v \<in> set es \<and> session_key_of v = k \<or> (\<forall>e \<in> set es. session_key_of e \<noteq> k) \<and> map_of active k = Some v"
proof (induction es arbitrary: active)
  case (Cons e es)
  have inj: "inj_on session_key_of (set es)" using Cons.prems by (rule inj_on_subset) auto
  have same: "\<forall>x \<in> set es. session_key_of x = session_key_of e \<longrightarrow> x = e"
    using Cons.prems unfolding inj_on_def by simp
  have "enter (e # es) active = enter es (AList.update (session_key_of e) e active)"
    by (simp add: enter_def)
  then show ?case
    using Cons.IH [OF inj, of "AList.update (session_key_of e) e active"] same by (auto split: if_splits)
qed (simp add: enter_def)

lemma map_of_leave:
  "map_of (leave es active) k = (if \<exists>e \<in> set es. session_key_of e = k then None else map_of active k)"
  by (induction es arbitrary: active) (auto simp: leave_def)

lemma wf_enter: "wf_map active \<Longrightarrow> wf_map (enter es active)"
  by (induction es arbitrary: active) (simp_all add: enter_def)

lemma wf_leave: "wf_map active \<Longrightarrow> wf_map (leave es active)"
  by (induction es arbitrary: active) (simp_all add: leave_def)

section \<open>The state of the sweep\<close>

text \<open>After a publication the table holds the sessions that entered and have not left.\<close>

definition holds :: "evaluated_session list \<Rightarrow> (evaluated_session \<Rightarrow> bool) \<Rightarrow> (session_key, evaluated_session) gomap \<Rightarrow> bool" where
  "holds es P active \<longleftrightarrow> wf_map active
     \<and> (\<forall>k e. map_of active k = Some e \<longleftrightarrow> e \<in> set es \<and> session_key_of e = k \<and> P e)"

lemma holds_cong: "(\<And>e. e \<in> set es \<Longrightarrow> P e \<longleftrightarrow> Q e) \<Longrightarrow> holds es P active \<longleftrightarrow> holds es Q active"
  by (auto simp: holds_def)

lemma keys_inj: "sessions_ok es \<Longrightarrow> inj_on session_key_of (set es)"
  by (simp add: sessions_ok_def distinct_map)

lemma holds_enter:
  assumes "sessions_ok es" "holds es P active" "set xs = {e \<in> set es. Q e}"
  shows "holds es (\<lambda>e. P e \<or> Q e) (enter xs active)"
proof -
  have sub: "set xs \<subseteq> set es" using assms(3) by auto
  have inj: "inj_on session_key_of (set xs)" by (rule inj_on_subset [OF keys_inj [OF assms(1)] sub])
  have "map_of (enter xs active) k = Some e \<longleftrightarrow> e \<in> set es \<and> session_key_of e = k \<and> (P e \<or> Q e)" for k e
  proof -
    have "\<forall>x \<in> set xs. session_key_of x \<noteq> k" if "e \<in> set es" "session_key_of e = k" "\<not> Q e"
      using that assms(3) keys_inj [OF assms(1)] by (auto dest: inj_onD)
    then show ?thesis using assms(2,3) unfolding map_of_enter [OF inj] holds_def by blast
  qed
  then show ?thesis using assms(2) wf_enter by (simp add: holds_def)
qed

lemma holds_leave:
  assumes "sessions_ok es" "holds es P active" "set xs = {e \<in> set es. Q e}"
  shows "holds es (\<lambda>e. P e \<and> \<not> Q e) (leave xs active)"
proof -
  have "map_of (leave xs active) k = Some e \<longleftrightarrow> e \<in> set es \<and> session_key_of e = k \<and> P e \<and> \<not> Q e" for k e
  proof (cases "\<exists>x \<in> set xs. session_key_of x = k")
    case True
    then obtain x where x: "x \<in> set xs" "session_key_of x = k" by blast
    have "e = x" if "e \<in> set es" "session_key_of e = k"
      using that x assms(3) keys_inj [OF assms(1)] by (auto dest: inj_onD)
    then show ?thesis using True x assms(3) by (auto simp: map_of_leave)
  next
    case False
    then show ?thesis using assms(2,3) by (auto simp: map_of_leave holds_def)
  qed
  then show ?thesis using assms(2) wf_leave by (simp add: holds_def)
qed

lemma holds_mset:
  assumes "sessions_ok es" "holds es P active"
  shows "mset active = mset (map (\<lambda>e. (session_key_of e, e)) (filter P es))"
proof (rule set_eq_iff_mset_eq_distinct [THEN iffD1])
  show "distinct active" using assms(2) by (simp add: holds_def distinct_map)
  have "distinct es" using assms(1) by (simp add: sessions_ok_def distinct_map)
  then show "distinct (map (\<lambda>e. (session_key_of e, e)) (filter P es))"
    by (auto simp: distinct_map inj_on_def)
  have "x \<in> set active \<longleftrightarrow> map_of active (fst x) = Some (snd x)" for x
    using assms(2) unfolding holds_def by (metis map_of_SomeD map_of_SomeI_wf prod.collapse)
  then show "set active = set (map (\<lambda>e. (session_key_of e, e)) (filter P es))"
    using assms(2) by (auto simp: holds_def set_eq_iff)
qed

section \<open>The sweep is the scan\<close>

definition ended_by :: "go_time \<Rightarrow> evaluated_session \<Rightarrow> bool" where
  "ended_by now e \<longleftrightarrow> ev_end e \<noteq> None \<and> ended_at e \<le> now"

lemma active_at_split: "active_at now e \<longleftrightarrow> \<not> now < started_at e \<and> \<not> ended_by now e"
  by (auto simp: active_at_def ended_by_def ended_at_def split: option.splits)

lemma sweep_scan:
  assumes "sessions_ok es"
  shows "sorted_wrt (\<lambda>p q. wp_at p \<le> wp_at q) pubs \<Longrightarrow>
    sorted_wrt (\<lambda>a b. started_at a \<le> started_at b) starts \<Longrightarrow> sorted_wrt (\<lambda>a b. ended_at a \<le> ended_at b) ends \<Longrightarrow>
    set starts = {e \<in> set es. A e} \<Longrightarrow> set ends = {e \<in> set es. ev_end e \<noteq> None \<and> R e} \<Longrightarrow>
    holds es (\<lambda>e. \<not> A e \<and> (ev_end e \<noteq> None \<longrightarrow> R e)) active \<Longrightarrow>
    (\<And>pub e. pub \<in> set pubs \<Longrightarrow> e \<in> set es \<Longrightarrow> \<not> A e \<Longrightarrow> started_at e \<le> wp_at pub) \<Longrightarrow>
    (\<And>pub e. pub \<in> set pubs \<Longrightarrow> e \<in> set es \<Longrightarrow> ev_end e \<noteq> None \<Longrightarrow> \<not> R e \<Longrightarrow> \<not> A e \<and> ended_at e \<le> wp_at pub) \<Longrightarrow>
    view_of t = view_of u \<Longrightarrow>
    view_of (sweep w pubs starts ends active t)
      = view_of (fold (\<lambda>x. pair_step w (fst x) (snd x)) (scan_pairs pubs es) u)"
proof (induction pubs arbitrary: starts ends active t u A R)
  case Nil
  then show ?case by (simp add: scan_pairs_def)
next
  case (Cons pub pubs)
  let ?now = "wp_at pub"
  let ?starts = "filter (\<lambda>e. ?now < started_at e) starts" and ?ends = "filter (\<lambda>e. ?now < ended_at e) ends"
  let ?act1 = "enter (filter (\<lambda>e. \<not> ?now < started_at e) starts) active"
  let ?act = "leave (filter (\<lambda>e. \<not> ?now < ended_at e) ends) ?act1"
  have in_set: "pub \<in> set (pub # pubs)" by simp
  have later: "?now \<le> wp_at q" if "q \<in> set pubs" for q using that Cons.prems(1) by simp
  have h1: "holds es (\<lambda>e. (\<not> A e \<and> (ev_end e \<noteq> None \<longrightarrow> R e)) \<or> (A e \<and> \<not> ?now < started_at e)) ?act1"
    by (rule holds_enter [OF assms Cons.prems(6)]) (use Cons.prems(4) in auto)
  have h2: "holds es (\<lambda>e. ((\<not> A e \<and> (ev_end e \<noteq> None \<longrightarrow> R e)) \<or> (A e \<and> \<not> ?now < started_at e))
      \<and> \<not> (ev_end e \<noteq> None \<and> R e \<and> \<not> ?now < ended_at e)) ?act"
    by (rule holds_leave [OF assms h1]) (use Cons.prems(5) in auto)
  have act: "holds es (active_at ?now) ?act"
  proof (rule holds_cong [THEN iffD1, OF _ h2])
    fix e assume e: "e \<in> set es"
    show "((\<not> A e \<and> (ev_end e \<noteq> None \<longrightarrow> R e)) \<or> (A e \<and> \<not> ?now < started_at e))
        \<and> \<not> (ev_end e \<noteq> None \<and> R e \<and> \<not> ?now < ended_at e) \<longleftrightarrow> active_at ?now e"
      using Cons.prems(7,8) [OF in_set e] unfolding active_at_split ended_by_def by auto
  qed
  define A' where "A' = (\<lambda>e. A e \<and> ?now < started_at e)"
  define R' where "R' = (\<lambda>e. R e \<and> ?now < ended_at e)"
  have step: "sweep w (pub # pubs) starts ends active t = sweep w pubs ?starts ?ends ?act (fold (pair_step w pub) ?act t)"
    using admit_filter [OF Cons.prems(2)] retire_filter [OF Cons.prems(3)] by simp
  have u: "view_of (fold (pair_step w pub) ?act t) = view_of (fold (\<lambda>x. pair_step w (fst x) (snd x))
      (map (\<lambda>e. (pub, session_key_of e, e)) (filter (active_at ?now) es)) u)"
  proof -
    have m: "mset (map (Pair pub) ?act) = mset (map (\<lambda>e. (pub, session_key_of e, e)) (filter (active_at ?now) es))"
      unfolding mset_map [of "Pair pub"] holds_mset [OF assms act]
      by (simp add: image_mset.compositionality comp_def)
    have "fold (pair_step w pub) ?act t = fold (\<lambda>x. pair_step w (fst x) (snd x)) (map (Pair pub) ?act) t"
      by (simp add: fold_map comp_def)
    then show ?thesis
      using view_fold_order [OF m, of w t] by (simp only: view_fold Cons.prems(9))
  qed
  have "view_of (sweep w pubs ?starts ?ends ?act (fold (pair_step w pub) ?act t))
      = view_of (fold (\<lambda>x. pair_step w (fst x) (snd x)) (scan_pairs pubs es)
          (fold (\<lambda>x. pair_step w (fst x) (snd x)) (map (\<lambda>e. (pub, session_key_of e, e)) (filter (active_at ?now) es)) u))"
  proof (rule Cons.IH [where A = A' and R = R'])
    show "sorted_wrt (\<lambda>p q. wp_at p \<le> wp_at q) pubs" using Cons.prems(1) by simp
    show "sorted_wrt (\<lambda>a b. started_at a \<le> started_at b) ?starts" "sorted_wrt (\<lambda>a b. ended_at a \<le> ended_at b) ?ends"
      using Cons.prems(2,3) by (simp_all add: sorted_wrt_filter)
    show "set ?starts = {e \<in> set es. A' e}" "set ?ends = {e \<in> set es. ev_end e \<noteq> None \<and> R' e}"
      using Cons.prems(4,5) by (auto simp: A'_def R'_def)
    show "holds es (\<lambda>e. \<not> A' e \<and> (ev_end e \<noteq> None \<longrightarrow> R' e)) ?act"
    proof (rule holds_cong [THEN iffD1, OF _ act])
      fix e assume e: "e \<in> set es"
      show "active_at ?now e \<longleftrightarrow> \<not> A' e \<and> (ev_end e \<noteq> None \<longrightarrow> R' e)"
        using Cons.prems(7,8) [OF in_set e] unfolding active_at_split ended_by_def A'_def R'_def
        by (cases "A e"; cases "R e"; cases "ev_end e") auto
    qed
    show "started_at e \<le> wp_at q" if "q \<in> set pubs" "e \<in> set es" "\<not> A' e" for q e
      using that later [OF that(1)] Cons.prems(7) [OF in_set that(2)] by (auto simp: A'_def)
    show "\<not> A' e \<and> ended_at e \<le> wp_at q"
      if "q \<in> set pubs" "e \<in> set es" "ev_end e \<noteq> None" "\<not> R' e" for q e
    proof -
      have "ended_at e \<le> ?now" using that(4) Cons.prems(8) [OF in_set that(2,3)] by (auto simp: R'_def)
      moreover have "started_at e \<le> ended_at e"
        using assms that(2,3) by (auto simp: sessions_ok_def list_all_iff lifetime_ok_def)
      ultimately show ?thesis using later [OF that(1)] by (auto simp: A'_def)
    qed
    show "view_of (fold (pair_step w pub) ?act t) = view_of (fold (\<lambda>x. pair_step w (fst x) (snd x))
      (map (\<lambda>e. (pub, session_key_of e, e)) (filter (active_at ?now) es)) u)" by (rule u)
  qed
  then show ?case unfolding step by (simp add: scan_pairs_def)
qed

lemma mset_concat_map: "mset (concat (map f ps)) = sum_mset (image_mset (\<lambda>p. mset (f p)) (mset ps))"
  by (induction ps) simp_all

lemma scan_pairs_mset: "mset ps = mset qs \<Longrightarrow> mset (scan_pairs ps es) = mset (scan_pairs qs es)"
  unfolding scan_pairs_def mset_concat_map by simp

lemma sweep_topic_scan:
  assumes "index_ok ix"
  shows "view_of (sweep_topic w ix t) = view_of (scan_topic w ix t)"
proof -
  let ?pubs = "sort_Slice (\<lambda>p q. wp_at p < wp_at q) (ti_publications ix)"
  have "view_of (sweep_topic w ix t)
      = view_of (fold (\<lambda>x. pair_step w (fst x) (snd x)) (scan_pairs ?pubs (ti_starts ix)) t)"
    unfolding sweep_topic_def
  proof (rule sweep_scan [where A = "\<lambda>_. True" and R = "\<lambda>_. True"])
    show "sessions_ok (ti_starts ix)" using assms by (simp add: index_ok_def)
    show "sorted_wrt (\<lambda>p q. wp_at p \<le> wp_at q) ?pubs"
      using publication_order.sort_Slice_ordered [of "ti_publications ix"] by (simp add: not_less)
    show "sorted_wrt (\<lambda>a b. started_at a \<le> started_at b) (sort_Slice (\<lambda>a b. started_at a < started_at b) (ti_starts ix))"
      using start_order.sort_Slice_ordered [of "ti_starts ix"] by (simp add: not_less)
    show "sorted_wrt (\<lambda>a b. ended_at a \<le> ended_at b) (sort_Slice (\<lambda>a b. ended_at a < ended_at b) (ti_ends ix))"
      using end_order.sort_Slice_ordered [of "ti_ends ix"] by (simp add: not_less)
  qed (use assms in \<open>auto simp: index_ok_def holds_def\<close>)
  also have "\<dots> = view_of (scan_topic w ix t)"
    unfolding scan_topic_def by (rule view_fold_order, rule scan_pairs_mset) simp
  finally show ?thesis .
qed

end
