(* ===== verification/GoFloatOrder.thy ===== *)
theory GoFloatOrder
  imports GoFloat
begin

text \<open>
  Rounding to \<open>float64\<close> is monotone and exact on the integers below \<open>2 ^ 53\<close>, so quotients of counters
  are ordered the way the counters are.
\<close>

section \<open>Rounding to an integer\<close>

lemma round_even_of_int [simp]: "round_even (of_int k) = k"
  by (simp add: round_even_def)

lemma round_even_mono: "x \<le> y \<Longrightarrow> round_even x \<le> round_even y"
proof -
  assume le: "x \<le> y"
  then have f: "\<lfloor>x\<rfloor> \<le> \<lfloor>y\<rfloor>" by (rule floor_mono)
  show ?thesis
  proof (cases "\<lfloor>x\<rfloor> = \<lfloor>y\<rfloor>")
    case True
    then show ?thesis using le by (auto simp: round_even_def Let_def)
  next
    case False
    have "round_even x \<le> \<lfloor>x\<rfloor> + 1" "\<lfloor>y\<rfloor> \<le> round_even y" by (auto simp: round_even_def Let_def)
    then show ?thesis using f False by linarith
  qed
qed

section \<open>The exponent\<close>

lemma ulp_exponent_gt:
  assumes "0 < x" shows "x < 2 ^ 53 * exp2 (ulp_exponent x)"
proof -
  obtain n d where q: "quotient_of x = (n, d)" by (cases "quotient_of x")
  have d: "0 < d" using q by (rule quotient_of_denom_pos)
  have x: "x = of_int n / of_int d" using q by (rule quotient_of_div)
  with assms d have n: "0 < n" by (simp add: zero_less_divide_iff)
  define a where "a = bit_length n"
  define b where "b = bit_length d"
  have A: "n < 2 ^ a" using bit_length_bounds [of n] n by (auto simp: a_def)
  have B: "2 ^ (b - 1) \<le> d" "0 < b" using bit_length_bounds [of d] d by (auto simp: b_def)
  have A': "of_int n < (2::rat) ^ a" using A by (metis of_int_less_iff of_int_numeral of_int_power)
  have B': "(2::rat) ^ (b - 1) \<le> of_int d" using B(1) by (metis of_int_le_iff of_int_numeral of_int_power)
  have "of_int n / of_int d < (2::rat) ^ a / 2 ^ (b - 1)"
    using A' B' n d by (intro frac_less) auto
  then have "x < exp2 (int a - int (b - 1))" by (simp only: exp2_diff x)
  moreover have eq: "int a - int (b - 1) = int a - int b - 53 + int 54" using B(2) by (simp add: of_nat_diff)
  ultimately have up: "x < exp2 (int a - int b - 53 + int 54)" by (simp only: eq)
  let ?g = "int a - int b - 53"
  let ?e = "if exp2 (?g + 53) \<le> x then ?g + 1 else ?g"
  have "x < 2 ^ 53 * exp2 ?e"
  proof (cases "exp2 (?g + 53) \<le> x")
    case True
    have "2 ^ 53 * exp2 (?g + 1) = exp2 (?g + int 54)"
      using exp2_add [of ?g 54] exp2_add [of ?g 1] by simp
    then show ?thesis using up True by simp
  next
    case False
    then show ?thesis using exp2_add [of ?g 53] by simp
  qed
  also have "2 ^ 53 * exp2 ?e \<le> 2 ^ 53 * exp2 (ulp_exponent x)"
    by (intro mult_left_mono exp2_mono) (simp_all add: ulp_exponent_def q a_def b_def Let_def)
  finally show ?thesis .
qed

lemma exp2_Suc: "exp2 (e + 1) = 2 * exp2 e"
  using exp2_add [of e 1] by simp

lemma ulp_exponent_mono:
  assumes "0 < x" "x \<le> y" shows "ulp_exponent x \<le> ulp_exponent y"
proof (rule ccontr)
  assume "\<not> ?thesis"
  then have less: "ulp_exponent y + 1 \<le> ulp_exponent x" by simp
  have "- 1074 \<le> ulp_exponent y" by (simp add: ulp_exponent_def Let_def split: prod.split)
  then have "2 ^ 52 * exp2 (ulp_exponent x) \<le> x" using less assms(1) by (intro ulp_exponent_le) simp_all
  moreover have "y < 2 ^ 53 * exp2 (ulp_exponent y)" using assms by (intro ulp_exponent_gt) simp
  moreover have "2 ^ 53 * exp2 (ulp_exponent y) \<le> 2 ^ 52 * exp2 (ulp_exponent x)"
    using exp2_mono [OF less] by (simp add: exp2_Suc)
  ultimately show False using assms(2) by linarith
qed

section \<open>Monotonicity\<close>

lemma round_positive_mono:
  assumes "0 < x" "x \<le> y" shows "round_positive x \<le> round_positive y"
proof -
  let ?u = "exp2 (ulp_exponent x)" and ?v = "exp2 (ulp_exponent y)"
  show ?thesis
  proof (cases "ulp_exponent x = ulp_exponent y")
    case True
    have "round_even (x / ?u) \<le> round_even (y / ?u)"
      using assms by (intro round_even_mono divide_right_mono) (simp_all add: less_imp_le)
    then show ?thesis unfolding round_positive_def True
      by (intro mult_right_mono) (simp_all add: less_imp_le)
  next
    case False
    then have less: "ulp_exponent x + 1 \<le> ulp_exponent y" using ulp_exponent_mono [OF assms] by simp
    have "x / ?u \<le> of_int (2 ^ 53)" using ulp_exponent_gt [OF assms(1)] by (simp add: pos_divide_le_eq)
    then have "round_even (x / ?u) \<le> 2 ^ 53" using round_even_mono round_even_of_int by metis
    then have "(of_int (round_even (x / ?u)) :: rat) \<le> of_int (2 ^ 53)" by (rule of_int_le_iff [THEN iffD2])
    then have left: "round_positive x \<le> 2 ^ 53 * ?u"
      unfolding round_positive_def by (intro mult_right_mono) (simp_all add: less_imp_le)
    have "- 1074 \<le> ulp_exponent x" by (simp add: ulp_exponent_def Let_def split: prod.split)
    then have "2 ^ 52 * ?v \<le> y" using less assms by (intro ulp_exponent_le) simp_all
    then have "of_int (2 ^ 52) \<le> y / ?v" by (simp add: pos_le_divide_eq)
    then have "2 ^ 52 \<le> round_even (y / ?v)" by (rule round_even_ge)
    then have "(of_int (2 ^ 52) :: rat) \<le> of_int (round_even (y / ?v))" by (rule of_int_le_iff [THEN iffD2])
    then have right: "2 ^ 52 * ?v \<le> round_positive y"
      unfolding round_positive_def by (intro mult_right_mono) (simp_all add: less_imp_le)
    have "2 ^ 53 * ?u \<le> 2 ^ 52 * ?v" using exp2_mono [OF less] by (simp add: exp2_Suc)
    then show ?thesis using left right by linarith
  qed
qed

lemma round_positive_nonneg: "0 < x \<Longrightarrow> 0 \<le> round_positive x"
proof -
  assume "0 < x"
  then have "0 \<le> round_even (x / exp2 (ulp_exponent x))" by (intro round_even_ge) (simp add: less_imp_le)
  then show ?thesis by (simp add: round_positive_def less_imp_le)
qed

lemma float_round_mono:
  assumes "x \<le> y" shows "float_le (float_round x) (float_round y)"
proof -
  consider "x \<le> 0" "0 \<le> y" | "0 < x" | "y < 0" using assms by linarith
  then show ?thesis
  proof cases
    case 1
    then show ?thesis
      using round_positive_nonneg [of y] round_positive_nonneg [of "- x"]
      by (auto simp: float_round_def Let_def float_le_def float_eq_def)
  next
    case 2
    then have "round_positive x \<le> round_positive y" using assms by (intro round_positive_mono)
    then show ?thesis
      using 2 assms by (auto simp: float_round_def Let_def float_le_def float_eq_def overflows_def)
  next
    case 3
    then have "round_positive (- y) \<le> round_positive (- x)" using assms by (intro round_positive_mono) auto
    then show ?thesis
      using 3 assms by (auto simp: float_round_def Let_def float_le_def float_eq_def overflows_def)
  qed
qed

section \<open>Small integers are exact\<close>

lemma exp2_nonpos: "e \<le> 0 \<Longrightarrow> exp2 e = 1 / of_int (2 ^ nat (- e))"
  by (cases "e = 0") (simp_all add: exp2_def)

lemma float_of_int_small:
  assumes "0 \<le> i" "i < 2 ^ 53" shows "float_of_int i = Fin (of_int i)"
proof (cases "i = 0")
  case True
  then show ?thesis by (simp add: float_of_int_def float_round_def)
next
  case False
  let ?x = "of_int i :: rat"
  have x: "0 < ?x" using assms False by simp
  have small: "?x < 2 ^ 53" using assms(2) by (metis of_int_less_iff of_int_numeral of_int_power)
  have u: "ulp_exponent ?x \<le> 0"
  proof (rule ccontr)
    assume "\<not> ?thesis"
    then have pos: "0 + 1 \<le> ulp_exponent ?x" by simp
    then have "- 1074 < ulp_exponent ?x" by simp
    from ulp_exponent_le [OF x this] exp2_mono [OF pos]
    have "2 ^ 52 * exp2 (ulp_exponent ?x) \<le> ?x" "exp2 (0 + 1) \<le> exp2 (ulp_exponent ?x)" .
    moreover have "exp2 (0 + 1) = (2 :: rat)" by (simp add: exp2_def)
    ultimately have "(2::rat) ^ 53 \<le> ?x" by simp
    then show False using small by simp
  qed
  have "?x / exp2 (ulp_exponent ?x) = of_int (i * 2 ^ nat (- ulp_exponent ?x))"
    unfolding exp2_nonpos [OF u] by simp
  then have "round_even (?x / exp2 (ulp_exponent ?x)) = i * 2 ^ nat (- ulp_exponent ?x)"
    by (simp only: round_even_of_int)
  then have "round_positive ?x = ?x"
    unfolding round_positive_def exp2_nonpos [OF u] by simp
  moreover have "?x < 2 ^ 1024"
  proof -
    have "(2::rat) ^ 53 \<le> 2 ^ 1024" by (rule power_increasing) simp_all
    then show ?thesis using small by linarith
  qed
  ultimately show ?thesis using x False by (simp add: float_of_int_def float_round_def overflows_def)
qed

section \<open>Quotients of counters\<close>

lemma float_le_Fin [simp]: "float_le (Fin x) (Fin y) \<longleftrightarrow> x \<le> y"
  by (auto simp: float_le_def float_eq_def)

lemma float_le_trans: "float_le a b \<Longrightarrow> float_le b c \<Longrightarrow> float_le a c"
  by (auto simp: float_le_def float_eq_def intro: float_less_trans)

lemma float_round_one: "float_round 1 = Fin 1"
  using float_of_int_small [of 1] by (simp add: float_of_int_def)

lemma float_round_zero: "float_round 0 = Fin 0"
  by (simp add: float_round_def)

lemma quotient_bounds:
  assumes "0 \<le> a" "a \<le> b" "b \<le> c" "0 < c" "c \<le> 2 ^ 1000"
  shows "float_le (Fin 0) (float_div (float_of_int a) (float_of_int c))"
    "float_le (float_div (float_of_int a) (float_of_int c)) (float_div (float_of_int b) (float_of_int c))"
    "float_le (float_div (float_of_int b) (float_of_int c)) (Fin 1)"
proof -
  obtain x y z where fin: "float_of_int a = Fin x" "float_of_int b = Fin y" "float_of_int c = Fin z" "0 \<le> x"
    using float_of_int_Fin [of a] float_of_int_Fin [of b] float_of_int_Fin [of c] assms by auto
  have pos: "0 < z" using float_of_int_positive [OF assms(4)] fin(3) by simp
  have "float_le (Fin x) (Fin y)" "float_le (Fin y) (Fin z)"
    using fin(1-3) float_round_mono [of "of_int a" "of_int b"] float_round_mono [of "of_int b" "of_int c"] assms
    by (simp_all add: float_of_int_def)
  then have le: "x \<le> y" "y \<le> z" by simp_all
  have q: "0 \<le> x / z" "x / z \<le> y / z" "y / z \<le> 1"
    using le pos fin(4) by (simp_all add: divide_right_mono)
  note r = float_round_mono [OF q(1)] float_round_mono [OF q(2)] float_round_mono [OF q(3)]
  show "float_le (Fin 0) (float_div (float_of_int a) (float_of_int c))"
    "float_le (float_div (float_of_int a) (float_of_int c)) (float_div (float_of_int b) (float_of_int c))"
    "float_le (float_div (float_of_int b) (float_of_int c)) (Fin 1)"
    using r fin pos by (simp_all add: float_round_one float_round_zero)
qed

end
