(* ===== verification/SessionProperties.thy ===== *)
theory SessionProperties
  imports SessionSweep GoFloatOrder
begin

text \<open>
  The properties of the session-window metrics: the sweep is the scan, the totals are sums of parts, the
  ratios are ordered, and a missed delivery is backed by a gap-free record of the receiver.
\<close>

declare map_of_eq_Some_iff [simp del]

section \<open>What the accumulator keeps\<close>

text \<open>The events that count towards the record of a session.\<close>

definition session_event :: "session_key \<Rightarrow> trace_event \<Rightarrow> bool" where
  "session_event k e \<longleftrightarrow> te_Type e \<noteq> ''measurement_terminated'' \<and> te_SessionID e \<noteq> [] \<and> te_NodeID e \<noteq> []
     \<and> session_of e = k"

definition window_of :: "trace_event list \<Rightarrow> window_accumulator" where
  "window_of es = fold window_observe es empty_window"

lemma window_of_snoc [simp]: "window_of (es @ [e]) = window_observe e (window_of es)"
  by (simp add: window_of_def)

lemma window_observe_sessions:
  "wa_sessions (window_observe e w) =
     (if te_Type e \<noteq> ''measurement_terminated'' \<and> te_SessionID e \<noteq> [] \<and> te_NodeID e \<noteq> []
      then AList.update (session_of e) (observe_session e (mget (new_session (session_of e)) (wa_sessions w) (session_of e)))
             (wa_sessions w)
      else wa_sessions w)"
proof -
  have "wa_sessions (observe_receipts e w) = wa_sessions w" "wa_sessions (observe_publication e w) = wa_sessions w"
    "wa_sessions (observe_enabled e w) = wa_sessions w" "wa_sessions (observe_termination e w) = wa_sessions w" for w
    by (simp_all add: observe_receipts_def observe_publication_def observe_enabled_def observe_termination_def Let_def)
  then show ?thesis by (simp add: window_observe_def observe_sessions_def Let_def)
qed

lemma observe_start_fields:
  "ms_key (observe_start e s) = ms_key s" "ms_sequences (observe_start e s) = ms_sequences s"
  "distinct (ms_topics s) \<Longrightarrow> distinct (ms_topics (observe_start e s))"
  by (auto simp: observe_start_def Let_def split: prod.split)

lemma observe_checkpoint_fields:
  "ms_key (observe_checkpoint e s) = ms_key s" "ms_sequences (observe_checkpoint e s) = ms_sequences s"
  "ms_topics (observe_checkpoint e s) = ms_topics s"
  by (simp_all add: observe_checkpoint_def Let_def)

lemma observe_session_fields [simp]:
  "ms_key (observe_session e s) = ms_key s"
  "ms_sequences (observe_session e s) = ranges_add (ms_sequences s) (te_Sequence e)"
  "distinct (ms_topics s) \<Longrightarrow> distinct (ms_topics (observe_session e s))"
  by (simp_all add: observe_session_def Let_def observe_start_fields observe_checkpoint_fields)

definition window_ok :: "window_accumulator \<Rightarrow> bool" where
  "window_ok w \<longleftrightarrow> wf_map (wa_sessions w)
     \<and> (\<forall>k s. map_of (wa_sessions w) k = Some s \<longrightarrow> ms_key s = k \<and> distinct (ms_topics s))"

lemma window_of_ok: "window_ok (window_of es)"
proof (induction es rule: rev_induct)
  case (snoc e es)
  then show ?case
    unfolding window_of_snoc window_ok_def window_observe_sessions
    by (auto simp: mget_def new_session_def split: option.splits if_splits)
qed (simp add: window_of_def empty_window_def window_ok_def)

lemma window_of_sequences:
  "(case map_of (wa_sessions (window_of es)) k of
      None \<Rightarrow> filter (session_event k) es = []
    | Some s \<Rightarrow> ms_sequences s = foldl ranges_add [] (map te_Sequence (filter (session_event k) es)))"
proof (induction es rule: rev_induct)
  case (snoc e es)
  show ?case
  proof (cases "session_event k e")
    case True
    then have k: "k = session_of e" by (simp add: session_event_def)
    have "wa_sessions (window_of (es @ [e])) = AList.update k
        (observe_session e (mget (new_session k) (wa_sessions (window_of es)) k)) (wa_sessions (window_of es))"
      using True by (simp add: window_observe_sessions session_event_def k)
    then show ?thesis using snoc True
      by (simp add: mget_def new_session_def split: option.splits)
  next
    case False
    then have "map_of (wa_sessions (window_of (es @ [e]))) k = map_of (wa_sessions (window_of es)) k"
      by (auto simp: window_observe_sessions session_event_def)
    moreover have "filter (session_event k) (es @ [e]) = filter (session_event k) es" using False by simp
    ultimately show ?thesis using snoc by (simp only:)
  qed
qed (simp add: window_of_def empty_window_def)

section \<open>Evaluated sessions\<close>

lemma evaluate_proofs_source:
  "evaluate_proofs s through ps r = Some e \<Longrightarrow> ev_source e = ev_source r \<and> ev_end e = ev_end r"
  by (induction s through ps r rule: evaluate_proofs.induct) (auto simp: Let_def split: if_splits)

lemma evaluateSession_fields:
  assumes "evaluateSession s = Some e"
  shows "ev_source e = s" "ev_end e = map_option pr_at (ms_stop s)"
    "lifetime_ok e"
  using assms
  by (auto simp: evaluateSession_def Let_def started_at_def lifetime_ok_def ended_at_def split: if_splits option.splits
      dest!: evaluate_proofs_source)

text \<open>The record of a session is complete up to \<open>completeUntil\<close>: a checkpoint that late lies inside the
  gap-free run of its sequence numbers.\<close>

lemma evaluate_proofs_complete:
  "evaluate_proofs s through ps r = Some e \<Longrightarrow> t \<le> ev_completeUntil e \<Longrightarrow>
   t \<le> ev_completeUntil r \<or> (\<exists>p \<in> set ps. t \<le> pr_at p \<and> pr_sequence p \<le> through
      \<and> pr_sequence (ms_start s) \<le> pr_sequence p)"
proof (induction s through ps r rule: evaluate_proofs.induct)
  case (2 s through p ps r)
  then show ?case by (fastforce simp: Let_def split: if_splits)
qed simp

lemma evaluateSession_complete:
  assumes "evaluateSession s = Some e" "0 < t" "t \<le> ev_completeUntil e"
  shows "\<exists>p \<in> set (ms_proofs s). t \<le> pr_at p \<and> pr_sequence (ms_start s) \<le> pr_sequence p
    \<and> pr_sequence p \<le> ranges_through (ms_sequences s) (pr_sequence (ms_start s)) \<and> pr_sequence (ms_start s) \<noteq> 0"
proof -
  have start: "pr_sequence (ms_start s) \<noteq> 0"
    using assms(1) by (auto simp: evaluateSession_def split: if_splits)
  obtain e0 where e0: "evaluate_proofs s (ranges_through (ms_sequences s) (pr_sequence (ms_start s))) (ms_proofs s)
      \<lparr>ev_source = s, ev_aliveThrough = 0, ev_completeUntil = 0, ev_stopComplete = False,
       ev_end = map_option pr_at (ms_stop s)\<rparr> = Some e0" and c: "ev_completeUntil e = ev_completeUntil e0"
    using assms(1) by (auto simp: evaluateSession_def Let_def split: if_splits option.splits)
  from evaluate_proofs_complete [OF e0, of t] assms(2,3) c start show ?thesis by auto
qed

lemma cap_session_fields:
  "ev_source (cap_session t e) = ev_source e" "ev_completeUntil (cap_session t e) = ev_completeUntil e"
  "lifetime_ok e \<Longrightarrow> lifetime_ok (cap_session t e)"
  by (auto simp: cap_session_def started_at_def lifetime_ok_def ended_at_def)

lemma cap_sessions_fields:
  "ev_source (fold cap_session ts e) = ev_source e"
  "ev_completeUntil (fold cap_session ts e) = ev_completeUntil e"
  "lifetime_ok e \<Longrightarrow> lifetime_ok (fold cap_session ts e)"
  by (induction ts arbitrary: e) (simp_all add: cap_session_fields)

section \<open>The topic index\<close>

definition topics_ok :: "session_key set \<Rightarrow> window_index \<Rightarrow> bool" where
  "topics_ok K x \<longleftrightarrow>
     (\<forall>topic ix. map_of (wi_topics x) topic = Some ix \<longrightarrow> index_ok ix \<and> session_key_of ` set (ti_starts ix) \<subseteq> K)"

lemma index_ok_empty [simp]: "index_ok empty_index" "ti_starts empty_index = []"
  by (simp_all add: index_ok_def sessions_ok_def empty_index_def)

lemma topics_ok_get:
  "topics_ok K x \<Longrightarrow> index_ok (mget empty_index (wi_topics x) topic)
     \<and> session_key_of ` set (ti_starts (mget empty_index (wi_topics x) topic)) \<subseteq> K"
  by (auto simp: topics_ok_def mget_def split: option.split)

lemma mark_incomplete_topics [simp]: "wi_topics (mark_incomplete b x) = wi_topics x"
  by (simp add: mark_incomplete_def)

definition added :: "evaluated_session \<Rightarrow> topic_index \<Rightarrow> topic_index" where
  "added e ix = ix\<lparr>ti_starts := ti_starts ix @ [e], ti_ends := (if ev_end e \<noteq> None then ti_ends ix @ [e] else ti_ends ix)\<rparr>"

lemma added_ok:
  assumes "index_ok ix" "session_key_of e \<notin> session_key_of ` set (ti_starts ix)"
    "lifetime_ok e"
  shows "index_ok (added e ix)"
  using assms by (auto simp: index_ok_def sessions_ok_def added_def)

lemma fold_add_topic:
  "distinct topics \<Longrightarrow> map_of (wi_topics (fold (add_topic e) topics x)) topic =
     (if topic \<in> set topics then Some (added e (mget empty_index (wi_topics x) topic)) else map_of (wi_topics x) topic)"
proof (induction topics arbitrary: x)
  case (Cons a topics)
  then show ?case by (auto simp: add_topic_def update_index_def added_def [abs_def])
qed simp

lemma index_session_ok:
  assumes "topics_ok K x" "k \<notin> K" "ms_key s = k" "distinct (ms_topics s)"
  shows "topics_ok (insert k K) (index_session w (k, s) x)"
proof -
  have grow: "topics_ok (insert k K) y" if "wi_topics y = wi_topics x" for y
    using assms(1) that by (auto simp: topics_ok_def)
  show ?thesis
  proof (cases "evaluateSession s")
    case None
    then show ?thesis by (simp add: index_session_def grow)
  next
    case (Some e0)
    define e where "e = fold cap_session (mget [] (wa_terminations w) (sk_nodeID (ms_key s))) e0"
    have key: "session_key_of e = k"
      using evaluateSession_fields(1) [OF Some] assms(3)
      by (simp add: e_def session_key_of_def cap_sessions_fields)
    have ends: "lifetime_ok e"
      unfolding e_def by (rule cap_sessions_fields(3), rule evaluateSession_fields(3) [OF Some])
    define x1 where "x1 = x\<lparr>wi_nodes := List.insert (sk_nodeID (ms_key s)) (wi_nodes x)\<rparr>"
    have x1: "wi_topics x1 = wi_topics x" by (simp add: x1_def)
    have "topics_ok (insert k K) (fold (add_topic e) (ms_topics s) x1)"
      unfolding topics_ok_def fold_add_topic [OF assms(4)] x1
    proof (intro allI impI)
      fix topic ix
      assume ix: "(if topic \<in> set (ms_topics s) then Some (added e (mget empty_index (wi_topics x) topic))
          else map_of (wi_topics x) topic) = Some ix"
      show "index_ok ix \<and> session_key_of ` set (ti_starts ix) \<subseteq> insert k K"
      proof (cases "topic \<in> set (ms_topics s)")
        case True
        let ?old = "mget empty_index (wi_topics x) topic"
        have old: "index_ok ?old" "session_key_of ` set (ti_starts ?old) \<subseteq> K"
          using topics_ok_get [OF assms(1)] by blast+
        then have "index_ok (added e ?old)" using key ends assms(2) by (intro added_ok) auto
        moreover have "session_key_of ` set (ti_starts (added e ?old)) \<subseteq> insert k K"
          using old(2) key by (auto simp: added_def)
        ultimately show ?thesis using ix True by simp
      next
        case False
        then show ?thesis using ix assms(1) by (auto simp: topics_ok_def)
      qed
    qed
    then show ?thesis
      using grow x1 by (simp add: index_session_def Some Let_def e_def [symmetric] x1_def [symmetric])
  qed
qed

lemma index_sessions_ok:
  "topics_ok K x \<Longrightarrow> wf_map kss \<Longrightarrow> K \<inter> fst ` set kss = {} \<Longrightarrow>
   \<forall>(k, s) \<in> set kss. ms_key s = k \<and> distinct (ms_topics s) \<Longrightarrow>
   topics_ok (K \<union> fst ` set kss) (fold (index_session w) kss x)"
proof (induction kss arbitrary: K x)
  case (Cons ks kss)
  obtain k s where ks: "ks = (k, s)" by fastforce
  have "topics_ok (insert k K) (index_session w (k, s) x)"
    using Cons.prems ks by (intro index_session_ok) auto
  from Cons.IH [OF this] Cons.prems ks show ?case by (auto simp: insert_commute)
qed simp

lemma index_publication_ok: "topics_ok K x \<Longrightarrow> topics_ok K (index_publication w asOf kp x)"
proof (cases kp)
  case (Pair key pub)
  assume ok: "topics_ok K x"
  have "topics_ok K (update_index (mk_topic key) (\<lambda>ix. ix\<lparr>ti_publications := ti_publications ix @ [pub]\<rparr>) y)"
    if "wi_topics y = wi_topics x" for y
    using topics_ok_get [OF ok, of "mk_topic key"] ok that
    by (auto simp: topics_ok_def update_index_def index_ok_def)
  moreover have "topics_ok K y" if "wi_topics y = wi_topics x" for y
    using ok that by (simp add: topics_ok_def)
  ultimately show ?thesis by (simp add: index_publication_def Pair Let_def)
qed

lemma index_publications_ok: "topics_ok K x \<Longrightarrow> topics_ok K (fold (index_publication w asOf) kps x)"
  by (induction kps arbitrary: x) (simp_all add: index_publication_ok)

lemma wf_topics:
  "wf_map (wi_topics x) \<Longrightarrow> wf_map (wi_topics (fold (index_session w) kss x))"
  "wf_map (wi_topics x) \<Longrightarrow> wf_map (wi_topics (fold (index_publication w asOf) kps x))"
proof -
  have add: "wf_map (wi_topics x) \<Longrightarrow> wf_map (wi_topics (fold (add_topic e) ts x))" for e ts and x :: window_index
    by (induction ts arbitrary: x) (simp_all add: add_topic_def update_index_def)
  have "wf_map (wi_topics x) \<Longrightarrow> wf_map (wi_topics (index_session w ks x))" for ks x
    by (auto simp: index_session_def Let_def intro!: add split: option.split)
  then show "wf_map (wi_topics x) \<Longrightarrow> wf_map (wi_topics (fold (index_session w) kss x))"
    by (induction kss arbitrary: x) simp_all
  have "wf_map (wi_topics x) \<Longrightarrow> wf_map (wi_topics (index_publication w asOf kp x))" for kp x
    by (auto simp: index_publication_def Let_def update_index_def split: prod.split)
  then show "wf_map (wi_topics x) \<Longrightarrow> wf_map (wi_topics (fold (index_publication w asOf) kps x))"
    by (induction kps arbitrary: x) simp_all
qed

lemma window_index_ok:
  assumes "window_ok w" "(topic, ix) \<in> set (wi_topics (window_indexed w asOf m))"
  shows "index_ok ix"
proof -
  have "topics_ok {} \<lparr>wi_topics = [], wi_nodes = [], wi_metrics = m\<rparr>" by (simp add: topics_ok_def)
  moreover have "\<forall>(k, s) \<in> set (wa_sessions w). ms_key s = k \<and> distinct (ms_topics s)"
    using assms(1) by (auto simp: window_ok_def dest: map_of_SomeI_wf)
  ultimately have "topics_ok ({} \<union> fst ` set (wa_sessions w))
      (fold (index_session w) (wa_sessions w) \<lparr>wi_topics = [], wi_nodes = [], wi_metrics = m\<rparr>)"
    using assms(1) by (intro index_sessions_ok) (simp_all add: window_ok_def)
  then have "topics_ok ({} \<union> fst ` set (wa_sessions w)) (window_indexed w asOf m)"
    unfolding window_indexed_def by (rule index_publications_ok)
  moreover have "wf_map (wi_topics (window_indexed w asOf m))"
    unfolding window_indexed_def by (rule wf_topics(2), rule wf_topics(1)) simp
  ultimately show ?thesis using assms(2) map_of_SomeI_wf by (fastforce simp: topics_ok_def)
qed

section \<open>Sorting latencies\<close>

interpretation float_order: slice_order float_less "\<lambda>f. f" "\<lambda>f. f \<noteq> NaN"
proof unfold_locales
  show "\<not> float_less a a" "a = b \<Longrightarrow> \<not> float_less a b" for a b :: float64 by auto
  show "float_less a b \<Longrightarrow> float_less b c \<Longrightarrow> float_less a c" for a b c :: float64 by (rule float_less_trans)
  show "a \<noteq> NaN \<Longrightarrow> b \<noteq> NaN \<Longrightarrow> a \<noteq> b \<Longrightarrow> float_less a b \<or> float_less b a" for a b
    by (rule float_less_total)
qed

lemma sorted_floats_unique:
  assumes "sorted_wrt (\<lambda>a b. \<not> float_less b a) xs" "sorted_wrt (\<lambda>a b. \<not> float_less b a) ys" "mset xs = mset ys"
    and "NaN \<notin> set xs"
  shows "xs = ys"
  using assms
proof (induction xs arbitrary: ys)
  case (Cons x xs)
  then obtain y ys' where ys: "ys = y # ys'" by (cases ys) auto
  have sets: "set (x # xs) = set (y # ys')" using Cons.prems(3) ys by (metis mset_eq_setD)
  have "x = y"
  proof (rule ccontr)
    assume ne: "x \<noteq> y"
    then have "x \<in> set ys'" "y \<in> set xs" using sets by auto
    then have "\<not> float_less x y" "\<not> float_less y x" using Cons.prems(1,2) ys by auto
    moreover have "x \<noteq> NaN" "y \<noteq> NaN" using Cons.prems(4) sets by auto
    ultimately show False using float_less_total ne by blast
  qed
  then show ?case using Cons ys by simp
qed simp

lemma sort_floats_canonical:
  assumes "mset xs = mset ys" "NaN \<notin> set xs"
  shows "sort_Slice float_less xs = sort_Slice float_less ys"
proof (rule sorted_floats_unique)
  have "set xs = set ys" using assms(1) by (rule mset_eq_setD)
  then show "sorted_wrt (\<lambda>a b. \<not> float_less b a) (sort_Slice float_less xs)"
    "sorted_wrt (\<lambda>a b. \<not> float_less b a) (sort_Slice float_less ys)"
    using assms(2) by (auto intro!: float_order.sort_Slice_ordered)
qed (use assms in auto)

section \<open>The whole summary\<close>

definition start_tally :: "window_accumulator \<Rightarrow> gostring \<Rightarrow> go_time \<Rightarrow> int \<Rightarrow> int \<Rightarrow> int \<Rightarrow> tally" where
  "start_tally w runID asOf published delivered duplicates =
     (let m = wi_metrics (window_indexed w asOf (window_start_metrics w runID published delivered duplicates))
      in \<lparr>ta_metrics = m\<lparr>mt_DeliveryWindows := sort_Strings (mt_DeliveryWindows m)\<rparr>, ta_latencies = [], ta_samples = []\<rparr>)"

text \<open>The pairs counted after the index of \<open>window_summarize\<close>, topic by topic.\<close>

definition swept :: "(window_accumulator \<Rightarrow> topic_index \<Rightarrow> tally \<Rightarrow> tally) \<Rightarrow> window_accumulator \<Rightarrow> gostring \<Rightarrow> go_time
    \<Rightarrow> int \<Rightarrow> int \<Rightarrow> int \<Rightarrow> tally" where
  "swept per_topic w runID asOf published delivered duplicates =
     fold (\<lambda>(topic, ix). per_topic w ix)
       (wi_topics (window_indexed w asOf (window_start_metrics w runID published delivered duplicates)))
       (start_tally w runID asOf published delivered duplicates)"

definition finish :: "tally \<Rightarrow> metrics \<times> propagation_sample list" where
  "finish t = (latency_metrics (ta_latencies t) (duplicate_average (window_ratios (ta_metrics t))), ta_samples t)"

lemma window_summarize_finish:
  "window_summarize w runID asOf published delivered duplicates
     = finish (swept sweep_topic w runID asOf published delivered duplicates)"
  by (simp add: window_summarize_def swept_def start_tally_def finish_def Let_def)

definition index_untouched :: "metrics \<Rightarrow> bool" where
  "index_untouched m \<longleftrightarrow> counts_ok \<lparr>ta_metrics = m, ta_latencies = [], ta_samples = []\<rparr>"

lemma mark_incomplete_metrics:
  "index_untouched (wi_metrics x) \<Longrightarrow> index_untouched (wi_metrics (mark_incomplete b x))"
  by (simp add: mark_incomplete_def index_untouched_def counts_ok_def Let_def)

lemma add_topic_metrics: "wi_metrics (fold (add_topic e) ts x) = wi_metrics x"
  by (induction ts arbitrary: x) (simp_all add: add_topic_def update_index_def)

lemma index_session_metrics:
  "index_untouched (wi_metrics x) \<Longrightarrow> index_untouched (wi_metrics (index_session w ks x))"
proof (cases "evaluateSession (snd ks)")
  case (Some e)
  assume u: "index_untouched (wi_metrics x)"
  have "index_untouched (wi_metrics (mark_incomplete True (x\<lparr>wi_nodes := n\<rparr>)))" for n
    by (rule mark_incomplete_metrics) (simp add: u)
  then show ?thesis using u by (simp add: index_session_def Some Let_def add_topic_metrics)
qed (simp add: index_session_def mark_incomplete_metrics)

lemma untouched_fields:
  "index_untouched m \<Longrightarrow> index_untouched (m\<lparr>mt_PendingPublications := i\<rparr>)"
  "index_untouched m \<Longrightarrow> index_untouched (m\<lparr>mt_FinalizedPublications := i\<rparr>)"
  "index_untouched m \<Longrightarrow> index_untouched (note_window pub m)"
  by (simp_all add: index_untouched_def counts_ok_def note_window_def Let_def)

lemma index_publication_metrics:
  assumes "index_untouched (wi_metrics x)"
  shows "index_untouched (wi_metrics (index_publication w asOf kp x))"
proof (cases kp)
  case (Pair key pub)
  let ?x1 = "mark_incomplete (list_ex (\<lambda>n. n \<noteq> [] \<and> n \<notin> set (wi_nodes x)) (wp_auditTargets pub)) x"
  let ?x2 = "?x1\<lparr>wi_metrics := note_window pub (wi_metrics ?x1)\<rparr>"
  have "index_untouched (wi_metrics ?x2)"
    using mark_incomplete_metrics [OF assms] by (simp add: untouched_fields)
  then have "index_untouched (wi_metrics (mark_incomplete b ?x2))" for b by (rule mark_incomplete_metrics)
  then show ?thesis
    using assms by (simp add: Pair index_publication_def Let_def update_index_def mark_incomplete_metrics untouched_fields)
qed

lemma start_tally_ok: "counts_ok (start_tally w runID asOf published delivered duplicates)"
proof -
  have s: "index_untouched (wi_metrics x) \<Longrightarrow> index_untouched (wi_metrics (fold (index_session w) kss x))" for kss x
    by (induction kss arbitrary: x) (simp_all add: index_session_metrics)
  have p: "index_untouched (wi_metrics x) \<Longrightarrow> index_untouched (wi_metrics (fold (index_publication w asOf) kps x))" for kps x
    by (induction kps arbitrary: x) (simp_all add: index_publication_metrics)
  have "index_untouched (window_start_metrics w runID published delivered duplicates)"
    by (simp add: index_untouched_def counts_ok_def window_start_metrics_def zero_metrics_def)
  then have "index_untouched (wi_metrics (window_indexed w asOf (window_start_metrics w runID published delivered duplicates)))"
    unfolding window_indexed_def by (intro p s) simp
  then show ?thesis by (simp add: start_tally_def index_untouched_def counts_ok_def Let_def)
qed

lemma swept_ok: "counts_ok (swept sweep_topic w runID asOf published delivered duplicates)"
proof -
  have all: "counts_ok t \<Longrightarrow> counts_ok (fold (\<lambda>(topic, ix). sweep_topic w ix) xs t)" for xs t
    by (induction xs arbitrary: t) (auto simp: sweep_topic_def sweep_counts_ok)
  show ?thesis unfolding swept_def by (rule all [OF start_tally_ok])
qed

lemma swept_scan:
  assumes "window_ok w"
  shows "view_of (swept sweep_topic w runID asOf published delivered duplicates)
       = view_of (swept scan_topic w runID asOf published delivered duplicates)"
proof -
  have scan: "view_of t = view_of u \<Longrightarrow> view_of (scan_topic w ix t) = view_of (scan_topic w ix u)" for t u ix
    by (simp add: scan_topic_def view_fold)
  have all: "view_of t = view_of u \<Longrightarrow> \<forall>(topic, ix) \<in> set xs. index_ok ix \<Longrightarrow>
      view_of (fold (\<lambda>(topic, ix). sweep_topic w ix) xs t) = view_of (fold (\<lambda>(topic, ix). scan_topic w ix) xs u)" for xs t u
  proof (induction xs arbitrary: t u)
    case (Cons a xs)
    obtain topic ix where a: "a = (topic, ix)" by fastforce
    have "view_of (sweep_topic w ix t) = view_of (scan_topic w ix u)"
      using Cons.prems(2) a sweep_topic_scan [of ix w t] scan [OF Cons.prems(1), of ix] by simp
    from Cons.IH [OF this] Cons.prems(2) a show ?case by simp
  qed simp
  have "\<forall>(topic, ix) \<in> set (wi_topics (window_indexed w asOf m)). index_ok ix" for m
    using window_index_ok [OF assms] by blast
  from all [OF refl this] show ?thesis unfolding swept_def .
qed

lemma finish_view:
  assumes "view_of t = view_of u" "counts_ok t"
  shows "fst (finish t) = fst (finish u)" "mset (snd (finish t)) = mset (snd (finish u))"
proof -
  have v: "ta_metrics t = ta_metrics u" "mset (ta_latencies t) = mset (ta_latencies u)"
    "mset (ta_samples t) = mset (ta_samples u)"
    using assms(1) by (simp_all add: view_of_def)
  have "NaN \<notin> set (ta_latencies t)"
    using assms(2) by (auto simp: counts_ok_def Let_def list_all_iff usable_latency_def IsNaN_def)
  from sort_floats_canonical [OF v(2) this] have sorted:
    "sort_Slice float_less (ta_latencies t) = sort_Slice float_less (ta_latencies u)" .
  have len: "length (ta_latencies t) = length (ta_latencies u)" using v(2) by (metis size_mset)
  then have "ta_latencies t = [] \<longleftrightarrow> ta_latencies u = []" by auto
  then show "fst (finish t) = fst (finish u)" "mset (snd (finish t)) = mset (snd (finish u))"
    using v len sorted by (simp_all add: finish_def latency_metrics_def Let_def)
qed

section \<open>The properties\<close>

text \<open>C16: The sweep over sorted session boundaries is an optimisation only. For every sequence of telemetry
  events, every metric of the summary (counts, ratios, latencies, percentile) is the one computed by
  pairing every finalized publication with every session of its topic that had started and not ended when
  it was published, and the propagation samples are the same up to their order.\<close>

theorem sweep_is_scan:
  "let w = window_of es;
       swept_result = window_summarize w runID asOf published delivered duplicates;
       scanned = finish (swept scan_topic w runID asOf published delivered duplicates)
   in fst swept_result = fst scanned \<and> mset (snd swept_result) = mset (snd scanned)"
  unfolding Let_def window_summarize_finish
  using finish_view [OF swept_scan [OF window_of_ok] swept_ok] by blast

lemma finish_counts:
  "mt_ExpectedDeliveries (fst (finish t)) = mt_ExpectedDeliveries (ta_metrics t)"
  "mt_EligibleDeliveries (fst (finish t)) = mt_EligibleDeliveries (ta_metrics t)"
  "mt_UnknownDeliveries (fst (finish t)) = mt_UnknownDeliveries (ta_metrics t)"
  "mt_MissedDeliveries (fst (finish t)) = mt_MissedDeliveries (ta_metrics t)"
  "mt_LateDeliveries (fst (finish t)) = mt_LateDeliveries (ta_metrics t)"
  "mt_InitialExpectedDeliveries (fst (finish t)) = mt_InitialExpectedDeliveries (ta_metrics t)"
  "mt_InitialEligibleDeliveries (fst (finish t)) = mt_InitialEligibleDeliveries (ta_metrics t)"
  "mt_InitialUnknownDeliveries (fst (finish t)) = mt_InitialUnknownDeliveries (ta_metrics t)"
  "mt_DepartedPairs (fst (finish t)) = mt_DepartedPairs (ta_metrics t)"
  "mt_ContinuityUnknownPairs (fst (finish t)) = mt_ContinuityUnknownPairs (ta_metrics t)"
  "mt_AvailabilityUnknownPairs (fst (finish t)) = mt_AvailabilityUnknownPairs (ta_metrics t)"
  "mt_PublicationAvailabilityUnknownPairs (fst (finish t)) = mt_PublicationAvailabilityUnknownPairs (ta_metrics t)"
  "mt_LatencySamples (fst (finish t)) = int (length (ta_latencies t))"
  "snd (finish t) = ta_samples t"
  by (simp_all add: finish_def latency_metrics_def duplicate_average_def window_ratios_def Let_def)

text \<open>C17: The delivery books balance for every sequence of telemetry events: the expected deliveries are
  exactly the delivered, the unknown and the missed ones; the pairs that were active at publication are
  exactly the departed, the continuity-unknown and the expected ones; the two kinds of unknown availability
  add up; late deliveries are among the unknown or missed ones; and each latency sample belongs to a
  delivered pair.\<close>

theorem delivery_books_balance:
  "case window_summarize w runID asOf published delivered duplicates of (m, samples) \<Rightarrow>
     mt_ExpectedDeliveries m = mt_EligibleDeliveries m + mt_UnknownDeliveries m + mt_MissedDeliveries m
     \<and> mt_InitialExpectedDeliveries m = mt_DepartedPairs m + mt_ContinuityUnknownPairs m + mt_ExpectedDeliveries m
     \<and> mt_AvailabilityUnknownPairs m = mt_PublicationAvailabilityUnknownPairs m + mt_ContinuityUnknownPairs m
     \<and> mt_EligibleDeliveries m \<le> mt_InitialEligibleDeliveries m
     \<and> mt_UnknownDeliveries m \<le> mt_InitialUnknownDeliveries m
     \<and> mt_InitialEligibleDeliveries m + mt_InitialUnknownDeliveries m \<le> mt_InitialExpectedDeliveries m
     \<and> 0 \<le> mt_EligibleDeliveries m \<and> 0 \<le> mt_UnknownDeliveries m \<and> 0 \<le> mt_MissedDeliveries m
     \<and> mt_LateDeliveries m \<le> mt_UnknownDeliveries m + mt_MissedDeliveries m
     \<and> int (length samples) = mt_LatencySamples m \<and> mt_LatencySamples m \<le> mt_EligibleDeliveries m"
  using swept_ok [of w runID asOf published delivered duplicates]
  unfolding window_summarize_finish case_prod_beta finish_counts counts_ok_def Let_def by simp

lemma finish_ratios:
  "mt_DeliveryRatioAvailable (fst (finish t)) = mt_DeliveryRatioAvailable (window_ratios (ta_metrics t))"
  "mt_Reachability (fst (finish t)) = mt_Reachability (window_ratios (ta_metrics t))"
  "mt_DeliveryRatioUpperBound (fst (finish t)) = mt_DeliveryRatioUpperBound (window_ratios (ta_metrics t))"
  "mt_InitialDeliveryRatioAvailable (fst (finish t)) = mt_InitialDeliveryRatioAvailable (window_ratios (ta_metrics t))"
  "mt_InitialDeliveryRatio (fst (finish t)) = mt_InitialDeliveryRatio (window_ratios (ta_metrics t))"
  "mt_InitialDeliveryRatioUpperBound (fst (finish t)) = mt_InitialDeliveryRatioUpperBound (window_ratios (ta_metrics t))"
  "mt_StableCoverageAvailable (fst (finish t)) = mt_StableCoverageAvailable (window_ratios (ta_metrics t))"
  "mt_StableCoverage (fst (finish t)) = mt_StableCoverage (window_ratios (ta_metrics t))"
  "mt_StableCoverageUpperBound (fst (finish t)) = mt_StableCoverageUpperBound (window_ratios (ta_metrics t))"
proof -
  have l: "mt_DeliveryRatioAvailable (latency_metrics ls m) = mt_DeliveryRatioAvailable m" "mt_Reachability (latency_metrics ls m) = mt_Reachability m" "mt_DeliveryRatioUpperBound (latency_metrics ls m) = mt_DeliveryRatioUpperBound m" "mt_InitialDeliveryRatioAvailable (latency_metrics ls m) = mt_InitialDeliveryRatioAvailable m" "mt_InitialDeliveryRatio (latency_metrics ls m) = mt_InitialDeliveryRatio m" "mt_InitialDeliveryRatioUpperBound (latency_metrics ls m) = mt_InitialDeliveryRatioUpperBound m" "mt_StableCoverageAvailable (latency_metrics ls m) = mt_StableCoverageAvailable m" "mt_StableCoverage (latency_metrics ls m) = mt_StableCoverage m" "mt_StableCoverageUpperBound (latency_metrics ls m) = mt_StableCoverageUpperBound m" for ls m
    by (simp_all add: latency_metrics_def Let_def)
  have d: "mt_DeliveryRatioAvailable (duplicate_average m) = mt_DeliveryRatioAvailable m" "mt_Reachability (duplicate_average m) = mt_Reachability m" "mt_DeliveryRatioUpperBound (duplicate_average m) = mt_DeliveryRatioUpperBound m" "mt_InitialDeliveryRatioAvailable (duplicate_average m) = mt_InitialDeliveryRatioAvailable m" "mt_InitialDeliveryRatio (duplicate_average m) = mt_InitialDeliveryRatio m" "mt_InitialDeliveryRatioUpperBound (duplicate_average m) = mt_InitialDeliveryRatioUpperBound m" "mt_StableCoverageAvailable (duplicate_average m) = mt_StableCoverageAvailable m" "mt_StableCoverage (duplicate_average m) = mt_StableCoverage m" "mt_StableCoverageUpperBound (duplicate_average m) = mt_StableCoverageUpperBound m" for m
    by (simp_all add: duplicate_average_def Let_def)
  show "mt_DeliveryRatioAvailable (fst (finish t)) = mt_DeliveryRatioAvailable (window_ratios (ta_metrics t))"
    "mt_Reachability (fst (finish t)) = mt_Reachability (window_ratios (ta_metrics t))"
    "mt_DeliveryRatioUpperBound (fst (finish t)) = mt_DeliveryRatioUpperBound (window_ratios (ta_metrics t))"
    "mt_InitialDeliveryRatioAvailable (fst (finish t)) = mt_InitialDeliveryRatioAvailable (window_ratios (ta_metrics t))"
    "mt_InitialDeliveryRatio (fst (finish t)) = mt_InitialDeliveryRatio (window_ratios (ta_metrics t))"
    "mt_InitialDeliveryRatioUpperBound (fst (finish t)) = mt_InitialDeliveryRatioUpperBound (window_ratios (ta_metrics t))"
    "mt_StableCoverageAvailable (fst (finish t)) = mt_StableCoverageAvailable (window_ratios (ta_metrics t))"
    "mt_StableCoverage (fst (finish t)) = mt_StableCoverage (window_ratios (ta_metrics t))"
    "mt_StableCoverageUpperBound (fst (finish t)) = mt_StableCoverageUpperBound (window_ratios (ta_metrics t))"
    by (simp_all add: finish_def l d)
qed

lemma window_ratios_fields:
  "mt_DeliveryRatioAvailable (window_ratios n) \<longleftrightarrow> 0 < mt_ExpectedDeliveries n"
  "mt_InitialDeliveryRatioAvailable (window_ratios n) \<longleftrightarrow> 0 < mt_InitialExpectedDeliveries n"
  "mt_StableCoverageAvailable (window_ratios n) \<longleftrightarrow> 0 < mt_InitialExpectedDeliveries n"
  "0 < mt_ExpectedDeliveries n \<Longrightarrow> mt_Reachability (window_ratios n) = ratio (mt_EligibleDeliveries n) (mt_ExpectedDeliveries n)"
  "0 < mt_ExpectedDeliveries n \<Longrightarrow> mt_DeliveryRatioUpperBound (window_ratios n)
     = ratio (mt_EligibleDeliveries n + mt_UnknownDeliveries n) (mt_ExpectedDeliveries n)"
  "0 < mt_InitialExpectedDeliveries n \<Longrightarrow> mt_InitialDeliveryRatio (window_ratios n)
     = ratio (mt_InitialEligibleDeliveries n) (mt_InitialExpectedDeliveries n)"
  "0 < mt_InitialExpectedDeliveries n \<Longrightarrow> mt_InitialDeliveryRatioUpperBound (window_ratios n)
     = ratio (mt_InitialEligibleDeliveries n + mt_InitialUnknownDeliveries n) (mt_InitialExpectedDeliveries n)"
  "0 < mt_InitialExpectedDeliveries n \<Longrightarrow> mt_StableCoverage (window_ratios n)
     = ratio (mt_ExpectedDeliveries n) (mt_InitialExpectedDeliveries n)"
  "0 < mt_InitialExpectedDeliveries n \<Longrightarrow> mt_StableCoverageUpperBound (window_ratios n)
     = ratio (mt_ExpectedDeliveries n + mt_ContinuityUnknownPairs n) (mt_InitialExpectedDeliveries n)"
  by (simp_all add: window_ratios_def Let_def)

lemma ratios_ordered:
  assumes "counts_ok t" "mt_InitialExpectedDeliveries (ta_metrics t) \<le> 2 ^ 1000"
    and m: "m = fst (finish t)"
  shows "mt_DeliveryRatioAvailable m \<Longrightarrow> float_le (Fin 0) (mt_Reachability m)
      \<and> float_le (mt_Reachability m) (mt_DeliveryRatioUpperBound m) \<and> float_le (mt_DeliveryRatioUpperBound m) (Fin 1)"
    "mt_InitialDeliveryRatioAvailable m \<Longrightarrow> float_le (Fin 0) (mt_InitialDeliveryRatio m)
      \<and> float_le (mt_InitialDeliveryRatio m) (mt_InitialDeliveryRatioUpperBound m)
      \<and> float_le (mt_InitialDeliveryRatioUpperBound m) (Fin 1)"
    "mt_StableCoverageAvailable m \<Longrightarrow> float_le (Fin 0) (mt_StableCoverage m)
      \<and> float_le (mt_StableCoverage m) (mt_StableCoverageUpperBound m) \<and> float_le (mt_StableCoverageUpperBound m) (Fin 1)"
proof -
  define n where "n = ta_metrics t"
  let ?e = "mt_ExpectedDeliveries n" and ?i = "mt_InitialExpectedDeliveries n"
  have c: "?e = mt_EligibleDeliveries n + mt_UnknownDeliveries n + mt_MissedDeliveries n"
    "?i = mt_DepartedPairs n + mt_ContinuityUnknownPairs n + ?e"
    "mt_InitialEligibleDeliveries n + mt_InitialUnknownDeliveries n \<le> ?i"
    "mt_EligibleDeliveries n \<le> mt_InitialEligibleDeliveries n" "mt_UnknownDeliveries n \<le> mt_InitialUnknownDeliveries n"
    "0 \<le> mt_EligibleDeliveries n" "0 \<le> mt_UnknownDeliveries n" "0 \<le> mt_MissedDeliveries n"
    "0 \<le> mt_DepartedPairs n" "0 \<le> mt_ContinuityUnknownPairs n"
    using assms(1) by (simp_all add: counts_ok_def Let_def n_def)
  have big: "?i \<le> 2 ^ 1000" using assms(2) by (simp add: n_def)
  then have big_e: "?e \<le> 2 ^ 1000" using c by linarith
  note f = finish_ratios [of t, folded n_def] window_ratios_fields [of n]
  show "mt_DeliveryRatioAvailable m \<Longrightarrow> float_le (Fin 0) (mt_Reachability m)
      \<and> float_le (mt_Reachability m) (mt_DeliveryRatioUpperBound m) \<and> float_le (mt_DeliveryRatioUpperBound m) (Fin 1)"
    unfolding m using quotient_bounds [of "mt_EligibleDeliveries n" "mt_EligibleDeliveries n + mt_UnknownDeliveries n" ?e] c big_e
    by (simp add: f ratio_def)
  show "mt_InitialDeliveryRatioAvailable m \<Longrightarrow> float_le (Fin 0) (mt_InitialDeliveryRatio m)
      \<and> float_le (mt_InitialDeliveryRatio m) (mt_InitialDeliveryRatioUpperBound m)
      \<and> float_le (mt_InitialDeliveryRatioUpperBound m) (Fin 1)"
    unfolding m using quotient_bounds [of "mt_InitialEligibleDeliveries n"
      "mt_InitialEligibleDeliveries n + mt_InitialUnknownDeliveries n" ?i] c big
    by (simp add: f ratio_def)
  show "mt_StableCoverageAvailable m \<Longrightarrow> float_le (Fin 0) (mt_StableCoverage m)
      \<and> float_le (mt_StableCoverage m) (mt_StableCoverageUpperBound m) \<and> float_le (mt_StableCoverageUpperBound m) (Fin 1)"
    unfolding m using quotient_bounds [of ?e "?e + mt_ContinuityUnknownPairs n" ?i] c big
    by (simp add: f ratio_def)
qed

text \<open>Whatever the events, every ratio the summary makes available lies between 0 and 1 and is at most its
  upper bound: the delivery ratio, the ratio over the initial cohort and the stable coverage. The counts are
  those of pairs held in memory, far below the bound of the hypothesis, above which they would round to
  infinity.\<close>

theorem delivery_ratios_ordered:
  assumes "m = fst (window_summarize w runID asOf published delivered duplicates)"
    and "mt_InitialExpectedDeliveries m \<le> 2 ^ 1000"
  shows "(mt_DeliveryRatioAvailable m \<longrightarrow> float_le (Fin 0) (mt_Reachability m)
      \<and> float_le (mt_Reachability m) (mt_DeliveryRatioUpperBound m) \<and> float_le (mt_DeliveryRatioUpperBound m) (Fin 1))
    \<and> (mt_InitialDeliveryRatioAvailable m \<longrightarrow> float_le (Fin 0) (mt_InitialDeliveryRatio m)
      \<and> float_le (mt_InitialDeliveryRatio m) (mt_InitialDeliveryRatioUpperBound m)
      \<and> float_le (mt_InitialDeliveryRatioUpperBound m) (Fin 1))
    \<and> (mt_StableCoverageAvailable m \<longrightarrow> float_le (Fin 0) (mt_StableCoverage m)
      \<and> float_le (mt_StableCoverage m) (mt_StableCoverageUpperBound m) \<and> float_le (mt_StableCoverageUpperBound m) (Fin 1))"
proof -
  have m: "m = fst (finish (swept sweep_topic w runID asOf published delivered duplicates))"
    using assms(1) by (simp add: window_summarize_finish)
  have "mt_InitialExpectedDeliveries (ta_metrics (swept sweep_topic w runID asOf published delivered duplicates)) \<le> 2 ^ 1000"
    using assms(2) unfolding m finish_counts .
  from ratios_ordered [OF swept_ok this m] show ?thesis by blast
qed

text \<open>A run of three Peers: \<open>n1\<close> publishes at 10 s, \<open>n2\<close> delivers in time, \<open>n3\<close> does not, and both
  receivers checkpoint at 30 s with every sequence number before it received.\<close>

definition demo_event :: "gostring \<Rightarrow> gostring \<Rightarrow> sequence \<Rightarrow> go_time \<Rightarrow> event_fields \<Rightarrow> trace_event" where
  "demo_event kind node n t fs = zero_event\<lparr>te_Type := kind, te_NodeID := node, te_SessionID := ''s'',
     te_Sequence := n, te_Timestamp := t, te_Topic := ''t'', te_MessageID := ''m'', te_Fields := fs\<rparr>"

definition demo_run :: "trace_event list" where
  "demo_run =
     [demo_event ''measurement_start'' ''n2'' 1 Second [(''subscribedTopics'', AnyList (Some [AnyString ''t'']))],
      demo_event ''measurement_start'' ''n3'' 1 Second [(''subscribedTopics'', AnyList (Some [AnyString ''t'']))],
      demo_event ''publish'' ''n1'' 1 (10 * Second) [(''measurementDefinition'', AnyString ''session-window-v1''),
        (''deliveryWindow'', AnyString ''5s'')],
      demo_event ''deliver'' ''n2'' 2 (11 * Second) [],
      demo_event ''measurement_checkpoint'' ''n2'' 3 (30 * Second) [],
      demo_event ''measurement_checkpoint'' ''n3'' 2 (30 * Second) []]"

definition headline :: "metrics \<Rightarrow> int \<times> int \<times> float64 \<times> bool" where
  "headline m = (mt_InitialExpectedDeliveries m, mt_MissedDeliveries m, mt_Reachability m, mt_DeliveryRatioAvailable m)"

lemma demo_run_counts:
  "headline (fst (window_summarize (window_of demo_run) ''r'' (60 * Second) 1 1 0)) = (2, 1, Fin (1 / 2), True)"
  by code_simp

theorem delivery_ratios_ordered_witness:
  "float_le (Fin (1 / 2)) (mt_DeliveryRatioUpperBound (fst (window_summarize (window_of demo_run) ''r'' (60 * Second) 1 1 0)))"
proof -
  have "mt_InitialExpectedDeliveries (fst (window_summarize (window_of demo_run) ''r'' (60 * Second) 1 1 0)) \<le> 2 ^ 1000"
    using demo_run_counts by (simp add: headline_def)
  from delivery_ratios_ordered [OF refl this] demo_run_counts show ?thesis by (simp add: headline_def)
qed

section \<open>The percentile\<close>

lemma p95_factor: "float_round (95 / 100) = Fin (4278419646001971 / 4503599627370496)"
  "float_round (4278419646001971 / 4503599627370496) = Fin (4278419646001971 / 4503599627370496)"
  by code_simp+

lemma p95_index_range:
  assumes "0 < n" "n < 2 ^ 53" shows "0 \<le> p95_index n \<and> p95_index n < int n"
proof -
  define c where "c = (4278419646001971 / 4503599627370496 :: rat)"
  have "int n < 2 ^ 53" using assms(2) by (metis of_nat_less_iff of_nat_numeral of_nat_power)
  then have n: "float_of_int (int n) = Fin (of_nat n)" using float_of_int_small [of "int n"] by simp
  have one: "(1::rat) \<le> of_nat n" using assms(1) by simp
  have c: "0 < c" "c \<le> 1" by (simp_all add: c_def)
  have "c * 1 \<le> c * of_nat n" "c * of_nat n \<le> 1 * of_nat n"
    using one c by (intro mult_left_mono mult_right_mono; simp)+
  then have low: "float_le (Fin c) (float_round (c * of_nat n))" and up: "float_le (float_round (c * of_nat n)) (Fin (of_nat n))"
    using float_round_mono [of c "c * of_nat n"] float_round_mono [of "c * of_nat n" "of_nat n"] p95_factor(2) n
    by (simp_all add: c_def float_of_int_def)
  from up obtain y where y: "float_round (c * of_nat n) = Fin y"
    using low by (cases "float_round (c * of_nat n)") (auto simp: float_le_def float_eq_def)
  have "0 < y" "y \<le> of_nat n" using low up c y by simp_all
  then have "1 \<le> \<lceil>y\<rceil>" "\<lceil>y\<rceil> \<le> int n" by (simp_all add: ceiling_le_iff le_ceiling_iff)
  moreover have "float_mul (float_round (95 / 100)) (Fin (of_nat n)) = Fin y"
    using y by (simp only: p95_factor(1) float_mul.simps c_def)
  then have "p95_index n = \<lceil>y\<rceil> - 1" by (simp only: p95_index_def n float_ceil.simps)
  ultimately show ?thesis by simp
qed

text \<open>The 95th percentile is read inside the sorted samples, for every number of them below \<open>2 ^ 53\<close>.\<close>

lemma percentile_in_range:
  assumes "latencies \<noteq> []" "length latencies < 2 ^ 53"
  shows "mt_P95LatencyMS (latency_metrics latencies m) \<in> set latencies"
proof -
  have "nat (p95_index (length latencies)) < length (sort_Slice float_less latencies)"
    using p95_index_range [of "length latencies"] assms by (simp add: nat_less_iff)
  then have "sort_Slice float_less latencies ! nat (p95_index (length latencies)) \<in> set (sort_Slice float_less latencies)"
    by (rule nth_mem)
  then show ?thesis using assms(1) by (simp add: latency_metrics_def Let_def)
qed

section \<open>A missed delivery\<close>

lemma eligible_counts_missed:
  "mt_MissedDeliveries (ta_metrics (eligible_counts pub n r d t)) = mt_MissedDeliveries (ta_metrics t)"
  by (simp add: eligible_counts_def Let_def)

lemma initial_counts_missed: "mt_MissedDeliveries (initial_counts pub e r m) = mt_MissedDeliveries m"
  by (simp add: initial_counts_def Let_def)

lemma absent_counts_missed:
  "mt_MissedDeliveries (absent_counts pub e r m)
     = mt_MissedDeliveries m + (if rr_invalid r \<or> ev_completeUntil e < wp_deadline pub then 0 else 1)"
  by (simp add: absent_counts_def Let_def)

lemma pair_missed:
  assumes "mt_MissedDeliveries (ta_metrics (pair_step w pub (k, e) t)) \<noteq> mt_MissedDeliveries (ta_metrics t)"
    and r: "r = inspectWindowReceipts (map_of (mget [] (wa_receipts w) (wp_key pub)) k) pub e"
  shows "rr_ontime r = None" "\<not> rr_invalid r" "wp_deadline pub \<le> ev_completeUntil e" "\<not> departed pub e"
  using assms(1) unfolding pair_step_def prod.case Let_def r [symmetric]
  by (cases "rr_ontime r"; auto simp: eligible_counts_missed absent_counts_missed initial_counts_missed split: if_splits)+

text \<open>C15: A delivery is called missed only on evidence. When the summary of any sequence of events counts a
  pair of a publication and a receiver session as missed, the session has a checkpoint at or after the
  delivery deadline, every source sequence number from the start of the session up to that checkpoint was
  received (no telemetry is missing), the session had not ended by the deadline, and among the receipts none
  was in time and none is ambiguous.\<close>

theorem missed_delivery_has_evidence:
  assumes s: "map_of (wa_sessions (window_of es)) k = Some s" "evaluateSession s = Some e0"
    and e: "e = fold cap_session terminations e0" and deadline: "0 < wp_deadline pub"
    and missed: "mt_MissedDeliveries (ta_metrics (pair_step (window_of es) pub (k, e) t))
      \<noteq> mt_MissedDeliveries (ta_metrics t)"
  shows "(\<exists>p \<in> set (ms_proofs s). wp_deadline pub \<le> pr_at p \<and> pr_sequence (ms_start s) \<le> pr_sequence p
        \<and> (\<forall>n \<in> {pr_sequence (ms_start s)..pr_sequence p}. \<exists>ev \<in> set es. session_event k ev \<and> te_Sequence ev = n))
     \<and> \<not> departed pub e
     \<and> (let r = inspectWindowReceipts (map_of (mget [] (wa_receipts (window_of es)) (wp_key pub)) k) pub e
        in rr_ontime r = None \<and> \<not> rr_invalid r)"
proof -
  note p = pair_missed [OF missed refl]
  let ?got = "map te_Sequence (filter (session_event k) es)"
  have seqs: "ms_sequences s = foldl ranges_add [] ?got" using window_of_sequences [where es = es and k = k] s(1) by simp
  have ok: "ranges_ok (ms_sequences s)" and covered: "covered (ms_sequences s) = set ?got - {0}"
    using received_ok [of "[]" ?got] unfolding seqs by simp_all
  have "wp_deadline pub \<le> ev_completeUntil e0" using p(3) by (simp add: e cap_sessions_fields)
  from evaluateSession_complete [OF s(2) deadline this] obtain q where q: "q \<in> set (ms_proofs s)"
    "wp_deadline pub \<le> pr_at q" "pr_sequence (ms_start s) \<le> pr_sequence q"
    "pr_sequence q \<le> ranges_through (ms_sequences s) (pr_sequence (ms_start s))" "pr_sequence (ms_start s) \<noteq> 0"
    by blast
  let ?start = "pr_sequence (ms_start s)"
  have "?start \<in> covered (ms_sequences s)"
  proof (rule ccontr)
    assume "\<not> ?thesis"
    from ranges_through_missing [OF ok this] have "ranges_through (ms_sequences s) ?start = 0" .
    then show False using q(3-5) by simp
  qed
  from ranges_through_found [OF ok this] obtain r where r: "r \<in> set (ms_sequences s)"
    "sr_first r \<le> ?start" "ranges_through (ms_sequences s) ?start = sr_last r" by auto
  have "n \<in> set ?got" if "n \<in> {?start..pr_sequence q}" for n
  proof -
    have "n \<in> {sr_first r..sr_last r}" using that r(2,3) q(4) by auto
    then have "n \<in> covered (ms_sequences s)" using r(1) by (auto simp: covered_def)
    then show ?thesis using covered by simp
  qed
  then have "\<forall>n \<in> {?start..pr_sequence q}. \<exists>ev \<in> set es. session_event k ev \<and> te_Sequence ev = n" by fastforce
  then show ?thesis using q(1-3) p(1,2,4) by (auto simp: Let_def)
qed

definition demo_session :: "session_key" where
  "demo_session = \<lparr>sk_nodeID = ''n3'', sk_sessionID = ''s''\<rparr>"

definition demo_publication :: "window_publication" where
  "demo_publication = publication_of (demo_run ! 2)"

lemma demo_missed:
  "case map_of (wa_sessions (window_of demo_run)) demo_session of
     None \<Rightarrow> False
   | Some s \<Rightarrow> case evaluateSession s of
       None \<Rightarrow> False
     | Some e \<Rightarrow> wp_deadline demo_publication = 15 * Second
         \<and> mt_MissedDeliveries (ta_metrics (pair_step (window_of demo_run) demo_publication (demo_session, e) empty_tally)) = 1
         \<and> map pr_sequence (ms_proofs s) = [2] \<and> pr_sequence (ms_start s) = 1"
  by code_simp

theorem missed_delivery_has_evidence_witness:
  "\<exists>ev \<in> set demo_run. session_event demo_session ev \<and> te_Sequence ev = 2"
proof -
  obtain s e where s: "map_of (wa_sessions (window_of demo_run)) demo_session = Some s" "evaluateSession s = Some e"
    and d: "0 < wp_deadline demo_publication"
    and m: "mt_MissedDeliveries (ta_metrics (pair_step (window_of demo_run) demo_publication (demo_session, e) empty_tally))
      \<noteq> mt_MissedDeliveries (ta_metrics empty_tally)"
    and p: "map pr_sequence (ms_proofs s) = [2]" "pr_sequence (ms_start s) = 1"
    using demo_missed by (auto simp: empty_tally_def zero_metrics_def split: option.splits)
  have "e = fold cap_session [] e" by simp
  from missed_delivery_has_evidence [OF s this d m]
  obtain q where q: "q \<in> set (ms_proofs s)"
    "\<forall>n \<in> {pr_sequence (ms_start s)..pr_sequence q}. \<exists>ev \<in> set demo_run. session_event demo_session ev \<and> te_Sequence ev = n"
    by blast
  have "pr_sequence q = 2" using q(1) p(1) by auto
  then show ?thesis using q(2) p(2) by simp
qed

end
