(* ===== verification/BandwidthProperties.thy ===== *)
theory BandwidthProperties
  imports Bandwidth
begin

text \<open>
  What the bandwidth accumulator guarantees over any sequence of events: the totals are the sums of
  the sessions, never leave the range of \<open>int64\<close>, and no accepted counter ever goes back.
\<close>

section \<open>Sums over the values of a map\<close>

definition sum_vals :: "('v \<Rightarrow> int) \<Rightarrow> ('k, 'v) gomap \<Rightarrow> int" where
  "sum_vals f m = sum_list (map (\<lambda>kv. f (snd kv)) m)"

lemma sum_vals_simps [simp]: "sum_vals f [] = 0" "sum_vals f ((k, v) # m) = f v + sum_vals f m"
  by (simp_all add: sum_vals_def)

lemma sum_vals_update:
  "wf_map m \<Longrightarrow> sum_vals f (AList.update k v m)
     = sum_vals f m + f v - (case map_of m k of None \<Rightarrow> 0 | Some w \<Rightarrow> f w)"
proof (induction m)
  case (Cons a m)
  show ?case
  proof (cases "fst a = k")
    case True
    then have "map_of m k = None" using Cons.prems by (auto simp: map_of_eq_None_iff)
    then show ?thesis using True by (cases a) simp
  next
    case False
    then show ?thesis using Cons by (cases a) simp
  qed
qed simp

lemma sum_vals_nonneg: "\<forall>(k, v) \<in> set m. 0 \<le> f v \<Longrightarrow> 0 \<le> sum_vals f m"
  by (induction m) auto

lemma sum_vals_mono: "\<forall>(k, v) \<in> set m. f v \<le> g v \<Longrightarrow> sum_vals f m \<le> sum_vals g m"
  by (induction m) auto

section \<open>Samples\<close>

definition total_received :: "bandwidth_protocol list \<Rightarrow> int" where
  "total_received ps = sum_list (map bp_ReceivedBytes ps)"

definition total_sent :: "bandwidth_protocol list \<Rightarrow> int" where
  "total_sent ps = sum_list (map bp_SentBytes ps)"

definition sample_ok :: "bandwidth_sample \<Rightarrow> bool" where
  "sample_ok s \<longleftrightarrow>
     0 < bs_ElapsedNS s \<and> distinct (map bp_Protocol (bs_Protocols s))
     \<and> (\<forall>p \<in> set (bs_Protocols s). 0 \<le> bp_ReceivedBytes p \<and> 0 \<le> bp_SentBytes p)
     \<and> total_received (bs_Protocols s) \<le> bs_ReceivedBytes s
     \<and> total_sent (bs_Protocols s) \<le> bs_SentBytes s"

lemma totals_nonneg:
  assumes "\<forall>p \<in> set ps. 0 \<le> bp_ReceivedBytes p \<and> 0 \<le> bp_SentBytes p"
  shows "0 \<le> total_received ps" "0 \<le> total_sent ps"
  using assms by (auto simp: total_received_def total_sent_def intro!: sum_list_nonneg)

lemma sample_ok_nonneg:
  "sample_ok s \<Longrightarrow> 0 \<le> bs_ReceivedBytes s" "sample_ok s \<Longrightarrow> 0 \<le> bs_SentBytes s"
  unfolding sample_ok_def using totals_nonneg by (meson order_trans)+

lemma protocols_valid_spec:
  "protocols_valid seen a b ps \<Longrightarrow>
     distinct (map bp_Protocol ps) \<and> set (map bp_Protocol ps) \<inter> seen = {}
     \<and> (\<forall>p \<in> set ps. 0 \<le> bp_ReceivedBytes p \<and> 0 \<le> bp_SentBytes p)
     \<and> (0 \<le> a \<longrightarrow> total_received ps \<le> a) \<and> (0 \<le> b \<longrightarrow> total_sent ps \<le> b)"
proof (induction seen a b ps rule: protocols_valid.induct)
  case (2 seen a b p ps)
  from 2 show ?case by (fastforce simp: total_received_def total_sent_def split: if_splits)
qed (simp add: total_received_def total_sent_def)

lemma valid_sample_ok:
  "validBandwidthSample e \<Longrightarrow> te_Bandwidth e = Some s \<Longrightarrow> sample_ok s"
  using protocols_valid_spec [of "{}" "bs_ReceivedBytes s" "bs_SentBytes s" "bs_Protocols s"]
  by (auto simp: validBandwidthSample_def sample_ok_def)

text \<open>A later sample of a session contains the earlier one.\<close>

definition protocol_le :: "bandwidth_protocol \<Rightarrow> bandwidth_protocol \<Rightarrow> bool" where
  "protocol_le p q \<longleftrightarrow> bp_Protocol p = bp_Protocol q \<and> bp_ReceivedBytes p \<le> bp_ReceivedBytes q
     \<and> bp_SentBytes p \<le> bp_SentBytes q"

lemma protocol_le_trans: "protocol_le p q \<Longrightarrow> protocol_le q r \<Longrightarrow> protocol_le p r"
  by (simp add: protocol_le_def)

definition sample_le :: "bandwidth_sample \<Rightarrow> bandwidth_sample \<Rightarrow> bool" where
  "sample_le s t \<longleftrightarrow> bs_ElapsedNS s \<le> bs_ElapsedNS t \<and> bs_ReceivedBytes s \<le> bs_ReceivedBytes t
     \<and> bs_SentBytes s \<le> bs_SentBytes t \<and> (\<forall>p \<in> set (bs_Protocols s). \<exists>q \<in> set (bs_Protocols t). protocol_le p q)"

lemma sample_le_refl [simp]: "sample_le s s"
  by (auto simp: sample_le_def protocol_le_def)

lemma sample_le_trans: "sample_le s t \<Longrightarrow> sample_le t u \<Longrightarrow> sample_le s u"
  unfolding sample_le_def by (meson order_trans protocol_le_trans)

lemma map_of_by_protocol:
  "distinct (map bp_Protocol ps) \<Longrightarrow> p \<in> set ps \<Longrightarrow> map_of (by_protocol ps) (bp_Protocol p) = Some p"
proof (induction ps rule: rev_induct)
  case (snoc q ps)
  then show ?case by (cases "p = q") (auto simp: by_protocol_def image_iff)
qed simp

lemma wf_by_protocol: "wf_map (by_protocol ps)"
  by (induction ps rule: rev_induct) (simp_all add: by_protocol_def)

text \<open>The loop accepts only when every protocol of the previous sample is still there and grew.\<close>

lemma protocol_deltas_spec:
  "protocol_deltas old ps = Some (ds, rest) \<Longrightarrow> map_of old k = Some v \<Longrightarrow>
     map_of rest k = Some v
     \<or> (\<exists>p \<in> set ps. bp_Protocol p = k \<and> bp_ReceivedBytes v \<le> bp_ReceivedBytes p \<and> bp_SentBytes v \<le> bp_SentBytes p)"
proof (induction old ps arbitrary: ds rest rule: protocol_deltas.induct)
  case (2 old p ps)
  obtain ds' where rec: "protocol_deltas (AList.delete (bp_Protocol p) old) ps = Some (ds', rest)"
    and le: "\<not> bp_ReceivedBytes p < bp_ReceivedBytes (mget zero_protocol old (bp_Protocol p))"
      "\<not> bp_SentBytes p < bp_SentBytes (mget zero_protocol old (bp_Protocol p))"
    using "2.prems"(1) by (auto simp: Let_def split: if_splits option.splits prod.splits)
  show ?case
  proof (cases "bp_Protocol p = k")
    case True
    then show ?thesis using le "2.prems"(2) by (auto simp: mget_def)
  next
    case False
    then have "map_of (AList.delete (bp_Protocol p) old) k = Some v" using "2.prems"(2) by simp
    from "2.IH" [OF refl _ rec this] le show ?thesis by auto
  qed
qed simp

lemma deltas_sample_le:
  assumes "sample_ok prev" "protocol_deltas (by_protocol (bs_Protocols prev)) (bs_Protocols s) = Some (ds, [])"
    and "p \<in> set (bs_Protocols prev)"
  shows "\<exists>q \<in> set (bs_Protocols s). protocol_le p q"
  using protocol_deltas_spec [OF assms(2) map_of_by_protocol [OF _ assms(3)]] assms(1)
  unfolding sample_ok_def protocol_le_def by simp metis

section \<open>One event\<close>

definition bandwidth_ok :: "bandwidth_accumulator \<Rightarrow> bool" where
  "bandwidth_ok a \<longleftrightarrow>
     wf_map (ba_sessions a) \<and> (\<forall>(k, b) \<in> set (ba_sessions a). sample_ok (bw_sample b))
     \<and> ba_receivedBytes a = sum_vals (\<lambda>b. bs_ReceivedBytes (bw_sample b)) (ba_sessions a)
     \<and> ba_sentBytes a = sum_vals (\<lambda>b. bs_SentBytes (bw_sample b)) (ba_sessions a)
     \<and> ba_receivedBytes a \<le> MaxInt64 \<and> ba_sentBytes a \<le> MaxInt64"

lemma bandwidth_ok_empty: "bandwidth_ok empty_bandwidth"
  by (simp add: bandwidth_ok_def empty_bandwidth_def MaxInt64_def)

definition prev_sample :: "session_key \<Rightarrow> bandwidth_accumulator \<Rightarrow> bandwidth_sample" where
  "prev_sample k a = (case map_of (ba_sessions a) k of Some b \<Rightarrow> bw_sample b | None \<Rightarrow> zero_sample)"

text \<open>Everything an accepted sample satisfies, and what it changes.\<close>

definition accepted :: "trace_event \<Rightarrow> bandwidth_accumulator \<Rightarrow> bandwidth_sample \<Rightarrow> bandwidth_interval
    \<Rightarrow> bandwidth_accumulator \<Rightarrow> bool" where
  "accepted e a s i a' \<longleftrightarrow>
     te_Bandwidth e = Some s \<and> te_Type e = ''bandwidth'' \<and> sample_ok s
     \<and> bs_ElapsedNS (prev_sample (session_of e) a) < bs_ElapsedNS s
     \<and> \<not> bs_Final (prev_sample (session_of e) a)
     \<and> bs_ReceivedBytes (prev_sample (session_of e) a) \<le> bs_ReceivedBytes s
     \<and> bs_SentBytes (prev_sample (session_of e) a) \<le> bs_SentBytes s
     \<and> protocol_deltas (by_protocol (bs_Protocols (prev_sample (session_of e) a))) (bs_Protocols s)
         = Some (bi_protocols i, [])
     \<and> bi_durationNS i = bs_ElapsedNS s - bs_ElapsedNS (prev_sample (session_of e) a)
     \<and> bi_receivedBytes i = bs_ReceivedBytes s - bs_ReceivedBytes (prev_sample (session_of e) a)
     \<and> bi_sentBytes i = bs_SentBytes s - bs_SentBytes (prev_sample (session_of e) a)
     \<and> bi_receivedBytes i \<le> MaxInt64 - ba_receivedBytes a \<and> bi_sentBytes i \<le> MaxInt64 - ba_sentBytes a
     \<and> a' = a\<lparr>ba_sessions := AList.update (session_of e)
                  \<lparr>bw_agentID = te_AgentID e, bw_at = te_Timestamp e, bw_sample = s, bw_interval = i\<rparr> (ba_sessions a),
               ba_receivedBytes := ba_receivedBytes a + bi_receivedBytes i,
               ba_sentBytes := ba_sentBytes a + bi_sentBytes i,
               ba_samples := ba_samples a + 1\<rparr>"

definition counters_only :: "bandwidth_accumulator \<Rightarrow> bandwidth_accumulator \<Rightarrow> bool" where
  "counters_only a a' \<longleftrightarrow> ba_sessions a' = ba_sessions a \<and> ba_receivedBytes a' = ba_receivedBytes a
     \<and> ba_sentBytes a' = ba_sentBytes a \<and> ba_samples a' = ba_samples a"

lemma observe_cases:
  assumes "bandwidth_observe e a = (r, a')"
  obtains (ignored) "te_Type e \<noteq> ''bandwidth''" "r = None" "a' = a"
  | (refused) "te_Type e = ''bandwidth''" "r = None" "counters_only a a'"
      "ba_rejected a' + ba_superseded a' = ba_rejected a + ba_superseded a + 1"
  | (taken) s i where "r = Some i" "accepted e a s i a'"
proof (cases "te_Type e \<noteq> ''bandwidth''")
  case True
  then show ?thesis using assms ignored by (simp add: bandwidth_observe_def)
next
  case bw: False
  show ?thesis
  proof (cases r)
    case None
    have "counters_only a a' \<and> ba_rejected a' + ba_superseded a' = ba_rejected a + ba_superseded a + 1"
      using assms bw None unfolding bandwidth_observe_def Let_def counters_only_def
      by (auto split: if_splits option.splits prod.splits)
    then show ?thesis using refused bw None by blast
  next
    case (Some i)
    then have v: "validBandwidthSample e"
      using assms bw by (simp add: bandwidth_observe_def Let_def split: if_splits)
    then obtain s where s: "te_Bandwidth e = Some s"
      by (auto simp: validBandwidthSample_def split: option.splits)
    have ok: "sample_ok s" by (rule valid_sample_ok [OF v s])
    have "\<not> bs_Final zero_sample" "bs_ElapsedNS zero_sample = 0" "bs_ReceivedBytes zero_sample = 0"
      "bs_SentBytes zero_sample = 0" by (simp_all add: zero_sample_def)
    note zero = this sample_ok_nonneg [OF ok]
    have pos: "0 < bs_ElapsedNS s" using ok by (simp add: sample_ok_def)
    have "accepted e a s i a'"
      using assms bw v Some s ok zero pos
      unfolding bandwidth_observe_def Let_def accepted_def prev_sample_def
      by (auto split: if_splits option.splits prod.splits)
    then show ?thesis using taken Some by blast
  qed
qed

lemma prev_sample_ok:
  "bandwidth_ok a \<Longrightarrow> map_of (ba_sessions a) k = Some b \<Longrightarrow> sample_ok (bw_sample b)"
  by (auto simp: bandwidth_ok_def dest: map_of_SomeD)

lemma prev_value:
  "(case map_of (ba_sessions a) k of None \<Rightarrow> 0 | Some b \<Rightarrow> bs_ReceivedBytes (bw_sample b)) = bs_ReceivedBytes (prev_sample k a)"
  "(case map_of (ba_sessions a) k of None \<Rightarrow> 0 | Some b \<Rightarrow> bs_SentBytes (bw_sample b)) = bs_SentBytes (prev_sample k a)"
  by (auto simp: prev_sample_def zero_sample_def split: option.split)

lemma observe_ok:
  assumes "bandwidth_ok a" "bandwidth_observe e a = (r, a')" shows "bandwidth_ok a'"
  using assms(2)
proof (cases rule: observe_cases)
  case (taken s i)
  let ?b = "\<lparr>bw_agentID = te_AgentID e, bw_at = te_Timestamp e, bw_sample = s, bw_interval = i\<rparr>"
  have wf: "wf_map (ba_sessions a)" using assms(1) by (simp add: bandwidth_ok_def)
  have new: "ba_sessions a' = AList.update (session_of e) ?b (ba_sessions a)"
    using taken(2) by (simp add: accepted_def)
  have all: "sample_ok (bw_sample b)" if "(k, b) \<in> set (ba_sessions a')" for k b
  proof -
    have "wf_map (ba_sessions a')" using wf new by (simp only: wf_map_update)
    then have "map_of (ba_sessions a') k = Some b" using that by (rule map_of_SomeI_wf)
    then show ?thesis
      using prev_sample_ok [OF assms(1)] taken(2) unfolding new by (auto simp: accepted_def split: if_splits)
  qed
  have sums: "ba_receivedBytes a' = sum_vals (\<lambda>b. bs_ReceivedBytes (bw_sample b)) (ba_sessions a')"
    "ba_sentBytes a' = sum_vals (\<lambda>b. bs_SentBytes (bw_sample b)) (ba_sessions a')"
    using assms(1) taken(2) unfolding new sum_vals_update [OF wf] prev_value
    by (simp_all add: bandwidth_ok_def accepted_def)
  have "wf_map (ba_sessions a')" using wf new by simp
  then show ?thesis
    using all sums taken(2) unfolding bandwidth_ok_def by (auto simp: accepted_def)
qed (use assms(1) in \<open>auto simp: bandwidth_ok_def counters_only_def\<close>)

text \<open>A session the accumulator knows stays known, and its sample only grows.\<close>

lemma observe_grows:
  assumes "bandwidth_ok a" "bandwidth_observe e a = (r, a')" "map_of (ba_sessions a) k = Some b"
  shows "\<exists>b'. map_of (ba_sessions a') k = Some b' \<and> sample_le (bw_sample b) (bw_sample b')
          \<and> (bs_Final (bw_sample b) \<longrightarrow> b' = b)"
  using assms(2)
proof (cases rule: observe_cases)
  case (taken s i)
  show ?thesis
  proof (cases "k = session_of e")
    case True
    then have prev: "prev_sample (session_of e) a = bw_sample b" using assms(3) by (simp add: prev_sample_def)
    have ok: "sample_ok (bw_sample b)" by (rule prev_sample_ok [OF assms(1,3)])
    have "sample_le (bw_sample b) s"
      using taken(2) deltas_sample_le [OF ok] unfolding accepted_def prev sample_le_def by auto
    then show ?thesis using taken(2) prev True unfolding accepted_def by auto
  next
    case False
    then show ?thesis using taken(2) assms(3) by (simp add: accepted_def)
  qed
qed (use assms(3) in \<open>auto simp: counters_only_def\<close>)

section \<open>Any sequence of events\<close>

fun bandwidth_run :: "trace_event list \<Rightarrow> bandwidth_accumulator \<Rightarrow> bandwidth_interval list \<times> bandwidth_accumulator" where
  "bandwidth_run [] a = ([], a)"
| "bandwidth_run (e # es) a =
     (case bandwidth_observe e a of (r, a') \<Rightarrow>
        case bandwidth_run es a' of (is, a'') \<Rightarrow> ((case r of None \<Rightarrow> is | Some i \<Rightarrow> i # is), a''))"

lemma run_grows:
  "bandwidth_ok a \<Longrightarrow> map_of (ba_sessions a) k = Some b \<Longrightarrow>
   \<exists>b'. map_of (ba_sessions (snd (bandwidth_run es a))) k = Some b' \<and> sample_le (bw_sample b) (bw_sample b')
          \<and> (bs_Final (bw_sample b) \<longrightarrow> b' = b)"
proof (induction es arbitrary: a b)
  case (Cons e es)
  obtain r a' where o: "bandwidth_observe e a = (r, a')" by fastforce
  obtain b' where b': "map_of (ba_sessions a') k = Some b'" "sample_le (bw_sample b) (bw_sample b')"
    "bs_Final (bw_sample b) \<longrightarrow> b' = b"
    using observe_grows [OF Cons.prems(1) o Cons.prems(2)] by blast
  from Cons.IH [OF observe_ok [OF Cons.prems(1) o] b'(1)] b'(2,3) show ?case
    by (auto simp: o split: prod.split intro: sample_le_trans)
qed simp

definition interval_ok :: "bandwidth_interval \<Rightarrow> bool" where
  "interval_ok i \<longleftrightarrow> 0 < bi_durationNS i \<and> 0 \<le> bi_receivedBytes i \<and> 0 \<le> bi_sentBytes i"

lemma observe_counts:
  assumes "bandwidth_observe e a = (r, a')"
  shows "ba_samples a' + ba_rejected a' + ba_superseded a'
       = ba_samples a + ba_rejected a + ba_superseded a + (if te_Type e = ''bandwidth'' then 1 else 0)"
    "ba_receivedBytes a' = ba_receivedBytes a + (case r of None \<Rightarrow> 0 | Some i \<Rightarrow> bi_receivedBytes i)"
    "ba_sentBytes a' = ba_sentBytes a + (case r of None \<Rightarrow> 0 | Some i \<Rightarrow> bi_sentBytes i)"
    "r = Some i \<Longrightarrow> interval_ok i"
  using assms by (cases rule: observe_cases; simp add: counters_only_def accepted_def interval_ok_def)+

lemma run_ok:
  "bandwidth_ok a \<Longrightarrow> bandwidth_run es a = (is, a') \<Longrightarrow>
     bandwidth_ok a' \<and> (\<forall>i \<in> set is. interval_ok i)
     \<and> ba_receivedBytes a' = ba_receivedBytes a + sum_list (map bi_receivedBytes is)
     \<and> ba_sentBytes a' = ba_sentBytes a + sum_list (map bi_sentBytes is)
     \<and> ba_samples a' + ba_rejected a' + ba_superseded a'
         = ba_samples a + ba_rejected a + ba_superseded a + length (filter (\<lambda>e. te_Type e = ''bandwidth'') es)"
proof (induction es arbitrary: a "is")
  case (Cons e es)
  obtain r a1 where o: "bandwidth_observe e a = (r, a1)" by fastforce
  obtain is' where run: "bandwidth_run es a1 = (is', a')"
    and "is": "is = (case r of None \<Rightarrow> is' | Some i \<Rightarrow> i # is')"
    using Cons.prems(2) by (auto simp: o split: prod.splits)
  note rest = Cons.IH [OF observe_ok [OF Cons.prems(1) o] run]
  note one = observe_counts [OF o]
  show ?case
  proof (cases r)
    case None
    then show ?thesis using rest one "is" by simp
  next
    case (Some i)
    then show ?thesis using rest one(1-3) one(4) [OF Some] "is" by simp
  qed
qed simp

lemma run_append:
  "snd (bandwidth_run (es @ fs) a) = snd (bandwidth_run fs (snd (bandwidth_run es a)))"
  by (induction es arbitrary: a) (simp_all add: case_prod_beta)

section \<open>The whole-run summary\<close>

interpretation protocol_order: slice_order "\<lambda>p q. bp_Protocol p < bp_Protocol q" bp_Protocol "\<lambda>_. True"
  by unfold_locales auto

lemma add_protocol_total_sum:
  assumes "wf_map m"
  shows "wf_map (add_protocol_total m p)"
    "sum_vals bp_ReceivedBytes (add_protocol_total m p) = sum_vals bp_ReceivedBytes m + bp_ReceivedBytes p"
    "sum_vals bp_SentBytes (add_protocol_total m p) = sum_vals bp_SentBytes m + bp_SentBytes p"
  using assms
  by (auto simp: add_protocol_total_def Let_def sum_vals_update mget_def zero_protocol_def split: option.split)

lemma add_protocol_totals_sum:
  "wf_map m \<Longrightarrow> wf_map (foldl add_protocol_total m ps)
     \<and> sum_vals bp_ReceivedBytes (foldl add_protocol_total m ps) = sum_vals bp_ReceivedBytes m + total_received ps
     \<and> sum_vals bp_SentBytes (foldl add_protocol_total m ps) = sum_vals bp_SentBytes m + total_sent ps"
  by (induction ps arbitrary: m) (simp_all add: add_protocol_total_sum total_received_def total_sent_def)

definition keys_name :: "(gostring, bandwidth_protocol) gomap \<Rightarrow> bool" where
  "keys_name m \<longleftrightarrow> (\<forall>(k, p) \<in> set m. bp_Protocol p = k)"

lemma set_update_subset: "set (AList.update k v m) \<subseteq> insert (k, v) (set m)"
  by (induction m) auto

lemma keys_name_update: "keys_name m \<Longrightarrow> bp_Protocol p = k \<Longrightarrow> keys_name (AList.update k p m)"
  using set_update_subset [of k p m] by (fastforce simp: keys_name_def)

lemma protocol_totals_sum:
  assumes "\<forall>b \<in> set bs. sample_ok (bw_sample b)"
  shows "wf_map (protocol_totals bs) \<and> keys_name (protocol_totals bs)
     \<and> sum_vals bp_ReceivedBytes (protocol_totals bs) \<le> sum_list (map (\<lambda>b. bs_ReceivedBytes (bw_sample b)) bs)
     \<and> sum_vals bp_SentBytes (protocol_totals bs) \<le> sum_list (map (\<lambda>b. bs_SentBytes (bw_sample b)) bs)"
proof -
  have keys: "keys_name m \<Longrightarrow> keys_name (foldl add_protocol_total m ps)" for m ps
    by (induction ps arbitrary: m) (simp_all add: add_protocol_total_def Let_def keys_name_update)
  have step: "wf_map m \<and> keys_name m \<Longrightarrow> let n = foldl (\<lambda>m b. foldl add_protocol_total m (bs_Protocols (bw_sample b))) m bs
      in wf_map n \<and> keys_name n
       \<and> sum_vals bp_ReceivedBytes n \<le> sum_vals bp_ReceivedBytes m + sum_list (map (\<lambda>b. bs_ReceivedBytes (bw_sample b)) bs)
       \<and> sum_vals bp_SentBytes n \<le> sum_vals bp_SentBytes m + sum_list (map (\<lambda>b. bs_SentBytes (bw_sample b)) bs)" for m
    using assms
  proof (induction bs arbitrary: m)
    case (Cons b bs)
    let ?m = "foldl add_protocol_total m (bs_Protocols (bw_sample b))"
    have m: "wf_map ?m \<and> keys_name ?m" using add_protocol_totals_sum keys Cons.prems(1) by blast
    have "sample_ok (bw_sample b)" using Cons.prems(2) by simp
    then show ?case
      using Cons.IH [OF m] Cons.prems add_protocol_totals_sum [of m "bs_Protocols (bw_sample b)"]
      by (simp add: Let_def sample_ok_def)
  qed (simp add: Let_def)
  from step [of "[]"] show ?thesis by (simp add: protocol_totals_def Let_def keys_name_def)
qed

section \<open>The properties\<close>

lemma run_from_empty:
  "bandwidth_run es empty_bandwidth = (is, a) \<Longrightarrow> bandwidth_ok a"
  using run_ok [OF bandwidth_ok_empty] by blast

text \<open>C19: The books of a run balance after any sequence of events: the whole-run byte counters are both
  the sum of the latest accepted sample of every session and the sum of the intervals handed on, they stay
  in the range of a non-negative 64-bit integer, every handed-on interval has a positive duration and
  non-negative bytes, and each bandwidth event is counted as exactly one of accepted, rejected and
  superseded.\<close>

theorem bandwidth_books_balance:
  "case bandwidth_run es empty_bandwidth of (intervals, a) \<Rightarrow>
     ba_receivedBytes a = sum_vals (\<lambda>b. bs_ReceivedBytes (bw_sample b)) (ba_sessions a)
     \<and> ba_sentBytes a = sum_vals (\<lambda>b. bs_SentBytes (bw_sample b)) (ba_sessions a)
     \<and> ba_receivedBytes a = sum_list (map bi_receivedBytes intervals)
     \<and> ba_sentBytes a = sum_list (map bi_sentBytes intervals)
     \<and> ba_receivedBytes a \<in> {0..MaxInt64} \<and> ba_sentBytes a \<in> {0..MaxInt64}
     \<and> list_all interval_ok intervals
     \<and> ba_samples a + ba_rejected a + ba_superseded a = length (filter (\<lambda>e. te_Type e = ''bandwidth'') es)"
proof -
  obtain "is" a where run: "bandwidth_run es empty_bandwidth = (is, a)" by fastforce
  note r = run_ok [OF bandwidth_ok_empty run]
  have "0 \<le> sum_list (map bi_receivedBytes is)" "0 \<le> sum_list (map bi_sentBytes is)"
    using r by (auto simp: interval_ok_def intro!: sum_list_nonneg)
  then show ?thesis
    using r unfolding run by (simp add: bandwidth_ok_def list_all_iff empty_bandwidth_def)
qed

text \<open>C20: No rollback: once a session has an accepted sample, whatever arrives later (older snapshots,
  counter resets, forged samples) leaves it with a sample that is at least as late and has at least as many
  bytes in each direction, in total and for every protocol it ever reported; after its final sample the
  session never changes again.\<close>

theorem bandwidth_never_rolls_back:
  assumes "map_of (ba_sessions (snd (bandwidth_run es empty_bandwidth))) k = Some b"
  shows "\<exists>b'. map_of (ba_sessions (snd (bandwidth_run (es @ later) empty_bandwidth))) k = Some b'
     \<and> bs_ElapsedNS (bw_sample b) \<le> bs_ElapsedNS (bw_sample b')
     \<and> bs_ReceivedBytes (bw_sample b) \<le> bs_ReceivedBytes (bw_sample b')
     \<and> bs_SentBytes (bw_sample b) \<le> bs_SentBytes (bw_sample b')
     \<and> (\<forall>p \<in> set (bs_Protocols (bw_sample b)). \<exists>q \<in> set (bs_Protocols (bw_sample b')). protocol_le p q)
     \<and> (bs_Final (bw_sample b) \<longrightarrow> b' = b)"
proof -
  have "bandwidth_ok (snd (bandwidth_run es empty_bandwidth))"
    using run_from_empty by (metis prod.collapse)
  from run_grows [OF this assms, of later] show ?thesis
    unfolding run_append sample_le_def by blast
qed

definition demo_bandwidth :: "int \<Rightarrow> int \<Rightarrow> bool \<Rightarrow> trace_event" where
  "demo_bandwidth elapsed received final = zero_event\<lparr>te_Type := ''bandwidth'', te_NodeID := ''n1'',
     te_SessionID := ''s1'', te_Timestamp := 5 * Second,
     te_Bandwidth := Some \<lparr>bs_ElapsedNS = elapsed, bs_ReceivedBytes = received, bs_SentBytes = 7,
       bs_Protocols = [\<lparr>bp_Protocol = ''/meshsub/1.1.0'', bp_ReceivedBytes = received, bp_SentBytes = 2\<rparr>],
       bs_Final = final\<rparr>\<rparr>"

lemma demo_bandwidth_session:
  "map_option (\<lambda>b. (bs_ReceivedBytes (bw_sample b), bs_Final (bw_sample b)))
     (map_of (ba_sessions (snd (bandwidth_run [demo_bandwidth 10 100 False, demo_bandwidth 20 150 True] empty_bandwidth)))
       \<lparr>sk_nodeID = ''n1'', sk_sessionID = ''s1''\<rparr>) = Some (150, True)"
  by code_simp

theorem bandwidth_never_rolls_back_witness:
  "\<exists>b'. map_of (ba_sessions (snd (bandwidth_run
        ([demo_bandwidth 10 100 False, demo_bandwidth 20 150 True] @ [demo_bandwidth 30 20 False]) empty_bandwidth)))
        \<lparr>sk_nodeID = ''n1'', sk_sessionID = ''s1''\<rparr> = Some b' \<and> 150 \<le> bs_ReceivedBytes (bw_sample b')"
proof -
  obtain b where b: "map_of (ba_sessions (snd (bandwidth_run [demo_bandwidth 10 100 False, demo_bandwidth 20 150 True]
      empty_bandwidth))) \<lparr>sk_nodeID = ''n1'', sk_sessionID = ''s1''\<rparr> = Some b"
    and v: "bs_ReceivedBytes (bw_sample b) = 150"
    using demo_bandwidth_session by auto
  from bandwidth_never_rolls_back [OF b, of "[demo_bandwidth 30 20 False]"] v show ?thesis by auto
qed

text \<open>The summary of a run lists each protocol once, in name order, and its per-protocol bytes add up to
  at most the run totals, so the sums the loop builds stay in the range of a 64-bit integer.\<close>

theorem bandwidth_summary_consistent:
  "case bandwidth_summarize (snd (bandwidth_run es empty_bandwidth)) of
     None \<Rightarrow> True
   | Some u \<Rightarrow>
       sorted (map bp_Protocol (bu_Protocols u)) \<and> distinct (map bp_Protocol (bu_Protocols u))
       \<and> total_received (bu_Protocols u) \<le> bu_ReceivedBytes u \<and> bu_ReceivedBytes u \<le> MaxInt64
       \<and> total_sent (bu_Protocols u) \<le> bu_SentBytes u \<and> bu_SentBytes u \<le> MaxInt64"
proof -
  define a where "a = snd (bandwidth_run es empty_bandwidth)"
  have ok: "bandwidth_ok a" unfolding a_def using run_from_empty by (metis prod.collapse)
  let ?bs = "map snd (ba_sessions a)"
  let ?m = "protocol_totals ?bs"
  have "\<forall>b \<in> set ?bs. sample_ok (bw_sample b)" using ok by (auto simp: bandwidth_ok_def)
  note t = protocol_totals_sum [OF this]
  have names: "map bp_Protocol (map snd ?m) = map fst ?m"
    using t by (auto simp: keys_name_def)
  let ?ps = "sort_Slice (\<lambda>p q. bp_Protocol p < bp_Protocol q) (map snd ?m)"
  have "distinct (map bp_Protocol (map snd ?m))" unfolding names using t by blast
  then have "sorted_wrt (\<lambda>p q. bp_Protocol p < bp_Protocol q) ?ps"
    by (rule protocol_order.sort_Slice_strict [rotated]) simp
  then have "sorted_wrt (<) (map bp_Protocol ?ps)" by (simp only: sorted_wrt_map)
  then have order: "sorted (map bp_Protocol ?ps)" "distinct (map bp_Protocol ?ps)"
    unfolding strict_sorted_iff by blast+
  have "mset ?ps = mset (map snd ?m)" by simp
  then have "total_received ?ps = sum_vals bp_ReceivedBytes ?m" "total_sent ?ps = sum_vals bp_SentBytes ?m"
    unfolding total_received_def total_sent_def sum_vals_def
    by (metis (no_types, lifting) comp_apply map_map map_eq_conv mset_map sum_mset_sum_list)+
  moreover have "sum_list (map (\<lambda>b. bs_ReceivedBytes (bw_sample b)) ?bs) = ba_receivedBytes a"
    "sum_list (map (\<lambda>b. bs_SentBytes (bw_sample b)) ?bs) = ba_sentBytes a"
    using ok by (simp_all add: bandwidth_ok_def sum_vals_def comp_def)
  ultimately show ?thesis
    using t ok order unfolding a_def [symmetric]
    by (simp add: bandwidth_summarize_def Let_def bandwidth_ok_def)
qed

end
