(* ===== verification/WireBatches.thy ===== *)
theory WireBatches
  imports FleetTypes
begin

text \<open>
  How the Agent cuts its two streams into HTTP bodies of bounded size: heartbeats
  (\<open>internal/agent/heartbeat.go\<close>) and telemetry events (\<open>internal/model/event_batch.go\<close>). The JSON
  encoder is a parameter: for a value, its bytes, or None if it cannot be encoded. Sending a body is a
  function on the state of the outside world that says whether the Controller accepted it.
\<close>

section \<open>Heartbeats\<close>

datatype 'n batch_error = MetadataTooLarge | NodeEncoding 'n | NodeTooLarge 'n | SendFailed

type_synonym ('n, 'w) sender = "gostring \<Rightarrow> 'n list \<Rightarrow> 'w \<Rightarrow> bool \<times> 'w"

text \<open>\<open>data\<close> is the buffer and \<open>open_batch\<close> the nodes written to it since the last flush.\<close>

fun heartbeat_loop :: "gostring \<Rightarrow> nat \<Rightarrow> ('n \<Rightarrow> gostring option) \<Rightarrow> ('n, 'w) sender
    \<Rightarrow> gostring \<Rightarrow> 'n list \<Rightarrow> 'n list \<Rightarrow> 'w \<Rightarrow> 'n batch_error option \<times> 'w" where
  "heartbeat_loop prefix limit enc send data open_batch [] w =
     (case send (data @ '']}'') open_batch w of (ok, w1) \<Rightarrow> (if ok then None else Some SendFailed, w1))"
| "heartbeat_loop prefix limit enc send data open_batch (n # ns) w =
     (case enc n of None \<Rightarrow> (Some (NodeEncoding n), w)
      | Some encoded \<Rightarrow>
          if limit < length prefix + length encoded + 2 then (Some (NodeTooLarge n), w)
          else
            let separator = (if open_batch \<noteq> [] then 1 else 0)
            in if limit < length data + separator + length encoded + 2 then
                 (case send (data @ '']}'') open_batch w of (ok, w1) \<Rightarrow>
                    if ok then heartbeat_loop prefix limit enc send (prefix @ encoded) [n] ns w1
                    else (Some SendFailed, w1))
               else heartbeat_loop prefix limit enc send
                      (data @ (if open_batch \<noteq> [] then '','' else []) @ encoded) (open_batch @ [n]) ns w)"

definition heartbeat_prefix :: "gostring \<Rightarrow> gostring" where
  "heartbeat_prefix header = take (length header - 1) header @ '',\"nodes\":[''"

definition sendHeartbeatBatches :: "gostring \<Rightarrow> nat \<Rightarrow> ('n \<Rightarrow> gostring option) \<Rightarrow> ('n, 'w) sender
    \<Rightarrow> 'n list \<Rightarrow> 'w \<Rightarrow> 'n batch_error option \<times> 'w" where
  "sendHeartbeatBatches header limit enc send nodes w =
     (let prefix = heartbeat_prefix header
      in if limit < length prefix + 2 then (Some MetadataTooLarge, w)
         else heartbeat_loop prefix limit enc send prefix [] nodes w)"

section \<open>Telemetry events\<close>

definition MaxEventBatchBytes :: int where "MaxEventBatchBytes = 10485760"
definition MaxEventBatchEvents :: int where "MaxEventBatchEvents = 5000"

datatype event_batch_error = EnvelopeTooLarge | EventEncoding | EventTooLarge

definition event_prefix :: "gostring \<Rightarrow> gostring" where
  "event_prefix agent = ''{\"agentId\":'' @ agent @ '',\"events\":[''"

text \<open>The prefix loop: \<open>taken\<close> events are in the buffer; at most \<open>room\<close> more are looked at.\<close>

fun event_loop :: "int \<Rightarrow> ('e \<Rightarrow> gostring option) \<Rightarrow> gostring \<Rightarrow> int \<Rightarrow> int \<Rightarrow> 'e list
    \<Rightarrow> event_batch_error + gostring \<times> int" where
  "event_loop maximum enc data taken room [] = Inr (data @ '']}'', taken)"
| "event_loop maximum enc data taken room (e # es) =
     (if room \<le> 0 then Inr (data @ '']}'', taken)
      else case enc e of
        None \<Rightarrow> if 0 < taken then Inr (data @ '']}'', taken) else Inl EventEncoding
      | Some encoded \<Rightarrow>
          let separator = (if 0 < taken then 1 else 0)
          in if maximum < int (length data) + separator + int (length encoded) + 2
             then (if 0 < taken then Inr (data @ '']}'', taken) else Inl EventTooLarge)
             else event_loop maximum enc (data @ (if 0 < taken then '','' else []) @ encoded) (taken + 1) (room - 1) es)"

definition MarshalEventBatchPrefix :: "(gostring) \<Rightarrow> ('e \<Rightarrow> gostring option) \<Rightarrow> 'e list
    \<Rightarrow> event_batch_error + gostring \<times> int" where
  "MarshalEventBatchPrefix agent enc events =
     (let data = event_prefix agent
      in if MaxEventBatchBytes < int (length data) + 2 then Inl EnvelopeTooLarge
         else event_loop MaxEventBatchBytes enc data 0 MaxEventBatchEvents events)"

text \<open>\<open>ValidateEventSizes\<close>: the encoder writes one newline after the event, which the writer does not count.\<close>

definition eventSizeLimit_Write :: "int \<Rightarrow> gostring \<Rightarrow> bool" where
  "eventSizeLimit_Write limit data \<longleftrightarrow> \<not> limit < int (length data) - 1"

definition ValidateEventSizes :: "gostring \<Rightarrow> ('e \<Rightarrow> gostring option) \<Rightarrow> 'e list \<Rightarrow> bool" where
  "ValidateEventSizes agent enc events \<longleftrightarrow>
     events = []
     \<or> (let overhead = int (length ''{\"agentId\":'' + length agent + length '',\"events\":[]}'')
        in overhead \<le> MaxEventBatchBytes
           \<and> list_all (\<lambda>e. case enc e of None \<Rightarrow> False
                | Some encoded \<Rightarrow> eventSizeLimit_Write (MaxEventBatchBytes - overhead) (encoded @ [CHR 0x0A])) events)"

section \<open>Bodies\<close>

text \<open>The JSON text of a batch.\<close>

fun join_comma :: "gostring list \<Rightarrow> gostring" where
  "join_comma [] = []"
| "join_comma [x] = x"
| "join_comma (x # y # xs) = x @ '','' @ join_comma (y # xs)"

definition body_of :: "gostring \<Rightarrow> ('n \<Rightarrow> gostring option) \<Rightarrow> 'n list \<Rightarrow> gostring" where
  "body_of prefix enc ns = prefix @ join_comma (map (\<lambda>n. the (enc n)) ns) @ '']}''"

lemma join_comma_snoc: "xs \<noteq> [] \<Longrightarrow> join_comma (xs @ [x]) = join_comma xs @ '','' @ x"
  by (induction xs rule: join_comma.induct) auto

definition buffer_of :: "gostring \<Rightarrow> ('n \<Rightarrow> gostring option) \<Rightarrow> 'n list \<Rightarrow> gostring" where
  "buffer_of prefix enc ns = prefix @ join_comma (map (\<lambda>n. the (enc n)) ns)"

lemma buffer_empty [simp]: "buffer_of prefix enc [] = prefix"
  by (simp add: buffer_of_def)

lemma buffer_snoc:
  "enc n = Some encoded \<Longrightarrow>
   buffer_of prefix enc (ns @ [n]) = buffer_of prefix enc ns @ (if ns \<noteq> [] then '','' else []) @ encoded"
  by (cases "ns = []") (simp_all add: buffer_of_def join_comma_snoc)

lemma body_buffer: "body_of prefix enc ns = buffer_of prefix enc ns @ '']}''"
  by (simp add: body_of_def buffer_of_def)

section \<open>The plan of a heartbeat\<close>

text \<open>The specification: nodes are packed greedily in order, and the batches are sent one after the other
  until one is refused.\<close>

fun pack :: "gostring \<Rightarrow> nat \<Rightarrow> ('n \<Rightarrow> gostring option) \<Rightarrow> 'n list \<Rightarrow> 'n list \<Rightarrow> 'n list list" where
  "pack prefix limit enc open_batch [] = [open_batch]"
| "pack prefix limit enc open_batch (n # ns) =
     (if length (body_of prefix enc (open_batch @ [n])) \<le> limit
      then pack prefix limit enc (open_batch @ [n]) ns
      else open_batch # pack prefix limit enc [n] ns)"

fun send_all :: "('n list \<Rightarrow> gostring) \<Rightarrow> ('n, 'w) sender \<Rightarrow> 'n list list \<Rightarrow> 'w \<Rightarrow> bool \<times> 'w" where
  "send_all body send [] w = (True, w)"
| "send_all body send (b # bs) w =
     (case send (body b) b w of (ok, w1) \<Rightarrow> if ok then send_all body send bs w1 else (False, w1))"

definition fits :: "gostring \<Rightarrow> nat \<Rightarrow> ('n \<Rightarrow> gostring option) \<Rightarrow> 'n \<Rightarrow> bool" where
  "fits prefix limit enc n \<longleftrightarrow> (case enc n of None \<Rightarrow> False | Some e \<Rightarrow> length prefix + length e + 2 \<le> limit)"

lemma fits_body:
  "fits prefix limit enc n \<longleftrightarrow> enc n \<noteq> None \<and> length (body_of prefix enc [n]) \<le> limit"
  by (auto simp: fits_def body_of_def split: option.split)

lemma heartbeat_loop_plan:
  "list_all (fits prefix limit enc) ns \<Longrightarrow> data = buffer_of prefix enc b \<Longrightarrow>
   heartbeat_loop prefix limit enc send data b ns w =
     (case send_all (body_of prefix enc) send (pack prefix limit enc b ns) w of
        (ok, w1) \<Rightarrow> (if ok then None else Some SendFailed, w1))"
proof (induction ns arbitrary: data b w)
  case Nil
  then show ?case by (simp add: body_buffer split: prod.split)
next
  case (Cons n ns)
  from Cons.prems(1) have head: "fits prefix limit enc n" and rest: "list_all (fits prefix limit enc) ns"
    by simp_all
  from head obtain e where e: "enc n = Some e" "\<not> limit < length prefix + length e + 2"
    by (auto simp: fits_def split: option.split_asm)
  have len: "length (body_of prefix enc (b @ [n])) = length data + (if b \<noteq> [] then 1 else 0) + length e + 2"
    by (simp add: body_buffer buffer_snoc [of enc, OF e(1)] Cons.prems(2))
  have hb: "body_of prefix enc b = data @ '']}''" by (simp add: body_buffer Cons.prems(2))
  have one: "buffer_of prefix enc [n] = prefix @ e" by (simp add: buffer_of_def e(1))
  show ?case
  proof (cases "length (body_of prefix enc (b @ [n])) \<le> limit")
    case True
    then show ?thesis
      using Cons.IH [OF rest buffer_snoc [of enc n e prefix b, OF e(1), symmetric]] e len by (simp add: Cons.prems(2))
  next
    case False
    obtain ok w1 where s: "send (data @ '']}'') b w = (ok, w1)" by (cases "send (data @ '']}'') b w")
    have "heartbeat_loop prefix limit enc send data b (n # ns) w =
        (if ok then heartbeat_loop prefix limit enc send (prefix @ e) [n] ns w1 else (Some SendFailed, w1))"
      using False e len s by (simp add: Let_def)
    also have "\<dots> = (case send_all (body_of prefix enc) send (pack prefix limit enc b (n # ns)) w of
        (ok, w1) \<Rightarrow> (if ok then None else Some SendFailed, w1))"
      using False s hb Cons.IH [OF rest one [symmetric]] by simp
    finally show ?thesis .
  qed
qed

lemma pack_concat: "concat (pack prefix limit enc b ns) = b @ ns"
  by (induction ns arbitrary: b) auto

lemma pack_bounded:
  "list_all (fits prefix limit enc) ns \<Longrightarrow> length (body_of prefix enc b) \<le> limit \<Longrightarrow>
   list_all (\<lambda>c. length (body_of prefix enc c) \<le> limit) (pack prefix limit enc b ns)"
  by (induction ns arbitrary: b) (auto simp: fits_body)

lemma pack_nonempty: "b \<noteq> [] \<Longrightarrow> [] \<notin> set (pack prefix limit enc b ns)"
  by (induction ns arbitrary: b) auto

lemma pack_fresh_nonempty:
  "list_all (fits prefix limit enc) ns \<Longrightarrow> ns \<noteq> [] \<Longrightarrow> [] \<notin> set (pack prefix limit enc [] ns)"
  by (cases ns) (auto simp: fits_body pack_nonempty)

text \<open>A batch is only closed because the next node would not fit.\<close>

lemma pack_greedy:
  "pack prefix limit enc b ns = before @ c # d # after \<Longrightarrow>
   d \<noteq> [] \<and> limit < length (body_of prefix enc (c @ [hd d]))"
proof (induction ns arbitrary: b before)
  case Nil
  then show ?case by (cases before) auto
next
  case (Cons n ns)
  show ?case
  proof (cases "length (body_of prefix enc (b @ [n])) \<le> limit")
    case True
    then show ?thesis using Cons by simp
  next
    case False
    then have p: "b # pack prefix limit enc [n] ns = before @ c # d # after" using Cons.prems by simp
    obtain x xs where x: "pack prefix limit enc [n] ns = x # xs" "hd x = n" "x \<noteq> []"
    proof -
      have "\<exists>x xs. pack prefix limit enc (n # m) ns = x # xs \<and> hd x = n \<and> x \<noteq> []" for m
        by (induction ns arbitrary: m) auto
      then show thesis using that by blast
    qed
    show ?thesis
    proof (cases before)
      case Nil
      then show ?thesis using p x False by auto
    next
      case (Cons y ys)
      then show ?thesis using p Cons.IH [of "[n]" ys] by simp
    qed
  qed
qed

text \<open>C22: A heartbeat is cut into bodies without losing, repeating or reordering a node. If every node can
  be encoded and fits on its own, sending the heartbeat is sending the bodies of a list of batches one
  after the other until one is refused, where the batches laid end to end are the inventory, every body
  stays within the limit, a batch is closed only because the next node would not fit, and an empty
  inventory still sends one body.\<close>

theorem heartbeat_batches:
  assumes "length (heartbeat_prefix header) + 2 \<le> limit"
    and "list_all (fits (heartbeat_prefix header) limit enc) nodes"
  shows "\<exists>batches. concat batches = nodes
    \<and> (\<forall>send w. sendHeartbeatBatches header limit enc send nodes (w :: 'w) =
          (case send_all (body_of (heartbeat_prefix header) enc) send batches w of
             (ok, w') \<Rightarrow> (if ok then None else Some SendFailed, w')))
    \<and> list_all (\<lambda>b. length (body_of (heartbeat_prefix header) enc b) \<le> limit) batches
    \<and> (if nodes = [] then batches = [[]] else [] \<notin> set batches)
    \<and> (\<forall>before c d after. batches = before @ c # d # after \<longrightarrow>
          limit < length (body_of (heartbeat_prefix header) enc (c @ [hd d])))"
proof (intro exI conjI allI impI)
  let ?p = "heartbeat_prefix header"
  let ?bs = "pack ?p limit enc [] nodes"
  show "concat ?bs = nodes" by (simp add: pack_concat)
  show "sendHeartbeatBatches header limit enc send nodes w =
      (case send_all (body_of ?p enc) send ?bs w of (ok, w') \<Rightarrow> (if ok then None else Some SendFailed, w'))"
    for send :: "('a, 'w) sender" and w
    using assms(1) heartbeat_loop_plan [OF assms(2) buffer_empty [symmetric]]
    by (simp add: sendHeartbeatBatches_def Let_def)
  show "list_all (\<lambda>b. length (body_of ?p enc b) \<le> limit) ?bs"
    using assms by (intro pack_bounded) (simp_all add: body_of_def)
  show "if nodes = [] then ?bs = [[]] else [] \<notin> set ?bs"
    using pack_fresh_nonempty [OF assms(2)] by simp
  show "limit < length (body_of ?p enc (c @ [hd d]))" if "?bs = before @ c # d # after" for before c d after
    using pack_greedy [OF that] by simp
qed

theorem heartbeat_batches_witness:
  "\<exists>batches. concat batches = [''n1'', ''n2''] \<and> [] \<notin> set batches"
proof -
  have "length (heartbeat_prefix ''{}'') + 2 \<le> 30" "list_all (fits (heartbeat_prefix ''{}'') 30 Some) [''n1'', ''n2'']"
    by (simp_all add: heartbeat_prefix_def fits_def)
  from heartbeat_batches [OF this] show ?thesis by auto
qed

section \<open>The plan of an event batch\<close>

lemma event_loop_result:
  assumes "event_loop maximum enc data taken room es = Inr (body, m)"
    and "data = buffer_of prefix enc done_events" "taken = int (length done_events)"
    and "int (length data) + 2 \<le> maximum" "0 \<le> room"
  shows "\<exists>k \<le> length es. m = taken + int k \<and> int k \<le> room \<and> body = body_of prefix enc (done_events @ take k es)
    \<and> int (length body) \<le> maximum \<and> list_all (\<lambda>e. enc e \<noteq> None) (take k es)
    \<and> (k < length es \<and> int k < room \<longrightarrow> enc (es ! k) = None
         \<or> maximum < int (length (body_of prefix enc (done_events @ take (Suc k) es))))"
  using assms
proof (induction es arbitrary: data taken room done_events)
  case Nil
  then have "body = body_of prefix enc done_events" "m = taken" by (simp_all add: body_buffer)
  with Nil.prems show ?case by (auto simp: body_buffer)
next
  case (Cons e es)
  have hb: "body_of prefix enc done_events = data @ '']}''" by (simp add: body_buffer Cons.prems(2))
  have stop: ?case if "body = data @ '']}''" "m = taken"
    "0 < room \<longrightarrow> enc e = None \<or> maximum < int (length (body_of prefix enc (done_events @ [e])))"
    using that hb Cons.prems(4,5) by (intro exI [of _ 0]) auto
  show ?case
  proof (cases "room \<le> 0")
    case True
    show ?thesis by (rule stop) (use Cons.prems(1) True in simp_all)
  next
    case False
    show ?thesis
    proof (cases "enc e")
      case None
      show ?thesis by (rule stop) (use Cons.prems(1) False None in \<open>simp_all split: if_split_asm\<close>)
    next
      case (Some encoded)
      have len: "int (length (body_of prefix enc (done_events @ [e])))
          = int (length data) + (if 0 < taken then 1 else 0) + int (length encoded) + 2"
        using Cons.prems(2,3) by (simp add: body_buffer buffer_snoc [of enc, OF Some])
      show ?thesis
      proof (cases "maximum < int (length (body_of prefix enc (done_events @ [e])))")
        case True
        show ?thesis
          by (rule stop) (use Cons.prems(1) False Some len True in \<open>simp_all add: Let_def split: if_split_asm\<close>)
      next
        case fits: False
        let ?data = "data @ (if 0 < taken then '','' else []) @ encoded"
        have step: "event_loop maximum enc ?data (taken + 1) (room - 1) es = Inr (body, m)"
          using Cons.prems(1) False Some fits len by (simp add: Let_def split: if_split_asm)
        have d: "?data = buffer_of prefix enc (done_events @ [e])"
          using Cons.prems(2,3) by (simp add: buffer_snoc [of enc, OF Some])
        have "int (length ?data) + 2 \<le> maximum" using fits unfolding body_buffer d by simp
        from Cons.IH [OF step d _ this] False Cons.prems(3) obtain k where k: "k \<le> length es"
          "m = taken + 1 + int k" "int k \<le> room - 1" "body = body_of prefix enc ((done_events @ [e]) @ take k es)"
          "int (length body) \<le> maximum" "list_all (\<lambda>e. enc e \<noteq> None) (take k es)"
          "k < length es \<and> int k < room - 1 \<longrightarrow> enc (es ! k) = None
             \<or> maximum < int (length (body_of prefix enc ((done_events @ [e]) @ take (Suc k) es)))"
          by auto
        then show ?thesis using Some by (intro exI [of _ "Suc k"]) simp
      qed
    qed
  qed
qed

lemma event_loop_starts:
  assumes "enc e = Some encoded" and "int (length data) + int (length encoded) + 2 \<le> maximum" and "0 < room"
  shows "\<exists>body m. event_loop maximum enc data 0 room (e # es) = Inr (body, m) \<and> 0 < m"
proof -
  have "\<exists>body m. event_loop maximum enc d t r xs = Inr (body, m) \<and> t \<le> m" if "0 < t" for d t r xs
    using that
  proof (induction xs arbitrary: d t r)
    case (Cons x xs)
    show ?case
    proof (cases "enc x")
      case None
      then show ?thesis using Cons.prems by simp
    next
      case (Some y)
      then show ?thesis using Cons.prems Cons.IH [of "t + 1" "d @ (if 0 < t then '','' else []) @ y" "r - 1"]
        by (auto simp: Let_def)
    qed
  qed simp
  from this [of 1 "data @ encoded" "room - 1" es] show ?thesis using assms by (auto simp: Let_def)
qed

text \<open>C23: An event batch is the longest prefix of the queue that respects both limits of the receiver: at
  most 5000 events and at most 10 MiB of JSON. The body is exactly the envelope around those events,
  and the prefix ends only at the end of the queue, at 5000 events, or at an event that cannot be
  encoded or would not fit.\<close>

theorem event_batch_longest_prefix:
  assumes "MarshalEventBatchPrefix agent enc events = Inr (body, m)"
  shows "\<exists>k \<le> length events. m = int k \<and> m \<le> MaxEventBatchEvents
    \<and> body = body_of (event_prefix agent) enc (take k events) \<and> int (length body) \<le> MaxEventBatchBytes
    \<and> list_all (\<lambda>e. enc e \<noteq> None) (take k events)
    \<and> (k < length events \<and> m < MaxEventBatchEvents \<longrightarrow> enc (events ! k) = None
        \<or> MaxEventBatchBytes < int (length (body_of (event_prefix agent) enc (take (Suc k) events))))"
proof -
  have "int (length (event_prefix agent)) + 2 \<le> MaxEventBatchBytes"
    and l: "event_loop MaxEventBatchBytes enc (event_prefix agent) 0 MaxEventBatchEvents events = Inr (body, m)"
    using assms by (auto simp: MarshalEventBatchPrefix_def Let_def split: if_split_asm)
  from event_loop_result [OF l, of "event_prefix agent" "[]"] this show ?thesis
    by (auto simp: MaxEventBatchEvents_def)
qed

theorem event_batch_longest_prefix_witness:
  "\<exists>body. MarshalEventBatchPrefix ''a'' Some [''{}'', ''{}''] = Inr (body, 2)
     \<and> body = body_of (event_prefix ''a'') Some [''{}'', ''{}'']"
proof -
  obtain body where b: "MarshalEventBatchPrefix ''a'' Some [''{}'', ''{}''] = Inr (body, 2)"
    by (simp add: MarshalEventBatchPrefix_def event_prefix_def MaxEventBatchBytes_def MaxEventBatchEvents_def)
  from event_batch_longest_prefix [OF this] b show ?thesis by auto
qed

text \<open>C24: The queue of an accepted batch always drains. Once the size check has admitted the events, any
  non-empty part of them still queued yields a body that carries at least one event, so an event that
  passed the check can never block the queue behind it.\<close>

theorem admitted_events_drain:
  assumes "ValidateEventSizes agent enc events" and "set queue \<subseteq> set events" and "queue \<noteq> []"
  shows "\<exists>body m. MarshalEventBatchPrefix agent enc queue = Inr (body, m) \<and> 0 < m"
proof -
  obtain e es where q: "queue = e # es" using assms(3) by (cases queue) auto
  then have "e \<in> set events" using assms(2) by auto
  then obtain encoded where e: "enc e = Some encoded"
    "int (length (event_prefix agent)) + 2 + int (length encoded) \<le> MaxEventBatchBytes"
    using assms(1)
    by (cases "enc e") (auto simp: ValidateEventSizes_def Let_def list_all_iff eventSizeLimit_Write_def event_prefix_def)
  have "0 < MaxEventBatchEvents" by (simp add: MaxEventBatchEvents_def)
  moreover have "int (length (event_prefix agent)) + int (length encoded) + 2 \<le> MaxEventBatchBytes"
    using e(2) by simp
  ultimately show ?thesis
    using event_loop_starts [of enc, OF e(1)] e(2) by (simp add: MarshalEventBatchPrefix_def Let_def q)
qed

theorem admitted_events_drain_witness:
  "\<exists>body m. MarshalEventBatchPrefix ''a'' Some [''{}''] = Inr (body, m) \<and> 0 < m"
  by (rule admitted_events_drain [of "''a''" Some "[''{}'', ''[]'']"])
     (simp_all add: ValidateEventSizes_def MaxEventBatchBytes_def eventSizeLimit_Write_def)

end
