(* ===== verification/RunMetrics.thy ===== *)
theory RunMetrics
  imports SessionSummary GoStrconv
begin

text \<open>
  The per-run metric accumulator (\<open>internal/controller/run_metrics.go\<close>): the filter that lets every
  telemetry event count once, the per-message index of runs without measurement sessions, the GossipSub
  control counters, the summary and its cache. The accumulator of a live run is modelled: \<open>research\<close> and
  \<open>onBandwidth\<close>, which only an archive analysis sets, are nil.
\<close>

section \<open>State\<close>

record message_metric =
  mm_publishedAt :: go_time
  mm_published :: bool
  mm_publisher :: gostring
  mm_targets :: "gostring list option"
  mm_deliveries :: "(gostring, delivery_metric) gomap"
  mm_duplicates :: "(gostring, int) gomap"

record control_key =
  ck_agentID :: gostring
  ck_direction :: gostring
  ck_controlType :: gostring

record run_accumulator =
  ra_seen :: "gostring list"
  ra_sequences :: "(session_key, sequence_range list) gomap"
  ra_messages :: "(message_key, message_metric) gomap"
  ra_control :: "(control_key, control_metric) gomap"
  ra_published :: int
  ra_delivered :: int
  ra_duplicates :: int
  ra_window :: window_accumulator
  ra_bandwidth :: bandwidth_accumulator
  ra_revision :: nat

definition newRunMetricAccumulator :: run_accumulator where
  "newRunMetricAccumulator = \<lparr>ra_seen = [], ra_sequences = [], ra_messages = [], ra_control = [], ra_published = 0,
     ra_delivered = 0, ra_duplicates = 0, ra_window = empty_window, ra_bandwidth = empty_bandwidth, ra_revision = 0\<rparr>"

definition new_message :: message_metric where
  "new_message = \<lparr>mm_publishedAt = 0, mm_published = False, mm_publisher = [], mm_targets = None,
     mm_deliveries = [], mm_duplicates = []\<rparr>"

section \<open>One event\<close>

definition sequenced :: "trace_event \<Rightarrow> bool" where
  "sequenced e \<longleftrightarrow> te_SessionID e \<noteq> [] \<and> 0 < te_Sequence e"

definition eventIdentity :: "trace_event \<Rightarrow> gostring" where
  "eventIdentity e =
     (if sequenced e
      then te_NodeID e @ [CHR 0x00] @ ''session:'' @ te_SessionID e @ '':'' @ Itoa (uint (te_Sequence e))
      else if te_EventID e = [] then [] else te_NodeID e @ [CHR 0x00] @ te_EventID e)"

definition hasEvent :: "run_accumulator \<Rightarrow> trace_event \<Rightarrow> bool" where
  "hasEvent a e \<longleftrightarrow>
     (if sequenced e then ranges_through (mget [] (ra_sequences a) (session_of e)) (te_Sequence e) \<noteq> 0
      else eventIdentity e \<noteq> [] \<and> eventIdentity e \<in> set (ra_seen a))"

definition mark_seen :: "trace_event \<Rightarrow> run_accumulator \<Rightarrow> run_accumulator" where
  "mark_seen e a =
     (if sequenced e
      then a\<lparr>ra_sequences := AList.update (session_of e)
             (ranges_add (mget [] (ra_sequences a) (session_of e)) (te_Sequence e)) (ra_sequences a)\<rparr>
      else if eventIdentity e \<noteq> [] then a\<lparr>ra_seen := List.insert (eventIdentity e) (ra_seen a)\<rparr> else a)"

definition control_directions :: "gostring list" where
  "control_directions = [''send'', ''recv'', ''drop'']"

definition control_types :: "gostring list" where
  "control_types = [''ihave'', ''iwant'', ''idontwant'', ''graft'', ''prune'']"

definition gossipSubControlEvent :: "gostring \<Rightarrow> (gostring \<times> gostring) option" where
  "gossipSubControlEvent kind =
     find (\<lambda>(d, c). kind = d @ ''_'' @ c) (List.product control_directions control_types)"

definition observeGossipSubControl :: "trace_event \<Rightarrow> run_accumulator \<Rightarrow> run_accumulator" where
  "observeGossipSubControl e a =
     (case gossipSubControlEvent (te_Type e) of
        None \<Rightarrow> a
      | Some (d, c) \<Rightarrow>
          let key = \<lparr>ck_agentID = te_AgentID e, ck_direction = d, ck_controlType = c\<rparr>;
              m = mget \<lparr>cm_AgentID = te_AgentID e, cm_Direction = d, cm_ControlType = c, cm_RPCs = 0, cm_Entries = 0,
                       cm_MessageIDs = 0, cm_PeerExchangeRecords = 0\<rparr> (ra_control a) key
          in a\<lparr>ra_control := AList.update key
                (m\<lparr>cm_RPCs := cm_RPCs m + 1,
                   cm_Entries := cm_Entries m + nonnegativeEventCount (te_Fields e) ''controlEntries'',
                   cm_MessageIDs := cm_MessageIDs m + nonnegativeEventCount (te_Fields e) ''messageIdCount'',
                   cm_PeerExchangeRecords :=
                     cm_PeerExchangeRecords m + nonnegativeEventCount (te_Fields e) ''peerExchangeCount''\<rparr>)
                (ra_control a)\<rparr>)"

text \<open>The change an event of a known message makes to its entry: the three cases of the switch.\<close>

definition publish_message :: "trace_event \<Rightarrow> message_metric \<Rightarrow> message_metric" where
  "publish_message e m =
     (let n = m\<lparr>mm_published := True, mm_publisher := te_NodeID e, mm_publishedAt := te_Timestamp e\<rparr>
      in case targetNodeIDs (map_of (te_Fields e) ''targetNodeIds'') of (targets, known) \<Rightarrow>
           if known then n\<lparr>mm_targets := Some (remdups (filter (\<lambda>id. id \<noteq> [] \<and> id \<noteq> te_NodeID e) targets))\<rparr> else n)"

definition deliver_message :: "trace_event \<Rightarrow> message_metric \<Rightarrow> message_metric" where
  "deliver_message e m =
     (if te_NodeID e = [] \<or> bool_field (te_Fields e) ''localDelivery'' then m
      else case map_of (mm_deliveries m) (te_NodeID e) of
             Some previous \<Rightarrow>
               if \<not> te_Timestamp e < dm_timestamp previous then m
               else m\<lparr>mm_deliveries := AList.update (te_NodeID e) (wd_value (delivery_of e)) (mm_deliveries m)\<rparr>
           | None \<Rightarrow> m\<lparr>mm_deliveries := AList.update (te_NodeID e) (wd_value (delivery_of e)) (mm_deliveries m)\<rparr>)"

definition duplicate_message :: "trace_event \<Rightarrow> message_metric \<Rightarrow> message_metric" where
  "duplicate_message e m =
     (if te_NodeID e = [] then m
      else m\<lparr>mm_duplicates := AList.update (te_NodeID e) (mget 0 (mm_duplicates m) (te_NodeID e) + 1) (mm_duplicates m)\<rparr>)"

text \<open>A message without an ID has no entry: only the counters change.\<close>

definition with_message :: "trace_event \<Rightarrow> (message_metric \<Rightarrow> message_metric) \<Rightarrow> run_accumulator \<Rightarrow> run_accumulator" where
  "with_message e f a =
     (if te_MessageID e = [] then a
      else a\<lparr>ra_messages := AList.update (message_of e) (f (mget new_message (ra_messages a) (message_of e)))
             (ra_messages a)\<rparr>)"

definition observe_message :: "trace_event \<Rightarrow> run_accumulator \<Rightarrow> run_accumulator" where
  "observe_message e a =
     (if te_Type e = ''publish'' then
        let m = mget new_message (ra_messages a) (message_of e)
        in if te_MessageID e \<noteq> [] \<and> mm_published m then with_message e (\<lambda>m. m) a
           else (with_message e (publish_message e) a)\<lparr>ra_published := ra_published a + 1\<rparr>
      else if te_Type e = ''deliver'' then
        (with_message e (deliver_message e) a)\<lparr>ra_delivered := ra_delivered a + 1\<rparr>
      else if te_Type e = ''duplicate'' then
        (with_message e (duplicate_message e) a)\<lparr>ra_duplicates := ra_duplicates a + 1\<rparr>
      else a)"

definition observe_streams :: "trace_event \<Rightarrow> run_accumulator \<Rightarrow> run_accumulator" where
  "observe_streams e a =
     (let b = observeGossipSubControl e
            (a\<lparr>ra_revision := ra_revision a + 1, ra_window := window_observe e (ra_window a)\<rparr>)
      in b\<lparr>ra_bandwidth := snd (bandwidth_observe e (ra_bandwidth b))\<rparr>)"

definition run_observe :: "trace_event \<Rightarrow> run_accumulator \<Rightarrow> bool \<times> run_accumulator" where
  "run_observe e a =
     (if hasEvent a e then (False, a) else (True, observe_message e (observe_streams e (mark_seen e a))))"

section \<open>Summaries\<close>

definition control_rank :: "gostring list \<Rightarrow> gostring \<Rightarrow> nat" where
  "control_rank names n = length (takeWhile (\<lambda>m. m \<noteq> n) names) mod length names"

definition control_less :: "control_metric \<Rightarrow> control_metric \<Rightarrow> bool" where
  "control_less a b \<longleftrightarrow>
     (if cm_AgentID a \<noteq> cm_AgentID b then cm_AgentID a < cm_AgentID b
      else if control_rank control_directions (cm_Direction a) \<noteq> control_rank control_directions (cm_Direction b)
      then control_rank control_directions (cm_Direction a) < control_rank control_directions (cm_Direction b)
      else control_rank control_types (cm_ControlType a) < control_rank control_types (cm_ControlType b))"

definition summarizeGossipSubControl :: "run_accumulator \<Rightarrow> control_metric list" where
  "summarizeGossipSubControl a =
     (if ra_control a = [] then [] else sort_Slice control_less (map snd (ra_control a)))"

text \<open>The cohort of a run without measurement sessions: the targets of the dispatch.\<close>

definition legacy_receiver :: "message_key \<times> message_metric \<Rightarrow> gostring \<Rightarrow> tally \<Rightarrow> tally" where
  "legacy_receiver km receiver t =
     (case km of (key, m) \<Rightarrow>
        case map_of (mm_deliveries m) receiver of
          None \<Rightarrow> t
        | Some d \<Rightarrow>
            if receiver = mm_publisher m then t
            else
              let n = ta_metrics t;
                  n1 = n\<lparr>mt_EligibleDeliveries := mt_EligibleDeliveries n + 1,
                         mt_EligibleDuplicates := mt_EligibleDuplicates n + mget 0 (mm_duplicates m) receiver\<rparr>
              in if \<not> dm_latencyAvailable d then t\<lparr>ta_metrics := n1\<rparr>
                 else if float_less (dm_latencyMS d) (Fin 0) \<or> IsNaN (dm_latencyMS d) \<or> IsInf (dm_latencyMS d)
                 then t\<lparr>ta_metrics := n1\<lparr>mt_InvalidLatencySamples := mt_InvalidLatencySamples n1 + 1\<rparr>\<rparr>
                 else t\<lparr>ta_metrics := n1, ta_latencies := ta_latencies t @ [dm_latencyMS d],
                        ta_samples := ta_samples t @ [\<lparr>ps_agentID = dm_agentID d, ps_topic = mk_topic key,
                          ps_seconds = float_div (dm_latencyMS d) (Fin 1000), ps_nodeID = receiver\<rparr>]\<rparr>)"

definition legacy_message :: "message_key \<times> message_metric \<Rightarrow> tally \<times> int \<Rightarrow> tally \<times> int" where
  "legacy_message km tk =
     (case tk of (t, known) \<Rightarrow>
        if \<not> mm_published (snd km) then (t, known)
        else case mm_targets (snd km) of
               None \<Rightarrow> (t, known)
             | Some targets \<Rightarrow>
                 let n = ta_metrics t;
                     n1 = n\<lparr>mt_ExpectedDeliveries := mt_ExpectedDeliveries n + int (length targets)\<rparr>
                 in (fold (legacy_receiver km) targets (t\<lparr>ta_metrics := n1\<rparr>), known + 1))"

definition legacy_ratio :: "metrics \<Rightarrow> metrics" where
  "legacy_ratio m =
     (let m1 = m\<lparr>mt_DeliveryRatioAvailable := 0 < mt_ExpectedDeliveries m\<rparr>
      in if 0 < mt_ExpectedDeliveries m
         then m1\<lparr>mt_Reachability := ratio (mt_EligibleDeliveries m) (mt_ExpectedDeliveries m)\<rparr> else m1)"

definition summarizeLegacy :: "run_accumulator \<Rightarrow> gostring \<Rightarrow> metrics \<times> propagation_sample list" where
  "summarizeLegacy a runID =
     (let start = zero_metrics\<lparr>mt_Definition := ''dispatch-cohort-v1'', mt_RunID := runID,
            mt_Published := ra_published a, mt_Delivered := ra_delivered a, mt_Duplicates := ra_duplicates a\<rparr>;
          (t, known) = fold legacy_message (ra_messages a) (\<lparr>ta_metrics = start, ta_latencies = [], ta_samples = []\<rparr>, 0);
          m = ta_metrics t
      in (latency_metrics (ta_latencies t) (duplicate_average (legacy_ratio
            (m\<lparr>mt_UnscopedPublications := mt_Published m - known\<rparr>))), ta_samples t))"

definition run_summarize :: "run_accumulator \<Rightarrow> gostring \<Rightarrow> go_time \<Rightarrow> metrics \<times> propagation_sample list" where
  "run_summarize a runID boundary =
     (let (m, samples) = (if wa_enabled (ra_window a)
            then window_summarize (ra_window a) runID boundary (ra_published a) (ra_delivered a) (ra_duplicates a)
            else summarizeLegacy a runID)
      in (m\<lparr>mt_GossipSubControl := summarizeGossipSubControl a, mt_Bandwidth := bandwidth_summarize (ra_bandwidth a)\<rparr>,
          samples))"

section \<open>The cache of the live summary\<close>

record summary_cache =
  sc_revision :: nat
  sc_at :: go_time
  sc_run :: gostring
  sc_metrics :: metrics
  sc_samples :: "propagation_sample list"

definition snapshotInterval :: duration where "snapshotInterval = Second"

definition liveSummaryLocked :: "run_accumulator \<Rightarrow> gostring \<Rightarrow> go_time \<Rightarrow> summary_cache
    \<Rightarrow> (metrics \<times> propagation_sample list) \<times> summary_cache" where
  "liveSummaryLocked a runID now c =
     (if \<not> IsZero (sc_at c) \<and> sc_run c = runID \<and> \<not> now < sc_at c \<and> sc_revision c = ra_revision a
         \<and> (time_Sub now (sc_at c) < snapshotInterval \<or> mt_PendingPublications (sc_metrics c) = 0)
      then ((sc_metrics c, sc_samples c), c)
      else
        let (m, samples) = run_summarize a runID now
        in ((m, samples), \<lparr>sc_revision = ra_revision a, sc_at = now, sc_run = runID, sc_metrics = m, sc_samples = samples\<rparr>))"

text \<open>The metrics of a list of events, for one run or for all of them.\<close>

definition run_of :: "trace_event list \<Rightarrow> run_accumulator" where
  "run_of es = fold (\<lambda>e a. snd (run_observe e a)) es newRunMetricAccumulator"

definition calculateMetrics :: "gostring list \<Rightarrow> trace_event list \<Rightarrow> go_time \<Rightarrow> metrics" where
  "calculateMetrics experimentIDs es now =
     (let runID = (case experimentIDs of [] \<Rightarrow> [] | r # _ \<Rightarrow> r)
      in fst (run_summarize (run_of (filter (\<lambda>e. runID = [] \<or> te_RunID e = runID) es)) runID now))"

end
