(* ===== verification/RunMetricsProperties.thy ===== *)
theory RunMetricsProperties
  imports RunMetrics SessionProperties
begin

text \<open>
  What the per-run accumulator guarantees: a telemetry event counts once however often its batch is sent
  again, and the cached live summary is never stale.
\<close>

declare map_of_eq_Some_iff [simp del]

section \<open>What has been seen\<close>

definition identified :: "trace_event \<Rightarrow> bool" where
  "identified e \<longleftrightarrow> sequenced e \<or> te_EventID e \<noteq> []"

definition sequences_ok :: "run_accumulator \<Rightarrow> bool" where
  "sequences_ok a \<longleftrightarrow> (\<forall>k rs. map_of (ra_sequences a) k = Some rs \<longrightarrow> ranges_ok rs)"

lemma sequences_get: "sequences_ok a \<Longrightarrow> ranges_ok (mget [] (ra_sequences a) k)"
  by (auto simp: sequences_ok_def mget_def split: option.split)

lemma control_fields [simp]:
  "ra_seen (observeGossipSubControl e a) = ra_seen a" "ra_sequences (observeGossipSubControl e a) = ra_sequences a"
  "ra_revision (observeGossipSubControl e a) = ra_revision a"
  by (auto simp: observeGossipSubControl_def Let_def split: option.split)

lemma streams_fields [simp]:
  "ra_seen (observe_streams e a) = ra_seen a" "ra_sequences (observe_streams e a) = ra_sequences a"
  "ra_revision (observe_streams e a) = ra_revision a + 1"
  by (simp_all add: observe_streams_def Let_def)

lemma message_fields [simp]:
  "ra_seen (observe_message e a) = ra_seen a" "ra_sequences (observe_message e a) = ra_sequences a"
  "ra_revision (observe_message e a) = ra_revision a"
  by (simp_all add: observe_message_def with_message_def Let_def)

lemma mark_revision [simp]: "ra_revision (mark_seen e a) = ra_revision a"
  by (simp add: mark_seen_def)

lemma hasEvent_cong:
  "ra_seen a = ra_seen b \<Longrightarrow> ra_sequences a = ra_sequences b \<Longrightarrow> hasEvent a e = hasEvent b e"
  by (simp add: hasEvent_def)

lemma through_covered:
  assumes "ranges_ok rs" "n \<noteq> 0" shows "ranges_through rs n \<noteq> 0 \<longleftrightarrow> n \<in> covered rs"
proof
  assume "n \<in> covered rs"
  from ranges_through_found [OF assms(1) this]
  obtain r :: sequence_range where "n \<le> sr_last r" "ranges_through rs n = sr_last r"
    unfolding atLeastAtMost_iff by blast
  then show "ranges_through rs n \<noteq> 0" using assms(2) by auto
qed (use ranges_through_missing [OF assms(1)] in blast)

lemma mark_ok: "sequences_ok a \<Longrightarrow> sequences_ok (mark_seen e a)"
  using ranges_add_ok sequences_get [of a "session_of e"]
  by (auto simp: sequences_ok_def mark_seen_def)

lemma mark_has:
  assumes "sequences_ok a" "identified e" shows "hasEvent (mark_seen e a) e"
proof (cases "sequenced e")
  case True
  then have n: "te_Sequence e \<noteq> 0" by (auto simp: sequenced_def)
  let ?rs = "mget [] (ra_sequences a) (session_of e)"
  have add: "ranges_ok (ranges_add ?rs (te_Sequence e))" "te_Sequence e \<in> covered (ranges_add ?rs (te_Sequence e))"
    using ranges_add_ok [OF sequences_get [OF assms(1)], of "session_of e" "te_Sequence e"] n by simp_all
  have "hasEvent (mark_seen e a) e \<longleftrightarrow> ranges_through (ranges_add ?rs (te_Sequence e)) (te_Sequence e) \<noteq> 0"
    using True by (simp add: hasEvent_def mark_seen_def)
  then show ?thesis using through_covered [OF add(1) n] add(2) by simp
next
  case False
  then have "eventIdentity e \<noteq> []" using assms(2) by (simp add: eventIdentity_def identified_def)
  then show ?thesis using False by (simp add: hasEvent_def mark_seen_def)
qed

lemma mark_keeps:
  assumes "sequences_ok a" "hasEvent a e" shows "hasEvent (mark_seen e' a) e"
proof (cases "sequenced e")
  case True
  then have n: "te_Sequence e \<noteq> 0" by (auto simp: sequenced_def)
  note ok = sequences_get [OF assms(1)]
  show ?thesis
  proof (cases "sequenced e' \<and> session_of e' = session_of e")
    case same: True
    let ?rs = "mget [] (ra_sequences a) (session_of e)"
    have "te_Sequence e \<in> covered ?rs"
      using assms(2) True through_covered [OF ok n] by (simp add: hasEvent_def)
    then have add: "ranges_ok (ranges_add ?rs (te_Sequence e'))" "te_Sequence e \<in> covered (ranges_add ?rs (te_Sequence e'))"
      using ranges_add_ok [OF ok, of "session_of e" "te_Sequence e'"] by simp_all
    have "hasEvent (mark_seen e' a) e \<longleftrightarrow> ranges_through (ranges_add ?rs (te_Sequence e')) (te_Sequence e) \<noteq> 0"
      using True same by (simp add: hasEvent_def mark_seen_def)
    then show ?thesis using through_covered [OF add(1) n] add(2) by simp
  next
    case False
    then have "mget [] (ra_sequences (mark_seen e' a)) (session_of e) = mget [] (ra_sequences a) (session_of e)"
      by (auto simp: mark_seen_def)
    then show ?thesis using assms(2) True by (simp add: hasEvent_def)
  qed
next
  case False
  then show ?thesis using assms(2) by (simp add: hasEvent_def mark_seen_def)
qed

section \<open>Any sequence of events\<close>

lemma run_of_snoc [simp]: "run_of (es @ [e]) = snd (run_observe e (run_of es))"
  by (simp add: run_of_def)

lemma run_observe_ok: "sequences_ok a \<Longrightarrow> sequences_ok (snd (run_observe e a))"
  using mark_ok [of a e] by (simp add: run_observe_def sequences_ok_def)

lemma run_of_ok: "sequences_ok (run_of es)"
proof (induction es rule: rev_induct)
  case (snoc e es)
  then show ?case by (simp add: run_observe_ok)
qed (simp add: run_of_def newRunMetricAccumulator_def sequences_ok_def)

lemma observed_has:
  assumes "sequences_ok a" "identified e" shows "hasEvent (snd (run_observe e a)) e"
  using mark_has [OF assms] hasEvent_cong [of "mark_seen e a" "snd (run_observe e a)" e]
  by (cases "hasEvent a e") (simp_all add: run_observe_def)

lemma observed_keeps:
  assumes "sequences_ok a" "hasEvent a e" shows "hasEvent (snd (run_observe e' a)) e"
  using mark_keeps [OF assms, of e'] assms(2) hasEvent_cong [of "mark_seen e' a" "snd (run_observe e' a)" e]
  by (cases "hasEvent a e'") (simp_all add: run_observe_def)

lemma run_of_has: "e \<in> set es \<Longrightarrow> identified e \<Longrightarrow> hasEvent (run_of es) e"
proof (induction es rule: rev_induct)
  case (snoc x es)
  show ?case
  proof (cases "x = e")
    case True
    then show ?thesis using observed_has [OF run_of_ok snoc.prems(2)] by simp
  next
    case False
    then show ?thesis using snoc observed_keeps [OF run_of_ok] by simp
  qed
qed simp

lemma run_of_append: "run_of (es @ fs) = fold (\<lambda>e a. snd (run_observe e a)) fs (run_of es)"
  by (simp add: run_of_def)

text \<open>The revision tells two states of one history apart.\<close>

lemma revision_grows: "ra_revision a \<le> ra_revision (fold (\<lambda>e a. snd (run_observe e a)) fs a)"
proof (induction fs arbitrary: a)
  case (Cons e fs)
  have "ra_revision a \<le> ra_revision (snd (run_observe e a))" by (simp add: run_observe_def)
  then show ?case using Cons [of "snd (run_observe e a)"] by simp
qed simp

lemma same_revision:
  "ra_revision (fold (\<lambda>e a. snd (run_observe e a)) fs a) = ra_revision a \<Longrightarrow>
   fold (\<lambda>e a. snd (run_observe e a)) fs a = a"
proof (induction fs arbitrary: a)
  case (Cons e fs)
  have "hasEvent a e"
  proof (rule ccontr)
    assume "\<not> ?thesis"
    then have "ra_revision (snd (run_observe e a)) = ra_revision a + 1" by (simp add: run_observe_def)
    then show False using Cons.prems revision_grows [of "snd (run_observe e a)" fs] by simp
  qed
  then have "snd (run_observe e a) = a" by (simp add: run_observe_def)
  then show ?case using Cons by simp
qed simp

section \<open>Summaries without pending publications\<close>

definition pending_at :: "go_time \<Rightarrow> window_publication \<Rightarrow> bool" where
  "pending_at now p \<longleftrightarrow> \<not> wp_local p \<and> wp_valid p \<and> now < wp_deadline p"

abbreviation pending :: "window_index \<Rightarrow> int" where
  "pending x \<equiv> mt_PendingPublications (wi_metrics x)"

lemma note_window_pending: "mt_PendingPublications (note_window p m) = mt_PendingPublications m"
  by (simp add: note_window_def Let_def)

lemma mark_pending: "pending (mark_incomplete b x) = pending x"
  by (simp add: mark_incomplete_def)

lemma index_publication_pending:
  "pending (index_publication w now kp x) = pending x + (if pending_at now (snd kp) then 1 else 0)"
  by (cases kp) (simp add: index_publication_def Let_def update_index_def mark_pending note_window_pending pending_at_def)

lemma index_publications_pending:
  "pending (fold (index_publication w now) kps x) = pending x + int (length (filter (\<lambda>kp. pending_at now (snd kp)) kps))"
  by (induction kps arbitrary: x) (simp_all add: index_publication_pending)

lemma index_sessions_pending: "pending (fold (index_session w) kss x) = pending x"
proof -
  have "pending (index_session w ks x) = pending x" for ks x
    by (simp add: index_session_def Let_def mark_pending add_topic_metrics split: option.split)
  then show ?thesis by (induction kss arbitrary: x) simp_all
qed

lemma index_publication_later:
  assumes "\<not> pending_at now (snd kp)" "now \<le> later"
  shows "index_publication w later kp x = index_publication w now kp x"
proof (cases kp)
  case (Pair key p)
  have "wp_local p \<or> \<not> wp_valid p \<or> \<not> now < wp_deadline p \<and> \<not> later < wp_deadline p"
    using assms by (auto simp: Pair pending_at_def)
  then show ?thesis by (auto simp: Pair index_publication_def Let_def)
qed

lemma index_publications_later:
  "list_all (\<lambda>kp. \<not> pending_at now (snd kp)) kps \<Longrightarrow> now \<le> later \<Longrightarrow>
   fold (index_publication w later) kps x = fold (index_publication w now) kps x"
proof (induction kps arbitrary: x)
  case (Cons kp kps)
  then show ?case using index_publication_later [of now kp later w x] by simp
qed simp

lemma window_indexed_later:
  assumes "pending (window_indexed w now m) = mt_PendingPublications m" "now \<le> later"
  shows "window_indexed w later m = window_indexed w now m"
proof -
  have "filter (\<lambda>kp. pending_at now (snd kp)) (wa_publications w) = []"
    using assms(1) by (simp add: window_indexed_def index_publications_pending index_sessions_pending)
  then have "list_all (\<lambda>kp. \<not> pending_at now (snd kp)) (wa_publications w)"
    by (simp add: filter_empty_conv list_all_iff)
  from index_publications_later [OF this assms(2)] show ?thesis by (simp add: window_indexed_def)
qed

lemma pair_step_pending:
  "mt_PendingPublications (ta_metrics (pair_step w p ke t)) = mt_PendingPublications (ta_metrics t)"
proof -
  obtain m l s where d: "pair_amount w p ke = (m, l, s)" by (cases "pair_amount w p ke") auto
  have "ta_metrics (pair_step w p ke t) = plus_counts (ta_metrics t) m"
    using pair_step_amount [of w p ke t] by (simp add: view_of_def d)
  then show ?thesis by (simp add: plus_counts_def)
qed

lemma swept_pending:
  "mt_PendingPublications (ta_metrics (swept sweep_topic w r now n d u))
     = pending (window_indexed w now (window_start_metrics w r n d u))"
proof -
  have pairs: "mt_PendingPublications (ta_metrics (fold (pair_step w p) active t)) = mt_PendingPublications (ta_metrics t)" for p active t
    by (induction active arbitrary: t) (simp_all add: pair_step_pending)
  have "mt_PendingPublications (ta_metrics (sweep w ps starts ends active t)) = mt_PendingPublications (ta_metrics t)" for ps starts ends active t
    by (induction ps arbitrary: starts ends active t) (simp_all add: pairs split: prod.split)
  then have all: "mt_PendingPublications (ta_metrics (fold (\<lambda>(topic, ix). sweep_topic w ix) xs t)) = mt_PendingPublications (ta_metrics t)" for xs t
    by (induction xs arbitrary: t) (auto simp: sweep_topic_def)
  show ?thesis unfolding swept_def all by (simp add: start_tally_def Let_def)
qed

lemma finish_pending: "mt_PendingPublications (fst (finish t)) = mt_PendingPublications (ta_metrics t)"
  by (simp add: finish_def latency_metrics_def duplicate_average_def window_ratios_def Let_def)

lemma window_summarize_later:
  assumes "mt_PendingPublications (fst (window_summarize w r now n d u)) = 0" "now \<le> later"
  shows "window_summarize w r later n d u = window_summarize w r now n d u"
proof -
  have "pending (window_indexed w now (window_start_metrics w r n d u)) = 0"
    using assms(1) unfolding window_summarize_finish finish_pending swept_pending .
  then have "window_indexed w later (window_start_metrics w r n d u) = window_indexed w now (window_start_metrics w r n d u)"
    using assms(2) by (intro window_indexed_later) (simp add: window_start_metrics_def zero_metrics_def)
  then show ?thesis by (simp add: window_summarize_def)
qed

lemma run_summarize_later:
  assumes "mt_PendingPublications (fst (run_summarize a r now)) = 0" "now \<le> later"
  shows "run_summarize a r later = run_summarize a r now"
proof (cases "wa_enabled (ra_window a)")
  case True
  then have "mt_PendingPublications (fst (window_summarize (ra_window a) r now (ra_published a) (ra_delivered a) (ra_duplicates a))) = 0"
    using assms(1) by (simp add: run_summarize_def Let_def case_prod_beta)
  from window_summarize_later [OF this assms(2)] show ?thesis using True by (simp add: run_summarize_def)
qed (simp add: run_summarize_def)

section \<open>The properties\<close>

text \<open>C25: A telemetry event counts once. Sending any of the identified events again (an Agent repeats a batch
  whose acknowledgement was lost), in any order and any number of times, is rejected and leaves the whole
  accumulator (counters, message index, measurement sessions, control and bandwidth counters, revision)
  exactly as it was.\<close>

theorem retried_batch_changes_nothing:
  assumes "set retry \<subseteq> set es" and "list_all identified retry"
  shows "run_of (es @ retry) = run_of es \<and> list_all (\<lambda>e. run_observe e (run_of es) = (False, run_of es)) retry"
proof -
  have "list_all (\<lambda>e. hasEvent (run_of es) e) retry"
    using assms run_of_has by (auto simp: list_all_iff)
  then have "list_all (\<lambda>e. run_observe e (run_of es) = (False, run_of es)) retry"
    by (simp add: run_observe_def list_all_iff)
  moreover from this have "run_of (es @ retry) = run_of es"
    unfolding run_of_append by (induction retry) auto
  ultimately show ?thesis by blast
qed

theorem retried_batch_changes_nothing_witness:
  "run_of (demo_run @ rev demo_run @ demo_run) = run_of demo_run"
proof -
  have "list_all identified (rev demo_run @ demo_run)"
    by (simp add: demo_run_def demo_event_def identified_def sequenced_def zero_event_def)
  from retried_batch_changes_nothing [OF _ this, of demo_run] show ?thesis by auto
qed

text \<open>C26: The cached live summary is never stale. Whatever events arrived since a summary was cached, the
  answer at a later time is the one a fresh computation gives, or, while deliveries are still pending, the one
  it gave less than a second ago on the same events; once nothing is pending, a cached answer of any age is
  exact.\<close>

theorem live_summary_fresh:
  assumes cached: "c = \<lparr>sc_revision = ra_revision (run_of es), sc_at = t0, sc_run = r0,
      sc_metrics = fst (run_summarize (run_of es) r0 t0), sc_samples = snd (run_summarize (run_of es) r0 t0)\<rparr>"
  shows "fst (liveSummaryLocked (run_of (es @ later)) r now c) = run_summarize (run_of (es @ later)) r now
    \<or> (\<exists>t. t \<le> now \<and> now < t + snapshotInterval
         \<and> fst (liveSummaryLocked (run_of (es @ later)) r now c) = run_summarize (run_of (es @ later)) r t)"
proof (cases "t0 \<noteq> 0 \<and> r0 = r \<and> \<not> now < t0 \<and> ra_revision (run_of es) = ra_revision (run_of (es @ later))
    \<and> (time_Sub now t0 < snapshotInterval \<or> mt_PendingPublications (fst (run_summarize (run_of es) r0 t0)) = 0)")
  case False
  then have "fst (liveSummaryLocked (run_of (es @ later)) r now c) = run_summarize (run_of (es @ later)) r now"
    unfolding liveSummaryLocked_def cached by (auto simp: Let_def case_prod_beta)
  then show ?thesis by blast
next
  case True
  then have same: "run_of (es @ later) = run_of es"
    unfolding run_of_append by (intro same_revision) simp
  have hit: "fst (liveSummaryLocked (run_of (es @ later)) r now c) = run_summarize (run_of es) r t0"
    using True unfolding liveSummaryLocked_def cached same by auto
  show ?thesis
  proof (cases "mt_PendingPublications (fst (run_summarize (run_of es) r0 t0)) = 0")
    case settled: True
    then have "run_summarize (run_of es) r now = run_summarize (run_of es) r t0"
      using True by (intro run_summarize_later) auto
    then show ?thesis using hit same by simp
  next
    case False
    then have "now - t0 < snapshotInterval"
      using True by (auto simp: time_Sub_def snapshotInterval_def MaxInt64_def MinInt64_def)
    then show ?thesis using hit same True by (intro disjI2 exI [of _ t0]) auto
  qed
qed

theorem live_summary_fresh_witness:
  "let c = \<lparr>sc_revision = ra_revision (run_of demo_run), sc_at = 12 * Second, sc_run = ''r'',
        sc_metrics = fst (run_summarize (run_of demo_run) ''r'' (12 * Second)),
        sc_samples = snd (run_summarize (run_of demo_run) ''r'' (12 * Second))\<rparr>
   in \<exists>t. t \<le> 12 * Second + 5 \<and> 12 * Second + 5 < t + Second
      \<and> fst (liveSummaryLocked (run_of (demo_run @ demo_run)) ''r'' (12 * Second + 5) c)
          = run_summarize (run_of (demo_run @ demo_run)) ''r'' t"
proof -
  define c where "c = \<lparr>sc_revision = ra_revision (run_of demo_run), sc_at = 12 * Second, sc_run = ''r'',
        sc_metrics = fst (run_summarize (run_of demo_run) ''r'' (12 * Second)),
        sc_samples = snd (run_summarize (run_of demo_run) ''r'' (12 * Second))\<rparr>"
  from live_summary_fresh [OF c_def, of demo_run "''r''" "12 * Second + 5"]
  have "\<exists>t. t \<le> 12 * Second + 5 \<and> 12 * Second + 5 < t + Second
      \<and> fst (liveSummaryLocked (run_of (demo_run @ demo_run)) ''r'' (12 * Second + 5) c)
          = run_summarize (run_of (demo_run @ demo_run)) ''r'' t"
  proof (elim disjE)
    assume "fst (liveSummaryLocked (run_of (demo_run @ demo_run)) ''r'' (12 * Second + 5) c)
        = run_summarize (run_of (demo_run @ demo_run)) ''r'' (12 * Second + 5)"
    then show ?thesis by (intro exI [of _ "12 * Second + 5"]) simp
  qed (simp only: snapshotInterval_def)
  then show ?thesis by (simp only: Let_def c_def)
qed

end
