(* ===== verification/Topology.thy ===== *)
theory Topology
  imports FleetTypes
begin

text \<open>
  The topology projection of the Controller (\<open>internal/controller/topology.go\<close>): undirected edges between
  ready Peers, each with the nodes that report it. A Go map is an association list in the order of that
  run's iteration; \<open>agents\<close> is None where the caller passes nil.
\<close>

section \<open>The code\<close>

record peer_key =
  pk_runID :: gostring
  pk_peerID :: gostring

record edge_key =
  ek_source :: gostring
  ek_target :: gostring
  ek_protocol :: gostring
  ek_topic :: gostring

record edge =
  ed_Source :: gostring
  ed_Target :: gostring
  ed_Protocol :: gostring
  ed_Topic :: gostring
  ed_ReportedBy :: "gostring list"

definition fresh_node :: "(gostring, agent) gomap option \<Rightarrow> go_time \<Rightarrow> node \<Rightarrow> bool" where
  "fresh_node agents now n \<longleftrightarrow>
     \<not> (nd_PeerID n = [] \<or> nd_State n \<noteq> NodeReady)
     \<and> \<not> (agents \<noteq> None \<and> \<not> agentIsOnline (mget zero_agent (elems agents) (nd_AgentID n)) now)
     \<and> \<not> (\<not> IsZero (nd_LastSeen n) \<and> agentStaleAfter < time_Sub now (nd_LastSeen n))"

definition peer_key_of :: "node \<Rightarrow> peer_key" where
  "peer_key_of n = \<lparr>pk_runID = nd_RunID n, pk_peerID = nd_PeerID n\<rparr>"

text \<open>The first loop: the node behind each Peer identity, or the empty string when two nodes claim it.\<close>

record endpoints =
  ep_peerToNode :: "(peer_key, gostring) gomap"
  ep_ready :: "(gostring, bool) gomap"

definition add_endpoint :: "(gostring, agent) gomap option \<Rightarrow> go_time \<Rightarrow> endpoints \<Rightarrow> node \<Rightarrow> endpoints" where
  "add_endpoint agents now x n =
     (if \<not> fresh_node agents now n then x
      else x\<lparr>ep_peerToNode := AList.update (peer_key_of n)
               (if mhas (ep_peerToNode x) (peer_key_of n) then [] else nd_ID n) (ep_peerToNode x),
             ep_ready := AList.update (nd_ID n) True (ep_ready x)\<rparr>)"

definition endpoints_of :: "(gostring, agent) gomap option \<Rightarrow> go_time \<Rightarrow> node list \<Rightarrow> endpoints" where
  "endpoints_of agents now nodes = foldl (add_endpoint agents now) \<lparr>ep_peerToNode = [], ep_ready = []\<rparr> nodes"

type_synonym edge_reports = "(edge_key, gostring list) gomap"

definition add_report :: "endpoints \<Rightarrow> node \<Rightarrow> gostring \<Rightarrow> gostring \<Rightarrow> gostring \<Rightarrow> edge_reports \<Rightarrow> edge_reports" where
  "add_report x n peerID protocol topic reports =
     (if mget [] (ep_peerToNode x) (peer_key_of n) \<noteq> nd_ID n then reports
      else
        let target = mget [] (ep_peerToNode x) \<lparr>pk_runID = nd_RunID n, pk_peerID = peerID\<rparr>
        in if target = [] \<or> target = nd_ID n then reports
           else
             let (a, b) = (if target < nd_ID n then (target, nd_ID n) else (nd_ID n, target));
                 key = \<lparr>ek_source = a, ek_target = b, ek_protocol = protocol, ek_topic = topic\<rparr>
             in AList.update key (List.insert (nd_ID n) (mget [] reports key)) reports)"

definition mesh_step :: "endpoints \<Rightarrow> node \<Rightarrow> gostring \<times> gostring list \<Rightarrow> edge_reports \<Rightarrow> edge_reports" where
  "mesh_step x n tp r =
     (case tp of (topic, peers) \<Rightarrow> if topic = [] then r
        else fold (\<lambda>p. add_report x n p ''gossipsub'' topic) peers r)"

definition node_reports :: "endpoints \<Rightarrow> node \<Rightarrow> edge_reports \<Rightarrow> edge_reports" where
  "node_reports x n r0 =
     (if \<not> mget False (ep_ready x) (nd_ID n) then r0
      else
        let r1 = fold (\<lambda>p. add_report x n p ''transport'' []) (nd_ConnectedPeers n) r0
        in if IsZero (nd_OverlayObservedAt n) then r1
           else
             let r2 = fold (\<lambda>p. add_report x n p ''kademlia'' []) (nd_RoutingPeers n) r1
             in fold (mesh_step x n) (nd_MeshPeers n) r2)"

definition edge_less :: "edge \<Rightarrow> edge \<Rightarrow> bool" where
  "edge_less a b \<longleftrightarrow>
     (if ed_Source a \<noteq> ed_Source b then ed_Source a < ed_Source b
      else if ed_Target a \<noteq> ed_Target b then ed_Target a < ed_Target b
      else if ed_Protocol a \<noteq> ed_Protocol b then ed_Protocol a < ed_Protocol b
      else ed_Topic a < ed_Topic b)"

definition edge_of :: "edge_key \<times> gostring list \<Rightarrow> edge" where
  "edge_of kr = \<lparr>ed_Source = ek_source (fst kr), ed_Target = ek_target (fst kr), ed_Protocol = ek_protocol (fst kr),
     ed_Topic = ek_topic (fst kr), ed_ReportedBy = sort_Strings (snd kr)\<rparr>"

definition networkEdgesAt :: "node list \<Rightarrow> (gostring, agent) gomap option \<Rightarrow> go_time \<Rightarrow> edge list" where
  "networkEdgesAt nodes agents now =
     (let x = endpoints_of agents now nodes;
          reports = fold (node_reports x) nodes []
      in sort_Slice edge_less (map edge_of reports))"

definition networkEdges :: "node list \<Rightarrow> go_time \<Rightarrow> edge list" where
  "networkEdges nodes now = networkEdgesAt nodes None now"

section \<open>Endpoints\<close>

text \<open>A Peer identity is trusted when exactly one fresh node claims it.\<close>

definition claimants :: "(gostring, agent) gomap option \<Rightarrow> go_time \<Rightarrow> node list \<Rightarrow> peer_key \<Rightarrow> gostring list" where
  "claimants agents now nodes k = map nd_ID (filter (\<lambda>n. fresh_node agents now n \<and> peer_key_of n = k) nodes)"

lemma endpoints_spec:
  "map_of (ep_peerToNode (endpoints_of agents now nodes)) k =
     (case claimants agents now nodes k of [] \<Rightarrow> None | [i] \<Rightarrow> Some i | _ \<Rightarrow> Some [])
   \<and> map_of (ep_ready (endpoints_of agents now nodes)) i =
       (if \<exists>n \<in> set nodes. fresh_node agents now n \<and> nd_ID n = i then Some True else None)"
proof (induction nodes rule: rev_induct)
  case (snoc n nodes)
  have step: "endpoints_of agents now (nodes @ [n]) = add_endpoint agents now (endpoints_of agents now nodes) n"
    by (simp add: endpoints_of_def)
  have "claimants agents now (nodes @ [n]) k = claimants agents now nodes k
      @ (if fresh_node agents now n \<and> peer_key_of n = k then [nd_ID n] else [])"
    by (simp add: claimants_def)
  then show ?case
    using snoc unfolding step add_endpoint_def
    by (auto simp: mhas_def split: list.splits)
qed (simp add: endpoints_of_def claimants_def)

section \<open>Reports\<close>

text \<open>What a node says: the peers of one protocol and topic.\<close>

inductive says :: "node \<Rightarrow> gostring \<Rightarrow> gostring \<Rightarrow> gostring \<Rightarrow> bool" for n where
  transport: "p \<in> set (nd_ConnectedPeers n) \<Longrightarrow> says n p ''transport'' []"
| kademlia: "nd_OverlayObservedAt n \<noteq> 0 \<Longrightarrow> p \<in> set (nd_RoutingPeers n) \<Longrightarrow> says n p ''kademlia'' []"
| gossipsub: "nd_OverlayObservedAt n \<noteq> 0 \<Longrightarrow> (t, ps) \<in> set (nd_MeshPeers n) \<Longrightarrow> t \<noteq> [] \<Longrightarrow> p \<in> set ps \<Longrightarrow>
    says n p ''gossipsub'' t"

definition edge_between :: "gostring \<Rightarrow> gostring \<Rightarrow> gostring \<Rightarrow> gostring \<Rightarrow> edge_key" where
  "edge_between i j protocol topic =
     \<lparr>ek_source = min i j, ek_target = max i j, ek_protocol = protocol, ek_topic = topic\<rparr>"

text \<open>The statement counts: both identities are trusted and differ.\<close>

definition counts :: "endpoints \<Rightarrow> node \<Rightarrow> gostring \<Rightarrow> gostring \<Rightarrow> bool" where
  "counts x n p j \<longleftrightarrow> mget [] (ep_peerToNode x) (peer_key_of n) = nd_ID n
     \<and> mget [] (ep_peerToNode x) \<lparr>pk_runID = nd_RunID n, pk_peerID = p\<rparr> = j \<and> j \<noteq> [] \<and> j \<noteq> nd_ID n"

definition reporters :: "edge_reports \<Rightarrow> edge_key \<Rightarrow> gostring set" where
  "reporters r k = set (mget [] r k)"

definition reports_ok :: "edge_reports \<Rightarrow> bool" where
  "reports_ok r \<longleftrightarrow> wf_map r \<and> list_all (\<lambda>(k, is). is \<noteq> [] \<and> distinct is) r"

lemma reports_ok_update:
  assumes "reports_ok r" "is \<noteq> []" "distinct is" shows "reports_ok (AList.update k is r)"
proof -
  have "set (AList.update k is r) \<subseteq> insert (k, is) (set r)" by (induction r) auto
  then show ?thesis using assms by (fastforce simp: reports_ok_def list_all_iff)
qed

lemma insert_not_Nil [simp]: "List.insert x xs \<noteq> []"
  by (auto simp: List.insert_def)

lemma reports_ok_get: "reports_ok r \<Longrightarrow> distinct (mget [] r k)"
  by (auto simp: reports_ok_def mget_def list_all_iff split: option.split dest!: map_of_SomeD)

definition adds :: "endpoints \<Rightarrow> node \<Rightarrow> gostring \<Rightarrow> gostring \<Rightarrow> gostring \<Rightarrow> edge_key \<Rightarrow> gostring \<Rightarrow> bool" where
  "adds x n p protocol topic k i \<longleftrightarrow> i = nd_ID n \<and> (\<exists>j. counts x n p j \<and> k = edge_between (nd_ID n) j protocol topic)"

lemma add_report_alt:
  "add_report x n p protocol topic r =
     (let j = mget [] (ep_peerToNode x) \<lparr>pk_runID = nd_RunID n, pk_peerID = p\<rparr>; k = edge_between (nd_ID n) j protocol topic
      in if counts x n p j then AList.update k (List.insert (nd_ID n) (mget [] r k)) r else r)"
proof -
  have "(let (a, b) = (if j < i then (j, i) else (i, j))
      in \<lparr>ek_source = a, ek_target = b, ek_protocol = protocol, ek_topic = topic\<rparr>) = edge_between i j protocol topic" for i j
  proof (cases "j < i")
    case True
    then have "min i j = j" "max i j = i" by (intro min_absorb2 max_absorb1 less_imp_le; assumption)+
    then show ?thesis using True by (simp only: edge_between_def Let_def if_True prod.case)
  next
    case False
    then have "i \<le> j" by (simp only: not_less)
    then have "min i j = i" "max i j = j" by (rule min_absorb1, rule max_absorb2)
    then show ?thesis using False by (simp only: edge_between_def Let_def if_False prod.case)
  qed
  then show ?thesis by (simp add: add_report_def counts_def Let_def case_prod_beta)
qed

lemma add_report_spec:
  assumes "reports_ok r"
  shows "reports_ok (add_report x n p protocol topic r)"
    "i \<in> reporters (add_report x n p protocol topic r) k \<longleftrightarrow> i \<in> reporters r k \<or> adds x n p protocol topic k i"
proof -
  let ?j = "mget [] (ep_peerToNode x) \<lparr>pk_runID = nd_RunID n, pk_peerID = p\<rparr>"
  have only: "counts x n p j \<longleftrightarrow> j = ?j \<and> counts x n p ?j" for j by (auto simp: counts_def)
  have adds: "adds x n p protocol topic k i \<longleftrightarrow> counts x n p ?j \<and> i = nd_ID n \<and> k = edge_between (nd_ID n) ?j protocol topic"
    unfolding adds_def using only by metis
  show "reports_ok (add_report x n p protocol topic r)"
    using assms reports_ok_get [OF assms] by (simp add: add_report_alt Let_def reports_ok_update)
  show "i \<in> reporters (add_report x n p protocol topic r) k \<longleftrightarrow> i \<in> reporters r k \<or> adds x n p protocol topic k i"
    unfolding adds by (auto simp: add_report_alt Let_def reporters_def)
qed

lemma add_reports_spec:
  "reports_ok r \<Longrightarrow> reports_ok (fold (\<lambda>p. add_report x n p protocol topic) ps r)
    \<and> (i \<in> reporters (fold (\<lambda>p. add_report x n p protocol topic) ps r) k
        \<longleftrightarrow> i \<in> reporters r k \<or> (\<exists>p \<in> set ps. adds x n p protocol topic k i))"
proof (induction ps arbitrary: r)
  case (Cons p ps)
  note one = add_report_spec [OF Cons.prems, where x = x and n = n and p = p and protocol = protocol and topic = topic]
  have "(\<exists>q \<in> set (p # ps). adds x n q protocol topic k i)
      \<longleftrightarrow> adds x n p protocol topic k i \<or> (\<exists>q \<in> set ps. adds x n q protocol topic k i)" by simp
  then show ?case using Cons.IH [OF one(1)] one(2) [of i k] unfolding fold_simps by blast
qed simp

text \<open>Everything one node says, and then all of them.\<close>

lemma mesh_steps_spec:
  "reports_ok r \<Longrightarrow> reports_ok (fold (mesh_step x n) tps r)
    \<and> (i \<in> reporters (fold (mesh_step x n) tps r) k \<longleftrightarrow> i \<in> reporters r k
        \<or> (\<exists>t ps p. (t, ps) \<in> set tps \<and> t \<noteq> [] \<and> p \<in> set ps \<and> adds x n p ''gossipsub'' t k i))"
proof (induction tps arbitrary: r)
  case (Cons tp tps)
  obtain t ps where tp: "tp = (t, ps)" by fastforce
  have one: "reports_ok (mesh_step x n tp r) \<and> (i \<in> reporters (mesh_step x n tp r) k \<longleftrightarrow> i \<in> reporters r k
      \<or> t \<noteq> [] \<and> (\<exists>p \<in> set ps. adds x n p ''gossipsub'' t k i))"
  proof (cases "t = []")
    case False
    then show ?thesis
      using add_reports_spec [OF Cons.prems, where x = x and n = n and protocol = "''gossipsub''" and topic = t
        and ps = ps and i = i and k = k] by (simp add: mesh_step_def tp)
  qed (use Cons.prems in \<open>simp add: mesh_step_def tp\<close>)
  have "(\<exists>u qs p. (u, qs) \<in> set (tp # tps) \<and> u \<noteq> [] \<and> p \<in> set qs \<and> adds x n p ''gossipsub'' u k i)
      \<longleftrightarrow> t \<noteq> [] \<and> (\<exists>p \<in> set ps. adds x n p ''gossipsub'' t k i)
        \<or> (\<exists>u qs p. (u, qs) \<in> set tps \<and> u \<noteq> [] \<and> p \<in> set qs \<and> adds x n p ''gossipsub'' u k i)"
    unfolding tp by auto
  then show ?case using Cons.IH [OF one [THEN conjunct1]] one unfolding fold_simps by blast
qed simp

definition node_adds :: "endpoints \<Rightarrow> node \<Rightarrow> edge_key \<Rightarrow> gostring \<Rightarrow> bool" where
  "node_adds x n k i \<longleftrightarrow> (\<exists>p protocol topic. says n p protocol topic \<and> adds x n p protocol topic k i)"

lemma node_adds_iff:
  "node_adds x n k i \<longleftrightarrow> (\<exists>p \<in> set (nd_ConnectedPeers n). adds x n p ''transport'' [] k i)
     \<or> nd_OverlayObservedAt n \<noteq> 0 \<and> (\<exists>p \<in> set (nd_RoutingPeers n). adds x n p ''kademlia'' [] k i)
     \<or> nd_OverlayObservedAt n \<noteq> 0
         \<and> (\<exists>t ps p. (t, ps) \<in> set (nd_MeshPeers n) \<and> t \<noteq> [] \<and> p \<in> set ps \<and> adds x n p ''gossipsub'' t k i)"
  (is "_ \<longleftrightarrow> ?rhs")
proof
  assume "node_adds x n k i"
  then obtain p protocol topic where "says n p protocol topic" "adds x n p protocol topic k i"
    unfolding node_adds_def by blast
  then show ?rhs by cases blast+
next
  assume ?rhs
  then show "node_adds x n k i"
    unfolding node_adds_def
    by (elim disjE conjE bexE exE) (intro exI conjI, rule says.intros, assumption+)+
qed

lemma node_reports_spec:
  assumes "reports_ok r" "mget False (ep_ready x) (nd_ID n)"
  shows "reports_ok (node_reports x n r)
    \<and> (i \<in> reporters (node_reports x n r) k \<longleftrightarrow> i \<in> reporters r k \<or> node_adds x n k i)"
proof -
  define r1 where "r1 = fold (\<lambda>p. add_report x n p ''transport'' []) (nd_ConnectedPeers n) r"
  define r2 where "r2 = fold (\<lambda>p. add_report x n p ''kademlia'' []) (nd_RoutingPeers n) r1"
  note s1 = add_reports_spec [OF assms(1), where x = x and n = n and protocol = "''transport''" and topic = "[]"
      and ps = "nd_ConnectedPeers n" and i = i and k = k, folded r1_def]
  note s2 = add_reports_spec [OF s1 [THEN conjunct1], where x = x and n = n and protocol = "''kademlia''" and topic = "[]"
      and ps = "nd_RoutingPeers n" and i = i and k = k, folded r2_def]
  note s3 = mesh_steps_spec [OF s2 [THEN conjunct1], where x = x and n = n and tps = "nd_MeshPeers n" and i = i and k = k]
  have result: "node_reports x n r = (if nd_OverlayObservedAt n = 0 then r1 else fold (mesh_step x n) (nd_MeshPeers n) r2)"
    using assms(2) by (simp add: node_reports_def Let_def r1_def r2_def)
  show ?thesis
  proof (cases "nd_OverlayObservedAt n = 0")
    case True
    then have "node_adds x n k i \<longleftrightarrow> (\<exists>p \<in> set (nd_ConnectedPeers n). adds x n p ''transport'' [] k i)"
      by (simp add: node_adds_iff)
    moreover have "node_reports x n r = r1" using result True by simp
    ultimately show ?thesis using s1 by (simp only:)
  next
    case False
    then have "node_adds x n k i \<longleftrightarrow> (\<exists>p \<in> set (nd_ConnectedPeers n). adds x n p ''transport'' [] k i)
        \<or> (\<exists>p \<in> set (nd_RoutingPeers n). adds x n p ''kademlia'' [] k i)
        \<or> (\<exists>t ps p. (t, ps) \<in> set (nd_MeshPeers n) \<and> t \<noteq> [] \<and> p \<in> set ps \<and> adds x n p ''gossipsub'' t k i)"
      by (simp add: node_adds_iff)
    moreover have "node_reports x n r = fold (mesh_step x n) (nd_MeshPeers n) r2" using result False by simp
    ultimately show ?thesis using s1 s2 s3 by (simp only: disj_assoc simp_thms)
  qed
qed

lemma nodes_reports_spec:
  "\<forall>n \<in> set nodes. (\<exists>p j. counts x n p j) \<longrightarrow> mget False (ep_ready x) (nd_ID n) \<Longrightarrow> reports_ok r \<Longrightarrow>
   reports_ok (fold (node_reports x) nodes r)
    \<and> (i \<in> reporters (fold (node_reports x) nodes r) k \<longleftrightarrow> i \<in> reporters r k \<or> (\<exists>n \<in> set nodes. node_adds x n k i))"
proof (induction nodes arbitrary: r)
  case (Cons n nodes)
  have one: "reports_ok (node_reports x n r)
    \<and> (i \<in> reporters (node_reports x n r) k \<longleftrightarrow> i \<in> reporters r k \<or> node_adds x n k i)"
  proof (cases "mget False (ep_ready x) (nd_ID n)")
    case True
    then show ?thesis by (rule node_reports_spec [OF Cons.prems(2)])
  next
    case False
    then have "\<not> counts x n p j" for p j using Cons.prems(1) by auto
    then have "\<not> node_adds x n k i" by (simp add: node_adds_def adds_def)
    then show ?thesis using False Cons.prems(2) by (simp add: node_reports_def)
  qed
  have "\<forall>n \<in> set nodes. (\<exists>p j. counts x n p j) \<longrightarrow> mget False (ep_ready x) (nd_ID n)"
    using Cons.prems(1) by simp
  moreover have "(\<exists>m \<in> set (n # nodes). node_adds x m k i) \<longleftrightarrow> node_adds x n k i \<or> (\<exists>m \<in> set nodes. node_adds x m k i)"
    by simp
  ultimately show ?case using Cons.IH [OF _ one [THEN conjunct1]] one unfolding fold_simps by blast
qed simp

section \<open>The specification\<close>

text \<open>Node \<open>n\<close> is the only fresh node with its Peer identity, and so is node \<open>j\<close> with the identity it names.\<close>

definition trusted :: "(gostring, agent) gomap option \<Rightarrow> go_time \<Rightarrow> node list \<Rightarrow> node \<Rightarrow> gostring \<Rightarrow> gostring \<Rightarrow> bool" where
  "trusted agents now nodes n p j \<longleftrightarrow>
     claimants agents now nodes (peer_key_of n) = [nd_ID n]
     \<and> claimants agents now nodes \<lparr>pk_runID = nd_RunID n, pk_peerID = p\<rparr> = [j] \<and> j \<noteq> nd_ID n"

definition reported_by :: "(gostring, agent) gomap option \<Rightarrow> go_time \<Rightarrow> node list \<Rightarrow> edge_key \<Rightarrow> gostring set" where
  "reported_by agents now nodes k =
     {nd_ID n |n. n \<in> set nodes \<and> (\<exists>p j protocol topic. says n p protocol topic \<and> trusted agents now nodes n p j
        \<and> k = edge_between (nd_ID n) j protocol topic)}"

lemma counts_trusted:
  assumes "\<forall>n \<in> set nodes. nd_ID n \<noteq> []" "n \<in> set nodes"
  shows "counts (endpoints_of agents now nodes) n p j \<longleftrightarrow> trusted agents now nodes n p j"
proof -
  let ?x = "endpoints_of agents now nodes"
  have ids: "i \<noteq> []" if "i \<in> set (claimants agents now nodes k)" for i k
    using that assms(1) by (auto simp: claimants_def)
  have get: "mget [] (ep_peerToNode ?x) k = i \<longleftrightarrow> claimants agents now nodes k = [i]" if "i \<noteq> []" for k i
    using endpoints_spec [of agents now nodes k i] that by (auto simp: mget_def split: list.splits)
  show ?thesis
  proof (cases "j = []")
    case True
    then have "claimants agents now nodes \<lparr>pk_runID = nd_RunID n, pk_peerID = p\<rparr> \<noteq> [j]"
      using ids [of j "\<lparr>pk_runID = nd_RunID n, pk_peerID = p\<rparr>"] by auto
    then show ?thesis using True by (simp add: counts_def trusted_def)
  next
    case False
    then show ?thesis using get assms by (simp add: counts_def trusted_def)
  qed
qed

lemma trusted_ready:
  assumes "trusted agents now nodes n p j"
  shows "mget False (ep_ready (endpoints_of agents now nodes)) (nd_ID n)"
proof -
  have "nd_ID n \<in> set (claimants agents now nodes (peer_key_of n))" using assms by (simp add: trusted_def)
  then obtain m where "m \<in> set nodes" "fresh_node agents now m" "nd_ID m = nd_ID n"
    by (auto simp: claimants_def)
  then show ?thesis using endpoints_spec [of agents now nodes k "nd_ID n" for k] by (auto simp: mget_def)
qed

definition edge_key_of :: "edge \<Rightarrow> edge_key" where
  "edge_key_of e = \<lparr>ek_source = ed_Source e, ek_target = ed_Target e, ek_protocol = ed_Protocol e, ek_topic = ed_Topic e\<rparr>"

interpretation edge_order: slice_order edge_less edge_key_of "\<lambda>_. True"
proof unfold_locales
  show "edge_less a b \<Longrightarrow> edge_less b c \<Longrightarrow> edge_less a c" for a b c
    unfolding edge_less_def by (auto split: if_splits)
  show "edge_key_of a \<noteq> edge_key_of b \<Longrightarrow> edge_less a b \<or> edge_less b a" for a b
    unfolding edge_less_def edge_key_of_def by auto
qed (auto simp: edge_less_def edge_key_of_def)

lemma edge_of_key: "edge_key_of (edge_of kr) = fst kr"
  by (simp add: edge_key_of_def edge_of_def)

lemma sorted_ids: "distinct is \<Longrightarrow> sort_Strings is = sorted_list_of_set (set is)"
  by (rule sorted_distinct_set_unique) (simp_all add: sorted_sort_Strings)

text \<open>C27: The topology is exactly what the live reports say. The edges come out in order, one for each
  unordered pair of nodes, protocol and topic that some node reports: the reporter is the only fresh ready
  node with its Peer identity, the Peer it names is the identity of exactly one other fresh ready node of the
  same run, and the edge lists precisely the nodes that report it, in order. Stale, unready or ambiguous
  Peers contribute nothing, and overlay protocols count only from Peers that report them.\<close>

theorem network_edges_exact:
  assumes "\<forall>n \<in> set nodes. nd_ID n \<noteq> []"
  shows "sorted_wrt edge_less (networkEdgesAt nodes agents now)
    \<and> set (networkEdgesAt nodes agents now) =
        {\<lparr>ed_Source = ek_source k, ed_Target = ek_target k, ed_Protocol = ek_protocol k, ed_Topic = ek_topic k,
          ed_ReportedBy = sorted_list_of_set (reported_by agents now nodes k)\<rparr> |k. reported_by agents now nodes k \<noteq> {}}"
proof -
  let ?x = "endpoints_of agents now nodes"
  define r where "r = fold (node_reports ?x) nodes []"
  have ready: "\<forall>n \<in> set nodes. (\<exists>p j. counts ?x n p j) \<longrightarrow> mget False (ep_ready ?x) (nd_ID n)"
    using counts_trusted [OF assms] trusted_ready by blast
  have "reports_ok []" by (simp add: reports_ok_def)
  note all = nodes_reports_spec [OF ready this, folded r_def]
  have ok: "reports_ok r" using all by blast
  have set: "set (mget [] r k) = reported_by agents now nodes k" for k
  proof -
    have "i \<in> set (mget [] r k) \<longleftrightarrow> (\<exists>n \<in> set nodes. node_adds ?x n k i)" for i
      using all [of i k] by (simp add: reporters_def mget_def)
    also have "(\<exists>n \<in> set nodes. node_adds ?x n k i) \<longleftrightarrow> i \<in> reported_by agents now nodes k" for i
      unfolding node_adds_def adds_def reported_by_def mem_Collect_eq
      using counts_trusted [OF assms] by blast
    finally show ?thesis by blast
  qed
  have entry: "(k, is) \<in> set r \<longleftrightarrow> map_of r k = Some is" for k "is"
    using ok map_of_SomeI_wf map_of_SomeD by (fastforce simp: reports_ok_def)
  have key: "(\<exists>is. map_of r k = Some is) \<longleftrightarrow> reported_by agents now nodes k \<noteq> {}" for k
  proof (cases "map_of r k")
    case None
    then show ?thesis using set [of k] by (simp add: mget_def)
  next
    case (Some "is")
    then have "is \<noteq> []" using ok entry [of k "is"] by (auto simp: reports_ok_def list_all_iff)
    then show ?thesis using set [of k] Some by (auto simp: mget_def)
  qed
  have edge: "edge_of (k, is) = \<lparr>ed_Source = ek_source k, ed_Target = ek_target k, ed_Protocol = ek_protocol k,
      ed_Topic = ek_topic k, ed_ReportedBy = sorted_list_of_set (reported_by agents now nodes k)\<rparr>"
    if "map_of r k = Some is" for k "is"
    using set [of k] reports_ok_get [OF ok, of k] that sorted_ids [of "is"] by (simp add: edge_of_def mget_def)
  have "distinct (map edge_key_of (map edge_of r))"
    using ok by (simp add: reports_ok_def edge_of_key comp_def)
  then have sorted: "sorted_wrt edge_less (networkEdgesAt nodes agents now)"
    unfolding networkEdgesAt_def Let_def r_def [symmetric] by (intro edge_order.sort_Slice_strict) simp_all
  have "set (networkEdgesAt nodes agents now) = {edge_of (k, is) |k is. map_of r k = Some is}"
    unfolding networkEdgesAt_def Let_def r_def [symmetric] using entry by force
  also have "\<dots> = {\<lparr>ed_Source = ek_source k, ed_Target = ek_target k, ed_Protocol = ek_protocol k, ed_Topic = ek_topic k,
          ed_ReportedBy = sorted_list_of_set (reported_by agents now nodes k)\<rparr> |k. \<exists>is. map_of r k = Some is}"
    by (rule Collect_cong) (metis edge)
  finally have "set (networkEdgesAt nodes agents now) = {\<lparr>ed_Source = ek_source k, ed_Target = ek_target k,
          ed_Protocol = ek_protocol k, ed_Topic = ek_topic k,
          ed_ReportedBy = sorted_list_of_set (reported_by agents now nodes k)\<rparr> |k. reported_by agents now nodes k \<noteq> {}}"
    unfolding key .
  then show ?thesis using sorted by blast
qed

definition demo_node :: "gostring \<Rightarrow> gostring list \<Rightarrow> node" where
  "demo_node i peers = zero_node\<lparr>nd_ID := i, nd_RunID := ''r'', nd_PeerID := ''P'' @ i, nd_State := NodeReady,
     nd_ConnectedPeers := peers\<rparr>"

definition demo_nodes :: "node list" where
  "demo_nodes = [demo_node ''b'' [''Pa''], demo_node ''a'' [''Pb'', ''Pc'', ''Pa''], demo_node ''c'' []]"

lemma demo_edges:
  "networkEdgesAt demo_nodes None 5
     = [\<lparr>ed_Source = ''a'', ed_Target = ''b'', ed_Protocol = ''transport'', ed_Topic = [], ed_ReportedBy = [''a'', ''b'']\<rparr>,
        \<lparr>ed_Source = ''a'', ed_Target = ''c'', ed_Protocol = ''transport'', ed_Topic = [], ed_ReportedBy = [''a'']\<rparr>]"
  by code_simp

theorem network_edges_exact_witness:
  "\<exists>k. reported_by None 5 demo_nodes k \<noteq> {} \<and> ek_source k = ''a'' \<and> ek_target k = ''c''"
proof -
  have "\<forall>n \<in> set demo_nodes. nd_ID n \<noteq> []" by (simp add: demo_nodes_def demo_node_def)
  note edges = network_edges_exact [OF this, of None 5, THEN conjunct2]
  let ?e = "\<lparr>ed_Source = ''a'', ed_Target = ''c'', ed_Protocol = ''transport'', ed_Topic = [], ed_ReportedBy = [''a'']\<rparr>"
  have "?e \<in> set (networkEdgesAt demo_nodes None 5)"
    unfolding demo_edges list.set by (rule insertI2, rule insertI1)
  then obtain k where k: "?e = \<lparr>ed_Source = ek_source k, ed_Target = ek_target k, ed_Protocol = ek_protocol k,
      ed_Topic = ek_topic k, ed_ReportedBy = sorted_list_of_set (reported_by None 5 demo_nodes k)\<rparr>"
    and r: "reported_by None 5 demo_nodes k \<noteq> {}"
    unfolding edges by blast
  from arg_cong [OF k, of ed_Source] arg_cong [OF k, of ed_Target] r show ?thesis
    by (intro exI [of _ k]) (simp only: edge.select_convs simp_thms)
qed

end
