(* ===== verification/TelemetrySpool.thy ===== *)
theory TelemetrySpool
  imports GoPrelude
begin

text \<open>
  The Agent's durable telemetry spool (\<open>internal/agent/telemetry_spool.go\<close>): one segment file per
  accepted batch, an acknowledgement file that holds how much of a segment the Controller has taken,
  and an index in memory from the key of an event to its places.

  An event is of any type; \<open>key\<close> is its \<open>telemetryKey\<close> (the SHA-256 of its JSON text). A file is
  given by what it decodes to: None is a segment that \<open>open\<close> refuses (undecodable, too large, not a
  regular file) or an acknowledgement that is no number. A segment object is known by its file name,
  which \<open>append\<close> draws fresh. The file operations may fail at any point; \<open>outcome\<close> says how a
  \<open>writeTelemetryFile\<close> ended: before the rename, after it, or well. A crash leaves the disk as the
  failure of the next operation leaves it.
\<close>

section \<open>State\<close>

type_synonym telemetry_ref = "gostring \<times> nat"

record telemetry_segment =
  sg_keys :: "gostring list"
  sg_ack :: nat

record telemetry_spool =
  sp_segments :: "(gostring, telemetry_segment) gomap"
  sp_refs :: "(gostring, telemetry_ref list) gomap"

record 'e spool_disk =
  dk_files :: "(gostring, 'e list option) gomap"
  dk_acks :: "(gostring, int option) gomap"

datatype outcome = NotWritten | Unsynced | Written

datatype spool_error = UnreadableSegment gostring | UnreadableAck gostring | InvalidAck gostring
  | AppendFailed | OutOfOrderAck gostring | AckWriteFailed gostring | RemoveFailed gostring | SyncFailed gostring

definition empty_spool :: telemetry_spool where
  "empty_spool = \<lparr>sp_segments = [], sp_refs = []\<rparr>"

definition zero_segment :: telemetry_segment where
  "zero_segment = \<lparr>sg_keys = [], sg_ack = 0\<rparr>"

abbreviation segment :: "telemetry_spool \<Rightarrow> gostring \<Rightarrow> telemetry_segment" where
  "segment sp n \<equiv> mget zero_segment (sp_segments sp) n"

abbreviation refs :: "telemetry_spool \<Rightarrow> gostring \<Rightarrow> telemetry_ref list" where
  "refs sp k \<equiv> mget [] (sp_refs sp) k"

section \<open>Operations\<close>

text \<open>The references of the events of one segment from index \<open>from\<close> on.\<close>

fun add_refs :: "gostring \<Rightarrow> nat \<Rightarrow> nat \<Rightarrow> gostring list \<Rightarrow> (gostring, telemetry_ref list) gomap
    \<Rightarrow> (gostring, telemetry_ref list) gomap" where
  "add_refs name from i [] m = m"
| "add_refs name from i (k # ks) m =
     add_refs name from (Suc i) ks
       (if from \<le> i then AList.update k (mget [] m k @ [(name, i)]) m else m)"

definition add_segment :: "gostring \<Rightarrow> gostring list \<Rightarrow> nat \<Rightarrow> telemetry_spool \<Rightarrow> telemetry_spool" where
  "add_segment name ks ack sp =
     \<lparr>sp_segments = AList.update name \<lparr>sg_keys = ks, sg_ack = ack\<rparr> (sp_segments sp),
      sp_refs = add_refs name ack 0 ks (sp_refs sp)\<rparr>"

definition read_ack :: "(gostring, int option) gomap \<Rightarrow> gostring \<Rightarrow> int option" where
  "read_ack acks name = (case map_of acks name of None \<Rightarrow> Some 0 | Some a \<Rightarrow> a)"

fun load_segments :: "('e \<Rightarrow> gostring) \<Rightarrow> (gostring, int option) gomap \<Rightarrow> (gostring \<times> 'e list option) list
    \<Rightarrow> telemetry_spool \<Rightarrow> 'e list \<Rightarrow> spool_error + (telemetry_spool \<times> 'e list)" where
  "load_segments key acks [] sp events = Inr (sp, events)"
| "load_segments key acks ((name, doc) # files) sp events =
     (case doc of None \<Rightarrow> Inl (UnreadableSegment name)
      | Some batch \<Rightarrow>
        (case read_ack acks name of None \<Rightarrow> Inl (UnreadableAck name)
         | Some ack \<Rightarrow>
             if ack < 0 \<or> int (length batch) < ack then Inl (InvalidAck name)
             else load_segments key acks files (add_segment name (map key batch) (nat ack) sp)
                    (events @ drop (nat ack) batch)))"

text \<open>\<open>os.ReadDir\<close> lists a directory in the order of the names.\<close>

definition directory :: "'e spool_disk \<Rightarrow> (gostring \<times> 'e list option) list" where
  "directory dk = map (\<lambda>n. (n, the (map_of (dk_files dk) n))) (sort_Strings (map fst (dk_files dk)))"

definition openTelemetrySpool :: "('e \<Rightarrow> gostring) \<Rightarrow> 'e spool_disk
    \<Rightarrow> spool_error + (telemetry_spool \<times> 'e list)" where
  "openTelemetrySpool key dk = load_segments key (dk_acks dk) (directory dk) empty_spool []"

definition spool_append :: "('e \<Rightarrow> gostring) \<Rightarrow> gostring \<Rightarrow> outcome \<Rightarrow> 'e list
    \<Rightarrow> telemetry_spool \<times> 'e spool_disk \<Rightarrow> (telemetry_spool \<times> 'e spool_disk) \<times> spool_error option" where
  "spool_append key name io events st =
     (case st of (sp, dk) \<Rightarrow>
        if events = [] then (st, None)
        else case io of
            NotWritten \<Rightarrow> (st, Some AppendFailed)
          | Unsynced \<Rightarrow> ((sp, dk\<lparr>dk_files := AList.update name (Some events) (dk_files dk)\<rparr>), Some AppendFailed)
          | Written \<Rightarrow> ((add_segment name (map key events) 0 sp,
                        dk\<lparr>dk_files := AList.update name (Some events) (dk_files dk)\<rparr>), None))"

text \<open>The places an acknowledgement takes: the \<open>n\<close>-th event of a key takes the \<open>n\<close>-th reference.\<close>

fun select_refs :: "('e \<Rightarrow> gostring) \<Rightarrow> telemetry_spool \<Rightarrow> (gostring, nat) gomap \<Rightarrow> 'e list
    \<Rightarrow> telemetry_ref list" where
  "select_refs key sp used [] = []"
| "select_refs key sp used (e # es) =
     (let k = key e; n = mget 0 used k
      in if n < length (refs sp k)
         then refs sp k ! n # select_refs key sp (AList.update k (Suc n) used) es
         else select_refs key sp used es)"

fun group_refs :: "telemetry_ref list \<Rightarrow> (gostring, nat list) gomap \<Rightarrow> (gostring, nat list) gomap" where
  "group_refs [] m = m"
| "group_refs ((s, i) # rs) m = group_refs rs (AList.update s (mget [] m s @ [i]) m)"

fun contiguous :: "nat \<Rightarrow> nat list \<Rightarrow> nat option" where
  "contiguous next [] = Some next"
| "contiguous next (i # rest) = (if i \<noteq> next then None else contiguous (Suc next) rest)"

definition drop_ref :: "gostring \<Rightarrow> gostring list \<Rightarrow> nat \<Rightarrow> (gostring, telemetry_ref list) gomap
    \<Rightarrow> (gostring, telemetry_ref list) gomap" where
  "drop_ref name ks i m =
     (let k = ks ! i; rs = remove1 (name, i) (mget [] m k)
      in if rs = [] then AList.delete k m else AList.update k rs m)"

record ack_io =
  io_write :: outcome
  io_remove :: bool
  io_sync :: bool
  io_removeAck :: bool

definition advance_segment :: "gostring \<Rightarrow> nat \<Rightarrow> telemetry_spool \<Rightarrow> telemetry_spool" where
  "advance_segment name next sp =
     (let seg = segment sp name
      in \<lparr>sp_segments = AList.update name (seg\<lparr>sg_ack := next\<rparr>) (sp_segments sp),
          sp_refs = fold (drop_ref name (sg_keys seg)) [sg_ack seg ..< next] (sp_refs sp)\<rparr>)"

definition remove_segment :: "ack_io \<Rightarrow> gostring \<Rightarrow> 'e spool_disk \<Rightarrow> 'e spool_disk \<times> spool_error option" where
  "remove_segment io name dk =
     (if \<not> io_remove io then (dk, Some (RemoveFailed name))
      else let dk1 = dk\<lparr>dk_files := AList.delete name (dk_files dk)\<rparr>
           in if \<not> io_sync io then (dk1, Some (SyncFailed name))
              else (if io_removeAck io then dk1\<lparr>dk_acks := AList.delete name (dk_acks dk1)\<rparr> else dk1, None))"

definition write_ack :: "gostring \<Rightarrow> nat \<Rightarrow> 'e spool_disk \<Rightarrow> 'e spool_disk" where
  "write_ack name next dk = dk\<lparr>dk_acks := AList.update name (Some (int next)) (dk_acks dk)\<rparr>"

definition ack_segment :: "ack_io \<Rightarrow> gostring \<Rightarrow> nat list \<Rightarrow> telemetry_spool \<times> 'e spool_disk
    \<Rightarrow> (telemetry_spool \<times> 'e spool_disk) \<times> spool_error option" where
  "ack_segment io name indices st =
     (case st of (sp, dk) \<Rightarrow>
       (case contiguous (sg_ack (segment sp name)) (sort indices) of
          None \<Rightarrow> (st, Some (OutOfOrderAck name))
        | Some next \<Rightarrow>
          (case io_write io of
             NotWritten \<Rightarrow> (st, Some (AckWriteFailed name))
           | Unsynced \<Rightarrow> ((sp, write_ack name next dk), Some (AckWriteFailed name))
           | Written \<Rightarrow>
               let sp1 = advance_segment name next sp; dk1 = write_ack name next dk
               in if next = length (sg_keys (segment sp name))
                  then (case remove_segment io name dk1 of (dk2, e) \<Rightarrow> ((sp1, dk2), e))
                  else ((sp1, dk1), None))))"

fun ack_segments :: "(gostring \<Rightarrow> ack_io) \<Rightarrow> (gostring \<times> nat list) list \<Rightarrow> telemetry_spool \<times> 'e spool_disk
    \<Rightarrow> (telemetry_spool \<times> 'e spool_disk) \<times> spool_error option" where
  "ack_segments io [] st = (st, None)"
| "ack_segments io ((name, indices) # others) st =
     (case ack_segment (io name) name indices st of
        (st', Some e) \<Rightarrow> (st', Some e)
      | (st', None) \<Rightarrow> ack_segments io others st')"

text \<open>\<open>order\<close> is the iteration order of the map \<open>selected\<close> in that run.\<close>

definition acknowledge :: "('e \<Rightarrow> gostring) \<Rightarrow> (gostring \<Rightarrow> ack_io)
    \<Rightarrow> ((gostring, nat list) gomap \<Rightarrow> (gostring, nat list) gomap) \<Rightarrow> 'e list
    \<Rightarrow> telemetry_spool \<times> 'e spool_disk \<Rightarrow> (telemetry_spool \<times> 'e spool_disk) \<times> spool_error option" where
  "acknowledge key io order events st =
     ack_segments io (order (group_refs (select_refs key (fst st) [] events) [])) st"

end
