(* ===== verification/TelemetrySpoolProofs.thy ===== *)
theory TelemetrySpoolProofs
  imports TelemetrySpool "HOL-Library.Sublist"
begin

text \<open>
  What the spool keeps: which events \<open>open\<close> brings back from a disk (\<open>recoverable\<close>), and that no
  operation, failed or not, loses more of them than the Controller has taken.
\<close>

declare map_of_eq_Some_iff [simp del]

section \<open>The disk\<close>

definition pending :: "'e spool_disk \<Rightarrow> gostring \<Rightarrow> 'e list" where
  "pending dk n = (case map_of (dk_files dk) n of
     Some (Some b) \<Rightarrow> drop (nat (the (read_ack (dk_acks dk) n))) b | _ \<Rightarrow> [])"

abbreviation file_names :: "'e spool_disk \<Rightarrow> gostring set" where
  "file_names dk \<equiv> set (map fst (dk_files dk))"

definition recoverable :: "('e \<Rightarrow> gostring) \<Rightarrow> 'e spool_disk \<Rightarrow> gostring multiset" where
  "recoverable key dk = (\<Sum>n \<in> file_names dk. mset (map key (pending dk n)))"

definition ack_ok :: "'e spool_disk \<Rightarrow> gostring \<Rightarrow> 'e list \<Rightarrow> bool" where
  "ack_ok dk n b \<longleftrightarrow> (\<exists>a. read_ack (dk_acks dk) n = Some a \<and> 0 \<le> a \<and> a \<le> int (length b))"

definition disk_ok :: "'e spool_disk \<Rightarrow> bool" where
  "disk_ok dk \<longleftrightarrow> wf_map (dk_files dk) \<and>
     (\<forall>n doc. map_of (dk_files dk) n = Some doc \<longrightarrow> (\<exists>b. doc = Some b \<and> ack_ok dk n b))"

lemma pending_absent [simp]: "n \<notin> file_names dk \<Longrightarrow> pending dk n = []"
  by (auto simp: pending_def map_of_eq_None_iff [symmetric] split: option.split)

lemma recoverable_split:
  "recoverable key dk = mset (map key (pending dk n))
     + (\<Sum>m \<in> file_names dk - {n}. mset (map key (pending dk m)))"
  by (cases "n \<in> file_names dk") (simp_all add: recoverable_def sum.remove)

lemma sum_distinct:
  "distinct ns \<Longrightarrow> mset (map key (concat (map f ns))) = (\<Sum>n \<in> set ns. mset (map key (f n)))"
  by (induction ns) simp_all

lemma map_of_directory:
  "(n, doc) \<in> set (directory dk) \<Longrightarrow> map_of (dk_files dk) n = Some doc"
  by (auto simp: directory_def map_of_eq_None_iff image_iff
        split: option.splits)

lemma load_segments_ok:
  assumes "\<forall>(n, doc) \<in> set files. \<exists>b. doc = Some b \<and> ack_ok dk n b"
  shows "\<exists>sp'. load_segments key (dk_acks dk) files sp es
     = Inr (sp', es @ concat (map (\<lambda>(n, doc). drop (nat (the (read_ack (dk_acks dk) n))) (the doc)) files))"
  using assms
  by (induction key "dk_acks dk" files sp es rule: load_segments.induct) (auto simp: ack_ok_def)


lemma pending_load:
  "map_of (dk_files dk) n = Some (Some b) \<Longrightarrow> drop (nat (the (read_ack (dk_acks dk) n))) b = pending dk n"
  by (simp add: pending_def)

lemma open_ok:
  assumes "disk_ok dk"
  shows "\<exists>sp. openTelemetrySpool key dk
      = Inr (sp, concat (map (pending dk) (sort_Strings (map fst (dk_files dk)))))"
proof -
  have all: "\<forall>(n, doc) \<in> set (directory dk). \<exists>b. doc = Some b \<and> ack_ok dk n b"
    using assms by (auto simp: disk_ok_def dest!: map_of_directory)
  have "map (\<lambda>(n, doc). drop (nat (the (read_ack (dk_acks dk) n))) (the doc)) (directory dk)
      = map (\<lambda>(n, doc). pending dk n) (directory dk)"
  proof (rule map_cong [OF refl])
    fix nd assume nd: "nd \<in> set (directory dk)"
    obtain n doc where [simp]: "nd = (n, doc)" by fastforce
    obtain b where "doc = Some b" using all nd by auto
    then show "(case nd of (n, doc) \<Rightarrow> drop (nat (the (read_ack (dk_acks dk) n))) (the doc))
        = (case nd of (n, doc) \<Rightarrow> pending dk n)"
      using map_of_directory nd by (fastforce simp: pending_load)
  qed
  also have "\<dots> = map (pending dk) (sort_Strings (map fst (dk_files dk)))"
    by (simp add: directory_def comp_def)
  finally show ?thesis
    using load_segments_ok [OF all, of key empty_spool "[]"] by (auto simp: openTelemetrySpool_def)
qed

lemma open_recovers:
  assumes "disk_ok dk"
  obtains sp es where "openTelemetrySpool key dk = Inr (sp, es)" "mset (map key es) = recoverable key dk"
proof -
  have "distinct (sort_Strings (map fst (dk_files dk)))" using assms by (simp add: disk_ok_def)
  from sum_distinct [OF this] open_ok [OF assms, of key] show ?thesis
    using that by (auto simp: recoverable_def)
qed

section \<open>The spool and its disk\<close>

definition keyof :: "telemetry_spool \<Rightarrow> telemetry_ref \<Rightarrow> gostring" where
  "keyof sp r = sg_keys (segment sp (fst r)) ! snd r"

definition valid_ref :: "telemetry_spool \<Rightarrow> telemetry_ref \<Rightarrow> bool" where
  "valid_ref sp r \<longleftrightarrow> mhas (sp_segments sp) (fst r) \<and> sg_ack (segment sp (fst r)) \<le> snd r
     \<and> snd r < length (sg_keys (segment sp (fst r)))"

definition stored :: "('e \<Rightarrow> gostring) \<Rightarrow> telemetry_spool \<Rightarrow> 'e spool_disk \<Rightarrow> gostring \<Rightarrow> bool" where
  "stored key sp dk n \<longleftrightarrow> (let seg = segment sp n in sg_ack seg < length (sg_keys seg) \<longrightarrow>
     (\<exists>b a. map_of (dk_files dk) n = Some (Some b) \<and> sg_keys seg = map key b
        \<and> read_ack (dk_acks dk) n = Some a \<and> int (sg_ack seg) \<le> a))"

definition refs_ok :: "telemetry_spool \<Rightarrow> bool" where
  "refs_ok sp \<longleftrightarrow> (\<forall>k. distinct (refs sp k) \<and> (\<forall>r \<in> set (refs sp k). valid_ref sp r \<and> keyof sp r = k))"

definition spool_ok :: "('e \<Rightarrow> gostring) \<Rightarrow> telemetry_spool \<Rightarrow> 'e spool_disk \<Rightarrow> bool" where
  "spool_ok key sp dk \<longleftrightarrow> disk_ok dk \<and> refs_ok sp \<and> (\<forall>n. stored key sp dk n)"

lemma contiguous_Some: "contiguous a xs = Some b \<longleftrightarrow> a \<le> b \<and> xs = [a ..< b]"
proof (induction a xs rule: contiguous.induct)
  case (1 a)
  have "[] = [a ..< b] \<longleftrightarrow> b = 0 \<or> b \<le> a" by (subst eq_commute) (rule upt_eq_Nil_conv)
  then show ?case by auto
next
  case (2 a i xs)
  have "i # xs = [a ..< b] \<longleftrightarrow> a < b \<and> i = a \<and> xs = [Suc a ..< b]"
    by (subst eq_commute) (auto simp: upt_eq_Cons_conv)
  with 2 show ?case by auto
qed

lemma contiguous_sorted:
  assumes "contiguous a (sort xs) = Some b" shows "a \<le> b" and "mset xs = mset [a ..< b]"
  using assms by (auto simp: contiguous_Some dest: arg_cong [where f = mset])

lemma drop_ref_get:
  "distinct (mget [] m k) \<Longrightarrow> mget [] (drop_ref n ks i m) k
     = (if ks ! i = k then filter (\<lambda>r. r \<noteq> (n, i)) (mget [] m k) else mget [] m k)"
  by (auto simp: drop_ref_def Let_def distinct_remove1_removeAll removeAll_filter_not_eq neq_commute)

lemma fold_drop_ref:
  "distinct (mget [] m k) \<Longrightarrow> mget [] (fold (drop_ref n ks) xs m) k
     = filter (\<lambda>r. \<not> (fst r = n \<and> snd r \<in> set xs \<and> ks ! snd r = k)) (mget [] m k)"
proof (induction xs arbitrary: m)
  case (Cons x xs)
  have "distinct (mget [] (drop_ref n ks x m) k)" using Cons.prems by (simp add: drop_ref_get)
  then show ?case
    by (auto simp: Cons.IH drop_ref_get [OF Cons.prems] intro!: filter_cong)
qed simp

lemma segment_advance [simp]:
  "segment (advance_segment n b sp) m = (if m = n then (segment sp n)\<lparr>sg_ack := b\<rparr> else segment sp m)"
  "mhas (sp_segments (advance_segment n b sp)) m \<longleftrightarrow> m = n \<or> mhas (sp_segments sp) m"
  by (simp_all add: advance_segment_def Let_def)

lemma keyof_advance [simp]: "keyof (advance_segment n b sp) = keyof sp"
  by (rule ext) (simp add: keyof_def)

lemma refs_advance:
  assumes "refs_ok sp"
  shows "refs (advance_segment n b sp) k
     = filter (\<lambda>r. \<not> (fst r = n \<and> sg_ack (segment sp n) \<le> snd r \<and> snd r < b)) (refs sp k)"
proof -
  have d: "distinct (refs sp k)" and v: "\<forall>r \<in> set (refs sp k). keyof sp r = k"
    using assms by (auto simp: refs_ok_def)
  show ?thesis
    unfolding advance_segment_def Let_def telemetry_spool.select_convs fold_drop_ref [OF d]
    by (rule filter_cong [OF refl]) (use v in \<open>auto simp: keyof_def\<close>)
qed

lemma refs_ok_advance:
  assumes "refs_ok sp" "mhas (sp_segments sp) n"
  shows "refs_ok (advance_segment n b sp)"
proof -
  have "valid_ref (advance_segment n b sp) r"
    if "valid_ref sp r" "\<not> (fst r = n \<and> sg_ack (segment sp n) \<le> snd r \<and> snd r < b)" for r
    using that assms(2) by (auto simp: valid_ref_def)
  with assms(1) show ?thesis
    unfolding refs_ok_def refs_advance [OF assms(1)] keyof_advance by fastforce
qed

section \<open>The disk after an acknowledgement\<close>

lemma files_write_ack [simp]: "dk_files (write_ack n next dk) = dk_files dk"
  by (simp add: write_ack_def)

lemma read_write_ack: "read_ack (dk_acks (write_ack n next dk)) m
     = (if m = n then Some (int next) else read_ack (dk_acks dk) m)"
  by (simp add: write_ack_def read_ack_def)

lemma pending_write_ack:
  "pending (write_ack n next dk) m
     = (if m = n then (case map_of (dk_files dk) n of Some (Some b) \<Rightarrow> drop next b | _ \<Rightarrow> []) else pending dk m)"
  by (simp add: pending_def read_write_ack split: option.split)

lemma disk_ok_write_ack:
  assumes "disk_ok dk" "map_of (dk_files dk) n = Some (Some b)" "next \<le> length b"
  shows "disk_ok (write_ack n next dk)"
  using assms by (auto simp: disk_ok_def ack_ok_def read_write_ack)

text \<open>Moving the acknowledgement of a segment takes no more than the events below the new mark.\<close>

lemma recoverable_write_ack:
  assumes f: "map_of (dk_files dk) n = Some (Some b)" and a: "read_ack (dk_acks dk) n = Some a"
    and ma: "int ma \<le> a" and nx: "next \<le> length b"
  shows "recoverable key dk \<subseteq># recoverable key (write_ack n next dk)
     + mset (map ((!) (map key b)) [ma ..< next])"
proof -
  have "mset (drop (nat a) b) \<subseteq># mset (drop next b) + mset (map ((!) b) [ma ..< next])"
  proof (cases "next \<le> nat a")
    case True
    then have "drop (nat a) b = drop (nat a - next) (drop next b)" by simp
    then have "mset (drop (nat a) b) \<subseteq># mset (drop next b)"
      by (metis append_take_drop_id mset_append mset_subset_eq_add_right)
    then show ?thesis by (simp add: subset_mset.add_increasing2)
  next
    case False
    then have "drop (nat a) b = map ((!) b) [nat a ..< next] @ drop next b"
      using nx by (intro nth_equalityI) (auto simp: nth_append add.commute)
    moreover have "mset [nat a ..< next] \<subseteq># mset [ma ..< next]"
      using ma False by (auto simp: mset_set_upto_eq_mset_upto [symmetric] intro!: subset_imp_msubset_mset_set)
    ultimately show ?thesis by (simp add: image_mset_subseteq_mono)
  qed
  then have "image_mset key (mset (drop (nat a) b))
      \<subseteq># image_mset key (mset (drop next b) + mset (map ((!) b) [ma ..< next]))"
    by (rule image_mset_subseteq_mono)
  moreover have "image_mset key (mset (map ((!) b) [ma ..< next])) = mset (map ((!) (map key b)) [ma ..< next])"
    using nx by (auto simp: image_mset.compositionality comp_def intro!: image_mset_cong)
  ultimately have "mset (map key (pending dk n))
      \<subseteq># mset (map key (pending (write_ack n next dk) n)) + mset (map ((!) (map key b)) [ma ..< next])"
    using f a by (simp add: pending_def read_write_ack)
  then show ?thesis
    by (subst (1 2) recoverable_split [of _ _ n]) (simp add: pending_write_ack ac_simps subset_mset.add_mono)
qed


section \<open>Acknowledging one segment\<close>

lemma pending_files:
  "pending (dk\<lparr>dk_files := AList.delete n (dk_files dk)\<rparr>) m = (if m = n then [] else pending dk m)"
  by (simp add: pending_def split: option.split)

lemma recoverable_delete:
  assumes "pending dk n = []"
  shows "recoverable key (dk\<lparr>dk_files := AList.delete n (dk_files dk)\<rparr>) = recoverable key dk"
proof -
  have "file_names (dk\<lparr>dk_files := AList.delete n (dk_files dk)\<rparr>) = file_names dk - {n}"
    by (simp add: delete_keys)
  then show ?thesis
    unfolding recoverable_split [of key dk n] using assms
    unfolding recoverable_def by (auto simp: pending_files intro!: sum.cong)
qed

lemma pending_drop_ack:
  "n \<notin> file_names dk \<Longrightarrow> pending (dk\<lparr>dk_acks := AList.delete n (dk_acks dk)\<rparr>) m = pending dk m"
  by (cases "m = n") (auto simp: pending_def read_ack_def map_of_eq_None_iff [symmetric] split: option.split)

lemma remove_segment_keeps:
  assumes r: "remove_segment io n dk = (dk', e)" and ok: "disk_ok dk" and p: "pending dk n = []"
  shows "disk_ok dk'" and "recoverable key dk' = recoverable key dk"
    and "m \<noteq> n \<Longrightarrow> map_of (dk_files dk') m = map_of (dk_files dk) m \<and> read_ack (dk_acks dk') m = read_ack (dk_acks dk) m"
proof -
  let ?d1 = "dk\<lparr>dk_files := AList.delete n (dk_files dk)\<rparr>"
  let ?d2 = "?d1\<lparr>dk_acks := AList.delete n (dk_acks ?d1)\<rparr>"
  have cases: "dk' = dk \<or> dk' = ?d1 \<or> dk' = ?d2"
    using r by (auto simp: remove_segment_def Let_def split: if_split_asm)
  have n: "n \<notin> file_names ?d1" by (simp add: delete_keys)
  have "disk_ok ?d1" "disk_ok ?d2"
    using ok by (auto simp: disk_ok_def ack_ok_def read_ack_def split: if_split_asm)
  then show "disk_ok dk'" using cases ok by blast
  have 2: "recoverable key ?d2 = recoverable key ?d1"
    unfolding recoverable_def pending_drop_ack [OF n] by simp
  show "recoverable key dk' = recoverable key dk"
    using cases 2 recoverable_delete [OF p, of key] by metis
  show "m \<noteq> n \<Longrightarrow> map_of (dk_files dk') m = map_of (dk_files dk) m \<and> read_ack (dk_acks dk') m = read_ack (dk_acks dk) m"
    using cases by (auto simp: read_ack_def)
qed

text \<open>What \<open>ack_segment\<close> leaves of a spool and its disk when every index names a valid place.\<close>

definition same_but :: "gostring \<Rightarrow> telemetry_spool \<Rightarrow> telemetry_spool \<Rightarrow> bool" where
  "same_but n sp sp' \<longleftrightarrow> keyof sp' = keyof sp \<and> (\<forall>m. m \<noteq> n \<longrightarrow> segment sp' m = segment sp m
     \<and> mhas (sp_segments sp') m = mhas (sp_segments sp) m)"

lemma same_but_refl [simp]: "same_but n sp sp"
  by (simp add: same_but_def)

lemma same_but_advance: "same_but n sp (advance_segment n b sp)"
  by (simp add: same_but_def)

lemma valid_ref_other: "same_but n sp sp' \<Longrightarrow> fst r \<noteq> n \<Longrightarrow> valid_ref sp' r \<longleftrightarrow> valid_ref sp r"
  by (simp add: same_but_def valid_ref_def)

lemma ack_segment_step:
  assumes step: "ack_segment io n ix (sp, dk) = ((sp', dk'), e)" and ok: "spool_ok key sp dk"
    and ne: "ix \<noteq> []" and valid: "\<forall>i \<in> set ix. valid_ref sp (n, i)"
  shows "spool_ok key sp' dk' \<and> same_but n sp sp'
    \<and> recoverable key dk \<subseteq># recoverable key dk' + mset (map (\<lambda>i. keyof sp (n, i)) ix)"
proof (cases "contiguous (sg_ack (segment sp n)) (sort ix)")
  case None
  then show ?thesis using step ok by (simp add: ack_segment_def)
next
  case (Some b)
  let ?seg = "segment sp n"
  from contiguous_sorted [OF Some] have ab: "sg_ack ?seg \<le> b" and ix: "mset ix = mset [sg_ack ?seg ..< b]"
    by auto
  have b: "b \<le> length (sg_keys ?seg)"
  proof -
    have "set ix = {sg_ack ?seg ..< b}" using ix mset_eq_setD by fastforce
    with ne ab have "b - 1 \<in> set ix" by (cases "b = sg_ack ?seg") auto
    then show ?thesis using valid by (auto simp: valid_ref_def)
  qed
  have has: "mhas (sp_segments sp) n" and live: "sg_ack ?seg < length (sg_keys ?seg)"
    using ne valid by (cases ix; force simp: valid_ref_def)+
  then obtain doc a where f: "map_of (dk_files dk) n = Some (Some doc)" and ks: "sg_keys ?seg = map key doc"
    and a: "read_ack (dk_acks dk) n = Some a" "int (sg_ack ?seg) \<le> a"
    using ok by (auto simp: spool_ok_def stored_def Let_def)
  have bd: "b \<le> length doc" using b ks by simp
  let ?w = "write_ack n b dk"
  have wok: "disk_ok ?w" using disk_ok_write_ack f bd ok by (auto simp: spool_ok_def)
  have keys: "mset (map (\<lambda>i. keyof sp (n, i)) ix) = mset (map ((!) (map key doc)) [sg_ack ?seg ..< b])"
    using ix by (simp add: keyof_def ks)
  have rec: "recoverable key dk \<subseteq># recoverable key ?w + mset (map (\<lambda>i. keyof sp (n, i)) ix)"
    unfolding keys by (rule recoverable_write_ack [OF f a bd])
  have stored_w: "stored key sp ?w m" if "m \<noteq> n" for m
    using ok that by (auto simp: spool_ok_def stored_def Let_def read_write_ack)
  show ?thesis
  proof (cases "io_write io")
    case NotWritten
    then show ?thesis using step ok Some by (simp add: ack_segment_def)
  next
    case Unsynced
    have "stored key sp ?w n" using f ks ab by (simp add: stored_def read_write_ack Let_def)
    then have "spool_ok key sp ?w" using wok ok stored_w by (metis spool_ok_def)
    then show ?thesis using step rec Some Unsynced by (simp add: ack_segment_def)
  next
    case Written
    let ?sp = "advance_segment n b sp"
    have refs: "refs_ok ?sp" using refs_ok_advance has ok by (simp add: spool_ok_def)
    have st: "stored key ?sp ?w m" for m
      using f ks stored_w by (cases "m = n") (auto simp: stored_def Let_def read_write_ack)
    show ?thesis
    proof (cases "b = length (sg_keys ?seg)")
      case False
      then have "sp' = ?sp" "dk' = ?w" using step Some Written by (simp_all add: ack_segment_def Let_def)
      then show ?thesis using refs st wok rec same_but_advance by (simp add: spool_ok_def)
    next
      case True
      then have r: "remove_segment io n ?w = (dk', e)" and sp': "sp' = ?sp"
        using step Some Written by (auto simp: ack_segment_def Let_def split: prod.splits)
      have p: "pending ?w n = []" using f True ks by (simp add: pending_write_ack)
      note kept = remove_segment_keeps [OF r wok p]
      have "stored key ?sp dk' m" for m
        using st [of m] True kept(3) [of m] by (cases "m = n") (auto simp: stored_def Let_def)
      then show ?thesis using kept(1,2) refs rec same_but_advance sp' by (simp add: spool_ok_def)
    qed
  qed
qed


section \<open>Selecting and grouping the acknowledged places\<close>

definition places :: "(gostring \<times> nat list) list \<Rightarrow> telemetry_ref list" where
  "places xs = concat (map (\<lambda>(n, ix). map (Pair n) ix) xs)"

lemma places_simps [simp]:
  "places [] = []" "places ((n, ix) # xs) = map (Pair n) ix @ places xs"
  by (simp_all add: places_def)

lemma mset_places_mset: "mset xs = mset ys \<Longrightarrow> mset (places xs) = mset (places ys)"
  by (simp add: places_def mset_concat mset_map flip: sum_mset_sum_list)

lemma places_update:
  "wf_map m \<Longrightarrow> mset (places (AList.update s (mget [] m s @ [i]) m)) = add_mset (s, i) (mset (places m))"
proof (induction m)
  case (Cons x m)
  obtain n ix where x: "x = (n, ix)" by fastforce
  show ?case
  proof (cases "n = s")
    case True
    then show ?thesis by (simp add: x mget_def)
  next
    case False
    then have "mget [] (x # m) s = mget [] m s" by (simp add: x mget_def)
    then show ?thesis using Cons False by (simp add: x)
  qed
qed (simp add: mget_def)

lemma group_refs_places:
  "wf_map m \<Longrightarrow> mset (places (group_refs rs m)) = mset rs + mset (places m) \<and> wf_map (group_refs rs m)"
  by (induction rs m rule: group_refs.induct) (simp_all add: places_update)

lemma values_update: "snd ` set (AList.update k v m) \<subseteq> insert v (snd ` set m)"
  by (induction m) auto

lemma group_refs_nonempty:
  "\<forall>ix \<in> snd ` set m. ix \<noteq> [] \<Longrightarrow> \<forall>ix \<in> snd ` set (group_refs rs m). ix \<noteq> []"
proof (induction rs m rule: group_refs.induct)
  case (2 s i rs m)
  then show ?case using values_update [of s "mget [] m s @ [i]" m] by fastforce
qed simp

lemma select_refs_sound:
  assumes "refs_ok sp"
  shows "mset (map (keyof sp) (select_refs key sp used es)) \<subseteq># mset (map key es)
    \<and> (\<forall>r \<in> set (select_refs key sp used es). valid_ref sp r)"
proof (induction es arbitrary: used)
  case (Cons e es)
  let ?r = "refs sp (key e) ! mget 0 used (key e)"
  have "valid_ref sp ?r \<and> keyof sp ?r = key e" if "mget 0 used (key e) < length (refs sp (key e))"
    using assms that nth_mem unfolding refs_ok_def by blast
  moreover have "mset (map (keyof sp) (select_refs key sp used es)) \<subseteq># mset (map key (e # es))"
    using Cons.IH [of used] by (metis list.simps(9) mset.simps(2) mset_subset_eq_add_right
        subset_mset.order_trans add_mset_add_single union_commute)
  ultimately show ?case using Cons by (auto simp: Let_def)
qed simp

section \<open>Acknowledging a batch\<close>

lemma ack_segments_step:
  assumes "ack_segments io xs (sp, dk) = ((sp', dk'), e)" and "spool_ok key sp dk"
    and "distinct (map fst xs)" and "\<forall>ix \<in> snd ` set xs. ix \<noteq> []" and "\<forall>r \<in> set (places xs). valid_ref sp r"
  shows "spool_ok key sp' dk' \<and> recoverable key dk \<subseteq># recoverable key dk' + mset (map (keyof sp) (places xs))"
  using assms
proof (induction xs arbitrary: sp dk)
  case (Cons x xs)
  obtain n ix where x: "x = (n, ix)" by fastforce
  obtain sp1 dk1 e1 where step: "ack_segment (io n) n ix (sp, dk) = ((sp1, dk1), e1)"
    by (metis prod.exhaust)
  have one: "spool_ok key sp1 dk1 \<and> same_but n sp sp1
      \<and> recoverable key dk \<subseteq># recoverable key dk1 + mset (map (\<lambda>i. keyof sp (n, i)) ix)"
    using Cons.prems(4,5) by (intro ack_segment_step [OF step Cons.prems(2)]) (auto simp: x)
  show ?case
  proof (cases e1)
    case (Some err)
    then have "sp' = sp1" "dk' = dk1" using Cons.prems(1) step by (simp_all add: x)
    then show ?thesis using one
      by (auto simp: x comp_def intro: subset_mset.order_trans)
  next
    case None
    have run: "ack_segments io xs (sp1, dk1) = ((sp', dk'), e)" using Cons.prems(1) step None by (simp add: x)
    have "\<forall>r \<in> set (places xs). fst r \<noteq> n"
      using Cons.prems(3) by (auto simp: x places_def image_iff)
    then have valid: "\<forall>r \<in> set (places xs). valid_ref sp1 r"
      using Cons.prems(5) valid_ref_other [of n sp sp1] one by (auto simp: x)
    have two: "spool_ok key sp' dk' \<and> recoverable key dk1 \<subseteq># recoverable key dk' + mset (map (keyof sp1) (places xs))"
      using Cons.prems(3,4) one by (intro Cons.IH [OF run _ _ _ valid]) (auto simp: x)
    have "recoverable key dk1 + mset (map (\<lambda>i. keyof sp (n, i)) ix)
        \<subseteq># (recoverable key dk' + mset (map (keyof sp) (places xs))) + mset (map (\<lambda>i. keyof sp (n, i)) ix)"
      using two one by (simp add: same_but_def)
    then have "recoverable key dk
        \<subseteq># (recoverable key dk' + mset (map (keyof sp) (places xs))) + mset (map (\<lambda>i. keyof sp (n, i)) ix)"
      using one subset_mset.order_trans by blast
    then show ?thesis using two by (simp add: x comp_def ac_simps)
  qed
qed simp

lemma acknowledge_step:
  assumes step: "acknowledge key io order events (sp, dk) = ((sp', dk'), e)" and ok: "spool_ok key sp dk"
    and perm: "\<And>m. mset (order m) = mset m"
  shows "spool_ok key sp' dk' \<and> recoverable key dk \<subseteq># recoverable key dk' + mset (map key events)"
proof -
  let ?rs = "select_refs key sp [] events" and ?xs = "order (group_refs (select_refs key sp [] events) [])"
  have sound: "mset (map (keyof sp) ?rs) \<subseteq># mset (map key events)" "\<forall>r \<in> set ?rs. valid_ref sp r"
    using select_refs_sound [of sp key "[]" events] ok by (auto simp: spool_ok_def)
  have wf: "wf_map (group_refs ?rs [])" and pl: "mset (places (group_refs ?rs [])) = mset ?rs"
    using group_refs_places [of "[]" ?rs] by simp_all
  have p: "mset (places ?xs) = mset ?rs" using mset_places_mset [OF perm] pl by metis
  have set: "set ?xs = set (group_refs ?rs [])" using perm mset_eq_setD by blast
  have d: "distinct (map fst ?xs)"
    using wf perm by (metis mset_eq_imp_distinct_iff mset_map)
  have run: "ack_segments io ?xs (sp, dk) = ((sp', dk'), e)" using step by (simp add: acknowledge_def)
  have "spool_ok key sp' dk' \<and> recoverable key dk \<subseteq># recoverable key dk' + mset (map (keyof sp) (places ?xs))"
    using group_refs_nonempty [of "[]" ?rs] sound(2) mset_eq_setD [OF p]
    by (intro ack_segments_step [OF run ok d]) (simp_all add: set)
  moreover have "mset (map (keyof sp) (places ?xs)) = mset (map (keyof sp) ?rs)"
    using p by simp
  ultimately show ?thesis
    using sound(1) by (metis subset_mset.add_left_mono subset_mset.order_trans)
qed

section \<open>Appending\<close>

definition fresh_name :: "gostring \<Rightarrow> telemetry_spool \<Rightarrow> 'e spool_disk \<Rightarrow> bool" where
  "fresh_name n sp dk \<longleftrightarrow> \<not> mhas (dk_files dk) n \<and> \<not> mhas (dk_acks dk) n \<and> \<not> mhas (sp_segments sp) n"

lemma add_refs_get:
  "mget [] (add_refs n lo i ks m) k
     = mget [] m k @ map (Pair n) (filter (\<lambda>j. lo \<le> j \<and> ks ! (j - i) = k) [i ..< i + length ks])"
proof (induction n lo i ks m rule: add_refs.induct)
  case (2 n lo i kk ks m)
  have "filter (\<lambda>j. lo \<le> j \<and> (kk # ks) ! (j - i) = k) [i ..< i + length (kk # ks)]
      = (if lo \<le> i \<and> kk = k then [i] else [])
        @ filter (\<lambda>j. lo \<le> j \<and> ks ! (j - Suc i) = k) [Suc i ..< Suc i + length ks]"
    by (auto simp: upt_conv_Cons nth_Cons' Suc_le_eq intro!: filter_cong)
  then show ?case using 2 by auto
qed simp

lemma recoverable_add_file:
  assumes "\<not> mhas (dk_files dk) n" "\<not> mhas (dk_acks dk) n"
  shows "recoverable key (dk\<lparr>dk_files := AList.update n (Some es) (dk_files dk)\<rparr>)
     = recoverable key dk + mset (map key es)"
proof -
  let ?d = "dk\<lparr>dk_files := AList.update n (Some es) (dk_files dk)\<rparr>"
  have n: "n \<notin> file_names dk" using assms(1) by (simp add: mhas_def map_of_eq_None_iff)
  have p: "pending ?d m = (if m = n then es else pending dk m)" for m
    using assms(2) by (simp add: pending_def read_ack_def mhas_def split: option.split)
  have "recoverable key ?d = (\<Sum>m \<in> insert n (file_names dk). mset (map key (pending ?d m)))"
    using n by (simp add: recoverable_def update_keys)
  also have "\<dots> = mset (map key es) + (\<Sum>m \<in> file_names dk. mset (map key (pending dk m)))"
    using n by (simp add: p) (rule sum.cong; auto)
  finally show ?thesis by (simp add: recoverable_def)
qed


lemma refs_add_segment:
  "refs (add_segment n ks a sp) k
     = refs sp k @ map (Pair n) (filter (\<lambda>j. a \<le> j \<and> ks ! j = k) [0 ..< length ks])"
  by (simp add: add_segment_def add_refs_get)

lemma segment_add [simp]:
  "segment (add_segment n ks a sp) m = (if m = n then \<lparr>sg_keys = ks, sg_ack = a\<rparr> else segment sp m)"
  "mhas (sp_segments (add_segment n ks a sp)) m \<longleftrightarrow> m = n \<or> mhas (sp_segments sp) m"
  by (simp_all add: add_segment_def)

lemma refs_ok_add:
  assumes ok: "refs_ok sp" and new: "\<not> mhas (sp_segments sp) n"
  shows "refs_ok (add_segment n ks a sp)"
proof -
  let ?sp = "add_segment n ks a sp"
  have old: "fst r \<noteq> n \<and> valid_ref sp r \<and> keyof sp r = k \<and> distinct (refs sp k)" if "r \<in> set (refs sp k)" for r k
    using ok new that by (auto simp: refs_ok_def valid_ref_def)
  have "distinct (refs ?sp k)" for k
    using ok old [of _ k] by (fastforce simp: refs_add_segment refs_ok_def distinct_map intro: inj_onI)
  moreover have "valid_ref ?sp r \<and> keyof ?sp r = k" if mem: "r \<in> set (refs ?sp k)" for r k
  proof -
    consider (before) "r \<in> set (refs sp k)" | (added) j where "r = (n, j)" "a \<le> j" "j < length ks" "ks ! j = k"
      using mem by (auto simp: refs_add_segment)
    then show ?thesis using old [of r k] by cases (simp_all add: valid_ref_def keyof_def)
  qed
  ultimately show ?thesis by (simp add: refs_ok_def)
qed

lemma spool_append_step:
  assumes step: "spool_append key n io es (sp, dk) = ((sp', dk'), err)"
    and ok: "spool_ok key sp dk" and new: "fresh_name n sp dk"
  shows "spool_ok key sp' dk' \<and> recoverable key dk \<subseteq># recoverable key dk'
    \<and> (err = None \<longrightarrow> recoverable key dk' = recoverable key dk + mset (map key es))"
proof -
  let ?d = "dk\<lparr>dk_files := AList.update n (Some es) (dk_files dk)\<rparr>"
  let ?sp = "add_segment n (map key es) 0 sp"
  have a: "read_ack (dk_acks dk) n = Some 0" using new by (simp add: fresh_name_def read_ack_def mhas_def)
  have rec: "recoverable key ?d = recoverable key dk + mset (map key es)"
    using new by (intro recoverable_add_file) (simp_all add: fresh_name_def)
  have d: "disk_ok ?d" using ok a by (auto simp: spool_ok_def disk_ok_def ack_ok_def)
  have s0: "segment sp n = zero_segment" using new by (simp add: fresh_name_def mget_def mhas_def)
  have st: "stored key sp ?d m" for m
    using ok s0 by (cases "m = n") (auto simp: spool_ok_def stored_def zero_segment_def Let_def)
  have st2: "stored key ?sp ?d m" for m
    using ok a by (cases "m = n") (auto simp: spool_ok_def stored_def Let_def)
  have r: "refs_ok ?sp" using ok new by (intro refs_ok_add) (simp_all add: spool_ok_def fresh_name_def)
  show ?thesis
  proof (cases "es = [] \<or> io = NotWritten")
    case True
    then show ?thesis using step ok by (auto simp: spool_append_def split: if_split_asm)
  next
    case False
    then have "dk' = ?d \<and> (sp' = sp \<and> err \<noteq> None \<or> sp' = ?sp)"
      using step by (cases io) (auto simp: spool_append_def)
    then show ?thesis using rec d st st2 r ok by (auto simp: spool_ok_def)
  qed
qed

section \<open>Opening\<close>

lemma load_segments_spool:
  assumes "load_segments key acks files sp es = Inr (sp', es')" and "distinct (map fst files)"
    and "\<forall>n \<in> set (map fst files). \<not> mhas (sp_segments sp) n" and "refs_ok sp"
  shows "refs_ok sp'
    \<and> (\<forall>n b. (n, Some b) \<in> set files \<longrightarrow> (\<exists>a \<ge> 0. read_ack acks n = Some a
         \<and> a \<le> int (length b) \<and> segment sp' n = \<lparr>sg_keys = map key b, sg_ack = nat a\<rparr>))
    \<and> (\<forall>n \<in> set (map fst files). \<exists>b. (n, Some b) \<in> set files)
    \<and> (\<forall>n. n \<notin> set (map fst files) \<longrightarrow> segment sp' n = segment sp n)"
  using assms
proof (induction key acks files sp es rule: load_segments.induct)
  case (2 key acks name doc files sp events)
  obtain batch where doc: "doc = Some batch" using "2.prems"(1) by (cases doc) auto
  obtain a where a: "read_ack acks name = Some a"
    using "2.prems"(1) doc by (cases "read_ack acks name") auto
  have bound: "0 \<le> a" "a \<le> int (length batch)" using "2.prems"(1) doc a by (simp_all split: if_split_asm)
  let ?sp = "add_segment name (map key batch) (nat a) sp"
  have load: "load_segments key acks files ?sp (events @ drop (nat a) batch) = Inr (sp', es')"
    using "2.prems"(1) doc a bound by simp
  have rok: "refs_ok ?sp" using refs_ok_add "2.prems"(3,4) by simp
  have fresh: "\<forall>n \<in> set (map fst files). \<not> mhas (sp_segments ?sp) n" using "2.prems"(2,3) by auto
  have notin: "name \<notin> set (map fst files)" using "2.prems"(2) by simp
  have IH: "refs_ok sp'
    \<and> (\<forall>n b. (n, Some b) \<in> set files \<longrightarrow> (\<exists>a \<ge> 0. read_ack acks n = Some a
         \<and> a \<le> int (length b) \<and> segment sp' n = \<lparr>sg_keys = map key b, sg_ack = nat a\<rparr>))
    \<and> (\<forall>n \<in> set (map fst files). \<exists>b. (n, Some b) \<in> set files)
    \<and> (\<forall>n. n \<notin> set (map fst files) \<longrightarrow> segment sp' n = segment ?sp n)"
    using "2.IH" [OF doc a _ load _ fresh rok] bound "2.prems"(2) by simp
  have here: "segment sp' name = \<lparr>sg_keys = map key batch, sg_ack = nat a\<rparr>" using IH notin by simp
  show ?case
    using IH here notin doc a bound by auto
qed simp

lemma mset_directory_keys: "set (map fst (directory dk)) = file_names dk"
  by (simp add: directory_def image_image)

lemma open_spool_ok:
  assumes op: "openTelemetrySpool key dk = Inr (sp, es)" and wf: "wf_map (dk_files dk)"
  shows "spool_ok key sp dk"
proof -
  have d: "distinct (map fst (directory dk))" using wf by (simp add: directory_def comp_def)
  have r0: "refs_ok empty_spool" by (simp add: refs_ok_def empty_spool_def mget_def)
  have s0: "segment empty_spool n = zero_segment" for n by (simp add: empty_spool_def mget_def)
  have load: "load_segments key (dk_acks dk) (directory dk) empty_spool [] = Inr (sp, es)"
    using op by (simp add: openTelemetrySpool_def)
  note result = load_segments_spool [OF load d _ r0]
  have files: "map_of (dk_files dk) n = Some doc \<longleftrightarrow> (n, doc) \<in> set (directory dk)" for n doc
  proof -
    have "n \<in> file_names dk \<longleftrightarrow> map_of (dk_files dk) n \<noteq> None" by (simp add: map_of_eq_None_iff)
    then show ?thesis by (cases "map_of (dk_files dk) n") (auto simp: directory_def)
  qed
  have all: "\<exists>b a. doc = Some b \<and> read_ack (dk_acks dk) n = Some a \<and> 0 \<le> a \<and> a \<le> int (length b)
      \<and> segment sp n = \<lparr>sg_keys = map key b, sg_ack = nat a\<rparr>"
    if m: "map_of (dk_files dk) n = Some doc" for n doc
  proof -
    have in_dir: "(n, doc) \<in> set (directory dk)" using m files by simp
    then obtain b where b: "(n, Some b) \<in> set (directory dk)"
      using result by (force simp: empty_spool_def mhas_def)
    then have "doc = Some b" using m files [of n "Some b"] by simp
    then show ?thesis using b result by (fastforce simp: empty_spool_def mhas_def)
  qed
  have none: "segment sp n = zero_segment" if "map_of (dk_files dk) n = None" for n
  proof -
    have "n \<notin> set (map fst (directory dk))"
      using that mset_directory_keys [of dk] by (simp add: map_of_eq_None_iff)
    then show ?thesis using result s0 by (simp add: empty_spool_def mhas_def)
  qed
  have "stored key sp dk n" for n
    using all [of n] none [of n] by (cases "map_of (dk_files dk) n") (auto simp: stored_def Let_def zero_segment_def)
  moreover have "disk_ok dk" using wf all unfolding disk_ok_def ack_ok_def by blast
  moreover have "refs_ok sp" using result by (simp add: empty_spool_def mhas_def)
  ultimately show ?thesis by (simp add: spool_ok_def)
qed

end
