(* ===== verification/AgentTelemetry.thy ===== *)
theory AgentTelemetry
  imports TelemetrySpool MeasurementEvents WireBatches
begin

text \<open>
  The Agent's telemetry queue (\<open>internal/agent/agent.go\<close> from \<open>enqueueEvents\<close> on, \<open>run_drain.go\<close>):
  events a Peer handed over, the one batch that is being sent, the exit markers that wait for room,
  and the durable spool behind them. Each part that runs under \<open>eventsMu\<close> is one atomic operation;
  \<open>flushEvents\<close> releases the mutex while it posts, so it is two: \<open>flush_begin\<close> and \<open>flush_end\<close>. The
  local \<open>batchEvents\<close> of a flush in progress is \<open>tm_sending\<close>. The file operations and the Controller's
  answer are arguments, as are the encoder and the key of an event.
\<close>

declare map_of_eq_Some_iff [simp del]

record agent_telemetry =
  tm_spool :: telemetry_spool
  tm_disk :: "trace_event spool_disk"
  tm_spoolError :: "spool_error option"
  tm_events :: "trace_event list"
  tm_eventsInFlight :: int
  tm_inFlightRuns :: "(gostring, int) gomap"
  tm_terminations :: "(gostring, trace_event) gomap"
  tm_telemetryClosed :: bool
  tm_flushNow :: bool
  tm_sending :: "trace_event list option"

record telemetry_env =
  tv_agentID :: gostring
  tv_key :: "trace_event \<Rightarrow> gostring"
  tv_encode :: "trace_event \<Rightarrow> gostring option"
  tv_quotedAgent :: gostring

definition started_telemetry :: "telemetry_spool \<Rightarrow> trace_event spool_disk \<Rightarrow> trace_event list \<Rightarrow> agent_telemetry" where
  "started_telemetry sp dk events =
     \<lparr>tm_spool = sp, tm_disk = dk, tm_spoolError = None, tm_events = events, tm_eventsInFlight = 0,
      tm_inFlightRuns = [], tm_terminations = [], tm_telemetryClosed = False, tm_flushNow = False,
      tm_sending = None\<rparr>"

definition maxQueuedEvents :: int where "maxQueuedEvents = 50000"

definition set_spool :: "telemetry_spool \<times> trace_event spool_disk \<Rightarrow> agent_telemetry \<Rightarrow> agent_telemetry" where
  "set_spool st t = t\<lparr>tm_spool := fst st, tm_disk := snd st\<rparr>"

definition stamp :: "telemetry_env \<Rightarrow> trace_event \<Rightarrow> trace_event" where
  "stamp env e = e\<lparr>te_AgentID := tv_agentID env\<rparr>"

definition enqueueEvents :: "telemetry_env \<Rightarrow> gostring \<Rightarrow> outcome \<Rightarrow> trace_event list
    \<Rightarrow> agent_telemetry \<Rightarrow> agent_telemetry \<times> bool" where
  "enqueueEvents env name io batch t =
     (if tm_telemetryClosed t
         \<or> maxQueuedEvents < int (length (tm_events t)) + tm_eventsInFlight t + int (length batch)
      then (t, False)
      else let events = map (stamp env) batch in
        case spool_append (tv_key env) name io events (tm_spool t, tm_disk t) of
          (st, Some e) \<Rightarrow> ((set_spool st t)\<lparr>tm_spoolError := Some e\<rparr>, False)
        | (st, None) \<Rightarrow>
            let queue = tm_events t @ events
            in ((set_spool st t)\<lparr>tm_events := queue, tm_flushNow := (250 \<le> length queue \<or> tm_flushNow t)\<rparr>, True))"

definition closeTelemetry :: "agent_telemetry \<Rightarrow> agent_telemetry" where
  "closeTelemetry t = t\<lparr>tm_telemetryClosed := True\<rparr>"

text \<open>The second component says whether the marker was written to the spool.\<close>

definition queueTermination :: "telemetry_env \<Rightarrow> gostring \<Rightarrow> outcome \<Rightarrow> trace_event
    \<Rightarrow> agent_telemetry \<Rightarrow> agent_telemetry \<times> bool" where
  "queueTermination env name io event t =
     (if (case map_of (tm_terminations t) (te_NodeID event) of None \<Rightarrow> True
          | Some existing \<Rightarrow> te_Timestamp event < te_Timestamp existing)
      then case spool_append (tv_key env) name io [event] (tm_spool t, tm_disk t) of (st, err) \<Rightarrow>
             let t1 = set_spool st t;
                 t2 = (if err = None then t1 else t1\<lparr>tm_spoolError := err\<rparr>)
             in (t2\<lparr>tm_terminations := AList.update (te_NodeID event) event (tm_terminations t)\<rparr>, err = None)
      else (t, False))"

text \<open>The loop over the markers, in the map's order, until the queue is full.\<close>

fun admit_terminations :: "(gostring \<times> trace_event) list \<Rightarrow> agent_telemetry \<Rightarrow> agent_telemetry" where
  "admit_terminations [] t = t"
| "admit_terminations ((k, e) # ts) t =
     (if maxQueuedEvents \<le> int (length (tm_events t)) + tm_eventsInFlight t then t
      else admit_terminations ts
        (t\<lparr>tm_events := tm_events t @ [e], tm_terminations := AList.delete k (tm_terminations t)\<rparr>))"

definition admitTerminationsLocked :: "agent_telemetry \<Rightarrow> agent_telemetry" where
  "admitTerminationsLocked t = admit_terminations (tm_terminations t) t"

definition count_runs :: "trace_event list \<Rightarrow> (gostring, int) gomap" where
  "count_runs es = fold (\<lambda>e m. AList.update (te_RunID e) (mget 0 m (te_RunID e) + 1) m) es []"

text \<open>The first half of \<open>flushEvents\<close>: what is posted, if anything.\<close>

definition flush_begin :: "telemetry_env \<Rightarrow> agent_telemetry \<Rightarrow> agent_telemetry \<times> gostring option" where
  "flush_begin env t0 =
     (if 0 < tm_eventsInFlight t0 then (t0, None)
      else let t = admitTerminationsLocked t0 in
        if tm_events t = [] then (t, None)
        else case MarshalEventBatchPrefix (tv_quotedAgent env) (tv_encode env) (tm_events t) of
            Inl _ \<Rightarrow> (t, None)
          | Inr (data, n) \<Rightarrow>
              let batch = take (nat n) (tm_events t)
              in (t\<lparr>tm_eventsInFlight := tm_eventsInFlight t + n, tm_inFlightRuns := count_runs batch,
                   tm_events := drop (nat n) (tm_events t), tm_sending := Some batch\<rparr>, Some data))"

record flush_io =
  fi_posted :: bool
  fi_ack :: "gostring \<Rightarrow> ack_io"
  fi_order :: "(gostring, nat list) gomap \<Rightarrow> (gostring, nat list) gomap"

text \<open>The second half, once the Controller has answered or the request has failed.\<close>

definition flush_end :: "telemetry_env \<Rightarrow> flush_io \<Rightarrow> agent_telemetry \<Rightarrow> agent_telemetry" where
  "flush_end env io t =
     (case tm_sending t of None \<Rightarrow> t
      | Some batch \<Rightarrow>
          let t1 = t\<lparr>tm_eventsInFlight := tm_eventsInFlight t - int (length batch), tm_inFlightRuns := [],
                     tm_sending := None\<rparr>;
              (t2, failed) =
                (if \<not> fi_posted io then (t1, True)
                 else case acknowledge (tv_key env) (fi_ack io) (fi_order io) batch (tm_spool t1, tm_disk t1) of
                        (st, e) \<Rightarrow> (set_spool st t1, e \<noteq> None))
          in if failed then t2\<lparr>tm_events := batch @ tm_events t2\<rparr>
             else if tm_events t2 = [] \<and> tm_terminations t2 = [] then t2\<lparr>tm_spoolError := None\<rparr>
             else t2)"

section \<open>Draining\<close>

definition remaining :: "agent_telemetry \<Rightarrow> int" where
  "remaining t = int (length (tm_events t)) + tm_eventsInFlight t + int (length (tm_terminations t))"

definition run_remaining :: "gostring \<Rightarrow> agent_telemetry \<Rightarrow> int" where
  "run_remaining run t = mget 0 (tm_inFlightRuns t) run
     + int (length (filter (\<lambda>e. te_RunID e = run) (tm_events t)))
     + int (length (filter (\<lambda>(_, e). te_RunID e = run) (tm_terminations t)))"

datatype drain_result = Drained "spool_error option" | NotDrained int

text \<open>
  \<open>drainRunEvents\<close>: one element of \<open>rounds\<close> is a turn of its loop, the state change that everything
  else makes between two looks, its own \<open>flushEvents\<close> included; at the end of the list the context is
  over. \<open>drainEvents\<close> has the same loop over all events and returns no spool error.
\<close>

fun drainRunEvents :: "gostring \<Rightarrow> (agent_telemetry \<Rightarrow> agent_telemetry) list \<Rightarrow> agent_telemetry
    \<Rightarrow> agent_telemetry \<times> drain_result" where
  "drainRunEvents run rounds t =
     (if run_remaining run t = 0 then (t, Drained (tm_spoolError t))
      else case rounds of [] \<Rightarrow> (t, NotDrained (run_remaining run t))
           | r # rs \<Rightarrow> drainRunEvents run rs (r t))"

fun drainEvents :: "(agent_telemetry \<Rightarrow> agent_telemetry) list \<Rightarrow> agent_telemetry
    \<Rightarrow> agent_telemetry \<times> drain_result" where
  "drainEvents [] t = (t, if 0 < remaining t then NotDrained (remaining t) else Drained None)"
| "drainEvents (r # rs) t = (if remaining t = 0 then (t, Drained None) else drainEvents rs (r t))"

end
