(* ===== verification/TelemetryProperties.thy ===== *)
theory TelemetryProperties
  imports TelemetrySpoolProofs AgentTelemetry
begin

text \<open>
  The Agent's telemetry as a state machine: the operations of \<open>AgentTelemetry\<close> in any order, with any
  file operation failing, and crashes that lose the memory and reopen the disk. Two ghost multisets
  count the keys of the events the Agent has accepted and of the events the Controller has taken.
\<close>

type_synonym telemetry_run = "agent_telemetry \<times> gostring multiset \<times> gostring multiset"

definition keys :: "telemetry_env \<Rightarrow> trace_event list \<Rightarrow> gostring multiset" where
  "keys env es = mset (map (tv_key env) es)"

inductive telemetry_step :: "telemetry_env \<Rightarrow> telemetry_run \<Rightarrow> telemetry_run \<Rightarrow> bool" for env where
  enqueue: "fresh_name name (tm_spool t) (tm_disk t) \<Longrightarrow> enqueueEvents env name io batch t = (t', ok) \<Longrightarrow>
     telemetry_step env (t, acc, del) (t', acc + (if ok then keys env (map (stamp env) batch) else {#}), del)"
| terminated: "fresh_name name (tm_spool t) (tm_disk t) \<Longrightarrow> queueTermination env name io e t = (t', saved) \<Longrightarrow>
     telemetry_step env (t, acc, del) (t', acc + (if saved then keys env [e] else {#}), del)"
| reorder: "mset ts = mset (tm_terminations t) \<Longrightarrow>
     telemetry_step env (t, acc, del) (t\<lparr>tm_terminations := ts\<rparr>, acc, del)"
| begin_flush: "flush_begin env t = (t', body) \<Longrightarrow> telemetry_step env (t, acc, del) (t', acc, del)"
| end_flush: "tm_sending t = Some batch \<Longrightarrow> (\<And>m. mset (fi_order io m) = mset m) \<Longrightarrow>
     telemetry_step env (t, acc, del)
       (flush_end env io t, acc, del + (if fi_posted io then keys env batch else {#}))"
| close: "telemetry_step env (t, acc, del) (closeTelemetry t, acc, del)"
| crash: "openTelemetrySpool (tv_key env) (tm_disk t) = Inr (sp, es) \<Longrightarrow>
     telemetry_step env (t, acc, del) (started_telemetry sp (tm_disk t) es, acc, del)"

inductive_cases telemetry_stepE: "telemetry_step env (t, acc, del) r'"

definition durable :: "telemetry_env \<Rightarrow> telemetry_run \<Rightarrow> bool" where
  "durable env r = (case r of (t, acc, del) \<Rightarrow>
     spool_ok (tv_key env) (tm_spool t) (tm_disk t)
     \<and> acc \<subseteq># del + recoverable (tv_key env) (tm_disk t))"

lemma tm_spool_set [simp]:
  "tm_spool (set_spool st t) = fst st" "tm_disk (set_spool st t) = snd st"
  "tm_sending (set_spool st t) = tm_sending t" "tm_events (set_spool st t) = tm_events t"
  "tm_terminations (set_spool st t) = tm_terminations t"
  "tm_eventsInFlight (set_spool st t) = tm_eventsInFlight t"
  by (simp_all add: set_spool_def)

lemma admit_terminations_disk [simp]:
  "tm_spool (admit_terminations ts t) = tm_spool t" "tm_disk (admit_terminations ts t) = tm_disk t"
  by (induction ts t rule: admit_terminations.induct) simp_all

lemma flush_begin_disk:
  "flush_begin env t = (t', body) \<Longrightarrow> tm_spool t' = tm_spool t \<and> tm_disk t' = tm_disk t"
  by (auto simp: flush_begin_def admitTerminationsLocked_def Let_def split: if_split_asm sum.split_asm prod.splits)

lemma append_durable:
  assumes "durable env (t, acc, del)" and "fresh_name name (tm_spool t) (tm_disk t)"
    and "spool_append (tv_key env) name io es (tm_spool t, tm_disk t) = ((sp, dk), err)"
    and "tm_spool t' = sp" "tm_disk t' = dk" and "ok \<longrightarrow> err = None"
  shows "durable env (t', acc + (if ok then keys env es else {#}), del)"
proof -
  have "spool_ok (tv_key env) sp dk
      \<and> recoverable (tv_key env) (tm_disk t) \<subseteq># recoverable (tv_key env) dk
      \<and> (err = None \<longrightarrow> recoverable (tv_key env) dk = recoverable (tv_key env) (tm_disk t) + keys env es)"
    using spool_append_step [OF assms(3)] assms(1,2) by (simp add: durable_def keys_def)
  moreover have "acc \<subseteq># del + recoverable (tv_key env) (tm_disk t)" using assms(1) by (simp add: durable_def)
  ultimately show ?thesis
    using assms(4-6) by (auto simp: durable_def ac_simps intro: subset_mset.order_trans)
qed

lemma enqueue_durable:
  assumes "durable env (t, acc, del)" and "fresh_name name (tm_spool t) (tm_disk t)"
    and enq: "enqueueEvents env name io batch t = (t', ok)"
  shows "durable env (t', acc + (if ok then keys env (map (stamp env) batch) else {#}), del)"
proof (cases "tm_spool t' = tm_spool t \<and> tm_disk t' = tm_disk t \<and> \<not> ok")
  case True
  then show ?thesis using assms(1) by (simp add: durable_def)
next
  case False
  obtain sp dk err where ap: "spool_append (tv_key env) name io (map (stamp env) batch) (tm_spool t, tm_disk t) = ((sp, dk), err)"
    by (metis prod.exhaust)
  show ?thesis
    by (rule append_durable [OF assms(1,2) ap])
       (use enq False ap in \<open>auto simp: enqueueEvents_def Let_def split: if_split_asm option.split_asm\<close>)
qed

lemma termination_durable:
  assumes "durable env (t, acc, del)" and "fresh_name name (tm_spool t) (tm_disk t)"
    and q: "queueTermination env name io e t = (t', saved)"
  shows "durable env (t', acc + (if saved then keys env [e] else {#}), del)"
proof (cases "t' = t \<and> \<not> saved")
  case True
  then show ?thesis using assms(1) by simp
next
  case False
  obtain sp dk err where ap: "spool_append (tv_key env) name io [e] (tm_spool t, tm_disk t) = ((sp, dk), err)"
    by (metis prod.exhaust)
  show ?thesis
    by (rule append_durable [OF assms(1,2) ap])
       (use q False ap in \<open>auto simp: queueTermination_def Let_def split: if_split_asm option.split_asm\<close>)
qed

lemma end_flush_durable:
  assumes d: "durable env (t, acc, del)" and b: "tm_sending t = Some batch"
    and perm: "\<And>m. mset (fi_order io m) = mset m"
  shows "durable env (flush_end env io t, acc, del + (if fi_posted io then keys env batch else {#}))"
proof (cases "fi_posted io")
  case False
  then show ?thesis using d b by (simp add: durable_def flush_end_def Let_def)
next
  case True
  obtain sp dk err where ak: "acknowledge (tv_key env) (fi_ack io) (fi_order io) batch (tm_spool t, tm_disk t) = ((sp, dk), err)"
    by (metis prod.exhaust)
  have ok: "spool_ok (tv_key env) (tm_spool t) (tm_disk t)"
    and acc: "acc \<subseteq># del + recoverable (tv_key env) (tm_disk t)" using d by (simp_all add: durable_def)
  from acknowledge_step [OF ak ok perm]
  have s: "spool_ok (tv_key env) sp dk"
    "recoverable (tv_key env) (tm_disk t) \<subseteq># recoverable (tv_key env) dk + keys env batch"
    by (simp_all add: keys_def)
  have "tm_spool (flush_end env io t) = sp \<and> tm_disk (flush_end env io t) = dk"
    using b True ak by (simp add: flush_end_def Let_def)
  moreover have "acc \<subseteq># del + keys env batch + recoverable (tv_key env) dk"
    using subset_mset.order_trans [OF acc, of "del + (recoverable (tv_key env) dk + keys env batch)"] s(2)
    by (simp add: ac_simps)
  ultimately show ?thesis using s(1) True by (simp add: durable_def)
qed

lemma telemetry_step_durable:
  assumes "telemetry_step env r r'" and "durable env r" shows "durable env r'"
  using assms
proof (induction rule: telemetry_step.induct)
  case (begin_flush t t' body acc del)
  then show ?case using flush_begin_disk [OF begin_flush(1)] by (simp add: durable_def)
next
  case (crash t sp es acc del)
  have "wf_map (dk_files (tm_disk t))" using crash(2) by (simp add: durable_def spool_ok_def disk_ok_def)
  from open_spool_ok [OF crash(1) this] crash(2) show ?case
    by (simp add: durable_def started_telemetry_def)
next
  case (reorder ts t acc del)
  then show ?case by (simp add: durable_def)
next
  case (close t acc del)
  then show ?case by (simp add: durable_def closeTelemetry_def)
qed (blast intro: enqueue_durable termination_durable end_flush_durable)+

text \<open>C32: No accepted event is ever lost. Whatever operations run, whatever file operation fails and
  however often the Agent crashes and restarts: the disk can be reopened, and every event the Agent
  has accepted - a batch it answered with success, an exit marker it stored, or an event found at the
  start - has either been taken by the Controller or is among the events the disk gives back. Delivery
  is thus at least once.\<close>

theorem telemetry_at_least_once:
  assumes "openTelemetrySpool (tv_key env) dk = Inr (sp, es)" and "wf_map (dk_files dk)"
    and "(telemetry_step env)\<^sup>*\<^sup>* (started_telemetry sp dk es, keys env es, {#}) (t, accepted, delivered)"
  shows "\<exists>sp' es'. openTelemetrySpool (tv_key env) (tm_disk t) = Inr (sp', es')
     \<and> accepted \<subseteq># delivered + keys env es'"
proof -
  have ok: "spool_ok (tv_key env) sp dk" using open_spool_ok assms(1,2) by blast
  then obtain sp0 es0 where "openTelemetrySpool (tv_key env) dk = Inr (sp0, es0)"
    "mset (map (tv_key env) es0) = recoverable (tv_key env) dk"
    by (metis open_recovers spool_ok_def)
  then have "durable env (started_telemetry sp dk es, keys env es, {#})"
    using ok assms(1) by (simp add: durable_def started_telemetry_def keys_def)
  with assms(3) have "durable env (t, accepted, delivered)"
    by (induction rule: rtranclp_induct) (auto intro: telemetry_step_durable)
  then have "disk_ok (tm_disk t)" and acc: "accepted \<subseteq># delivered + recoverable (tv_key env) (tm_disk t)"
    by (simp_all add: durable_def spool_ok_def)
  from open_recovers [OF this(1), of "tv_key env"] acc show ?thesis by (metis keys_def)
qed


definition demo_telemetry :: telemetry_env where
  "demo_telemetry = \<lparr>tv_agentID = ''a'', tv_key = te_EventID, tv_encode = (\<lambda>_. Some ''{}''),
     tv_quotedAgent = ''a''\<rparr>"

definition demo_event :: "gostring \<Rightarrow> trace_event" where
  "demo_event i = zero_event\<lparr>te_EventID := i, te_RunID := ''r'', te_NodeID := ''n''\<rparr>"

definition demo_disk :: "trace_event spool_disk" where
  "demo_disk = \<lparr>dk_files = [(''s.json'', Some [demo_event ''e1'', demo_event ''e2''])], dk_acks = [(''s.json'', Some 1)]\<rparr>"

lemma demo_open:
  "openTelemetrySpool (tv_key demo_telemetry) demo_disk
     = Inr (\<lparr>sp_segments = [(''s.json'', \<lparr>sg_keys = [''e1'', ''e2''], sg_ack = 1\<rparr>)],
             sp_refs = [(''e2'', [(''s.json'', 1)])]\<rparr>, [demo_event ''e2''])"
  by (simp add: openTelemetrySpool_def directory_def demo_disk_def sort_Strings_def empty_spool_def
      demo_telemetry_def demo_event_def add_segment_def read_ack_def mget_def)

text \<open>An Agent that restarts with one event left over and accepts another.\<close>

theorem telemetry_at_least_once_witness:
  "\<exists>t sp' es'. (telemetry_step demo_telemetry)\<^sup>*\<^sup>*
       (started_telemetry \<lparr>sp_segments = [(''s.json'', \<lparr>sg_keys = [''e1'', ''e2''], sg_ack = 1\<rparr>)],
             sp_refs = [(''e2'', [(''s.json'', 1)])]\<rparr> demo_disk [demo_event ''e2''],
        keys demo_telemetry [demo_event ''e2''], {#}) (t, {#''e2'', ''e3''#}, {#})
     \<and> openTelemetrySpool (tv_key demo_telemetry) (tm_disk t) = Inr (sp', es')
     \<and> {#''e2'', ''e3''#} \<subseteq># keys demo_telemetry es'"
proof -
  let ?sp = "\<lparr>sp_segments = [(''s.json'', \<lparr>sg_keys = [''e1'', ''e2''], sg_ack = 1\<rparr>)],
             sp_refs = [(''e2'', [(''s.json'', 1)])]\<rparr> :: telemetry_spool"
  let ?t = "started_telemetry ?sp demo_disk [demo_event ''e2'']"
  obtain t1 where t1: "enqueueEvents demo_telemetry ''t.json'' Written [demo_event ''e3''] ?t = (t1, True)"
    by (simp add: enqueueEvents_def started_telemetry_def maxQueuedEvents_def spool_append_def Let_def)
  have f: "fresh_name ''t.json'' (tm_spool ?t) (tm_disk ?t)"
    by (simp add: fresh_name_def started_telemetry_def demo_disk_def mhas_def)
  have run: "telemetry_step demo_telemetry (?t, keys demo_telemetry [demo_event ''e2''], {#})
      (t1, {#''e2'', ''e3''#}, {#})"
    using telemetry_step.enqueue [OF f t1, of "keys demo_telemetry [demo_event ''e2'']" "{#}"]
    by (simp add: keys_def demo_telemetry_def demo_event_def stamp_def zero_event_def add_mset_commute)
  have "wf_map (dk_files demo_disk)" by (simp add: demo_disk_def)
  from telemetry_at_least_once [OF demo_open this r_into_rtranclp [of "telemetry_step demo_telemetry", OF run]]
    r_into_rtranclp [of "telemetry_step demo_telemetry", OF run]
  show ?thesis by auto
qed

end
