(* ===== verification/GoJSON.thy ===== *)
theory GoJSON
  imports GoText
begin

text \<open>
  The part of \<open>encoding/json\<close> the program uses for lists of strings: \<open>json.Marshal\<close> of a \<open>[]string\<close>
  and \<open>json.Unmarshal\<close> into a \<open>*[]string\<close>, on the bytes of the text. Strings are byte strings; bytes
  that are not well-formed UTF-8 become U+FFFD in either direction. The nil slice and the empty one
  differ when encoded (\<open>null\<close>, \<open>[]\<close>) and are both the empty list when decoded.
\<close>

abbreviation (input) quote_char :: char where "quote_char \<equiv> CHR 0x22"
abbreviation (input) backslash :: char where "backslash \<equiv> CHR 0x5C"

section \<open>UTF-8\<close>

text \<open>The ranges of the bytes that follow a first byte, as in the tables of \<open>unicode/utf8\<close>.\<close>

definition continuation :: "nat \<Rightarrow> (nat \<times> nat) list option" where
  "continuation a =
     (if a < 128 then Some []
      else if 194 \<le> a \<and> a \<le> 223 then Some [(128, 191)]
      else if a = 224 then Some [(160, 191), (128, 191)]
      else if a = 237 then Some [(128, 159), (128, 191)]
      else if 225 \<le> a \<and> a \<le> 239 then Some [(128, 191), (128, 191)]
      else if a = 240 then Some [(144, 191), (128, 191), (128, 191)]
      else if 241 \<le> a \<and> a \<le> 243 then Some [(128, 191), (128, 191), (128, 191)]
      else if a = 244 then Some [(128, 143), (128, 191), (128, 191)]
      else None)"

fun follows :: "(nat \<times> nat) list \<Rightarrow> gostring \<Rightarrow> bool" where
  "follows [] cs = True"
| "follows ((l, h) # rs) (c # cs) = (l \<le> of_char c \<and> of_char c \<le> h \<and> follows rs cs)"
| "follows (r # rs) [] = False"

text \<open>The number of bytes of the code point a text begins with, 0 where it is not well-formed.\<close>

fun rune_size :: "gostring \<Rightarrow> nat" where
  "rune_size [] = 0"
| "rune_size (c # cs) = (case continuation (of_char c) of None \<Rightarrow> 0
     | Some rs \<Rightarrow> if follows rs cs then Suc (length rs) else 0)"

function valid_utf8 :: "gostring \<Rightarrow> bool" where
  "valid_utf8 s = (if s = [] then True else if rune_size s = 0 then False
     else valid_utf8 (drop (rune_size s) s))"
  by auto
termination by (relation "measure length") auto

declare valid_utf8.simps [simp del]

definition encode_rune :: "nat \<Rightarrow> gostring" where
  "encode_rune v =
     map char_of (if v < 128 then [v]
       else if v < 2048 then [192 + v div 64, 128 + v mod 64]
       else if v < 65536 then [224 + v div 4096, 128 + v div 64 mod 64, 128 + v mod 64]
       else [240 + v div 262144, 128 + v div 4096 mod 64, 128 + v div 64 mod 64, 128 + v mod 64])"

section \<open>Encoding\<close>

definition hex_digit :: "nat \<Rightarrow> char" where
  "hex_digit n = char_of (if n < 10 then 48 + n else 87 + n)"

text \<open>An ASCII character, with HTML characters escaped as \<open>json.Marshal\<close> does.\<close>

definition escape_ascii :: "char \<Rightarrow> gostring" where
  "escape_ascii c =
     (if c = quote_char \<or> c = backslash then [backslash, c]
      else if c = CHR 0x08 then [backslash, CHR ''b'']
      else if c = CHR 0x0C then [backslash, CHR ''f'']
      else if c = CHR 0x0A then [backslash, CHR ''n'']
      else if c = CHR 0x0D then [backslash, CHR ''r'']
      else if c = CHR 0x09 then [backslash, CHR ''t'']
      else if (of_char c :: nat) < 32 \<or> c = CHR ''<'' \<or> c = CHR ''>'' \<or> c = CHR ''&''
      then [backslash, CHR ''u'', CHR ''0'', CHR ''0'', hex_digit (of_char c div 16), hex_digit (of_char c mod 16)]
      else [c])"

definition line_separator :: gostring where "line_separator = [CHR 0xE2, CHR 0x80, CHR 0xA8]"
definition paragraph_separator :: gostring where "paragraph_separator = [CHR 0xE2, CHR 0x80, CHR 0xA9]"

definition escape_rune :: "gostring \<Rightarrow> gostring" where
  "escape_rune r =
     (if r = line_separator then backslash # ''u2028''
      else if r = paragraph_separator then backslash # ''u2029'' else r)"

function json_escape :: "gostring \<Rightarrow> gostring" where
  "json_escape [] = []"
| "json_escape (c # cs) =
     (if (of_char c :: nat) < 128 then escape_ascii c @ json_escape cs
      else if rune_size (c # cs) = 0 then (backslash # ''ufffd'') @ json_escape cs
      else escape_rune (take (rune_size (c # cs)) (c # cs)) @ json_escape (drop (rune_size (c # cs)) (c # cs)))"
  by pat_completeness auto
termination by (relation "measure length") auto

definition json_string :: "gostring \<Rightarrow> gostring" where
  "json_string s = quote_char # json_escape s @ [quote_char]"

fun json_list :: "gostring list \<Rightarrow> gostring" where
  "json_list [] = '']''"
| "json_list [s] = json_string s @ '']''"
| "json_list (s # ss) = json_string s @ CHR '','' # json_list ss"

definition json_Marshal_strings :: "gostring list option \<Rightarrow> gostring" where
  "json_Marshal_strings ss = (case ss of None \<Rightarrow> ''null'' | Some xs \<Rightarrow> CHR ''['' # json_list xs)"

section \<open>Decoding\<close>

definition hex_value :: "char \<Rightarrow> nat option" where
  "hex_value c =
     (let n = (of_char c :: nat)
      in if 48 \<le> n \<and> n \<le> 57 then Some (n - 48)
         else if 97 \<le> n \<and> n \<le> 102 then Some (n - 87)
         else if 65 \<le> n \<and> n \<le> 70 then Some (n - 55)
         else None)"

fun hex4 :: "gostring \<Rightarrow> (nat \<times> gostring) option" where
  "hex4 (a # b # c # d # cs) =
     (case (hex_value a, hex_value b, hex_value c, hex_value d) of
        (Some w, Some x, Some y, Some z) \<Rightarrow> Some (4096 * w + 256 * x + 16 * y + z, cs)
      | _ \<Rightarrow> None)"
| "hex4 _ = None"

definition replacement :: gostring where "replacement = [CHR 0xEF, CHR 0xBF, CHR 0xBD]"

text \<open>The text of a \<open>\u\<close> escape: surrogates count only in pairs.\<close>

definition unicode_escape :: "nat \<Rightarrow> gostring \<Rightarrow> gostring \<times> gostring" where
  "unicode_escape v rest =
     (if v < 55296 \<or> 57344 \<le> v then (encode_rune v, rest)
      else case (if v < 56320 \<and> take 2 rest = [backslash, CHR ''u''] then hex4 (drop 2 rest) else None) of
          Some (w, rest') \<Rightarrow> if 56320 \<le> w \<and> w < 57344
            then (encode_rune (65536 + (v - 55296) * 1024 + (w - 56320)), rest') else (replacement, rest)
        | None \<Rightarrow> (replacement, rest))"

definition simple_escape :: "char \<Rightarrow> char option" where
  "simple_escape e =
     (if e = quote_char \<or> e = backslash \<or> e = CHR ''/'' then Some e
      else if e = CHR ''b'' then Some (CHR 0x08) else if e = CHR ''f'' then Some (CHR 0x0C)
      else if e = CHR ''n'' then Some (CHR 0x0A) else if e = CHR ''r'' then Some (CHR 0x0D)
      else if e = CHR ''t'' then Some (CHR 0x09) else None)"

text \<open>One step inside a string: the bytes it stands for and the text behind it.\<close>

fun unquote_step :: "gostring \<Rightarrow> (gostring \<times> gostring) option" where
  "unquote_step [] = None"
| "unquote_step (c # cs) =
     (if c = backslash then
        (case cs of [] \<Rightarrow> None
         | e # es \<Rightarrow>
             if e = CHR ''u'' then map_option (\<lambda>(v, rest). unicode_escape v rest) (hex4 es)
             else map_option (\<lambda>x. ([x], es)) (simple_escape e))
      else if (of_char c :: nat) < 32 then None
      else if rune_size (c # cs) = 0 then Some (replacement, cs)
      else Some (take (rune_size (c # cs)) (c # cs), drop (rune_size (c # cs)) (c # cs)))"

lemma hex4_shorter: "hex4 s = Some (v, r) \<Longrightarrow> length r < length s"
  by (induction s rule: hex4.induct) (auto split: option.splits)

lemma unicode_escape_shorter: "snd (unicode_escape v r) = r \<or> length (snd (unicode_escape v r)) < length r"
  using hex4_shorter [of "drop 2 r"]
  by (fastforce simp: unicode_escape_def split: option.split if_splits)

lemma unquote_step_shorter: "unquote_step s = Some (x, r) \<Longrightarrow> length r < length s"
proof (induction s rule: unquote_step.induct)
  case (2 c cs)
  then show ?case using unicode_escape_shorter
    by (auto split: if_splits list.splits option.splits dest!: hex4_shorter)
      (metis less_SucI less_trans snd_conv Suc_lessD not_less_eq)+
qed simp

function json_unquote :: "gostring \<Rightarrow> (gostring \<times> gostring) option" where
  "json_unquote s =
     (if take 1 s = [quote_char] then Some ([], drop 1 s)
      else case unquote_step s of None \<Rightarrow> None
        | Some (x, r) \<Rightarrow> map_option (\<lambda>(y, t). (x @ y, t)) (json_unquote r))"
  by auto
termination by (relation "measure length") (auto dest: unquote_step_shorter)

declare json_unquote.simps [simp del]

definition skip_space :: "gostring \<Rightarrow> gostring" where
  "skip_space s = dropWhile (\<lambda>c. c = CHR '' '' \<or> c = CHR 0x09 \<or> c = CHR 0x0A \<or> c = CHR 0x0D) s"

text \<open>An element of the array; \<open>null\<close> leaves the zero value, any other kind of value is an error.\<close>

definition json_item :: "gostring \<Rightarrow> (gostring \<times> gostring) option" where
  "json_item s =
     (if take 1 s = [quote_char] then json_unquote (drop 1 s)
      else if take 4 s = ''null'' then Some ([], drop 4 s) else None)"
lemma json_unquote_shorter: "json_unquote s = Some (x, r) \<Longrightarrow> length r \<le> length s"
proof (induction s arbitrary: x r rule: json_unquote.induct)
  case (1 s)
  show ?case
  proof (cases "take 1 s = [quote_char]")
    case True
    then show ?thesis using "1.prems" by (subst (asm) json_unquote.simps) auto
  next
    case False
    then obtain y t z u where q: "unquote_step s = Some (y, t)" "json_unquote t = Some (z, u)" "r = u"
      using "1.prems" by (subst (asm) json_unquote.simps) (auto split: option.splits)
    then have "length u \<le> length t" using "1.IH" [OF False q(1)] by auto
    then show ?thesis using unquote_step_shorter [OF q(1)] q(3) by simp
  qed
qed

lemma length_skip_space: "length (skip_space s) \<le> length s"
  by (simp add: skip_space_def length_dropWhile_le)

lemma json_item_shorter: "json_item s = Some (x, r) \<Longrightarrow> length r \<le> length s"
  by (auto simp: json_item_def split: if_splits dest: json_unquote_shorter)

function json_elems :: "gostring \<Rightarrow> (gostring list \<times> gostring) option" where
  "json_elems s =
     (case json_item (skip_space s) of None \<Rightarrow> None
      | Some (x, r) \<Rightarrow>
          (case skip_space r of [] \<Rightarrow> None
           | c # r' \<Rightarrow> if c = CHR '']'' then Some ([x], r')
               else if c = CHR '','' then map_option (\<lambda>(xs, t). (x # xs, t)) (json_elems r') else None))"
  by auto
termination
proof (relation "measure length", simp)
  fix s p x r c r'
  assume "json_item (skip_space s) = Some p" "(x, r) = p" "skip_space r = c # r'"
  then have "length r \<le> length (skip_space s)" "length (c # r') \<le> length r"
    using json_item_shorter [of "skip_space s" x r] length_skip_space [of r] by auto
  then show "(r', s) \<in> measure length" using length_skip_space [of s] by simp
qed

declare json_elems.simps [simp del]

definition json_Unmarshal_strings :: "gostring \<Rightarrow> gostring list option" where
  "json_Unmarshal_strings s =
     (let t = skip_space s
      in if take 4 t = ''null'' \<and> skip_space (drop 4 t) = [] then Some []
         else if take 1 t \<noteq> ''['' then None
         else let u = skip_space (drop 1 t)
           in case (if take 1 u = '']'' then Some ([], drop 1 u) else json_elems u) of
               None \<Rightarrow> None
             | Some (xs, r) \<Rightarrow> if skip_space r = [] then Some xs else None)"

lemma json_examples:
  "json_Marshal_strings (Some [''a<b'', [CHR 0x0A]])
     = ''['' @ [quote_char] @ ''a'' @ [backslash] @ ''u003cb'' @ [quote_char, CHR '','', quote_char, backslash]
       @ ''n'' @ [quote_char] @ '']''"
  "json_Unmarshal_strings ('' [null , '' @ [quote_char, CHR ''x'', quote_char] @ '' ] '') = Some [[], ''x'']"
  "json_Unmarshal_strings ''[1]'' = None" "json_Unmarshal_strings ''[] x'' = None"
  by code_simp+

section \<open>Round trip\<close>

lemma continuation_ascii [simp]: "n < 128 \<Longrightarrow> continuation n = Some []"
  by (simp add: continuation_def)

lemma follows_append: "follows rs cs \<Longrightarrow> follows rs (cs @ t)"
  by (induction rs cs rule: follows.induct) auto

lemma follows_take: "follows rs cs \<Longrightarrow> follows rs (take (length rs) cs) \<and> length rs \<le> length cs"
  by (induction rs cs rule: follows.induct) auto

lemma rune_take:
  assumes "rune_size s = k" and "0 < k"
  shows "rune_size (take k s @ t) = k" and "k \<le> length s"
proof -
  obtain c cs where s: "s = c # cs" using assms by (cases s) auto
  then obtain rs where rs: "continuation (of_char c) = Some rs" "follows rs cs" "k = Suc (length rs)"
    using assms by (auto split: option.splits if_splits)
  then have "follows rs (take (length rs) cs @ t)" "length rs \<le> length cs"
    using follows_take follows_append by blast+
  then show "rune_size (take k s @ t) = k" "k \<le> length s" using rs s by simp_all
qed

lemma hex_digit_value [simp]: "n < 16 \<Longrightarrow> hex_value (hex_digit n) = Some n"
proof -
  assume "n < 16"
  then consider "n < 10" | "10 \<le> n" "n < 16" by linarith
  then show ?thesis by cases (simp_all add: hex_digit_def hex_value_def)
qed

lemma char_of_of_char [simp]: "char_of (of_char c :: nat) = c"
  by simp

lemma controls:
  "of_char (CHR 0x08) < (32::nat)" "of_char (CHR 0x0C) < (32::nat)" "of_char (CHR 0x0A) < (32::nat)"
  "of_char (CHR 0x0D) < (32::nat)" "of_char (CHR 0x09) < (32::nat)"
  by simp_all

lemma unquote_ascii:
  assumes "(of_char c :: nat) < 128" shows "unquote_step (escape_ascii c @ t) = Some ([c], t)"
proof -
  let ?n = "of_char c :: nat"
  let ?plain = "c \<noteq> quote_char \<and> c \<noteq> backslash \<and> \<not> ?n < 32 \<and> c \<noteq> CHR ''<'' \<and> c \<noteq> CHR ''>'' \<and> c \<noteq> CHR ''&''"
  let ?short = "c = quote_char \<or> c = backslash \<or> c = CHR 0x08 \<or> c = CHR 0x0C \<or> c = CHR 0x0A \<or> c = CHR 0x0D \<or> c = CHR 0x09"
  show ?thesis
  proof (cases ?plain)
    case plain: True
    then have "c \<noteq> CHR 0x08" "c \<noteq> CHR 0x0C" "c \<noteq> CHR 0x0A" "c \<noteq> CHR 0x0D" "c \<noteq> CHR 0x09"
      using controls by metis+
    then have "escape_ascii c = [c]" using plain by (simp add: escape_ascii_def)
    then show ?thesis using plain assms by simp
  next
    case special: False
    show ?thesis
    proof (cases ?short)
    case True
    then show ?thesis by (elim disjE) (simp_all add: escape_ascii_def simple_escape_def)
  next
    case False
    then have "?n < 32 \<or> c = CHR ''<'' \<or> c = CHR ''>'' \<or> c = CHR ''&''" using special by metis
    then have "escape_ascii c = [backslash, CHR ''u'', CHR ''0'', CHR ''0'', hex_digit (?n div 16), hex_digit (?n mod 16)]"
      using False by (simp only: escape_ascii_def de_Morgan_disj if_False if_True simp_thms)
    moreover have "hex_value CHR ''0'' = Some 0" by code_simp
    moreover have "16 * (?n div 16) + ?n mod 16 = ?n" by simp
    ultimately show ?thesis using assms
      by (simp add: unicode_escape_def encode_rune_def del: mult_div_mod_eq)
    qed
  qed
qed

lemma escape_ascii_head: "take 1 (escape_ascii c @ t) \<noteq> [quote_char]"
  by (auto simp: escape_ascii_def)

lemma rune_head: "rune_size (c # cs) \<noteq> 0 \<Longrightarrow> \<not> of_char c < (128::nat) \<Longrightarrow> 194 \<le> (of_char c :: nat)"
  by (auto simp: continuation_def split: if_splits)

lemma separators:
  "encode_rune 8232 = line_separator" "encode_rune 8233 = paragraph_separator"
  "hex4 (''2028'' @ t) = Some (8232, t)" "hex4 (''2029'' @ t) = Some (8233, t)"
proof -
  have "char_of (226::nat) = CHR 0xE2" "char_of (128::nat) = CHR 0x80" "char_of (168::nat) = CHR 0xA8"
      "char_of (169::nat) = CHR 0xA9" by code_simp+
  then show "encode_rune 8232 = line_separator" "encode_rune 8233 = paragraph_separator"
    by (simp_all add: encode_rune_def line_separator_def paragraph_separator_def)
  show "hex4 (''2028'' @ t) = Some (8232, t)" "hex4 (''2029'' @ t) = Some (8233, t)"
    by (simp_all add: hex_value_def)
qed

lemma unquote_rune:
  assumes k: "rune_size s = k" "0 < k" and big: "\<not> of_char (hd s) < (128::nat)"
  shows "unquote_step (escape_rune (take k s) @ t) = Some (take k s, t)"
    "take 1 (escape_rune (take k s) @ t) \<noteq> [quote_char]"
proof -
  obtain c cs where s: "s = c # cs" using k by (cases s) auto
  obtain j where j: "k = Suc j" using k by (cases k) auto
  have size: "rune_size (take k s @ t) = k" "k \<le> length s" using rune_take k by blast+
  have c: "\<not> of_char c < (32::nat)" "c \<noteq> backslash" "c \<noteq> quote_char" using big s by auto
  have "take k s = c # take j cs" "take k (take k s @ t) = take k s" "drop k (take k s @ t) = t" using s j size(2) by simp_all
  moreover from this have "unquote_step (take k s @ t) = Some (take k s, t)" using c size j by simp
  moreover have "unquote_step ((backslash # ''u2028'') @ t) = Some (line_separator, t)"
      "unquote_step ((backslash # ''u2029'') @ t) = Some (paragraph_separator, t)"
    using separators by (simp_all add: unicode_escape_def)
  ultimately show "unquote_step (escape_rune (take k s) @ t) = Some (take k s, t)"
      "take 1 (escape_rune (take k s) @ t) \<noteq> [quote_char]"
    using c by (auto simp only: escape_rune_def split: if_splits) simp_all
qed

lemma json_unquote_step:
  assumes "unquote_step s = Some (x, r)" "take 1 s \<noteq> [quote_char]"
  shows "json_unquote s = map_option (\<lambda>(y, t). (x @ y, t)) (json_unquote r)"
  using assms by (subst json_unquote.simps) simp

lemma unquote_escape: "valid_utf8 s \<Longrightarrow> json_unquote (json_escape s @ quote_char # t) = Some (s, t)"
proof (induction s rule: json_escape.induct)
  case 1
  then show ?case by (simp add: json_unquote.simps)
next
  case (2 c cs)
  let ?k = "rune_size (c # cs)"
  from "2.prems" have k: "?k \<noteq> 0" and v: "valid_utf8 (drop ?k (c # cs))"
    by (subst (asm) valid_utf8.simps, simp split: if_splits)+
  show ?case
  proof (cases "(of_char c :: nat) < 128")
    case True
    then have "?k = 1" by simp
    then have "json_unquote (json_escape cs @ quote_char # t) = Some (cs, t)" using "2.IH"(1) True v by simp
    then show ?thesis
      using json_unquote_step [OF unquote_ascii [OF True] escape_ascii_head, of "json_escape cs @ quote_char # t"] True
      by simp
  next
    case False
    then have "json_unquote (json_escape (drop ?k (c # cs)) @ quote_char # t) = Some (drop ?k (c # cs), t)"
      using "2.IH"(3) k v by blast
    then show ?thesis
      using json_unquote_step [OF unquote_rune [of "c # cs" ?k "json_escape (drop ?k (c # cs)) @ quote_char # t"]] False k
      by simp
  qed
qed

lemma json_item_string: "valid_utf8 s \<Longrightarrow> json_item (skip_space (json_string s @ t)) = Some (s, t)"
  by (simp add: json_string_def skip_space_def json_item_def unquote_escape)

lemma json_elems_list:
  "ss \<noteq> [] \<Longrightarrow> \<forall>s \<in> set ss. valid_utf8 s \<Longrightarrow> json_elems (json_list ss @ t) = Some (ss, t)"
proof (induction ss rule: json_list.induct)
  case (2 s)
  then show ?case by (subst json_elems.simps) (simp add: json_item_string, simp add: skip_space_def)
next
  case (3 s s' ss)
  then have "json_elems (json_list (s' # ss) @ t) = Some (s' # ss, t)" by simp
  then show ?case using 3 by (subst json_elems.simps) (simp add: json_item_string, simp add: skip_space_def)
qed simp

lemma json_list_head: "ss \<noteq> [] \<Longrightarrow> \<exists>r. json_list ss = quote_char # r"
  by (cases ss rule: json_list.cases) (auto simp: json_string_def)

lemma json_strings_roundtrip:
  assumes "\<forall>s \<in> set (elems ss). valid_utf8 s"
  shows "json_Unmarshal_strings (json_Marshal_strings ss) = Some (elems ss)"
proof (cases "elems ss = []")
  case True
  then show ?thesis
    by (cases ss) (auto simp: json_Unmarshal_strings_def json_Marshal_strings_def skip_space_def)
next
  case False
  then obtain xs r where "ss = Some xs" "xs \<noteq> []" and r: "json_list xs = quote_char # r"
    using json_list_head by (cases ss) fastforce+
  moreover have "json_elems (json_list xs @ []) = Some (xs, [])"
    using assms calculation by (intro json_elems_list) auto
  ultimately show ?thesis
    by (simp add: json_Unmarshal_strings_def json_Marshal_strings_def skip_space_def)
qed

end
