(* ===== verification/AgentProcesses.thy ===== *)
theory AgentProcesses
  imports AgentTelemetry NodeConfig FleetTypes GoJSON
begin

text \<open>
  The Agent's table of Peer processes (\<open>internal/agent/agent.go\<close>, \<open>container.go\<close>, \<open>heartbeat.go\<close>):
  admission, status reports, stops and fences, exits, and the inventory a heartbeat carries. One
  definition per handler that runs under \<open>Server.mu\<close>.

  No code removes or replaces an entry of \<open>s.processes\<close>, so a \<open>*process\<close> is known by its node's
  identifier. A cancelled context is the flag \<open>pr_canceled\<close>; of the channel \<open>done\<close> the code only needs
  whether it is closed (\<open>pr_doneClosed\<close>), and closing it twice is a panic, the result None of
  \<open>finishProcess\<close>. An error is its text. A generation is a \<open>uint64\<close>, here a nat.
\<close>

declare map_of_eq_Some_iff [simp del]

section \<open>State\<close>

record process =
  pr_node :: node
  pr_apiURL :: gostring
  pr_configPath :: gostring
  pr_canceled :: bool
  pr_exited :: bool
  pr_containerID :: gostring
  pr_doneClosed :: bool
  pr_cleanupErr :: "gostring option"
  pr_heartbeatAcknowledged :: bool
  pr_peerStatusObservedAt :: go_time

record agent_config =
  ac_DockerImage :: gostring
  ac_ID :: gostring
  ac_Name :: gostring
  ac_AdvertiseURL :: gostring
  ac_MetricsURL :: gostring
  ac_SelfURL :: gostring
  ac_ControllerURL :: gostring
  ac_Token :: gostring
  ac_Capacity :: int
  ac_Labels :: "(gostring, gostring) gomap"
  ac_Hostname :: gostring
  ac_Version :: gostring

record agent_server =
  as_startupReconciled :: bool
  as_config :: agent_config
  as_startedAt :: go_time
  as_capacityLimit :: int
  as_capacityRevision :: gostring
  as_processes :: "(gostring, process) gomap"
  as_runFences :: "(gostring, nat) gomap"
  as_shuttingDown :: bool
  as_telemetry :: agent_telemetry

record create_request =
  cq_ID :: gostring
  cq_RunID :: gostring
  cq_Generation :: nat
  cq_Group :: gostring
  cq_Role :: gostring
  cq_Type :: gostring
  cq_Profile :: gostring
  cq_Seed :: int
  cq_Config :: node_config
  cq_Lifetime :: gostring

record peer_process_config =
  pc_Node :: node
  pc_NodeConfig :: node_config
  pc_Seed :: int
  pc_ControllerURL :: gostring
  pc_AgentURL :: gostring
  pc_APIListen :: gostring
  pc_P2PListen :: gostring
  pc_Token :: gostring

datatype agent_error = IdentityRequired | BadLifetime | InvalidConfig node_error | UnresolvedNetwork network_error
  | ShuttingDown | Fenced gostring nat nat | NodeExists gostring | CapacityReached | NodeNotFound gostring

text \<open>
  What the handlers take from elsewhere: the clock and its text, the JSON text of settings, the
  random source of a seed, and the functions of the third-party PubSub and peer packages.
\<close>

record ('r, 'k) agent_env =
  av_now :: go_time
  av_timeText :: "go_time \<Rightarrow> gostring"
  av_networkJSON :: "network_config \<Rightarrow> gostring"
  av_math :: mathfns
  av_random :: "'r random_source"
  av_seeded :: "int \<Rightarrow> 'r"
  av_samplerFuel :: nat
  av_pubsub :: "'k pubsub_env"

section \<open>Small helpers\<close>

definition FormatBool :: "bool \<Rightarrow> gostring" where
  "FormatBool b = (if b then ''true'' else ''false'')"

definition TrimRightSlash :: "gostring \<Rightarrow> gostring" where
  "TrimRightSlash s = rev (dropWhile (\<lambda>c. c = CHR ''/'') (rev s))"

definition metadata :: "node \<Rightarrow> (gostring, gostring) gomap" where
  "metadata n = (case nd_Metadata n of None \<Rightarrow> [] | Some m \<Rightarrow> m)"

definition set_node_metadata :: "gostring \<Rightarrow> gostring \<Rightarrow> node \<Rightarrow> node" where
  "set_node_metadata k v n = n\<lparr>nd_Metadata := Some (AList.update k v (metadata n))\<rparr>"

definition setProcessMetadata :: "gostring \<Rightarrow> gostring \<Rightarrow> process \<Rightarrow> process" where
  "setProcessMetadata k v p = p\<lparr>pr_node := set_node_metadata k v (pr_node p)\<rparr>"

definition set_process :: "gostring \<Rightarrow> process \<Rightarrow> agent_server \<Rightarrow> agent_server" where
  "set_process i p s = s\<lparr>as_processes := AList.update i p (as_processes s)\<rparr>"

section \<open>Capacity\<close>

definition capacityLocked :: "agent_server \<Rightarrow> int" where
  "capacityLocked s = (if 0 < as_capacityLimit s then as_capacityLimit s else ac_Capacity (as_config s))"

definition occupies :: "process \<Rightarrow> bool" where
  "occupies p \<longleftrightarrow> \<not> pr_exited p \<or> pr_cleanupErr p \<noteq> None"

definition capacityUsedLocked :: "agent_server \<Rightarrow> int" where
  "capacityUsedLocked s = int (length (filter (\<lambda>(_, p). occupies p) (as_processes s)))"

text \<open>The capacity headers of a Controller response; \<open>parsed\<close> is what \<open>Atoi\<close> makes of the value.\<close>

definition acceptCapacityHeader :: "gostring \<Rightarrow> int option \<Rightarrow> gostring \<Rightarrow> agent_server \<Rightarrow> agent_server \<times> bool" where
  "acceptCapacityHeader raw parsed revision s =
     (if raw = [] then (s, True)
      else case parsed of
          None \<Rightarrow> (s, False)
        | Some capacity \<Rightarrow>
            if capacity \<le> 0 then (s, False)
            else (s\<lparr>as_capacityLimit := capacity, as_capacityRevision := revision\<rparr>, True))"

section \<open>Admission\<close>

definition resolveCreateNodeConfig :: "create_request \<Rightarrow> node_config \<times> gostring" where
  "resolveCreateNodeConfig q =
     (let kind = (if cq_Type q \<noteq> [] then cq_Type q
                  else if nc_Type (cq_Config q) \<noteq> [] then nc_Type (cq_Config q)
                  else if cq_Role q = ''boot'' then ''boot'' else ''full'')
      in case BuiltInNodeConfig kind of
           Some base \<Rightarrow>
             let resolved = (node_WithDefaults (node_Merge base (cq_Config q)))\<lparr>nc_Type := nc_Type base\<rparr>
             in (resolved, nc_Type resolved)
         | None \<Rightarrow>
             let base = (case BuiltInNodeConfig ''full'' of Some b \<Rightarrow> b | None \<Rightarrow> empty_node)\<lparr>nc_Type := kind\<rparr>;
                 resolved = node_WithDefaults ((node_Merge base (cq_Config q))\<lparr>nc_Type := kind\<rparr>)
             in (resolved, nc_Type resolved))"

definition bad_lifetime :: "create_request \<Rightarrow> bool" where
  "bad_lifetime q \<longleftrightarrow> cq_Lifetime q \<noteq> []
     \<and> (case ParseDuration (cq_Lifetime q) of None \<Rightarrow> True | Some d \<Rightarrow> d < 0)"

definition score_enabled :: "gossipsub_config \<Rightarrow> bool" where
  "score_enabled g \<longleftrightarrow> gs_Enabled g = Some True \<and> gs_Router g = ''gossipsub'' \<and> set_and score_IsEnabled (gs_Score g)"

definition created_node :: "('r, 'k) agent_env \<Rightarrow> agent_server \<Rightarrow> create_request \<Rightarrow> gostring \<Rightarrow> node_config
    \<Rightarrow> gostring \<Rightarrow> node" where
  "created_node env s q nodeType c requested =
     (let profile = (if cq_Profile q = [] then nodeType else cq_Profile q);
          g = nc_GossipSub c;
          base = [(''runtime'', ''docker''), (''profile'', profile), (''pubsubRouter'', gs_Router g),
            (''pubsubEnabled'', FormatBool (gs_Enabled g = Some True)),
            (''scoreEnabled'', FormatBool (score_enabled g)),
            (''allowPublish'', FormatBool (PublishAllowed c)), (''topicMode'', gs_TopicMode g),
            (''topics'', join_comma (elems (gs_Topics g))), (''topicsJSON'', json_Marshal_strings (gs_Topics g)),
            (''dhtEnabled'', FormatBool (kd_Enabled (nc_Kademlia c) = Some True)),
            (''dhtMode'', kd_Mode (nc_Kademlia c)), (''network'', av_networkJSON env (nc_Network c)),
            (''networkRequested'', requested), (''seed'', Itoa (cq_Seed q))];
          meta = (if cq_Lifetime q \<noteq> []
                  then base @ [(''lifetime'', cq_Lifetime q), (''lifetimeBasis'', ''container-created'')] else base)
      in zero_node\<lparr>nd_ID := cq_ID q, nd_RunID := cq_RunID q, nd_Generation := cq_Generation q,
           nd_AgentID := ac_ID (as_config s), nd_Group := cq_Group q, nd_Role := cq_Role q, nd_Type := nodeType,
           nd_Profile := profile, nd_State := NodeStarting, nd_Metadata := Some meta,
           nd_StartedAt := av_now env, nd_LastSeen := av_now env\<rparr>)"

definition new_process :: "node \<Rightarrow> process" where
  "new_process n = \<lparr>pr_node = n, pr_apiURL = [], pr_configPath = [], pr_canceled = False, pr_exited = False,
     pr_containerID = [], pr_doneClosed = False, pr_cleanupErr = None, pr_heartbeatAcknowledged = False,
     pr_peerStatusObservedAt = 0\<rparr>"

definition peer_config :: "agent_server \<Rightarrow> create_request \<Rightarrow> node \<Rightarrow> node_config \<Rightarrow> peer_process_config" where
  "peer_config s q n c =
     \<lparr>pc_Node = n, pc_NodeConfig = c, pc_Seed = cq_Seed q,
      pc_ControllerURL = TrimRightSlash (ac_ControllerURL (as_config s)),
      pc_AgentURL = TrimRightSlash (ac_SelfURL (as_config s)), pc_APIListen = ''0.0.0.0:18000'',
      pc_P2PListen = ''/ip4/0.0.0.0/tcp/20000'', pc_Token = ac_Token (as_config s)\<rparr>"

text \<open>The checks \<open>createNode\<close> makes under the mutex, and the reservation of a slot.\<close>

definition admissionError :: "create_request \<Rightarrow> agent_server \<Rightarrow> agent_error option" where
  "admissionError q s =
     (if as_shuttingDown s then Some ShuttingDown
      else if (case map_of (as_runFences s) (cq_RunID q) of None \<Rightarrow> False | Some fence \<Rightarrow> cq_Generation q \<le> fence)
      then Some (Fenced (cq_RunID q) (cq_Generation q) (mget 0 (as_runFences s) (cq_RunID q)))
      else if mhas (as_processes s) (cq_ID q) then Some (NodeExists (cq_ID q))
      else if capacityLocked s \<le> capacityUsedLocked s then Some CapacityReached
      else None)"

text \<open>The outer None is a sampler of the network delay that has not returned.\<close>

definition createNode :: "('r, 'k) agent_env \<Rightarrow> create_request \<Rightarrow> agent_server
    \<Rightarrow> (agent_error + (node \<times> peer_process_config \<times> agent_server)) option" where
  "createNode env q s =
     (if cq_ID q = [] \<or> cq_RunID q = [] \<or> cq_Group q = [] then Some (Inl IdentityRequired)
      else if bad_lifetime q then Some (Inl BadLifetime)
      else case resolveCreateNodeConfig q of (c, nodeType) \<Rightarrow>
        case Node_Validate (av_pubsub env) c of Some e \<Rightarrow> Some (Inl (InvalidConfig e))
        | None \<Rightarrow>
          let requested = av_networkJSON env (nc_Network c)
          in case Network_Resolve (av_math env) (Some (av_random env)) (av_samplerFuel env) (nc_Network c)
                  (av_seeded env (cq_Seed q)) of
               None \<Rightarrow> None
             | Some (_, Some e, _) \<Rightarrow> Some (Inl (UnresolvedNetwork e))
             | Some (network, None, _) \<Rightarrow>
                 let c' = c\<lparr>nc_Network := network\<rparr> in
                 case admissionError q s of Some e \<Rightarrow> Some (Inl e)
                 | None \<Rightarrow>
                   let n = created_node env s q nodeType c' requested
                   in Some (Inr (n, peer_config s q n c', set_process (cq_ID q) (new_process n) s)))"

section \<open>Status reports\<close>

definition newer_overlay :: "node \<Rightarrow> node \<Rightarrow> bool" where
  "newer_overlay update n \<longleftrightarrow> \<not> IsZero (nd_OverlayObservedAt update)
     \<and> (IsZero (nd_OverlayObservedAt n) \<or> nd_OverlayObservedAt n < nd_OverlayObservedAt update)"

definition updated_process :: "('r, 'k) agent_env \<Rightarrow> node \<Rightarrow> process \<Rightarrow> process" where
  "updated_process env update p =
     (let p1 = (if \<not> IsZero (nd_LastSeen update) then p\<lparr>pr_peerStatusObservedAt := nd_LastSeen update\<rparr> else p);
          n1 = (pr_node p1)\<lparr>nd_PeerID := nd_PeerID update\<rparr>;
          n2 = (if nd_State update \<noteq> NodeReady \<or> pr_apiURL p1 \<noteq> [] then n1\<lparr>nd_State := nd_State update\<rparr> else n1);
          n3 = (if nd_State n2 = NodeReady \<and> mget [] (metadata n2) ''readyAt'' = []
                then set_node_metadata ''readyAt'' (av_timeText env (av_now env)) n2 else n2);
          n4 = n3\<lparr>nd_Addresses := nd_Addresses update, nd_ConnectedPeers := nd_ConnectedPeers update,
                  nd_TopicPeers := nd_TopicPeers update, nd_PeerScores := nd_PeerScores update\<rparr>;
          n5 = (if newer_overlay update n4
                then n4\<lparr>nd_RoutingPeers := nd_RoutingPeers update, nd_MeshPeers := nd_MeshPeers update,
                        nd_OverlayObservedAt := nd_OverlayObservedAt update\<rparr> else n4)
      in p1\<lparr>pr_node := n5\<lparr>nd_LastSeen := av_now env, nd_Error := nd_Error update\<rparr>\<rparr>)"

definition stale_update :: "node \<Rightarrow> process \<Rightarrow> bool" where
  "stale_update update p \<longleftrightarrow> \<not> IsZero (pr_peerStatusObservedAt p)
     \<and> (IsZero (nd_LastSeen update) \<or> nd_LastSeen update \<le> pr_peerStatusObservedAt p)"

definition updateNode :: "('r, 'k) agent_env \<Rightarrow> node \<Rightarrow> agent_server \<Rightarrow> agent_error + agent_server" where
  "updateNode env update s =
     (case map_of (as_processes s) (nd_ID update) of
        None \<Rightarrow> Inl (NodeNotFound (nd_ID update))
      | Some p \<Rightarrow>
          if pr_exited p \<or> \<not> node_active (pr_node p) then Inr s
          else if stale_update update p then Inr s
          else Inr (set_process (nd_ID update) (updated_process env update p) s))"

section \<open>Exits\<close>

definition kept_metadata :: "gostring list" where
  "kept_metadata = [''runtime'', ''containerId'', ''containerCreatedAt'', ''containerStartedAt'', ''lifetimeBasis'',
     ''stoppedAt'', ''stopRequestedAt'', ''topics'', ''topicsJSON'', ''pubsubEnabled'', ''topicMode'']"

definition processSuccessfullyStopped :: "process \<Rightarrow> bool" where
  "processSuccessfullyStopped p \<longleftrightarrow> pr_exited p \<and> pr_cleanupErr p = None \<and> nd_State (pr_node p) = NodeStopped"

definition compact_node :: "node \<Rightarrow> node" where
  "compact_node n = n\<lparr>nd_Addresses := [], nd_ConnectedPeers := [], nd_RoutingPeers := [], nd_MeshPeers := [],
     nd_TopicPeers := [], nd_PeerScores := [], nd_OverlayObservedAt := 0,
     nd_Metadata := Some (concat (map (\<lambda>k. case map_of (metadata n) k of None \<Rightarrow> [] | Some v \<Rightarrow> [(k, v)]) kept_metadata))\<rparr>"

definition heartbeatNodeStatus :: "process \<Rightarrow> node" where
  "heartbeatNodeStatus p = (if processSuccessfullyStopped p then compact_node (pr_node p) else pr_node p)"

definition join_errors :: "gostring option list \<Rightarrow> gostring" where
  "join_errors es = (let texts = concat (map (\<lambda>e. case e of None \<Rightarrow> [] | Some t \<Rightarrow> [t]) es)
     in case texts of [] \<Rightarrow> [] | t # ts \<Rightarrow> t @ concat (map (\<lambda>x. CHR 0x0A # x) ts))"

definition finished_process :: "('r, 'k) agent_env \<Rightarrow> gostring option \<Rightarrow> gostring option \<Rightarrow> process \<Rightarrow> process" where
  "finished_process env runErr cleanupErr p =
     (let p1 = p\<lparr>pr_exited := True, pr_cleanupErr := cleanupErr,
                 pr_node := (pr_node p)\<lparr>nd_LastSeen := av_now env\<rparr>\<rparr>;
          p2 = setProcessMetadata ''stoppedAt'' (av_timeText env (av_now env)) p1;
          n = pr_node p2;
          n' = (if cleanupErr = None \<and> (nd_State n = NodeStopping \<or> runErr = None)
                then n\<lparr>nd_State := NodeStopped, nd_Error := []\<rparr>
                else n\<lparr>nd_State := NodeFailed, nd_Error := join_errors [runErr, cleanupErr]\<rparr>);
          p3 = p2\<lparr>pr_node := n'\<rparr>
      in if processSuccessfullyStopped p3 then p3\<lparr>pr_node := heartbeatNodeStatus p3, pr_apiURL := []\<rparr> else p3)"

definition termination_event :: "agent_server \<Rightarrow> gostring \<Rightarrow> go_time \<Rightarrow> process \<Rightarrow> trace_event" where
  "termination_event s eventID now p = zero_event\<lparr>te_EventID := eventID, te_RunID := nd_RunID (pr_node p),
     te_NodeID := nd_ID (pr_node p), te_AgentID := ac_ID (as_config s), te_Type := ''measurement_terminated'',
     te_Timestamp := now\<rparr>"

text \<open>Where the exit marker of a process goes: its random identifier, the segment's name, the write.\<close>

record marker_io =
  mi_eventID :: gostring
  mi_name :: gostring
  mi_write :: outcome
  mi_telemetry :: telemetry_env

definition finishProcess :: "('r, 'k) agent_env \<Rightarrow> marker_io \<Rightarrow> gostring \<Rightarrow> gostring option \<Rightarrow> gostring option
    \<Rightarrow> agent_server \<Rightarrow> agent_server option" where
  "finishProcess env mk i runErr cleanupErr s =
     (case map_of (as_processes s) i of None \<Rightarrow> Some s
      | Some p \<Rightarrow>
          let s1 = (if cleanupErr = None
                    then s\<lparr>as_telemetry := fst (queueTermination (mi_telemetry mk) (mi_name mk) (mi_write mk)
                           (termination_event s (mi_eventID mk) (av_now env) p) (as_telemetry s))\<rparr>
                    else s)
          in if pr_doneClosed p then None
             else Some (set_process i ((finished_process env runErr cleanupErr p)\<lparr>pr_doneClosed := True\<rparr>) s1))"

section \<open>Stops\<close>

definition stopping_process :: "('r, 'k) agent_env \<Rightarrow> process \<Rightarrow> process" where
  "stopping_process env p =
     (let p1 = p\<lparr>pr_node := (pr_node p)\<lparr>nd_State := NodeStopping, nd_LastSeen := av_now env\<rparr>\<rparr>;
          p2 = (if mget [] (metadata (pr_node p1)) ''stopRequestedAt'' = []
                then setProcessMetadata ''stopRequestedAt'' (av_timeText env (av_now env)) p1 else p1)
      in p2\<lparr>pr_canceled := True\<rparr>)"

text \<open>A retried cleanup starts a goroutine of its own, which calls \<open>finishProcess\<close> in the end.\<close>

definition retryContainerCleanupLocked :: "process \<Rightarrow> process" where
  "retryContainerCleanupLocked p = p\<lparr>pr_exited := False, pr_doneClosed := False,
     pr_node := (pr_node p)\<lparr>nd_State := NodeStopping\<rparr>\<rparr>"

definition retries_cleanup :: "process \<Rightarrow> bool" where
  "retries_cleanup p \<longleftrightarrow> pr_cleanupErr p \<noteq> None \<and> pr_containerID p \<noteq> []"

text \<open>The second component of a stop lists the nodes whose cleanup is retried.\<close>

definition stopNode :: "('r, 'k) agent_env \<Rightarrow> gostring \<Rightarrow> agent_server \<Rightarrow> agent_error + (agent_server \<times> gostring list)" where
  "stopNode env i s =
     (case map_of (as_processes s) i of
        None \<Rightarrow> Inl (NodeNotFound i)
      | Some p \<Rightarrow>
          if nd_State (pr_node p) = NodeStopped \<or> nd_State (pr_node p) = NodeFailed
          then (if retries_cleanup p then Inr (set_process i (retryContainerCleanupLocked p) s, [i]) else Inr (s, []))
          else Inr (set_process i (stopping_process env p) s, []))"

definition run_stopped :: "('r, 'k) agent_env \<Rightarrow> gostring \<Rightarrow> nat \<Rightarrow> process \<Rightarrow> process" where
  "run_stopped env run fence p =
     (if nd_RunID (pr_node p) \<noteq> run \<or> fence < nd_Generation (pr_node p) then p
      else if pr_exited p then (if retries_cleanup p then retryContainerCleanupLocked p else p)
      else if \<not> node_active (pr_node p) then p
      else stopping_process env p)"

definition stopRunGeneration :: "('r, 'k) agent_env \<Rightarrow> gostring \<Rightarrow> nat \<Rightarrow> agent_server \<Rightarrow> agent_server \<times> gostring list" where
  "stopRunGeneration env run generation s =
     (let fence = (case map_of (as_runFences s) run of None \<Rightarrow> generation | Some f \<Rightarrow> max f generation);
          retried = map fst (filter (\<lambda>(_, p). nd_RunID (pr_node p) = run \<and> nd_Generation (pr_node p) \<le> fence
                      \<and> pr_exited p \<and> retries_cleanup p) (as_processes s))
      in (s\<lparr>as_runFences := AList.update run fence (as_runFences s),
            as_processes := map_vals (\<lambda>_. run_stopped env run fence) (as_processes s)\<rparr>, retried))"

definition MaxUint64 :: nat where "MaxUint64 = 18446744073709551615"

text \<open>\<open>DELETE /api/v1/nodes\<close> closes every known run before \<open>stopAll\<close>.\<close>

definition fenceAllRuns :: "agent_server \<Rightarrow> agent_server" where
  "fenceAllRuns s = s\<lparr>as_runFences :=
     fold (\<lambda>(_, p). AList.update (nd_RunID (pr_node p)) MaxUint64) (as_processes s) (as_runFences s)\<rparr>"

definition stop_targets :: "agent_server \<Rightarrow> gostring list" where
  "stop_targets s = map fst (filter (\<lambda>(_, p). occupies p) (as_processes s))"

fun stop_each :: "('r, 'k) agent_env \<Rightarrow> gostring list \<Rightarrow> agent_server \<Rightarrow> agent_server \<times> gostring list" where
  "stop_each env [] s = (s, [])"
| "stop_each env (i # ids) s =
     (case stopNode env i s of
        Inl _ \<Rightarrow> stop_each env ids s
      | Inr (s1, r1) \<Rightarrow> (case stop_each env ids s1 of (s2, r2) \<Rightarrow> (s2, r1 @ r2)))"

definition stopAll :: "('r, 'k) agent_env \<Rightarrow> agent_server \<Rightarrow> agent_server \<times> gostring list" where
  "stopAll env s = stop_each env (stop_targets s) s"

definition beginShutdown :: "agent_server \<Rightarrow> agent_server" where
  "beginShutdown s = s\<lparr>as_shuttingDown := True\<rparr>"

section \<open>The container of a process (container.go)\<close>

definition on_process :: "gostring \<Rightarrow> (process \<Rightarrow> process) \<Rightarrow> agent_server \<Rightarrow> agent_server" where
  "on_process i f s = (case map_of (as_processes s) i of None \<Rightarrow> s | Some p \<Rightarrow> set_process i (f p) s)"

definition configWritten :: "gostring \<Rightarrow> process \<Rightarrow> process" where
  "configWritten path p = p\<lparr>pr_configPath := path\<rparr>"

definition containerAdmitted :: "('r, 'k) agent_env \<Rightarrow> process \<Rightarrow> process" where
  "containerAdmitted env = setProcessMetadata ''containerCreatedAt'' (av_timeText env (av_now env))"

definition containerCreated :: "('r, 'k) agent_env \<Rightarrow> gostring \<Rightarrow> gostring \<Rightarrow> process \<Rightarrow> process" where
  "containerCreated env cid url p =
     setProcessMetadata ''containerStartedAt'' (av_timeText env (av_now env))
       (setProcessMetadata ''containerId'' cid (p\<lparr>pr_containerID := cid, pr_apiURL := url\<rparr>))"

definition containerLeftBehind :: "gostring \<Rightarrow> process \<Rightarrow> process" where
  "containerLeftBehind target p = p\<lparr>pr_containerID := target\<rparr>"

definition canceled :: "process \<Rightarrow> process" where
  "canceled p = p\<lparr>pr_canceled := True\<rparr>"

section \<open>Heartbeats\<close>

definition agentStatusLocked :: "go_time \<Rightarrow> gostring \<Rightarrow> agent_server \<Rightarrow> agent" where
  "agentStatusLocked now img s =
     (let c = as_config s in
      zero_agent\<lparr>ag_ID := ac_ID c, ag_Name := ac_Name c, ag_URL := TrimRightSlash (ac_AdvertiseURL c),
        ag_MetricsURL := ac_MetricsURL c, ag_Hostname := ac_Hostname c, ag_Version := ac_Version c,
        ag_PeerImage := img, ag_RunDrain := True, ag_StartupReconciled := as_startupReconciled s,
        ag_Capacity := capacityLocked s, ag_DefaultCapacity := ac_Capacity c,
        ag_CapacityRevision := as_capacityRevision s, ag_ActiveNodes := capacityUsedLocked s,
        ag_State := AgentOnline, ag_Labels := ac_Labels c, ag_StartedAt := as_startedAt s, ag_LastSeen := now\<rparr>)"

definition reported :: "bool \<Rightarrow> process \<Rightarrow> bool" where
  "reported includeAcknowledged p \<longleftrightarrow>
     includeAcknowledged \<or> \<not> (pr_heartbeatAcknowledged p \<and> processSuccessfullyStopped p)"

definition snapshotWithHistory :: "bool \<Rightarrow> go_time \<Rightarrow> gostring \<Rightarrow> agent_server \<Rightarrow> agent_heartbeat" where
  "snapshotWithHistory includeAcknowledged now img s =
     \<lparr>hb_Agent = agentStatusLocked now img s,
      hb_Nodes = sort_Slice (\<lambda>a b. nd_ID a < nd_ID b)
        (map (heartbeatNodeStatus \<circ> snd) (filter (\<lambda>(_, p). reported includeAcknowledged p) (as_processes s))),
      hb_Partial = False\<rparr>"

definition heartbeat_report :: "go_time \<Rightarrow> gostring \<Rightarrow> agent_server \<Rightarrow> agent_heartbeat" where
  "heartbeat_report now img s = (snapshotWithHistory False now img s)\<lparr>hb_Partial := True\<rparr>"

text \<open>\<open>nodes\<close> is the inventory of \<open>GET /api/v1/nodes\<close>.\<close>

definition inventory :: "agent_server \<Rightarrow> node list" where
  "inventory s = sort_Slice (\<lambda>a b. nd_ID a < nd_ID b) (map (pr_node \<circ> snd) (as_processes s))"

definition acknowledge_node :: "node \<Rightarrow> agent_server \<Rightarrow> agent_server" where
  "acknowledge_node n s =
     (case map_of (as_processes s) (nd_ID n) of None \<Rightarrow> s
      | Some p \<Rightarrow> if nd_State n = NodeStopped \<and> processSuccessfullyStopped p
                  then set_process (nd_ID n) (p\<lparr>pr_heartbeatAcknowledged := True\<rparr>) s else s)"

definition acknowledgeHeartbeat :: "node list \<Rightarrow> agent_server \<Rightarrow> agent_server" where
  "acknowledgeHeartbeat nodes s = fold acknowledge_node nodes s"

definition registered :: "agent_server \<Rightarrow> agent_server" where
  "registered s = s\<lparr>as_processes := map_vals (\<lambda>_ p. p\<lparr>pr_heartbeatAcknowledged := False\<rparr>) (as_processes s)\<rparr>"

section \<open>Waiting for containers\<close>

definition waitRunTargets :: "gostring \<Rightarrow> nat \<Rightarrow> agent_server \<Rightarrow> gostring list" where
  "waitRunTargets run generation s = map fst (filter (\<lambda>(_, p). nd_RunID (pr_node p) = run
     \<and> nd_Generation (pr_node p) \<le> generation) (as_processes s))"

definition publishTarget :: "gostring \<Rightarrow> agent_server \<Rightarrow> gostring option" where
  "publishTarget i s =
     (case map_of (as_processes s) i of None \<Rightarrow> None
      | Some p \<Rightarrow> if pr_exited p \<or> nd_State (pr_node p) \<noteq> NodeReady then None else Some (pr_apiURL p))"

end
