(* ===== verification/AgentLifecycle.thy ===== *)
theory AgentLifecycle
  imports AgentProcesses
begin

text \<open>
  The Agent as a state machine: the handlers of \<open>AgentProcesses\<close> interleaved with one goroutine per
  process (\<open>runDockerProcess\<close>, a retried cleanup) and with the containers of the Docker daemon, given
  by their node identifiers. A goroutine is in one of the phases of \<open>worker\<close>. What Docker promises is
  in the rules: a removal that succeeds, or a failed create whose cleanup succeeds, leaves no
  container; any other outcome may leave one.
\<close>

declare map_of_eq_Some_iff [simp del]

datatype worker = Preparing | Creating | Running | Removing

type_synonym agent_system = "agent_server \<times> (gostring \<rightharpoonup> worker) \<times> gostring set"

definition start_removing :: "gostring list \<Rightarrow> (gostring \<rightharpoonup> worker) \<Rightarrow> (gostring \<rightharpoonup> worker)" where
  "start_removing ids w = (\<lambda>i. if i \<in> set ids then Some Removing else w i)"

definition clock :: "('r, 'k) agent_env \<Rightarrow> go_time \<Rightarrow> ('r, 'k) agent_env" where
  "clock env now = env\<lparr>av_now := now\<rparr>"

inductive agent_step :: "('r, 'k) agent_env \<Rightarrow> agent_system \<Rightarrow> agent_system \<Rightarrow> bool" for env where
  create: "createNode (clock env now) q s = Some (Inr (n, pc, s')) \<Longrightarrow>
     agent_step env (s, w, c) (s', w(cq_ID q \<mapsto> Preparing), c)"
| prepared: "w i = Some Preparing \<Longrightarrow>
     agent_step env (s, w, c) (on_process i (configWritten path) s, w(i \<mapsto> Creating), c)"
| prepare_failed: "w i = Some Preparing \<Longrightarrow> finishProcess (clock env now) mk i (Some e1) None (on_process i canceled s) = Some s' \<Longrightarrow>
     agent_step env (s, w, c) (s', w(i := None), c)"
| daemon_created: "w i = Some Creating \<Longrightarrow> agent_step env (s, w, c) (s, w, insert i c)"
| admitted: "w i = Some Creating \<Longrightarrow> agent_step env (s, w, c) (on_process i (containerAdmitted (clock env now)) s, w, c)"
| create_failed: "w i = Some Creating \<Longrightarrow> finishProcess (clock env now) mk i (Some e1) None s = Some s' \<Longrightarrow>
     agent_step env (s, w, c) (s', w(i := None), c - {i})"
| create_left_behind: "w i = Some Creating \<Longrightarrow> target \<noteq> [] \<Longrightarrow>
     finishProcess (clock env now) mk i (Some e1) (Some e2) (on_process i (containerLeftBehind target) s) = Some s' \<Longrightarrow>
     agent_step env (s, w, c) (s', w(i := None), insert i c)"
| started: "w i = Some Creating \<Longrightarrow> cid \<noteq> [] \<Longrightarrow>
     agent_step env (s, w, c) (on_process i (containerCreated (clock env now) cid url) s, w(i \<mapsto> Running), insert i c)"
| removed: "w i = Some Running \<or> w i = Some Removing \<and> runErr = None \<Longrightarrow>
     finishProcess (clock env now) mk i runErr None s = Some s' \<Longrightarrow> agent_step env (s, w, c) (s', w(i := None), c - {i})"
| remove_failed: "w i = Some Running \<or> w i = Some Removing \<and> runErr = None \<Longrightarrow>
     finishProcess (clock env now) mk i runErr (Some e2) s = Some s' \<Longrightarrow> agent_step env (s, w, c) (s', w(i := None), c)"
| stop: "stopNode (clock env now) i s = Inr (s', ids) \<Longrightarrow> agent_step env (s, w, c) (s', start_removing ids w, c)"
| stop_run: "stopRunGeneration (clock env now) run g s = (s', ids) \<Longrightarrow> agent_step env (s, w, c) (s', start_removing ids w, c)"
| fence_all: "agent_step env (s, w, c) (fenceAllRuns s, w, c)"
| shutdown: "agent_step env (s, w, c) (beginShutdown s, w, c)"
| update: "updateNode (clock env now) update s = Inr s' \<Longrightarrow> agent_step env (s, w, c) (s', w, c)"
| capacity: "acceptCapacityHeader raw parsed revision s = (s', ok) \<Longrightarrow> agent_step env (s, w, c) (s', w, c)"
| register: "agent_step env (s, w, c) (registered s, w, c)"
| acknowledged: "agent_step env (s, w, c) (acknowledgeHeartbeat ns s, w, c)"
| telemetry: "agent_step env (s, w, c) (s\<lparr>as_telemetry := t\<rparr>, w, c)"

end
