(* ===== verification/AgentInvariant.thy ===== *)
theory AgentInvariant
  imports AgentLifecycle
begin

text \<open>
  What holds of every process in every reachable state of the Agent (\<open>proc_inv\<close>), and how one step may
  change a process (\<open>evolves\<close>).
\<close>

declare map_of_eq_Some_iff [simp del]

section \<open>What the operations change\<close>

lemma set_process_simps [simp]:
  "as_processes (set_process i p s) = AList.update i p (as_processes s)"
  "as_runFences (set_process i p s) = as_runFences s" "as_config (set_process i p s) = as_config s"
  "as_capacityLimit (set_process i p s) = as_capacityLimit s"
  by (simp_all add: set_process_def)

lemma set_node_metadata_simps [simp]:
  "nd_ID (set_node_metadata k v n) = nd_ID n" "nd_RunID (set_node_metadata k v n) = nd_RunID n"
  "nd_Generation (set_node_metadata k v n) = nd_Generation n" "nd_State (set_node_metadata k v n) = nd_State n"
  by (simp_all add: set_node_metadata_def)

lemma setProcessMetadata_simps [simp]:
  "pr_node (setProcessMetadata k v p) = set_node_metadata k v (pr_node p)"
  "pr_exited (setProcessMetadata k v p) = pr_exited p" "pr_cleanupErr (setProcessMetadata k v p) = pr_cleanupErr p"
  "pr_containerID (setProcessMetadata k v p) = pr_containerID p" "pr_doneClosed (setProcessMetadata k v p) = pr_doneClosed p"
  "pr_heartbeatAcknowledged (setProcessMetadata k v p) = pr_heartbeatAcknowledged p"
  "pr_peerStatusObservedAt (setProcessMetadata k v p) = pr_peerStatusObservedAt p"
  by (simp_all add: setProcessMetadata_def)

lemma compact_node_simps [simp]:
  "nd_ID (compact_node n) = nd_ID n" "nd_RunID (compact_node n) = nd_RunID n"
  "nd_Generation (compact_node n) = nd_Generation n" "nd_State (compact_node n) = nd_State n"
  by (simp_all add: compact_node_def)

lemma finished_process_simps [simp]:
  "pr_exited (finished_process env r e p)" "pr_cleanupErr (finished_process env r e p) = e"
  "pr_containerID (finished_process env r e p) = pr_containerID p"
  "pr_heartbeatAcknowledged (finished_process env r e p) = pr_heartbeatAcknowledged p"
  "pr_peerStatusObservedAt (finished_process env r e p) = pr_peerStatusObservedAt p"
  "nd_ID (pr_node (finished_process env r e p)) = nd_ID (pr_node p)"
  "nd_RunID (pr_node (finished_process env r e p)) = nd_RunID (pr_node p)"
  "nd_Generation (pr_node (finished_process env r e p)) = nd_Generation (pr_node p)"
  "nd_State (pr_node (finished_process env r e p))
     = (if e = None \<and> (nd_State (pr_node p) = NodeStopping \<or> r = None) then NodeStopped else NodeFailed)"
  by (simp_all add: finished_process_def Let_def heartbeatNodeStatus_def)

lemma stopping_process_simps [simp]:
  "pr_exited (stopping_process env p) = pr_exited p" "pr_cleanupErr (stopping_process env p) = pr_cleanupErr p"
  "pr_containerID (stopping_process env p) = pr_containerID p" "pr_doneClosed (stopping_process env p) = pr_doneClosed p"
  "pr_heartbeatAcknowledged (stopping_process env p) = pr_heartbeatAcknowledged p"
  "pr_peerStatusObservedAt (stopping_process env p) = pr_peerStatusObservedAt p"
  "nd_ID (pr_node (stopping_process env p)) = nd_ID (pr_node p)"
  "nd_RunID (pr_node (stopping_process env p)) = nd_RunID (pr_node p)"
  "nd_Generation (pr_node (stopping_process env p)) = nd_Generation (pr_node p)"
  "nd_State (pr_node (stopping_process env p)) = NodeStopping" "pr_canceled (stopping_process env p)"
  by (simp_all add: stopping_process_def Let_def)

lemma updated_process_simps [simp]:
  "pr_exited (updated_process env u p) = pr_exited p" "pr_cleanupErr (updated_process env u p) = pr_cleanupErr p"
  "pr_containerID (updated_process env u p) = pr_containerID p" "pr_doneClosed (updated_process env u p) = pr_doneClosed p"
  "pr_heartbeatAcknowledged (updated_process env u p) = pr_heartbeatAcknowledged p"
  "pr_peerStatusObservedAt (updated_process env u p)
     = (if IsZero (nd_LastSeen u) then pr_peerStatusObservedAt p else nd_LastSeen u)"
  "nd_ID (pr_node (updated_process env u p)) = nd_ID (pr_node p)"
  "nd_RunID (pr_node (updated_process env u p)) = nd_RunID (pr_node p)"
  "nd_Generation (pr_node (updated_process env u p)) = nd_Generation (pr_node p)"
  "nd_State (pr_node (updated_process env u p))
     = (if nd_State u \<noteq> NodeReady \<or> pr_apiURL p \<noteq> [] then nd_State u else nd_State (pr_node p))"
  by (simp_all add: updated_process_def Let_def)

section \<open>The invariant\<close>

definition proc_inv :: "gostring \<Rightarrow> worker option \<Rightarrow> bool \<Rightarrow> process \<Rightarrow> bool" where
  "proc_inv i wi ci p \<longleftrightarrow> nd_ID (pr_node p) = i \<and> (wi = None \<longleftrightarrow> pr_exited p) \<and> (pr_doneClosed p \<longleftrightarrow> pr_exited p)
     \<and> (pr_cleanupErr p \<noteq> None \<longrightarrow> pr_containerID p \<noteq> []
          \<and> nd_State (pr_node p) = (if pr_exited p then NodeFailed else NodeStopping))
     \<and> (pr_exited p \<longrightarrow> nd_State (pr_node p) \<in> {NodeStopped, NodeFailed})
     \<and> (wi \<noteq> None \<longrightarrow> (wi = Some Removing \<longleftrightarrow> pr_cleanupErr p \<noteq> None))
     \<and> (wi = Some Running \<longrightarrow> pr_containerID p \<noteq> [])
     \<and> (wi = Some Preparing \<longrightarrow> \<not> ci)
     \<and> (pr_heartbeatAcknowledged p \<longrightarrow> processSuccessfullyStopped p)
     \<and> (ci \<longrightarrow> occupies p)"

definition sys_inv :: "agent_system \<Rightarrow> bool" where
  "sys_inv x = (case x of (s, w, c) \<Rightarrow> wf_map (as_processes s) \<and>
     (\<forall>i p. map_of (as_processes s) i = Some p \<longrightarrow> proc_inv i (w i) (i \<in> c) p)
     \<and> (\<forall>i. map_of (as_processes s) i = None \<longrightarrow> w i = None \<and> i \<notin> c))"

lemma sys_invD: "sys_inv (s, w, c) \<Longrightarrow> map_of (as_processes s) i = Some p \<Longrightarrow> proc_inv i (w i) (i \<in> c) p"
  by (simp add: sys_inv_def)

lemma sys_inv_wf: "sys_inv (s, w, c) \<Longrightarrow> wf_map (as_processes s)"
  by (simp add: sys_inv_def)

lemma worker_process:
  assumes "sys_inv (s, w, c)" "w i = Some ph"
  obtains p where "map_of (as_processes s) i = Some p" "proc_inv i (Some ph) (i \<in> c) p"
proof -
  obtain p where p: "map_of (as_processes s) i = Some p"
    using assms by (cases "map_of (as_processes s) i") (auto simp: sys_inv_def)
  with sys_invD [OF assms(1) p] assms(2) show ?thesis using that by simp
qed

lemma sys_inv_set:
  assumes "sys_inv (s, w, c)" and "as_processes s' = AList.update i p (as_processes s)"
    and "proc_inv i (w' i) (i \<in> c') p" and "\<And>j. j \<noteq> i \<Longrightarrow> w' j = w j \<and> (j \<in> c' \<longleftrightarrow> j \<in> c)"
  shows "sys_inv (s', w', c')"
proof -
  have m: "map_of (as_processes s') = (map_of (as_processes s))(i \<mapsto> p)" by (simp add: assms(2))
  have "wf_map (as_processes s')" using assms(1) by (simp add: assms(2) sys_inv_def)
  moreover have "proc_inv j (w' j) (j \<in> c') q" if "map_of (as_processes s') j = Some q" for j q
    using that assms(3,4) sys_invD [OF assms(1), of j q] by (cases "j = i") (auto simp: m)
  moreover have "w' j = None \<and> j \<notin> c'" if "map_of (as_processes s') j = None" for j
    using that assms(1,4) by (auto simp: m sys_inv_def split: if_split_asm)
  ultimately show ?thesis by (simp add: sys_inv_def)
qed

lemma sys_inv_on_process:
  assumes "sys_inv (s, w, c)" and "\<And>p. proc_inv i (w i) (i \<in> c) p \<Longrightarrow> proc_inv i (w' i) (i \<in> c') (f p)"
    and "\<And>j. j \<noteq> i \<Longrightarrow> w' j = w j \<and> (j \<in> c' \<longleftrightarrow> j \<in> c)" and "w i \<noteq> None"
  shows "sys_inv (on_process i f s, w', c')"
proof -
  obtain p where p: "map_of (as_processes s) i = Some p" "proc_inv i (w i) (i \<in> c) p"
    using worker_process [OF assms(1)] assms(4) by (metis not_None_eq)
  show ?thesis
    by (rule sys_inv_set [where p = "f p", OF assms(1)])
       (use p assms(2,3) in \<open>simp_all add: on_process_def\<close>)
qed

lemma same_processes: "sys_inv (s, w, c) \<Longrightarrow> as_processes s' = as_processes s \<Longrightarrow> sys_inv (s', w, c)"
  by (simp add: sys_inv_def)

section \<open>Finishing a process\<close>

lemma finishProcess_total:
  assumes "sys_inv (s, w, c)" "w i = Some ph"
  obtains p t where "map_of (as_processes s) i = Some p" "proc_inv i (Some ph) (i \<in> c) p"
    "finishProcess env mk i r e s
       = Some (set_process i ((finished_process env r e p)\<lparr>pr_doneClosed := True\<rparr>) (s\<lparr>as_telemetry := t\<rparr>))"
proof -
  obtain p where p: "map_of (as_processes s) i = Some p" "proc_inv i (Some ph) (i \<in> c) p"
    using worker_process [OF assms] .
  then have "\<not> pr_doneClosed p" by (simp add: proc_inv_def)
  then have "\<exists>t. finishProcess env mk i r e s
       = Some (set_process i ((finished_process env r e p)\<lparr>pr_doneClosed := True\<rparr>) (s\<lparr>as_telemetry := t\<rparr>))"
  proof (cases e)
    case (Some x)
    then show ?thesis using p(1) \<open>\<not> pr_doneClosed p\<close>
      by (intro exI [of _ "as_telemetry s"]) (simp add: finishProcess_def)
  qed (use p(1) \<open>\<not> pr_doneClosed p\<close> in \<open>auto simp: finishProcess_def Let_def\<close>)
  then show ?thesis using that p by blast
qed

lemma finish_inv:
  assumes inv: "sys_inv (s, w, c)" and wi: "w i = Some ph"
    and fin: "finishProcess env mk i r e s = Some s'"
    and e: "if e = None then i \<notin> c' else (\<forall>p. map_of (as_processes s) i = Some p \<longrightarrow> pr_containerID p \<noteq> [])"
    and same: "\<And>j. j \<noteq> i \<Longrightarrow> j \<in> c' \<longleftrightarrow> j \<in> c"
  shows "sys_inv (s', w(i := None), c')"
proof -
  obtain p t where p: "map_of (as_processes s) i = Some p" "proc_inv i (Some ph) (i \<in> c) p"
    and s': "s' = set_process i ((finished_process env r e p)\<lparr>pr_doneClosed := True\<rparr>) (s\<lparr>as_telemetry := t\<rparr>)"
    using finishProcess_total [OF inv wi, where env = env and mk = mk and r = r and e = e] fin
    by (metis option.inject)
  have nack: "\<not> pr_heartbeatAcknowledged p"
    using p(2) by (auto simp: proc_inv_def processSuccessfullyStopped_def)
  show ?thesis
    by (rule sys_inv_set [OF inv, where i = i])
       (use p nack e same s' in \<open>auto simp: proc_inv_def occupies_def processSuccessfullyStopped_def split: if_split_asm\<close>)
qed


section \<open>How a process may change\<close>

definition settled :: "process \<Rightarrow> bool" where
  "settled p \<longleftrightarrow> pr_exited p \<and> pr_cleanupErr p = None"

definition evolves :: "process \<Rightarrow> process \<Rightarrow> bool" where
  "evolves p p' \<longleftrightarrow> nd_ID (pr_node p') = nd_ID (pr_node p) \<and> nd_RunID (pr_node p') = nd_RunID (pr_node p)
     \<and> nd_Generation (pr_node p') = nd_Generation (pr_node p)
     \<and> (\<not> node_active (pr_node p) \<longrightarrow> \<not> node_active (pr_node p'))
     \<and> (settled p \<longrightarrow> p'\<lparr>pr_heartbeatAcknowledged := pr_heartbeatAcknowledged p\<rparr> = p)
     \<and> (pr_exited p \<or> pr_cleanupErr p \<noteq> None \<longrightarrow> pr_exited p' \<or> pr_cleanupErr p' \<noteq> None)
     \<and> (occupies p' \<longrightarrow> occupies p)"

definition fenced :: "agent_server \<Rightarrow> node \<Rightarrow> bool" where
  "fenced s n \<longleftrightarrow> nd_Generation n \<le> MaxUint64 \<and> (\<exists>f. map_of (as_runFences s) (nd_RunID n) = Some f \<and> nd_Generation n \<le> f)"

definition progress :: "agent_server \<Rightarrow> agent_server \<Rightarrow> bool" where
  "progress s s' \<longleftrightarrow>
     (\<forall>i p. map_of (as_processes s) i = Some p \<longrightarrow> (\<exists>p'. map_of (as_processes s') i = Some p' \<and> evolves p p'))
     \<and> (\<forall>i p'. map_of (as_processes s) i = None \<and> map_of (as_processes s') i = Some p' \<longrightarrow> \<not> fenced s (pr_node p'))
     \<and> (\<forall>n. fenced s n \<longrightarrow> fenced s' n)"

lemma evolves_refl [simp, intro]: "evolves p p"
  by (simp add: evolves_def)

lemma settled_kept: "settled p \<Longrightarrow> evolves p p' \<Longrightarrow> settled p'"
proof -
  assume s: "settled p" and e: "evolves p p'"
  then have "p'\<lparr>pr_heartbeatAcknowledged := pr_heartbeatAcknowledged p\<rparr> = p" by (simp add: evolves_def)
  then have "pr_exited p' = pr_exited p" "pr_cleanupErr p' = pr_cleanupErr p"
    by (metis process.surjective process.update_convs(9) process.select_convs)+
  with s show "settled p'" by (simp add: settled_def)
qed

lemma evolves_trans: "evolves p q \<Longrightarrow> evolves q r \<Longrightarrow> evolves p r"
proof -
  assume pq: "evolves p q" and qr: "evolves q r"
  have "r\<lparr>pr_heartbeatAcknowledged := pr_heartbeatAcknowledged p\<rparr> = p" if "settled p"
  proof -
    have "settled q" using settled_kept that pq by blast
    then have "r\<lparr>pr_heartbeatAcknowledged := pr_heartbeatAcknowledged q\<rparr> = q"
      and "q\<lparr>pr_heartbeatAcknowledged := pr_heartbeatAcknowledged p\<rparr> = p"
      using that pq qr by (simp_all add: evolves_def)
    then show ?thesis by (metis process.update_convs(9) process.surjective process.select_convs(9))
  qed
  then show ?thesis using pq qr unfolding evolves_def by metis
qed

lemma fenced_cong: "nd_RunID n = nd_RunID m \<Longrightarrow> nd_Generation n = nd_Generation m \<Longrightarrow> fenced s n = fenced s m"
  by (simp add: fenced_def)

lemma progress_refl [simp, intro]: "progress s s"
  by (auto simp: progress_def)

lemma progress_trans:
  assumes st: "progress s t" and tu: "progress t u" shows "progress s u"
proof -
  have "\<exists>r. map_of (as_processes u) i = Some r \<and> evolves p r" if "map_of (as_processes s) i = Some p" for i p
    using that st tu unfolding progress_def by (meson evolves_trans)
  moreover have "\<not> fenced s (pr_node r)"
    if none: "map_of (as_processes s) i = None" and u: "map_of (as_processes u) i = Some r" for i r
  proof (cases "map_of (as_processes t) i")
    case None
    then show ?thesis using u st tu unfolding progress_def by blast
  next
    case (Some q)
    then have "evolves q r" using u tu unfolding progress_def by fastforce
    then have "fenced s (pr_node r) = fenced s (pr_node q)" by (intro fenced_cong) (simp_all add: evolves_def)
    then show ?thesis using none Some st unfolding progress_def by blast
  qed
  ultimately show ?thesis using st tu unfolding progress_def by blast
qed

lemma progress_set:
  assumes "map_of (as_processes s) i = Some p" "evolves p p'" "as_processes s' = AList.update i p' (as_processes s)"
    and "as_runFences s' = as_runFences s"
  shows "progress s s'"
  using assms by (auto simp: progress_def fenced_def)

lemma progress_on_process:
  "(\<And>p. map_of (as_processes s) i = Some p \<Longrightarrow> evolves p (f p)) \<Longrightarrow> progress s (on_process i f s)"
  by (cases "map_of (as_processes s) i") (auto simp: on_process_def intro: progress_set)

lemma progress_same:
  "as_processes s' = as_processes s \<Longrightarrow> as_runFences s' = as_runFences s \<Longrightarrow> progress s s'"
  by (auto simp: progress_def fenced_def)

lemma finish_progress:
  assumes inv: "sys_inv (s, w, c)" and wi: "w i = Some ph" and fin: "finishProcess env mk i r e s = Some s'"
  shows "progress s s'"
proof -
  obtain p t where p: "map_of (as_processes s) i = Some p" "proc_inv i (Some ph) (i \<in> c) p"
    and s': "s' = set_process i ((finished_process env r e p)\<lparr>pr_doneClosed := True\<rparr>) (s\<lparr>as_telemetry := t\<rparr>)"
    using finishProcess_total [OF inv wi, where env = env and mk = mk and r = r and e = e] fin
    by (metis option.inject)
  show ?thesis
    by (rule progress_set [OF p(1)])
       (use p(2) s' in \<open>auto simp: evolves_def proc_inv_def settled_def node_active_def occupies_def\<close>)
qed

section \<open>Stops and reports\<close>

lemma retry_inv:
  assumes "proc_inv i wi ci p" "pr_exited p" "retries_cleanup p"
  shows "proc_inv i (Some Removing) ci (retryContainerCleanupLocked p)"
    and "evolves p (retryContainerCleanupLocked p)"
  using assms by (auto simp: proc_inv_def retryContainerCleanupLocked_def retries_cleanup_def evolves_def
      occupies_def processSuccessfullyStopped_def settled_def node_active_def)

lemma stopping_inv:
  assumes "proc_inv i wi ci p" "\<not> pr_exited p"
  shows "proc_inv i wi ci (stopping_process env p)" and "evolves p (stopping_process env p)"
  using assms by (auto simp: proc_inv_def evolves_def occupies_def processSuccessfullyStopped_def settled_def node_active_def)

lemma update_inv:
  assumes "proc_inv i wi ci p" "\<not> pr_exited p" "node_active (pr_node p)"
  shows "proc_inv i wi ci (updated_process env u p)" and "evolves p (updated_process env u p)"
  using assms by (auto simp: proc_inv_def evolves_def occupies_def processSuccessfullyStopped_def settled_def node_active_def)

lemma not_exited_iff: "proc_inv i wi ci p \<Longrightarrow> nd_State (pr_node p) = NodeStopping \<Longrightarrow> \<not> pr_exited p"
  by (auto simp: proc_inv_def)

lemma retried_exited:
  "proc_inv i wi ci p \<Longrightarrow> retries_cleanup p \<Longrightarrow> nd_State (pr_node p) = NodeStopped \<or> nd_State (pr_node p) = NodeFailed
     \<Longrightarrow> pr_exited p"
  by (cases "pr_exited p") (auto simp: proc_inv_def retries_cleanup_def)

lemma run_stopped_inv:
  assumes "proc_inv i wi ci p"
  shows "proc_inv i (if nd_RunID (pr_node p) = run \<and> nd_Generation (pr_node p) \<le> fence \<and> pr_exited p \<and> retries_cleanup p
           then Some Removing else wi) ci (run_stopped env run fence p)"
    and "evolves p (run_stopped env run fence p)"
  using assms retry_inv [OF assms] stopping_inv [OF assms, of env] by (auto simp: run_stopped_def not_less)


lemma start_removing_simps [simp]:
  "start_removing [] w = w" "start_removing ids w i = (if i \<in> set ids then Some Removing else w i)"
  by (auto simp: start_removing_def)

lemma stopNode_step:
  assumes inv: "sys_inv (s, w, c)" and st: "stopNode env i s = Inr (s', ids)"
  shows "sys_inv (s', start_removing ids w, c) \<and> progress s s'"
proof -
  obtain p where p: "map_of (as_processes s) i = Some p" using st by (auto simp: stopNode_def split: option.split_asm)
  note pi = sys_invD [OF inv p]
  let ?done = "nd_State (pr_node p) = NodeStopped \<or> nd_State (pr_node p) = NodeFailed"
  consider (retry) "?done" "retries_cleanup p" "s' = set_process i (retryContainerCleanupLocked p) s" "ids = [i]"
    | (nothing) "s' = s" "ids = []"
    | (stop) "\<not> ?done" "s' = set_process i (stopping_process env p) s" "ids = []"
    using st p by (auto simp: stopNode_def split: if_split_asm)
  then show ?thesis
  proof cases
    case retry
    note ri = retry_inv [OF pi retried_exited [OF pi retry(2,1)] retry(2)]
    have "sys_inv (s', start_removing ids w, c)"
      by (rule sys_inv_set [OF inv]) (use retry ri(1) in auto)
    moreover have "progress s s'" by (rule progress_set [OF p ri(2)]) (simp_all add: retry)
    ultimately show ?thesis ..
  next
    case nothing
    then show ?thesis using inv by simp
  next
    case stop
    have "\<not> pr_exited p" using pi stop(1) by (auto simp: proc_inv_def)
    note si = stopping_inv [OF pi this]
    have "sys_inv (s', start_removing ids w, c)"
      by (rule sys_inv_set [OF inv]) (use stop si(1) in auto)
    moreover have "progress s s'" by (rule progress_set [OF p si(2)]) (simp_all add: stop)
    ultimately show ?thesis ..
  qed
qed

lemma stop_run_step:
  assumes inv: "sys_inv (s, w, c)" and st: "stopRunGeneration env run g s = (s', ids)"
  shows "sys_inv (s', start_removing ids w, c) \<and> progress s s'"
proof -
  define fence where "fence = (case map_of (as_runFences s) run of None \<Rightarrow> g | Some f \<Rightarrow> max f g)"
  have procs: "as_processes s' = map_vals (\<lambda>_. run_stopped env run fence) (as_processes s)"
    and fences: "as_runFences s' = AList.update run fence (as_runFences s)"
    and ids: "ids = map fst (filter (\<lambda>(_, p). nd_RunID (pr_node p) = run \<and> nd_Generation (pr_node p) \<le> fence
                      \<and> pr_exited p \<and> retries_cleanup p) (as_processes s))"
    using st by (auto simp: stopRunGeneration_def Let_def fence_def)
  have mem: "i \<in> set ids \<longleftrightarrow> nd_RunID (pr_node p) = run \<and> nd_Generation (pr_node p) \<le> fence
      \<and> pr_exited p \<and> retries_cleanup p" if "map_of (as_processes s) i = Some p" for i p
    using that sys_inv_wf [OF inv] map_of_eq_Some_iff [of "as_processes s" i]
    by (force simp: ids image_iff)
  have notmem: "i \<notin> set ids" if "map_of (as_processes s) i = None" for i
    using that by (auto simp: ids map_of_eq_None_iff image_iff)
  have m: "map_of (as_processes s') i = map_option (run_stopped env run fence) (map_of (as_processes s) i)" for i
    by (simp add: procs)
  have "proc_inv i (start_removing ids w i) (i \<in> c) q" if q': "map_of (as_processes s') i = Some q" for i q
  proof -
    obtain p where p: "map_of (as_processes s) i = Some p" and q: "q = run_stopped env run fence p"
      using q' by (auto simp: m)
    then show ?thesis using run_stopped_inv(1) [OF sys_invD [OF inv p], of run fence env] mem [OF p] by simp
  qed
  moreover have "start_removing ids w i = None \<and> i \<notin> c" if "map_of (as_processes s') i = None" for i
    using that notmem inv by (simp add: m sys_inv_def)
  moreover have "wf_map (as_processes s')" using sys_inv_wf [OF inv] by (simp add: procs)
  ultimately have inv': "sys_inv (s', start_removing ids w, c)" by (simp add: sys_inv_def)
  have "fenced s n \<Longrightarrow> fenced s' n" for n
    by (auto simp: fenced_def fences fence_def)
  moreover have "evolves p (run_stopped env run fence p)" if "map_of (as_processes s) i = Some p" for i p
    using run_stopped_inv(2) [OF sys_invD [OF inv that]] .
  ultimately have "progress s s'" by (auto simp: progress_def m)
  with inv' show ?thesis ..
qed

lemma fold_fences:
  "map_of (fold (\<lambda>(_, p). AList.update (f p) v) ps m) k
     = (if k \<in> f ` snd ` set ps then Some v else map_of m k)"
  by (induction ps arbitrary: m) auto

lemma fence_all_processes [simp]: "as_processes (fenceAllRuns s) = as_processes s"
  by (simp add: fenceAllRuns_def)

lemma fence_all_progress: "progress s (fenceAllRuns s)"
  by (auto simp: progress_def fenceAllRuns_def fenced_def fold_fences)

lemma createNode_accepted:
  assumes "createNode env q s = Some (Inr (n, pc, s'))"
  shows "admissionError q s = None" and "s' = set_process (cq_ID q) (new_process n) s"
    and "nd_ID n = cq_ID q" "nd_RunID n = cq_RunID q" "nd_Generation n = cq_Generation q" "nd_State n = NodeStarting"
proof -
  obtain c ty network requested where "admissionError q s = None" and s': "s' = set_process (cq_ID q) (new_process n) s"
    and n: "n = created_node env s q ty (c\<lparr>nc_Network := network\<rparr>) requested"
    using assms by (auto simp: createNode_def Let_def split: if_split_asm prod.splits option.split_asm)
  then show "admissionError q s = None" and "s' = set_process (cq_ID q) (new_process n) s" by simp_all
  show "nd_ID n = cq_ID q" "nd_RunID n = cq_RunID q" "nd_Generation n = cq_Generation q" "nd_State n = NodeStarting"
    unfolding n created_node_def Let_def by simp_all
qed

lemma admissionError_None:
  "admissionError q s = None \<longleftrightarrow> \<not> as_shuttingDown s
     \<and> \<not> (\<exists>f. map_of (as_runFences s) (cq_RunID q) = Some f \<and> cq_Generation q \<le> f)
     \<and> map_of (as_processes s) (cq_ID q) = None \<and> capacityUsedLocked s < capacityLocked s"
  by (auto simp: admissionError_def mhas_def split: option.split)

lemma create_step:
  assumes inv: "sys_inv (s, w, c)" and cr: "createNode env q s = Some (Inr (n, pc, s'))"
  shows "sys_inv (s', w(cq_ID q \<mapsto> Preparing), c) \<and> progress s s'"
proof -
  note acc = createNode_accepted [OF cr]
  have none: "map_of (as_processes s) (cq_ID q) = None" using acc(1) by (simp add: admissionError_None)
  then have c: "cq_ID q \<notin> c" using inv by (simp add: sys_inv_def)
  have "proc_inv (cq_ID q) (Some Preparing) False (new_process n)"
    using acc(3) by (simp add: proc_inv_def new_process_def)
  then have "sys_inv (s', w(cq_ID q \<mapsto> Preparing), c)"
    by (intro sys_inv_set [OF inv, where i = "cq_ID q"]) (use acc(2) c in simp_all)
  moreover have "progress s s'"
    using acc none by (auto simp: progress_def fenced_def new_process_def admissionError_None)
  ultimately show ?thesis ..
qed

lemma acknowledge_fold:
  assumes "sys_inv (s, w, c)" shows "sys_inv (acknowledgeHeartbeat ns s, w, c) \<and> progress s (acknowledgeHeartbeat ns s)"
  using assms
proof (induction ns arbitrary: s)
  case (Cons n ns)
  have "sys_inv (acknowledge_node n s, w, c) \<and> progress s (acknowledge_node n s)"
  proof (cases "\<exists>p. map_of (as_processes s) (nd_ID n) = Some p \<and> nd_State n = NodeStopped \<and> processSuccessfullyStopped p")
    case True
    then obtain p where p: "map_of (as_processes s) (nd_ID n) = Some p" "nd_State n = NodeStopped" "processSuccessfullyStopped p"
      by blast
    let ?p = "p\<lparr>pr_heartbeatAcknowledged := True\<rparr>"
    have a: "acknowledge_node n s = set_process (nd_ID n) ?p s" using p by (simp add: acknowledge_node_def)
    have "proc_inv (nd_ID n) (w (nd_ID n)) (nd_ID n \<in> c) ?p"
      using sys_invD [OF Cons.prems p(1)] p(3) by (simp add: proc_inv_def processSuccessfullyStopped_def occupies_def)
    then have "sys_inv (acknowledge_node n s, w, c)"
      by (intro sys_inv_set [OF Cons.prems, where i = "nd_ID n"]) (simp_all add: a)
    moreover have "progress s (acknowledge_node n s)"
      by (rule progress_set [OF p(1), of ?p]) (simp_all add: a evolves_def occupies_def)
    ultimately show ?thesis ..
  next
    case False
    then have "acknowledge_node n s = s" by (auto simp: acknowledge_node_def split: option.split)
    then show ?thesis using Cons.prems by simp
  qed
  with Cons.IH show ?case by (auto simp: acknowledgeHeartbeat_def intro: progress_trans)
qed (simp add: acknowledgeHeartbeat_def)

lemma registered_step:
  assumes "sys_inv (s, w, c)" shows "sys_inv (registered s, w, c) \<and> progress s (registered s)"
proof -
  have "proc_inv i wi ci p \<Longrightarrow> proc_inv i wi ci (p\<lparr>pr_heartbeatAcknowledged := False\<rparr>)" for i wi ci p
    by (cases "pr_exited p") (auto simp: proc_inv_def processSuccessfullyStopped_def occupies_def)
  then show ?thesis
    using assms by (auto simp: registered_def sys_inv_def progress_def fenced_def evolves_def occupies_def)
qed

section \<open>One step\<close>

lemma on_process_step:
  assumes "sys_inv (s, w, c)" and "w i \<noteq> None"
    and "\<And>p. proc_inv i (w i) (i \<in> c) p \<Longrightarrow> proc_inv i (w' i) (i \<in> c') (f p) \<and> evolves p (f p)"
    and "\<And>j. j \<noteq> i \<Longrightarrow> w' j = w j \<and> (j \<in> c' \<longleftrightarrow> j \<in> c)"
  shows "sys_inv (on_process i f s, w', c') \<and> progress s (on_process i f s)"
proof
  show "sys_inv (on_process i f s, w', c')"
    by (rule sys_inv_on_process [OF assms(1)]) (use assms in auto)
  show "progress s (on_process i f s)"
    by (rule progress_on_process) (use assms(3) sys_invD [OF assms(1)] in blast)
qed

lemma finish_step:
  assumes "sys_inv (s, w, c)" "w i = Some ph" "finishProcess env mk i r e s = Some s'"
    and "if e = None then i \<notin> c' else (\<forall>p. map_of (as_processes s) i = Some p \<longrightarrow> pr_containerID p \<noteq> [])"
    and "\<And>j. j \<noteq> i \<Longrightarrow> j \<in> c' \<longleftrightarrow> j \<in> c"
  shows "sys_inv (s', w(i := None), c') \<and> progress s s'"
  using finish_inv [OF assms(1-4)] assms(5) finish_progress [OF assms(1-3)] by blast

lemma agent_step_inv:
  assumes "agent_step env x y" and "sys_inv x"
  shows "sys_inv y \<and> progress (fst x) (fst y)"
  using assms
proof (induction rule: agent_step.induct)
  case (create now q s n pc s' w c)
  then show ?case using create_step by simp
next
  case (prepared w i s c path)
  have "sys_inv (on_process i (configWritten path) s, w(i \<mapsto> Creating), c) \<and> progress s (on_process i (configWritten path) s)"
    by (rule on_process_step [OF prepared(2)])
       (use prepared(1) in \<open>auto simp: proc_inv_def configWritten_def evolves_def settled_def occupies_def processSuccessfullyStopped_def\<close>)
  then show ?case by simp
next
  case (prepare_failed w i now mk e1 s s' c)
  have 1: "sys_inv (on_process i canceled s, w, c) \<and> progress s (on_process i canceled s)"
    by (rule on_process_step [OF prepare_failed(3)])
       (use prepare_failed(1) in \<open>auto simp: proc_inv_def canceled_def evolves_def settled_def occupies_def processSuccessfullyStopped_def\<close>)
  have "i \<notin> c" using worker_process [OF prepare_failed(3,1)] by (auto simp: proc_inv_def)
  then have "sys_inv (s', w(i := None), c) \<and> progress (on_process i canceled s) s'"
    using 1 by (intro finish_step [where w = w and i = i, OF _ prepare_failed(1,2)]) simp_all
  then show ?case using 1 progress_trans by auto
next
  case (daemon_created w i s c)
  then obtain p where p: "map_of (as_processes s) i = Some p" "proc_inv i (Some Creating) (i \<in> c) p"
    using worker_process by blast
  then have "proc_inv i (w i) True p" using daemon_created(1) by (auto simp: proc_inv_def occupies_def)
  then have "proc_inv j (w j) (j \<in> insert i c) q" if "map_of (as_processes s) j = Some q" for j q
    using that p(1) sys_invD [OF daemon_created(2) that] by (cases "j = i") auto
  moreover have "j \<noteq> i" if "map_of (as_processes s) j = None" for j using that p(1) by auto
  ultimately have "sys_inv (s, w, insert i c)"
    using daemon_created(2) unfolding sys_inv_def by blast
  then show ?case by simp
next
  case (admitted w i s c now)
  have "sys_inv (on_process i (containerAdmitted (clock env now)) s, w, c)
      \<and> progress s (on_process i (containerAdmitted (clock env now)) s)"
    by (rule on_process_step [OF admitted(2)])
       (use admitted(1) in \<open>auto simp: proc_inv_def containerAdmitted_def evolves_def settled_def occupies_def
          processSuccessfullyStopped_def node_active_def\<close>)
  then show ?case by simp
next
  case (create_failed w i now mk e1 s s' c)
  have "sys_inv (s', w(i := None), c - {i}) \<and> progress s s'"
    by (rule finish_step [where w = w and i = i, OF create_failed(3,1,2)]) simp_all
  then show ?case by simp
next
  case (create_left_behind w i target now mk e1 e2 s s' c)
  let ?s = "on_process i (containerLeftBehind target) s"
  have 1: "sys_inv (?s, w, c) \<and> progress s ?s"
    by (rule on_process_step [OF create_left_behind(4)])
       (use create_left_behind(1,2) in \<open>auto simp: proc_inv_def containerLeftBehind_def evolves_def settled_def occupies_def processSuccessfullyStopped_def\<close>)
  have "sys_inv (s', w(i := None), insert i c) \<and> progress ?s s'"
    by (rule finish_step [where w = w and i = i, OF _ create_left_behind(1,3)])
       (use 1 create_left_behind(2) in \<open>auto simp: on_process_def containerLeftBehind_def split: option.splits\<close>)
  then show ?case using 1 progress_trans by auto
next
  case (started w i cid s c now url)
  have "sys_inv (on_process i (containerCreated (clock env now) cid url) s, w(i \<mapsto> Running), insert i c)
      \<and> progress s (on_process i (containerCreated (clock env now) cid url) s)"
    by (rule on_process_step [OF started(3)])
       (use started(1,2) in \<open>auto simp: proc_inv_def containerCreated_def evolves_def settled_def occupies_def
          processSuccessfullyStopped_def node_active_def\<close>)
  then show ?case by simp
next
  case (removed w i runErr now mk s s' c)
  then obtain ph where "w i = Some ph" by auto
  then have "sys_inv (s', w(i := None), c - {i}) \<and> progress s s'"
    by (rule finish_step [where w = w and i = i, OF removed(3) _ removed(2)]) simp_all
  then show ?case by simp
next
  case (remove_failed w i runErr now mk e2 s s' c)
  then obtain ph where ph: "w i = Some ph" "ph = Running \<or> ph = Removing" by auto
  have "sys_inv (s', w(i := None), c) \<and> progress s s'"
    by (rule finish_step [where w = w and i = i, OF remove_failed(3) ph(1) remove_failed(2)])
       (use sys_invD [OF remove_failed(3)] ph in \<open>auto simp: proc_inv_def\<close>)
  then show ?case by simp
next
  case (update now u s s' w c)
  then obtain p where p: "map_of (as_processes s) (nd_ID u) = Some p"
    by (auto simp: updateNode_def split: option.split_asm)
  note pi = sys_invD [OF update(2) p]
  show ?case
  proof (cases "s' = s")
    case False
    then have act: "\<not> pr_exited p" "node_active (pr_node p)"
      and s': "s' = set_process (nd_ID u) (updated_process (clock env now) u p) s"
      using update(1) p by (auto simp: updateNode_def split: if_split_asm)
    note ui = update_inv [OF pi act, of "clock env now" u]
    have "sys_inv (s', w, c)" by (rule sys_inv_set [OF update(2)]) (use ui(1) s' in auto)
    moreover have "progress s s'" by (rule progress_set [OF p ui(2)]) (simp_all add: s')
    ultimately show ?thesis by simp
  qed (use update(2) in simp)
next
  case (capacity raw parsed revision s s' ok w c)
  then have "as_processes s' = as_processes s" "as_runFences s' = as_runFences s"
    by (auto simp: acceptCapacityHeader_def split: if_split_asm option.split_asm)
  then show ?case using capacity(2) same_processes progress_same by simp
qed (auto simp: stopNode_step stop_run_step registered_step acknowledge_fold fence_all_progress beginShutdown_def
      intro: same_processes progress_same)


section \<open>Who is known\<close>

definition known :: "agent_server \<Rightarrow> gostring set" where
  "known s = dom (map_of (as_processes s))"

lemma known_set [simp]: "known (set_process i p s) = insert i (known s)"
  by (auto simp: known_def)

lemma known_on_process [simp]: "known (on_process i f s) = known s"
  by (auto simp: on_process_def known_def split: option.split)

lemma known_same: "as_processes s' = as_processes s \<Longrightarrow> known s' = known s"
  by (simp add: known_def)

lemma known_updates [simp]: "known (fenceAllRuns s) = known s" "known (beginShutdown s) = known s"
  "known (s\<lparr>as_telemetry := t\<rparr>) = known s"
  by (simp_all add: known_def beginShutdown_def)

lemma known_finish: "finishProcess env mk i r e s = Some s' \<Longrightarrow> known s' = known s"
  by (auto simp: finishProcess_def Let_def known_def split: option.split_asm if_split_asm)

lemma known_stopNode: "stopNode env i s = Inr (s', ids) \<Longrightarrow> known s' = known s"
  by (auto simp: stopNode_def known_def split: option.split_asm if_split_asm)

lemma known_acknowledge [simp]: "known (acknowledgeHeartbeat ns s) = known s"
proof (induction ns arbitrary: s)
  case (Cons n ns)
  have "known (acknowledge_node n s) = known s"
    by (auto simp: acknowledge_node_def known_def split: option.split)
  then show ?case using Cons by (simp add: acknowledgeHeartbeat_def)
qed (simp add: acknowledgeHeartbeat_def)

lemma agent_known_step:
  assumes "agent_step env x y"
  shows "known (fst y) = known (fst x) \<or> (\<exists>now q n pc. createNode (clock env now) q (fst x) = Some (Inr (n, pc, fst y)))"
  using assms
proof (induction rule: agent_step.induct)
  case (stop_run now run g s s' ids w c)
  then show ?case by (auto simp: stopRunGeneration_def Let_def known_def dom_def)
next
  case (update now u s s' w c)
  then show ?case by (auto simp: updateNode_def known_def split: option.split_asm if_split_asm)
next
  case (capacity raw parsed revision s s' ok w c)
  then show ?case by (auto simp: acceptCapacityHeader_def known_def split: option.split_asm if_split_asm)
next
  case (register s w c)
  then show ?case by (auto simp: registered_def known_def dom_def)
qed (auto dest: known_finish known_stopNode)

end
