(* ===== verification/AgentProperties.thy ===== *)
theory AgentProperties
  imports AgentInvariant NodeValidation
begin


definition agent_started :: "agent_server \<Rightarrow> bool" where
  "agent_started s \<longleftrightarrow> as_processes s = []"

definition agent_run :: "('r, 'k) agent_env \<Rightarrow> agent_system \<Rightarrow> agent_system \<Rightarrow> bool" where
  "agent_run env = (agent_step env)\<^sup>*\<^sup>*"


lemma started_inv: "agent_started s \<Longrightarrow> sys_inv (s, Map.empty, {})"
  by (simp add: agent_started_def sys_inv_def)

lemma agent_run_inv:
  assumes "agent_run env x y" "sys_inv x"
  shows "sys_inv y \<and> progress (fst x) (fst y)"
  using assms unfolding agent_run_def
proof (induction rule: rtranclp_induct)
  case (step y z)
  then show ?case using agent_step_inv [OF step(2)] progress_trans by blast
qed simp

lemma agent_run_start:
  assumes "agent_run env (s0, Map.empty, {}) x" "agent_started s0" shows "sys_inv x"
  using agent_run_inv [OF assms(1) started_inv [OF assms(2)]] ..

section \<open>Slots\<close>








section \<open>A concrete Agent\<close>

definition demo_agent_env :: "(nat, unit) agent_env" where
  "demo_agent_env = \<lparr>av_now = 7, av_timeText = (\<lambda>_. ''t''), av_networkJSON = (\<lambda>_. ''{}''),
     av_math = demo_math, av_random = demo_uniform, av_seeded = nat, av_samplerFuel = 1, av_pubsub = demo_env\<rparr>"

definition demo_agent :: agent_server where
  "demo_agent = \<lparr>as_startupReconciled = True,
     as_config = \<lparr>ac_DockerImage = ''kpl'', ac_ID = ''a'', ac_Name = ''a'', ac_AdvertiseURL = ''http://a/'',
       ac_MetricsURL = [], ac_SelfURL = ''http://a'', ac_ControllerURL = ''http://c'', ac_Token = [], ac_Capacity = 1,
       ac_Labels = [], ac_Hostname = ''h'', ac_Version = ''v''\<rparr>,
     as_startedAt = 1, as_capacityLimit = 0, as_capacityRevision = [], as_processes = [], as_runFences = [],
     as_shuttingDown = False, as_telemetry = started_telemetry empty_spool \<lparr>dk_files = [], dk_acks = []\<rparr> []\<rparr>"

definition demo_request :: create_request where
  "demo_request = \<lparr>cq_ID = ''n'', cq_RunID = ''r'', cq_Generation = 1, cq_Group = ''g'', cq_Role = [], cq_Type = [],
     cq_Profile = [], cq_Seed = 3, cq_Config = empty_node, cq_Lifetime = ''5s''\<rparr>"

lemma demo_agent_started [simp]: "agent_started demo_agent"
  by (simp add: agent_started_def demo_agent_def)

lemma demo_create:
  "case createNode (clock demo_agent_env 7) demo_request demo_agent of
     Some (Inr (n, pc, s)) \<Rightarrow> True | _ \<Rightarrow> False"
  by code_simp


section \<open>Stopped runs\<close>

definition of_run :: "gostring \<Rightarrow> nat \<Rightarrow> process \<Rightarrow> bool" where
  "of_run run g p \<longleftrightarrow> nd_RunID (pr_node p) = run \<and> nd_Generation (pr_node p) \<le> g"

lemma stop_run_effect:
  assumes "stopRunGeneration env run g s = (s1, ids)" and "map_of (as_processes s1) i = Some p" and "of_run run g p"
  shows "\<not> node_active (pr_node p) \<or> pr_exited p" and "g \<le> MaxUint64 \<Longrightarrow> fenced s1 (pr_node p)"
proof -
  define fence where "fence = (case map_of (as_runFences s) run of None \<Rightarrow> g | Some f \<Rightarrow> max f g)"
  have g: "g \<le> fence" by (simp add: fence_def split: option.split)
  have s1: "as_processes s1 = map_vals (\<lambda>_. run_stopped env run fence) (as_processes s)"
    "as_runFences s1 = AList.update run fence (as_runFences s)"
    using assms(1) by (auto simp: stopRunGeneration_def Let_def fence_def)
  then obtain q where q: "map_of (as_processes s) i = Some q" "p = run_stopped env run fence q"
    using assms(2) by auto
  have same: "nd_RunID (pr_node p) = nd_RunID (pr_node q)" "nd_Generation (pr_node p) = nd_Generation (pr_node q)"
    by (simp_all add: q(2) run_stopped_def retryContainerCleanupLocked_def)
  then have "nd_RunID (pr_node q) = run" "nd_Generation (pr_node q) \<le> fence" using assms(3) g by (auto simp: of_run_def)
  then show "\<not> node_active (pr_node p) \<or> pr_exited p"
    by (auto simp: q(2) run_stopped_def node_active_def retryContainerCleanupLocked_def)
  show "g \<le> MaxUint64 \<Longrightarrow> fenced s1 (pr_node p)" using assms(3) g by (auto simp: fenced_def of_run_def s1(2))
qed

lemma exited_inactive: "proc_inv i wi ci p \<Longrightarrow> pr_exited p \<Longrightarrow> \<not> node_active (pr_node p)"
  by (auto simp: proc_inv_def node_active_def)

lemma fenced_run:
  assumes "stopRunGeneration env run g s = (s1, ids)" "g \<le> MaxUint64" "of_run run g p"
  shows "fenced s1 (pr_node p)"
proof -
  have "\<exists>f \<ge> g. map_of (as_runFences s1) run = Some f"
    using assms(1) by (auto simp: stopRunGeneration_def Let_def split: option.splits)
  then show ?thesis using assms(2,3) by (auto simp: fenced_def of_run_def)
qed

lemma stopped_later:
  assumes inv: "sys_inv (s, w, c)" and st: "stopRunGeneration (clock env now) run g s = (s1, ids)"
    and g: "g \<le> MaxUint64" and run: "agent_run env (s1, start_removing ids w, c) (s2, w2, c2)"
    and p2: "map_of (as_processes s2) i = Some p2" and of: "of_run run g p2"
  obtains p1 where "map_of (as_processes s1) i = Some p1" "of_run run g p1" "\<not> node_active (pr_node p1)" "evolves p1 p2"
proof -
  have inv1: "sys_inv (s1, start_removing ids w, c)" using stop_run_step [OF inv st] ..
  then have prog: "progress s1 s2" using agent_run_inv [OF run] by simp
  obtain p1 where p1: "map_of (as_processes s1) i = Some p1"
    using prog p2 fenced_run [OF st g of] unfolding progress_def by (metis not_None_eq)
  then have ev: "evolves p1 p2" using prog p2 unfolding progress_def by fastforce
  then have o1: "of_run run g p1" using of by (simp add: of_run_def evolves_def)
  have "\<not> node_active (pr_node p1)"
    using stop_run_effect(1) [OF st p1 o1] exited_inactive [OF sys_invD [OF inv1 p1]] by blast
  then show ?thesis using that p1 o1 ev by blast
qed

text \<open>C29: A stopped run stays stopped. Once the Agent has fenced a run at a generation, in every later
  state - after any interleaving of creates, reports, exits, retries and restarts of cleanups - no
  Peer of that run up to that generation is starting or ready, and none is known that was not known
  when the fence was set: a create that arrives late is refused.\<close>

theorem fenced_run_never_restarts:
  assumes "agent_started s0" and "agent_run env (s0, Map.empty, {}) (s, w, c)"
    and "stopRunGeneration (clock env now) run g s = (s1, ids)" and "g \<le> MaxUint64"
    and "agent_run env (s1, start_removing ids w, c) (s2, w2, c2)"
    and "map_of (as_processes s2) i = Some p" and "of_run run g p"
  shows "\<not> node_active (pr_node p) \<and> i \<in> known s1"
proof -
  have "sys_inv (s, w, c)" using agent_run_start assms(1,2) by blast
  from stopped_later [OF this assms(3-7)] obtain p1 where "map_of (as_processes s1) i = Some p1"
    "\<not> node_active (pr_node p1)" "evolves p1 p" by blast
  then show ?thesis by (auto simp: evolves_def known_def)
qed



section \<open>Heartbeats\<close>

lemma heartbeatNodeStatus_ID [simp]: "nd_ID (heartbeatNodeStatus p) = nd_ID (pr_node p)"
  by (simp add: heartbeatNodeStatus_def)



section \<open>Witnesses\<close>


lemma demo_stopped:
  obtains s s1 ids p where "agent_run demo_agent_env (demo_agent, Map.empty, {}) (s, [''n'' \<mapsto> Preparing], {})"
    "stopRunGeneration (clock demo_agent_env 8) ''r'' 1 s = (s1, ids)" "map_of (as_processes s1) ''n'' = Some p"
    "of_run ''r'' 1 p" "waitRunTargets ''r'' 1 s1 = [''n'']" "start_removing ids [''n'' \<mapsto> Preparing] ''n'' = Some Preparing"
proof -
  obtain n pc s where cr: "createNode (clock demo_agent_env 7) demo_request demo_agent = Some (Inr (n, pc, s))"
    using demo_create by (auto split: option.split_asm sum.split_asm)
  have run: "agent_run demo_agent_env (demo_agent, Map.empty, {}) (s, [''n'' \<mapsto> Preparing], {})"
    unfolding agent_run_def
    by (rule r_into_rtranclp) (use agent_step.create [OF cr, of Map.empty "{}"] in \<open>simp add: demo_request_def\<close>)
  have n: "nd_RunID n = ''r''" "nd_Generation n = 1" and s: "as_processes s = [(''n'', new_process n)]"
    using createNode_accepted [OF cr] by (simp_all add: demo_request_def demo_agent_def)
  obtain s1 ids where st: "stopRunGeneration (clock demo_agent_env 8) ''r'' 1 s = (s1, ids)" by fastforce
  have fences: "as_runFences s = []" using createNode_accepted(2) [OF cr] by (simp add: demo_agent_def)
  let ?p = "run_stopped (clock demo_agent_env 8) ''r'' 1 (new_process n)"
  have s1: "as_processes s1 = [(''n'', ?p)]" and ids: "ids = []"
    using st by (auto simp: stopRunGeneration_def Let_def s fences map_vals_def new_process_def)
  have of: "of_run ''r'' 1 ?p"
    using n by (simp add: of_run_def run_stopped_def new_process_def)
  then have "waitRunTargets ''r'' 1 s1 = [''n'']" by (simp add: s1 waitRunTargets_def of_run_def)
  moreover have "map_of (as_processes s1) ''n'' = Some ?p" by (simp add: s1)
  ultimately show ?thesis using that [OF run st _ of] by (simp add: ids)
qed

theorem fenced_run_never_restarts_witness:
  "\<exists>s s1 p ids. agent_run demo_agent_env (demo_agent, Map.empty, {}) (s, [''n'' \<mapsto> Preparing], {})
     \<and> stopRunGeneration (clock demo_agent_env 8) ''r'' 1 s = (s1, ids)
     \<and> map_of (as_processes s1) ''n'' = Some p \<and> \<not> node_active (pr_node p) \<and> ''n'' \<in> known s1"
proof -
  obtain s s1 ids p where d: "agent_run demo_agent_env (demo_agent, Map.empty, {}) (s, [''n'' \<mapsto> Preparing], {})"
    "stopRunGeneration (clock demo_agent_env 8) ''r'' 1 s = (s1, ids)" "map_of (as_processes s1) ''n'' = Some p"
    "of_run ''r'' 1 p" "waitRunTargets ''r'' 1 s1 = [''n'']"
    "start_removing ids [''n'' \<mapsto> Preparing] ''n'' = Some Preparing"
    by (rule demo_stopped)
  have "agent_run demo_agent_env (s1, start_removing ids [''n'' \<mapsto> Preparing], {}) (s1, start_removing ids [''n'' \<mapsto> Preparing], {})"
    by (simp add: agent_run_def)
  then have "\<not> node_active (pr_node p) \<and> ''n'' \<in> known s1"
    by (intro fenced_run_never_restarts [OF demo_agent_started d(1,2) _ _ d(3,4)]) (simp add: MaxUint64_def)
  then show ?thesis using d(1-3) by blast
qed




end
