(* ===== verification/BandwidthTimeline.thy ===== *)
theory BandwidthTimeline
  imports Bandwidth
begin

text \<open>
  The timeline of a run's traffic (\<open>internal/controller/bandwidth.go\<close>, \<open>bandwidthTimeline\<close>): measured
  intervals are spread over bins of equal width, and the width doubles as long as the run spans 360
  bins or more. Seconds are Unix seconds. They and the widths are integers here: the seconds of a
  representable \<open>time.Time\<close> that JSON can carry (years 0 to 9999) are far from the limits of an int64.
  The code divides by the width, which starts at 5 and only doubles; the loops guard against a width
  that is not positive only so that they are total functions.
\<close>

record bin_protocol =
  bn_Protocol :: gostring
  bn_ReceivedBytes :: float64
  bn_SentBytes :: float64

record bandwidth_bucket =
  bb_received :: float64
  bb_sent :: float64
  bb_peerSeconds :: float64
  bb_protocols :: "(gostring, bin_protocol) gomap"

record bandwidth_timeline =
  tl_width :: int
  tl_first :: int
  tl_last :: int
  tl_bins :: "(int, bandwidth_bucket) gomap option"

record bandwidth_bin =
  bin_At :: int
  bin_ReceivedBytes :: float64
  bin_SentBytes :: float64
  bin_PeerSeconds :: float64
  bin_Protocols :: "bin_protocol list"

definition empty_timeline :: bandwidth_timeline where
  "empty_timeline = \<lparr>tl_width = 0, tl_first = 0, tl_last = 0, tl_bins = None\<rparr>"

definition empty_bucket :: bandwidth_bucket where
  "empty_bucket = \<lparr>bb_received = Fin 0, bb_sent = Fin 0, bb_peerSeconds = Fin 0, bb_protocols = []\<rparr>"

definition zero_bin_protocol :: bin_protocol where
  "zero_bin_protocol = \<lparr>bn_Protocol = [], bn_ReceivedBytes = Fin 0, bn_SentBytes = Fin 0\<rparr>"

text \<open>\<open>time.Unix\<close> counts from 1970, the model's times from the year 1.\<close>

definition unix_offset :: int where "unix_offset = 62135596800 * Second"

definition time_of_unix :: "int \<Rightarrow> go_time" where
  "time_of_unix sec = sec * Second + unix_offset"

definition unix_of_time :: "go_time \<Rightarrow> int" where
  "unix_of_time t = (t - unix_offset) div Second"

text \<open>Go's division truncates towards zero; the correction makes it the floor.\<close>

definition go_div :: "int \<Rightarrow> int \<Rightarrow> int" where
  "go_div a b = (if 0 \<le> a then a div b else - ((- a) div b))"

definition go_mod :: "int \<Rightarrow> int \<Rightarrow> int" where
  "go_mod a b = a - go_div a b * b"

definition analysisBucket :: "int \<Rightarrow> int \<Rightarrow> int" where
  "analysisBucket seconds width =
     (let quotient = go_div seconds width
      in (if seconds < 0 \<and> go_mod seconds width \<noteq> 0 then quotient - 1 else quotient) * width)"

section \<open>Widening\<close>

definition add_protocol :: "gostring \<Rightarrow> float64 \<Rightarrow> float64 \<Rightarrow> (gostring, bin_protocol) gomap
    \<Rightarrow> (gostring, bin_protocol) gomap" where
  "add_protocol name received sent m =
     (let q = mget zero_bin_protocol m name
      in AList.update name \<lparr>bn_Protocol = name, bn_ReceivedBytes = float_add (bn_ReceivedBytes q) received,
           bn_SentBytes = float_add (bn_SentBytes q) sent\<rparr> m)"

definition merge_bucket :: "bandwidth_bucket \<Rightarrow> bandwidth_bucket \<Rightarrow> bandwidth_bucket" where
  "merge_bucket target b =
     \<lparr>bb_received = float_add (bb_received target) (bb_received b), bb_sent = float_add (bb_sent target) (bb_sent b),
      bb_peerSeconds = float_add (bb_peerSeconds target) (bb_peerSeconds b),
      bb_protocols = fold (\<lambda>(name, p). add_protocol name (bn_ReceivedBytes p) (bn_SentBytes p))
        (bb_protocols b) (bb_protocols target)\<rparr>"

definition merge_bins :: "int \<Rightarrow> (int, bandwidth_bucket) gomap \<Rightarrow> (int, bandwidth_bucket) gomap" where
  "merge_bins width bins =
     fold (\<lambda>(at', b) m. let k = analysisBucket at' width
             in AList.update k (merge_bucket (mget empty_bucket m k) b) m) bins []"

definition bin_span :: "int \<Rightarrow> int \<Rightarrow> int \<Rightarrow> int" where
  "bin_span f l width = go_div (analysisBucket l width - analysisBucket f width) width"

lemma go_div_pos: "0 < b \<Longrightarrow> go_div a b = (if 0 \<le> a then a div b else - ((- a) div b))"
  by (simp add: go_div_def)

lemma analysisBucket_floor:
  assumes "0 < w" shows "analysisBucket s w = (s div w) * w"
proof (cases "0 \<le> s")
  case True
  then show ?thesis by (simp add: analysisBucket_def go_div_def)
next
  case False
  define d r where "d = (- s) div w" and "r = (- s) mod w"
  have q: "go_div s w = - d" using False by (simp add: go_div_def d_def)
  have "s = - (d * w + r)" by (simp add: d_def r_def)
  then have m: "go_mod s w = - r" unfolding go_mod_def q by simp
  have "s div w = (if r = 0 then - d else - d - 1)"
    using zdiv_zminus1_eq_if [of w "- s"] assms by (simp add: d_def r_def)
  then show ?thesis using False by (simp add: analysisBucket_def q m)
qed

lemma bin_span_div:
  assumes "0 < w" shows "bin_span f l w = l div w - f div w"
proof -
  have "analysisBucket l w - analysisBucket f w = (l div w - f div w) * w"
    using assms by (simp add: analysisBucket_floor algebra_simps)
  then show ?thesis using assms by (auto simp: bin_span_def go_div_def zero_le_mult_iff
      simp flip: mult_minus_left)
qed

lemma wide_span:
  assumes w0: "0 < w" and "360 \<le> bin_span f l w" shows "359 * w \<le> l - f"
proof -
  have "360 \<le> l div w - f div w" using assms by (simp add: bin_span_div)
  then have "360 * w \<le> (l div w - f div w) * w" using w0 by (intro mult_right_mono) simp_all
  moreover have "l = l div w * w + l mod w" "f = f div w * w + f mod w" by simp_all
  moreover have "0 \<le> l mod w" "f mod w < w" using w0 by simp_all
  ultimately show ?thesis by (simp only: left_diff_distrib)
qed

function widen_bins :: "bandwidth_timeline \<Rightarrow> bandwidth_timeline" where
  "widen_bins t =
     (if 0 < tl_width t \<and> 360 \<le> bin_span (tl_first t) (tl_last t) (tl_width t)
      then let width = tl_width t * 2
           in widen_bins (t\<lparr>tl_width := width, tl_bins := map_option (merge_bins width) (tl_bins t)\<rparr>)
      else t)"
  by auto
termination
proof (relation "measure (\<lambda>t. nat ((tl_last t - tl_first t) div tl_width t))", simp)
  fix t :: bandwidth_timeline and width
  assume a: "0 < tl_width t \<and> 360 \<le> bin_span (tl_first t) (tl_last t) (tl_width t)" and w: "width = tl_width t * 2"
  let ?d = "tl_last t - tl_first t" and ?w = "tl_width t"
  have w0: "0 < ?w" and "359 * ?w \<le> ?d" using a wide_span by auto
  then have "359 \<le> ?d div ?w" using w0 zdiv_mono1 [of "359 * ?w" ?d ?w] by simp
  then show "(t\<lparr>tl_width := width, tl_bins := map_option (merge_bins width) (tl_bins t)\<rparr>, t)
      \<in> measure (\<lambda>t. nat ((tl_last t - tl_first t) div tl_width t))"
    using a by (simp add: w zdiv_zmult2_eq)
qed

declare widen_bins.simps [simp del]


section \<open>Adding an interval\<close>

text \<open>The bins the second loop visits, and the part of the interval it puts into one.\<close>

function cells :: "int \<Rightarrow> int \<Rightarrow> int \<Rightarrow> int list" where
  "cells width l at' = (if 0 < width \<and> at' \<le> l then at' # cells width l (at' + width) else [])"
  by auto
termination by (relation "measure (\<lambda>(w, l, a). nat (l + 1 - a))") auto

declare cells.simps [simp del]

definition overlap :: "go_time \<Rightarrow> go_time \<Rightarrow> int \<Rightarrow> int \<Rightarrow> duration" where
  "overlap start end' width at' =
     (let begin' = (if time_of_unix at' < start then start else time_of_unix at');
          finish = (if end' < time_of_unix (at' + width) then end' else time_of_unix (at' + width))
      in time_Sub finish begin')"

definition add_cell :: "bandwidth_interval \<Rightarrow> int \<Rightarrow> int \<Rightarrow> (int, bandwidth_bucket) gomap
    \<Rightarrow> (int, bandwidth_bucket) gomap" where
  "add_cell i width at' bins =
     (let part = overlap (bi_at i - bi_durationNS i) (bi_at i) width at';
          fraction = float_div (float_of_int part) (float_of_int (bi_durationNS i));
          b = mget empty_bucket bins at'
      in AList.update at' \<lparr>bb_received = float_add (bb_received b) (float_mul (float_of_int (bi_receivedBytes i)) fraction),
           bb_sent = float_add (bb_sent b) (float_mul (float_of_int (bi_sentBytes i)) fraction),
           bb_peerSeconds = float_add (bb_peerSeconds b) (float_div (float_of_int part) (Fin 1000000000)),
           bb_protocols = fold (\<lambda>p. add_protocol (bp_Protocol p)
               (float_mul (float_of_int (bp_ReceivedBytes p)) fraction)
               (float_mul (float_of_int (bp_SentBytes p)) fraction)) (bi_protocols i) (bb_protocols b)\<rparr> bins)"

definition extend :: "int \<Rightarrow> int \<Rightarrow> bandwidth_timeline \<Rightarrow> bandwidth_timeline" where
  "extend firstSecond lastSecond t0 =
     (let t = (if tl_bins t0 = None
               then \<lparr>tl_width = 5, tl_first = firstSecond, tl_last = lastSecond, tl_bins = Some []\<rparr> else t0)
      in t\<lparr>tl_first := min (tl_first t) firstSecond, tl_last := max (tl_last t) lastSecond\<rparr>)"

definition timeline_add :: "bandwidth_interval \<Rightarrow> bandwidth_timeline \<Rightarrow> bandwidth_timeline" where
  "timeline_add i t0 =
     (if bi_durationNS i \<le> 0 then t0
      else let start = bi_at i - bi_durationNS i;
               firstSecond = unix_of_time start; lastSecond = unix_of_time (bi_at i - 1);
               t = widen_bins (extend firstSecond lastSecond t0)
           in t\<lparr>tl_bins := map_option (fold (add_cell i (tl_width t))
                  (cells (tl_width t) lastSecond (analysisBucket firstSecond (tl_width t)))) (tl_bins t)\<rparr>)"

definition bin_of :: "int \<times> bandwidth_bucket \<Rightarrow> bandwidth_bin" where
  "bin_of = (\<lambda>(at', b). \<lparr>bin_At = time_of_unix at', bin_ReceivedBytes = bb_received b, bin_SentBytes = bb_sent b,
     bin_PeerSeconds = bb_peerSeconds b,
     bin_Protocols = sort_Slice (\<lambda>p q. bn_Protocol p < bn_Protocol q) (map snd (bb_protocols b))\<rparr>)"

definition timeline_result :: "bandwidth_timeline \<Rightarrow> bandwidth_bin list \<times> int" where
  "timeline_result t = (sort_Slice (\<lambda>a b. bin_At a < bin_At b) (map bin_of (elems (tl_bins t))), tl_width t)"

section \<open>The widening loop\<close>

definition double :: "bandwidth_timeline \<Rightarrow> bandwidth_timeline" where
  "double t = t\<lparr>tl_width := tl_width t * 2, tl_bins := map_option (merge_bins (tl_width t * 2)) (tl_bins t)\<rparr>"

definition too_wide :: "bandwidth_timeline \<Rightarrow> bool" where
  "too_wide t \<longleftrightarrow> 360 \<le> bin_span (tl_first t) (tl_last t) (tl_width t)"

lemma double_fields [simp]:
  "tl_width (double t) = tl_width t * 2" "tl_first (double t) = tl_first t" "tl_last (double t) = tl_last t"
  "tl_bins (double t) = map_option (merge_bins (tl_width t * 2)) (tl_bins t)"
  by (simp_all add: double_def)

lemma double_power [simp]:
  "tl_width ((double ^^ n) t) = tl_width t * 2 ^ n" "tl_first ((double ^^ n) t) = tl_first t"
  "tl_last ((double ^^ n) t) = tl_last t"
  by (induction n) simp_all

lemma widen_unfold: "0 < tl_width t \<Longrightarrow> widen_bins t = (if too_wide t then widen_bins (double t) else t)"
  by (subst widen_bins.simps) (simp add: too_wide_def double_def Let_def)

lemma widen_bins_iterates:
  "0 < tl_width t \<Longrightarrow> \<exists>n. widen_bins t = (double ^^ n) t \<and> \<not> too_wide ((double ^^ n) t)
     \<and> (\<forall>m < n. too_wide ((double ^^ m) t))"
proof (induction t rule: widen_bins.induct)
  case (1 t)
  show ?case
  proof (cases "too_wide t")
    case True
    have "\<exists>n. widen_bins (double t) = (double ^^ n) (double t) \<and> \<not> too_wide ((double ^^ n) (double t))
        \<and> (\<forall>m < n. too_wide ((double ^^ m) (double t)))"
    proof -
      have IH: "0 < tl_width t \<and> 360 \<le> bin_span (tl_first t) (tl_last t) (tl_width t) \<Longrightarrow> x = tl_width t * 2
         \<Longrightarrow> 0 < tl_width (t\<lparr>tl_width := x, tl_bins := map_option (merge_bins x) (tl_bins t)\<rparr>)
         \<Longrightarrow> \<exists>n. widen_bins (t\<lparr>tl_width := x, tl_bins := map_option (merge_bins x) (tl_bins t)\<rparr>)
               = (double ^^ n) (t\<lparr>tl_width := x, tl_bins := map_option (merge_bins x) (tl_bins t)\<rparr>)
             \<and> \<not> too_wide ((double ^^ n) (t\<lparr>tl_width := x, tl_bins := map_option (merge_bins x) (tl_bins t)\<rparr>))
             \<and> (\<forall>m < n. too_wide ((double ^^ m) (t\<lparr>tl_width := x, tl_bins := map_option (merge_bins x) (tl_bins t)\<rparr>)))" for x
        by (rule "1.IH")
      have "tl_width (double t) > 0" using "1.prems" by simp
      then show ?thesis using IH [of "tl_width t * 2"] "1.prems" True unfolding double_def [of t, symmetric] too_wide_def [of t]
        by blast
    qed
    then obtain n where n: "widen_bins (double t) = (double ^^ n) (double t)" "\<not> too_wide ((double ^^ n) (double t))"
      "\<forall>m < n. too_wide ((double ^^ m) (double t))" by blast
    have "widen_bins t = (double ^^ Suc n) t" using widen_unfold [OF "1.prems"] True n(1) by (simp add: funpow_swap1)
    moreover have "\<not> too_wide ((double ^^ Suc n) t)" using n(2) by (simp add: funpow_swap1)
    moreover have "too_wide ((double ^^ m) t)" if "m < Suc n" for m
      using that n(3) True by (cases m) (simp_all add: funpow_swap1)
    ultimately show ?thesis by blast
  next
    case False
    then show ?thesis using widen_unfold [OF "1.prems"] by (intro exI [of _ 0]) simp
  qed
qed


section \<open>The bins\<close>

definition timeline_ok :: "bandwidth_timeline \<Rightarrow> bool" where
  "timeline_ok t \<longleftrightarrow> (case tl_bins t of None \<Rightarrow> True
     | Some m \<Rightarrow> (\<exists>n. tl_width t = 5 * 2 ^ n) \<and> wf_map m
         \<and> (\<forall>a \<in> fst ` set m. \<exists>j. a = j * tl_width t \<and> tl_first t div tl_width t \<le> j \<and> j \<le> tl_last t div tl_width t))"

lemma timeline_width: "timeline_ok t \<Longrightarrow> tl_bins t = Some m \<Longrightarrow> 0 < tl_width t"
  by (auto simp: timeline_ok_def)

lemma keys_update_set: "fst ` set (AList.update k v m) = insert k (fst ` set m)"
  by (induction m) auto

lemma merge_bins_keys:
  "wf_map (merge_bins w bins) \<and> fst ` set (merge_bins w bins) = (\<lambda>a. analysisBucket a w) ` fst ` set bins"
proof -
  define step where "step = (\<lambda>(at', b) m. let k = analysisBucket at' w
             in AList.update k (merge_bucket (mget empty_bucket m k) b) m)"
  have "wf_map (fold step bins m) \<and> fst ` set (fold step bins m) = (\<lambda>a. analysisBucket a w) ` fst ` set bins \<union> fst ` set m"
    if "wf_map m" for m
    using that
  proof (induction bins arbitrary: m)
    case (Cons x bins)
    have "wf_map (step x m)" using Cons.prems by (auto simp: step_def Let_def split: prod.split)
    from Cons.IH [OF this] show ?case by (auto simp: step_def Let_def keys_update_set split: prod.splits)
  qed simp
  from this [of "[]"] show ?thesis by (simp add: merge_bins_def step_def)
qed

lemma double_ok:
  assumes ok: "timeline_ok t" shows "timeline_ok (double t)"
proof (cases "tl_bins t")
  case None
  then show ?thesis by (simp add: timeline_ok_def)
next
  case (Some m)
  let ?w = "tl_width t"
  have w: "0 < ?w" using timeline_width ok Some by blast
  obtain n where n: "?w = 5 * 2 ^ n" using ok Some by (auto simp: timeline_ok_def)
  have "\<exists>j. analysisBucket a (?w * 2) = j * (?w * 2) \<and> tl_first t div (?w * 2) \<le> j \<and> j \<le> tl_last t div (?w * 2)"
    if a: "a \<in> fst ` set m" for a
  proof -
    obtain j where j: "a = j * ?w" "tl_first t div ?w \<le> j" "j \<le> tl_last t div ?w"
      using a ok Some by (auto simp: timeline_ok_def)
    have "a div (?w * 2) = j div 2" using w by (simp add: j(1) zdiv_zmult2_eq)
    then show ?thesis using w j(2,3) by (simp add: analysisBucket_floor zdiv_zmult2_eq zdiv_mono1)
  qed
  moreover have "\<exists>k. ?w * 2 = 5 * 2 ^ k" using n by (intro exI [of _ "Suc n"]) simp
  ultimately show ?thesis using Some merge_bins_keys [of "?w * 2" m]
    unfolding timeline_ok_def double_fields by simp
qed

lemma double_power_ok: "timeline_ok t \<Longrightarrow> timeline_ok ((double ^^ n) t)"
  by (induction n) (simp_all add: double_ok)

lemma extend_ok:
  assumes "timeline_ok t" shows "timeline_ok (extend f l t)" and "0 < tl_width (extend f l t)"
    and "tl_first (extend f l t) \<le> f" "l \<le> tl_last (extend f l t)" "tl_bins (extend f l t) \<noteq> None"
proof -
  show "timeline_ok (extend f l t)"
  proof (cases "tl_bins t")
    case None
    then show ?thesis by (auto simp: extend_def timeline_ok_def intro: exI [of _ 0])
  next
    case (Some m)
    have w: "0 < tl_width t" using timeline_width assms Some by blast
    have "min (tl_first t) f div tl_width t \<le> tl_first t div tl_width t"
      "tl_last t div tl_width t \<le> max (tl_last t) l div tl_width t" using w by (simp_all add: zdiv_mono1)
    then show ?thesis using assms Some by (fastforce simp: extend_def timeline_ok_def)
  qed
  show "0 < tl_width (extend f l t)" using timeline_width [OF assms] by (auto simp: extend_def)
  show "tl_first (extend f l t) \<le> f" "l \<le> tl_last (extend f l t)" "tl_bins (extend f l t) \<noteq> None"
    by (auto simp: extend_def Let_def)
qed

lemma cells_range: "0 < w \<Longrightarrow> w dvd a \<Longrightarrow> x \<in> set (cells w l a) \<Longrightarrow> a \<le> x \<and> x \<le> l \<and> w dvd x"
proof (induction w l a rule: cells.induct)
  case (1 w l a)
  then show ?case by (subst (asm) cells.simps) (fastforce split: if_split_asm)
qed

lemma fold_cells_keys:
  "wf_map m \<Longrightarrow> wf_map (fold (add_cell i w) xs m)
     \<and> fst ` set (fold (add_cell i w) xs m) = set xs \<union> fst ` set m"
proof (induction xs arbitrary: m)
  case (Cons x xs)
  have "wf_map (add_cell i w x m)" using Cons.prems by (simp add: add_cell_def Let_def)
  from Cons.IH [OF this] show ?case by (auto simp: add_cell_def Let_def keys_update_set)
qed simp

lemma timeline_add_ok:
  assumes ok: "timeline_ok t" shows "timeline_ok (timeline_add i t)"
    and "0 < bi_durationNS i \<Longrightarrow> tl_bins (timeline_add i t) \<noteq> None \<and> \<not> too_wide (timeline_add i t)"
proof -
  have main: "timeline_ok (timeline_add i t) \<and> tl_bins (timeline_add i t) \<noteq> None \<and> \<not> too_wide (timeline_add i t)"
    if pos: "0 < bi_durationNS i"
  proof -
    define f l where "f = unix_of_time (bi_at i - bi_durationNS i)" and "l = unix_of_time (bi_at i - 1)"
    let ?e = "extend f l t"
    note e = extend_ok [OF ok, where f = f and l = l]
    obtain n where n: "widen_bins ?e = (double ^^ n) ?e" "\<not> too_wide ((double ^^ n) ?e)"
      using widen_bins_iterates [OF e(2)] by blast
    define u where "u = widen_bins ?e"
    have u: "timeline_ok u" "tl_first u \<le> f" "l \<le> tl_last u" "0 < tl_width u" "\<not> too_wide u"
      using n e double_power_ok [OF e(1)] by (simp_all add: u_def)
    have "tl_bins ((double ^^ k) ?e) \<noteq> None" for k using e(5) by (induction k) simp_all
    then obtain m where m: "tl_bins u = Some m" using n(1) by (auto simp: u_def)
    let ?w = "tl_width u"
    let ?cs = "cells ?w l (analysisBucket f ?w)"
    have r: "timeline_add i t = u\<lparr>tl_bins := Some (fold (add_cell i ?w) ?cs m)\<rparr>"
      using pos m by (simp add: timeline_add_def u_def f_def l_def Let_def)
    have "\<exists>j. x = j * ?w \<and> tl_first u div ?w \<le> j \<and> j \<le> tl_last u div ?w" if "x \<in> set ?cs" for x
    proof -
      have x: "f div ?w * ?w \<le> x" "x \<le> l" "?w dvd x"
        using cells_range [OF u(4) _ that] u(4) by (simp_all add: analysisBucket_floor)
      then obtain j where j: "x = j * ?w" by (metis dvd_def mult.commute)
      have "f div ?w \<le> j" using x(1) u(4) by (simp add: j)
      moreover have "j \<le> l div ?w" using x(2) u(4) zdiv_mono1 [of x l ?w] by (simp add: j)
      moreover have "tl_first u div ?w \<le> f div ?w" "l div ?w \<le> tl_last u div ?w" using u by (simp_all add: zdiv_mono1)
      ultimately show ?thesis using j by (intro exI [of _ j]) simp
    qed
    then have "timeline_ok (timeline_add i t)"
      using u(1) m fold_cells_keys [of m i ?w ?cs] by (auto simp: timeline_ok_def r)
    then show ?thesis using u(5) by (simp add: r too_wide_def)
  qed
  have "timeline_add i t = t" if "\<not> 0 < bi_durationNS i" using that by (simp add: timeline_add_def)
  then show "timeline_ok (timeline_add i t)" using main ok by (cases "0 < bi_durationNS i") simp_all
  show "0 < bi_durationNS i \<Longrightarrow> tl_bins (timeline_add i t) \<noteq> None \<and> \<not> too_wide (timeline_add i t)"
    using main by blast
qed


definition timeline_of :: "bandwidth_interval list \<Rightarrow> bandwidth_timeline" where
  "timeline_of is' = fold timeline_add is' empty_timeline"

lemma timeline_of_ok:
  "timeline_ok (timeline_of is') \<and> (tl_bins (timeline_of is') \<noteq> None \<longrightarrow> \<not> too_wide (timeline_of is'))"
proof (induction is' rule: rev_induct)
  case Nil
  then show ?case by (simp add: timeline_of_def empty_timeline_def timeline_ok_def)
next
  case (snoc i xs)
  have "timeline_of (xs @ [i]) = timeline_add i (timeline_of xs)" by (simp add: timeline_of_def)
  then show ?case using timeline_add_ok [of "timeline_of xs" i] snoc
    by (cases "0 < bi_durationNS i") (simp_all add: timeline_add_def)
qed

lemma bins_bounded:
  assumes "timeline_ok t" "tl_bins t = Some m" "\<not> too_wide t"
  shows "length m \<le> 360"
proof -
  let ?w = "tl_width t" and ?F = "tl_first t div tl_width t" and ?L = "tl_last t div tl_width t"
  have w: "0 < ?w" using timeline_width assms(1,2) by blast
  have "fst ` set m \<subseteq> (\<lambda>j. j * ?w) ` {?F .. ?L}" using assms(1,2) by (fastforce simp: timeline_ok_def)
  then have "card (fst ` set m) \<le> card {?F .. ?L}"
    by (meson card_image_le card_mono finite_atLeastAtMost_int finite_imageI order_trans)
  moreover have "?L - ?F < 360" using assms(3) w by (simp add: too_wide_def bin_span_div)
  moreover have "length m = card (fst ` set m)"
    using assms(1,2) distinct_card [of "map fst m"] by (simp add: timeline_ok_def)
  ultimately show ?thesis by simp
qed

section \<open>The parts of an interval\<close>

lemma unix_of_time_bounds: "time_of_unix (unix_of_time t) \<le> t" "t < time_of_unix (unix_of_time t + 1)"
proof -
  have "(t - unix_offset) div Second * Second + (t - unix_offset) mod Second = t - unix_offset" by simp
  moreover have "0 \<le> (t - unix_offset) mod Second" "(t - unix_offset) mod Second < Second" by simp_all
  ultimately show "time_of_unix (unix_of_time t) \<le> t" "t < time_of_unix (unix_of_time t + 1)"
    unfolding time_of_unix_def unix_of_time_def distrib_right by linarith+
qed

lemma time_of_unix_mono: "time_of_unix a \<le> time_of_unix b \<longleftrightarrow> a \<le> b"
  by (simp add: time_of_unix_def)

definition clip :: "go_time \<Rightarrow> go_time \<Rightarrow> go_time \<Rightarrow> go_time" where
  "clip start end' t = max start (min end' t)"

lemma time_Sub_exact: "0 \<le> t - u \<Longrightarrow> t - u \<le> MaxInt64 \<Longrightarrow> time_Sub t u = t - u"
  by (auto simp: time_Sub_def MinInt64_def)

lemma overlap_clip:
  assumes "start < end'" "end' - start \<le> MaxInt64" "time_of_unix a < end'" "start < time_of_unix (a + w)" "0 < w"
  shows "overlap start end' w a = clip start end' (time_of_unix (a + w)) - clip start end' (time_of_unix a)"
proof -
  let ?b = "max start (time_of_unix a)" and ?f = "min end' (time_of_unix (a + w))"
  have "time_of_unix a < time_of_unix (a + w)" using assms(5) by (simp add: time_of_unix_def)
  then have "0 \<le> ?f - ?b" "?f - ?b \<le> MaxInt64" using assms by linarith+
  then have "time_Sub ?f ?b = ?f - ?b" by (rule time_Sub_exact)
  moreover have "overlap start end' w a = time_Sub ?f ?b"
    by (simp add: overlap_def Let_def max_def min_def)
  ultimately show ?thesis using assms(1,3,4) by (simp add: clip_def)
qed

lemma cells_sum:
  assumes se: "start < end'" "end' - start \<le> MaxInt64"
  shows "0 < w \<Longrightarrow> start < time_of_unix (a + w) \<Longrightarrow>
    (\<Sum>x \<leftarrow> cells w (unix_of_time (end' - 1)) a. overlap start end' w x) = end' - clip start end' (time_of_unix a)"
proof (induction w "unix_of_time (end' - 1)" a rule: cells.induct)
  case (1 w a)
  let ?l = "unix_of_time (end' - 1)"
  show ?case
  proof (cases "a \<le> ?l")
    case True
    have "time_of_unix a \<le> time_of_unix ?l" using True by (simp add: time_of_unix_mono)
    then have a: "time_of_unix a < end'" using unix_of_time_bounds(1) [of "end' - 1"] by linarith
    have "start < time_of_unix (a + w + w)" using 1(2,3) by (simp add: time_of_unix_def)
    then have "(\<Sum>x \<leftarrow> cells w ?l (a + w). overlap start end' w x) = end' - clip start end' (time_of_unix (a + w))"
      using 1(1,2) True by blast
    then show ?thesis using True 1(2) overlap_clip [OF se a 1(3,2)] by (subst cells.simps) simp
  next
    case False
    then have "time_of_unix (?l + 1) \<le> time_of_unix a" by (simp add: time_of_unix_mono)
    then have "end' \<le> time_of_unix a" using unix_of_time_bounds(2) [of "end' - 1"] by linarith
    then show ?thesis using False se(1) by (subst cells.simps) (simp add: clip_def)
  qed
qed

lemma interval_parts:
  assumes "0 < bi_durationNS i" "bi_durationNS i \<le> MaxInt64" "0 < w"
  shows "(\<Sum>x \<leftarrow> cells w (unix_of_time (bi_at i - 1)) (analysisBucket (unix_of_time (bi_at i - bi_durationNS i)) w).
       overlap (bi_at i - bi_durationNS i) (bi_at i) w x) = bi_durationNS i"
proof -
  let ?s = "bi_at i - bi_durationNS i"
  let ?f = "unix_of_time ?s"
  let ?a = "analysisBucket ?f w"
  have "?f = ?f div w * w + ?f mod w" "0 \<le> ?f mod w" "?f mod w < w" using assms(3) by simp_all
  then have "?a \<le> ?f" "?f + 1 \<le> ?a + w"
    unfolding analysisBucket_floor [OF assms(3)] by linarith+
  then have "time_of_unix ?a \<le> ?s" "?s < time_of_unix (?a + w)"
    using unix_of_time_bounds [of ?s] time_of_unix_mono by (meson order_trans less_le_trans)+
  then show ?thesis using cells_sum [of ?s "bi_at i" w ?a] assms by (simp add: clip_def)
qed

text \<open>C21: The traffic timeline terminates, stays small and drops nothing. The loop that doubles the bin width
  runs a definite number of times: it is the iteration of its body that stops at the first width with
  fewer than 360 bins between the first and the last second. After any intervals the width is five
  seconds doubled some number of times, and there are at most 360 bins, all at different multiples of
  the width. The parts of an interval that the second loop puts into the bins it visits add up
  to exactly the length of the interval, in nanoseconds.\<close>

theorem timeline_bounded:
  assumes "0 < bi_durationNS i" and "bi_durationNS i \<le> MaxInt64" and "t = timeline_of (intervals @ [i])"
  shows "\<exists>n m. tl_bins t = Some m \<and> length m \<le> 360 \<and> wf_map m \<and> tl_width t = 5 * 2 ^ n
      \<and> (\<forall>a \<in> fst ` set m. tl_width t dvd a)
    \<and> (\<forall>u. 0 < tl_width u \<longrightarrow> (\<exists>k. widen_bins u = (double ^^ k) u \<and> \<not> too_wide ((double ^^ k) u)
          \<and> (\<forall>j < k. too_wide ((double ^^ j) u))))
    \<and> (\<Sum>x \<leftarrow> cells (tl_width t) (unix_of_time (bi_at i - 1)) (analysisBucket (unix_of_time (bi_at i - bi_durationNS i)) (tl_width t)).
         overlap (bi_at i - bi_durationNS i) (bi_at i) (tl_width t) x) = bi_durationNS i"
proof -
  have t: "t = timeline_add i (timeline_of intervals)" using assms(3) by (simp add: timeline_of_def)
  have ok: "timeline_ok t" and nw: "tl_bins t \<noteq> None" "\<not> too_wide t"
    using timeline_add_ok timeline_of_ok assms(1) t by blast+
  then obtain m where m: "tl_bins t = Some m" by blast
  obtain n where n: "tl_width t = 5 * 2 ^ n" using ok m by (auto simp: timeline_ok_def)
  have "wf_map m" "\<forall>a \<in> fst ` set m. tl_width t dvd a" using ok m by (auto simp: timeline_ok_def)
  moreover have "length m \<le> 360" by (rule bins_bounded [OF ok m nw(2)])
  moreover have "0 < tl_width t" using n by simp
  ultimately show ?thesis using m n interval_parts [OF assms(1,2)] widen_bins_iterates by blast
qed

definition demo_interval :: bandwidth_interval where
  "demo_interval = \<lparr>bi_at = unix_offset + 12 * Second, bi_durationNS = 9 * Second, bi_receivedBytes = 90,
     bi_sentBytes = 45, bi_protocols = []\<rparr>"

theorem timeline_bounded_witness:
  "\<exists>m. tl_bins (timeline_of [demo_interval]) = Some m \<and> length m \<le> 360
     \<and> (\<Sum>x \<leftarrow> cells (tl_width (timeline_of [demo_interval])) (unix_of_time (bi_at demo_interval - 1))
            (analysisBucket (unix_of_time (bi_at demo_interval - bi_durationNS demo_interval)) (tl_width (timeline_of [demo_interval]))).
          overlap (bi_at demo_interval - bi_durationNS demo_interval) (bi_at demo_interval) (tl_width (timeline_of [demo_interval])) x)
         = bi_durationNS demo_interval"
proof -
  have "0 < bi_durationNS demo_interval" "bi_durationNS demo_interval \<le> MaxInt64"
    by (simp_all add: demo_interval_def MaxInt64_def)
  from timeline_bounded [OF this, of "timeline_of [demo_interval]" "[]"] show ?thesis by auto
qed

end
