(* ===== verification/PublishTargets.thy ===== *)
theory PublishTargets
  imports AgentProcesses FleetInvariant
begin

text \<open>
  Which Peers publish and which ones a publication is meant for (\<open>internal/controller/runner.go\<close>,
  \<open>nodePublishTopics\<close> to \<open>capturePublishCohort\<close>). The Controller reads a Peer's PubSub role from the
  metadata of its node record, which \<open>createNode\<close> on the Agent and \<open>recordCreatedNode\<close> on the
  Controller write; the last section relates what is read to the configuration it was written from.
\<close>

section \<open>Reading the metadata\<close>

definition ParseBool :: "gostring \<Rightarrow> bool option" where
  "ParseBool s =
     (if s \<in> set [''1'', ''t'', ''T'', ''true'', ''TRUE'', ''True''] then Some True
      else if s \<in> set [''0'', ''f'', ''F'', ''false'', ''FALSE'', ''False''] then Some False
      else None)"

fun Split_comma :: "gostring \<Rightarrow> gostring list" where
  "Split_comma [] = [[]]"
| "Split_comma (c # cs) =
     (if c = CHR '','' then [] # Split_comma cs
      else case Split_comma cs of [] \<Rightarrow> [[c]] | x # xs \<Rightarrow> (c # x) # xs)"

definition default_topic :: gostring where "default_topic = ''kpl/default''"

definition nodeTopics :: "node \<Rightarrow> gostring list" where
  "nodeTopics n =
     (let raw = TrimSpace (mget [] (metadata n) ''topicsJSON'');
          plain = TrimSpace (mget [] (metadata n) ''topics'')
      in case (if raw \<noteq> [] then json_Unmarshal_strings raw else None) of
          Some topics \<Rightarrow> topics
        | None \<Rightarrow> if plain \<noteq> [] then Split_comma plain else [])"

definition nodeFeatureEnabled :: "node \<Rightarrow> gostring \<Rightarrow> bool \<Rightarrow> bool" where
  "nodeFeatureEnabled n k fallback =
     (case map_of (metadata n) k of None \<Rightarrow> fallback | Some raw \<Rightarrow> ParseBool raw = Some True)"

definition nodeDefaultTopic :: "node \<Rightarrow> gostring" where
  "nodeDefaultTopic n = (case filter (\<lambda>t. t \<noteq> []) (nodeTopics n) of [] \<Rightarrow> default_topic | t # _ \<Rightarrow> t)"

definition nodeHasTopic :: "node \<Rightarrow> gostring \<Rightarrow> bool" where
  "nodeHasTopic n topic \<longleftrightarrow>
     topic = [] \<or> (if nodeTopics n = [] then topic = default_topic else topic \<in> set (nodeTopics n))"

definition pubsub_default :: "node \<Rightarrow> bool" where
  "pubsub_default n \<longleftrightarrow> nd_Type n \<noteq> ''boot'' \<and> nd_Type n \<noteq> ''dht-only''"

definition nodeCanPublishTopic :: "node \<Rightarrow> gostring \<Rightarrow> bool" where
  "nodeCanPublishTopic n topic \<longleftrightarrow>
     nodeFeatureEnabled n ''pubsubEnabled'' (pubsub_default n)
     \<and> nodeFeatureEnabled n ''allowPublish''
         (nd_Type n \<noteq> ''subscriber'' \<and> nd_Type n \<noteq> ''observer'' \<and> nd_Type n \<noteq> ''relay'')
     \<and> nodeHasTopic n topic"

definition nodePublishTopics :: "node \<Rightarrow> gostring \<Rightarrow> gostring list" where
  "nodePublishTopics n requested =
     (if requested \<noteq> ''*'' then
        (let topic = (if requested = [] then nodeDefaultTopic n else requested)
         in if nodeCanPublishTopic n topic then [topic] else [])
      else
        (let configured = (if nodeTopics n = [] then [default_topic] else nodeTopics n)
         in sort_Strings (remdups (filter (\<lambda>t. t \<noteq> [] \<and> nodeCanPublishTopic n t) configured))))"

definition nodeSubscribesToTopic :: "node \<Rightarrow> gostring \<Rightarrow> bool" where
  "nodeSubscribesToTopic n topic \<longleftrightarrow>
     nodeFeatureEnabled n ''pubsubEnabled'' (pubsub_default n)
     \<and> (let mode = mget [] (metadata n) ''topicMode'';
            mode' = (if mode \<noteq> [] then mode
                     else if nd_Type n = ''publisher'' \<or> nd_Type n = ''relay'' then nd_Type n else ''subscribe'')
        in mode' = ''subscribe'')
     \<and> nodeHasTopic n topic"

section \<open>Freezing the intended receivers\<close>

record publish_request =
  pq_RunID :: gostring
  pq_Topic :: gostring
  pq_PayloadSize :: int
  pq_PayloadEncoding :: gostring
  pq_DeliveryWindow :: gostring
  pq_TargetNodes :: int
  pq_TargetNodesByTopic :: "(gostring, int) gomap"
  pq_TargetNodeIDs :: "gostring list option"
  pq_TargetNodeIDsByTopic :: "(gostring, gostring list) gomap"
  pq_CohortCapturedAt :: go_time

definition node_online :: "go_time \<Rightarrow> fleet \<Rightarrow> node \<Rightarrow> bool" where
  "node_online now s n \<longleftrightarrow> agentIsOnline (mget zero_agent (st_agents s) (nd_AgentID n)) now"

definition nodeAgentOnline :: "go_time \<Rightarrow> fleet \<Rightarrow> node \<Rightarrow> bool" where
  "nodeAgentOnline now s n \<longleftrightarrow>
     (case map_of (st_agents s) (nd_AgentID n) of None \<Rightarrow> False | Some a \<Rightarrow> agentIsOnline a now)"

definition cohort_targets :: "go_time \<Rightarrow> gostring \<Rightarrow> gostring \<Rightarrow> gostring \<Rightarrow> fleet \<Rightarrow> gostring list" where
  "cohort_targets now runID publisherID topic s =
     sort_Strings (map nd_ID (filter (\<lambda>n. nd_ID n \<noteq> publisherID \<and> nd_RunID n = runID
         \<and> nd_State n = NodeReady \<and> node_online now s n \<and> nodeSubscribesToTopic n topic) (map snd (st_nodes s))))"

definition cohort_topic :: "go_time \<Rightarrow> gostring \<Rightarrow> fleet \<Rightarrow> gostring \<Rightarrow> publish_request \<Rightarrow> publish_request" where
  "cohort_topic now publisherID s topic q =
     (let targets = cohort_targets now (pq_RunID q) publisherID topic s;
          q1 = q\<lparr>pq_TargetNodeIDsByTopic := AList.update topic targets (pq_TargetNodeIDsByTopic q),
                 pq_TargetNodesByTopic := AList.update topic (int (length targets) + 1) (pq_TargetNodesByTopic q)\<rparr>
      in if pq_Topic q \<noteq> ''*''
         then q1\<lparr>pq_TargetNodeIDs := Some targets, pq_TargetNodes := int (length targets) + 1\<rparr> else q1)"

definition capturePublishCohort :: "go_time \<Rightarrow> publish_request \<Rightarrow> node \<Rightarrow> gostring list \<Rightarrow> fleet
    \<Rightarrow> publish_request option" where
  "capturePublishCohort now q publisher topics s =
     (case map_of (st_nodes s) (nd_ID publisher) of None \<Rightarrow> None
      | Some current \<Rightarrow>
          if nd_State current \<noteq> NodeReady \<or> \<not> node_online now s current then None
          else Some (fold (cohort_topic now (nd_ID publisher) s) topics
            (q\<lparr>pq_CohortCapturedAt := now, pq_TargetNodeIDsByTopic := [], pq_TargetNodesByTopic := []\<rparr>)))"

definition topicSubscriberCount :: "go_time \<Rightarrow> gostring \<Rightarrow> gostring \<Rightarrow> fleet \<Rightarrow> nat" where
  "topicSubscriberCount now runID topic s =
     length (filter (\<lambda>n. nodeAgentOnline now s n \<and> nodeSubscribesToTopic n topic) (matchingNodes runID [] NodeReady [] s))"

definition topicReachTargetCount :: "go_time \<Rightarrow> gostring \<Rightarrow> gostring \<Rightarrow> gostring \<Rightarrow> fleet \<Rightarrow> nat" where
  "topicReachTargetCount now runID topic publisherID s =
     (let extra = (case find (\<lambda>n. nd_ID n = publisherID \<and> nodeAgentOnline now s n) (matchingNodes runID [] NodeReady [] s) of
                     None \<Rightarrow> 0 | Some n \<Rightarrow> if nodeSubscribesToTopic n topic then 0 else 1);
          total = topicSubscriberCount now runID topic s + extra
      in if total = 0 then 1 else total)"

text \<open>The Peers a publish phase chooses from, before they are shuffled.\<close>

definition publish_candidates :: "go_time \<Rightarrow> gostring \<Rightarrow> gostring \<Rightarrow> gostring \<Rightarrow> gostring \<Rightarrow> fleet \<Rightarrow> node list" where
  "publish_candidates now runID grp nodeType topic s =
     filter (\<lambda>n. nodeAgentOnline now s n \<and> nodePublishTopics n topic \<noteq> []) (matchingNodes runID grp NodeReady nodeType s)"

section \<open>The record of a created Peer\<close>

text \<open>What \<open>recordCreatedNode\<close> fills in where the Agent's answer leaves a field empty.\<close>

definition controller_metadata :: "gostring \<Rightarrow> node_config \<Rightarrow> (gostring, gostring) gomap" where
  "controller_metadata profile c =
     (let g = nc_GossipSub c
      in [(''profile'', profile), (''pubsubRouter'', gs_Router g), (''pubsubEnabled'', FormatBool (gs_Enabled g = Some True)),
          (''scoreEnabled'', FormatBool (score_enabled g)), (''allowPublish'', FormatBool (PublishAllowed c)),
          (''topicMode'', gs_TopicMode g), (''topics'', join_comma (elems (gs_Topics g))),
          (''topicsJSON'', json_Marshal_strings (gs_Topics g)),
          (''dhtEnabled'', FormatBool (kd_Enabled (nc_Kademlia c) = Some True)), (''dhtMode'', kd_Mode (nc_Kademlia c))])"

definition completedNode :: "go_time \<Rightarrow> create_request \<Rightarrow> gostring \<Rightarrow> node \<Rightarrow> node" where
  "completedNode now q agentID n =
     (let c = node_WithDefaults (cq_Config q);
          profile = firstNonEmpty (nd_Profile n) (cq_Profile q)
      in n\<lparr>nd_ID := firstNonEmpty (nd_ID n) (cq_ID q), nd_RunID := firstNonEmpty (nd_RunID n) (cq_RunID q),
           nd_Generation := (if nd_Generation n = 0 then cq_Generation q else nd_Generation n),
           nd_AgentID := firstNonEmpty (nd_AgentID n) agentID, nd_Group := firstNonEmpty (nd_Group n) (cq_Group q),
           nd_Role := firstNonEmpty (nd_Role n) (cq_Role q), nd_Type := firstNonEmpty (nd_Type n) (cq_Type q),
           nd_Profile := profile, nd_State := firstNonEmpty (nd_State n) NodeStarting,
           nd_Metadata := (case nd_Metadata n of None \<Rightarrow> Some (controller_metadata profile c) | Some m \<Rightarrow> Some m),
           nd_StartedAt := (if IsZero (nd_StartedAt n) then now else nd_StartedAt n),
           nd_LastSeen := (if IsZero (nd_LastSeen n) then now else nd_LastSeen n)\<rparr>)"

definition recordCreatedNode :: "go_time \<Rightarrow> create_request \<Rightarrow> gostring \<Rightarrow> node \<Rightarrow> go_time option \<Rightarrow> fleet \<Rightarrow> bool \<times> fleet" where
  "recordCreatedNode now q agentID n expected s = storeCreatedNode agentID expected (completedNode now q agentID n) s"

end
