(* ===== verification/PublishProperties.thy ===== *)
theory PublishProperties
  imports PublishTargets AgentProperties
begin

text \<open>
  What the Controller reads from a Peer's metadata is what the Peer was configured with, and the
  receivers frozen for a publication are exactly the ones it is meant for.
\<close>

declare map_of_eq_Some_iff [simp del]

section \<open>Metadata text\<close>

lemma ParseBool_FormatBool [simp]: "ParseBool (FormatBool b) = Some b"
  by (cases b) (simp_all add: ParseBool_def FormatBool_def)

lemma starts_with_hd: "starts_with p (c # cs) \<Longrightarrow> p \<noteq> [] \<Longrightarrow> hd p = of_char c"
  by (cases p) (simp_all add: starts_with_def)

lemma no_leading_space:
  assumes "of_char c \<notin> hd ` set space_codes" shows "leading_space (c # cs) = 0"
proof -
  have n: "[] \<notin> set space_codes" by (simp add: space_codes_def)
  have "\<not> starts_with p (c # cs)" if "p \<in> set space_codes" for p
    using starts_with_hd [of p c cs] that n assms by (metis imageI)
  then have "find (\<lambda>p. starts_with p (c # cs)) space_codes = None" by (simp add: find_None_iff)
  then show ?thesis by (simp add: leading_space_def)
qed

lemma no_trailing_space:
  assumes "of_char c \<notin> last ` set space_codes" shows "trailing_space (cs @ [c]) = 0"
proof -
  have n: "[] \<notin> set space_codes" by (simp add: space_codes_def)
  have "\<not> starts_with (rev p) (rev (cs @ [c]))" if "p \<in> set space_codes" for p
    using starts_with_hd [of "rev p" c "rev cs"] that n assms by (metis hd_rev imageI rev_append rev_singleton_conv append_Cons append_Nil rev_is_Nil_conv)
  then have "find (\<lambda>p. starts_with (rev p) (rev (cs @ [c]))) space_codes = None"
    by (simp add: find_None_iff)
  then show ?thesis by (simp only: trailing_space_def option.case)
qed

lemma text_ends:
  "of_char (CHR ''['') \<notin> hd ` set space_codes" "of_char (CHR ''n'') \<notin> hd ` set space_codes"
  "of_char (CHR '']'') \<notin> last ` set space_codes" "of_char (CHR ''l'') \<notin> last ` set space_codes"
  by (simp_all add: space_codes_def)

lemma TrimSpace_text:
  assumes "leading_space s = 0" "trailing_space s = 0" shows "TrimSpace s = s"
proof -
  have "trim_left_fuel n s = s" "trim_right_fuel n s = s" for n using assms by (cases n; simp)+
  then show ?thesis by (simp add: TrimSpace_def Let_def)
qed

lemma json_list_last: "\<exists>r. json_list ss = r @ [CHR '']'']"
  by (induction ss rule: json_list.induct) auto

lemma TrimSpace_json [simp]: "TrimSpace (json_Marshal_strings ss) = json_Marshal_strings ss"
proof (rule TrimSpace_text)
  show "leading_space (json_Marshal_strings ss) = 0"
    by (cases ss) (simp_all only: json_Marshal_strings_def option.case no_leading_space text_ends not_False_eq_True)
  obtain r where r: "json_Marshal_strings ss = r @ [CHR '']''] \<or> json_Marshal_strings ss = ''nul'' @ [CHR ''l'']"
    using json_list_last [of "elems ss"] by (cases ss) (auto simp: json_Marshal_strings_def)
  then show "trailing_space (json_Marshal_strings ss) = 0"
    by (elim disjE) (simp_all only: no_trailing_space text_ends not_False_eq_True)
qed

lemma json_Marshal_nonempty [simp]: "json_Marshal_strings ss \<noteq> []"
  by (simp add: json_Marshal_strings_def split: option.split)

section \<open>The role a node record describes\<close>

text \<open>The five entries the Controller reads, as both writers write them.\<close>

definition describes_role :: "gossipsub_config \<Rightarrow> bool \<Rightarrow> node \<Rightarrow> bool" where
  "describes_role g publish n \<longleftrightarrow>
     map_of (metadata n) ''topicsJSON'' = Some (json_Marshal_strings (gs_Topics g))
     \<and> map_of (metadata n) ''pubsubEnabled'' = Some (FormatBool (gs_Enabled g = Some True))
     \<and> map_of (metadata n) ''allowPublish'' = Some (FormatBool publish)
     \<and> map_of (metadata n) ''topicMode'' = Some (gs_TopicMode g)"

definition role_topic :: "gossipsub_config \<Rightarrow> gostring \<Rightarrow> bool" where
  "role_topic g t \<longleftrightarrow> t = [] \<or> t \<in> set (elems (gs_Topics g))"

definition may_publish :: "gossipsub_config \<Rightarrow> gostring \<Rightarrow> bool" where
  "may_publish g t \<longleftrightarrow> gs_Enabled g = Some True \<and> gs_AllowPublish g = Some True \<and> role_topic g t"

definition may_subscribe :: "gossipsub_config \<Rightarrow> gostring \<Rightarrow> bool" where
  "may_subscribe g t \<longleftrightarrow> gs_Enabled g = Some True \<and> gs_TopicMode g = ''subscribe'' \<and> role_topic g t"

lemma topics_read:
  assumes "map_of (metadata n) ''topicsJSON'' = Some (json_Marshal_strings ss)" "\<forall>t \<in> set (elems ss). valid_utf8 t"
  shows "nodeTopics n = elems ss"
  using assms json_strings_roundtrip [of ss] by (simp add: nodeTopics_def mget_def Let_def)

lemma subscribes_read:
  assumes "map_of (metadata n) ''topicsJSON'' = Some (json_Marshal_strings (gs_Topics g))"
    "map_of (metadata n) ''pubsubEnabled'' = Some (FormatBool (gs_Enabled g = Some True))"
    "map_of (metadata n) ''topicMode'' = Some (gs_TopicMode g)"
    "\<forall>t \<in> set (elems (gs_Topics g)). valid_utf8 t" "elems (gs_Topics g) \<noteq> []" "gs_TopicMode g \<noteq> []"
  shows "nodeSubscribesToTopic n t \<longleftrightarrow> may_subscribe g t"
  using assms topics_read [of n "gs_Topics g"]
  by (simp add: nodeSubscribesToTopic_def nodeFeatureEnabled_def nodeHasTopic_def mget_def Let_def
      may_subscribe_def role_topic_def)

lemma publishes_read:
  assumes "describes_role g (gs_Enabled g = Some True \<and> gs_AllowPublish g = Some True) n"
    "\<forall>t \<in> set (elems (gs_Topics g)). valid_utf8 t" "elems (gs_Topics g) \<noteq> []"
  shows "nodeCanPublishTopic n t \<longleftrightarrow> may_publish g t"
  using assms topics_read [of n "gs_Topics g"]
  by (auto simp: nodeCanPublishTopic_def nodeFeatureEnabled_def nodeHasTopic_def describes_role_def
      may_publish_def role_topic_def)

lemma gossip_frame:
  "nc_GossipSub (node_WithDefaults (c\<lparr>nc_Type := k\<rparr>)) = nc_GossipSub (node_WithDefaults c)"
  "nc_GossipSub (node_WithDefaults (c\<lparr>nc_Network := w\<rparr>)) = nc_GossipSub (node_WithDefaults c)"
  by (simp_all add: node_defaults_parts promoteLegacy_def Let_def)

lemma defaulted_gossip:
  assumes "g = nc_GossipSub (node_WithDefaults c)"
  shows "elems (gs_Topics g) \<noteq> []" "gs_TopicMode g \<noteq> []"
  using gossipsub_defaults_topics by (simp_all add: assms node_defaults_parts gossipsub_defaults_def Let_def)

lemma resolved_gossip:
  assumes "resolveCreateNodeConfig q = (c, kind)"
  obtains x where "nc_GossipSub c = nc_GossipSub (node_WithDefaults x)"
    "nc_GossipSub (node_WithDefaults (c\<lparr>nc_Network := w\<rparr>)) = nc_GossipSub c"
proof -
  obtain x k where c: "c = (node_WithDefaults x)\<lparr>nc_Type := k\<rparr> \<or> c = node_WithDefaults x"
    using assms unfolding resolveCreateNodeConfig_def Let_def by (simp split: option.splits) blast+
  have "nc_GossipSub (node_WithDefaults c) = nc_GossipSub c"
    using c gossip_frame(1) [of k "node_WithDefaults x"] by (auto simp: defaults_idem)
  then show thesis using that [of x] c gossip_frame(2) [of w c] by auto
qed

lemma createNode_result:
  assumes "createNode env q s = Some (Inr (n, pc, s'))"
  obtains c kind w requested where "resolveCreateNodeConfig q = (c, kind)"
    "n = created_node env s q kind (c\<lparr>nc_Network := w\<rparr>) requested" "pc_NodeConfig pc = c\<lparr>nc_Network := w\<rparr>"
  using assms unfolding createNode_def Let_def
  by (auto simp: peer_config_def split: if_splits prod.splits option.splits)

lemma created_describes_role:
  "describes_role (nc_GossipSub c) (PublishAllowed c) (created_node env s q kind c requested)"
  by (simp add: describes_role_def created_node_def Let_def metadata_def)

lemma map_of_selected:
  "map_of (concat (map (\<lambda>k. case f k of None \<Rightarrow> [] | Some v \<Rightarrow> [(k, v)]) ks)) k = (if k \<in> set ks then f k else None)"
  by (induction ks) (auto simp: map_add_def split: option.split)

lemma compact_keeps:
  assumes "k \<in> set kept_metadata" shows "map_of (metadata (compact_node n)) k = map_of (metadata n) k"
proof -
  have "metadata (compact_node n) = concat (map (\<lambda>k. case map_of (metadata n) k of None \<Rightarrow> [] | Some v \<Rightarrow> [(k, v)]) kept_metadata)"
    by (simp add: compact_node_def metadata_def)
  then show ?thesis using assms by (simp only: map_of_selected if_True)
qed

section \<open>Properties\<close>

text \<open>C33: What the Agent writes into a created Peer's metadata is what the Controller reads out of
  it. For every node that \<open>createNode\<close> answers with, and for the record \<open>recordCreatedNode\<close> makes of
  the answer, the topics read back from the text are the topics of the configuration the Peer is
  started with; the Peer is offered for publishing on a topic exactly when that configuration enables
  PubSub, allows publishing and has the topic; and it counts as a receiver exactly when PubSub is
  enabled, its topic mode is subscribe and it has the topic. The last also holds of the compacted
  record that remains after the Peer has stopped. Topics are well-formed UTF-8.\<close>

theorem peer_role_roundtrip:
  assumes "createNode env q s = Some (Inr (n, pc, s'))"
    and "g = nc_GossipSub (pc_NodeConfig pc)" and "\<forall>t \<in> set (elems (gs_Topics g)). valid_utf8 t"
    and "m = n \<or> m = completedNode now q agentID n"
  shows "nodeTopics m = elems (gs_Topics g) \<and> nodeTopics (compact_node m) = elems (gs_Topics g)
    \<and> (\<forall>t. nodeCanPublishTopic m t = may_publish g t)
    \<and> (\<forall>t. nodeSubscribesToTopic m t = may_subscribe g t)
    \<and> (\<forall>t. nodeSubscribesToTopic (compact_node m) t = may_subscribe g t)"
proof -
  obtain c kind w requested where c: "resolveCreateNodeConfig q = (c, kind)"
    and n: "n = created_node env s q kind (c\<lparr>nc_Network := w\<rparr>) requested" and pc: "pc_NodeConfig pc = c\<lparr>nc_Network := w\<rparr>"
    using createNode_result [OF assms(1)] by blast
  obtain x where x: "nc_GossipSub c = nc_GossipSub (node_WithDefaults x)"
      "nc_GossipSub (node_WithDefaults (c\<lparr>nc_Network := w\<rparr>)) = nc_GossipSub c"
    using resolved_gossip [OF c] by blast
  have g: "g = nc_GossipSub c" using assms(2) pc by simp
  have d: "elems (gs_Topics g) \<noteq> []" "gs_TopicMode g \<noteq> []" using defaulted_gossip [of g x] x(1) g by auto
  have "PublishAllowed (c\<lparr>nc_Network := w\<rparr>) \<longleftrightarrow> gs_Enabled g = Some True \<and> gs_AllowPublish g = Some True"
    by (simp add: PublishAllowed_def x(2) g Let_def)
  then have "describes_role g (gs_Enabled g = Some True \<and> gs_AllowPublish g = Some True) n"
    using created_describes_role [of "c\<lparr>nc_Network := w\<rparr>" env s q kind requested] n g by simp
  moreover have "nd_Metadata n \<noteq> None" by (simp add: n created_node_def Let_def)
  ultimately have r: "describes_role g (gs_Enabled g = Some True \<and> gs_AllowPublish g = Some True) m"
    using assms(4) by (auto simp: describes_role_def completedNode_def metadata_def Let_def)
  then have k: "map_of (metadata (compact_node m)) ''topicsJSON'' = Some (json_Marshal_strings (gs_Topics g))"
    "map_of (metadata (compact_node m)) ''pubsubEnabled'' = Some (FormatBool (gs_Enabled g = Some True))"
    "map_of (metadata (compact_node m)) ''topicMode'' = Some (gs_TopicMode g)"
    by (simp_all add: compact_keeps kept_metadata_def describes_role_def)
  from r have m: "map_of (metadata m) ''topicsJSON'' = Some (json_Marshal_strings (gs_Topics g))"
    "map_of (metadata m) ''pubsubEnabled'' = Some (FormatBool (gs_Enabled g = Some True))"
    "map_of (metadata m) ''topicMode'' = Some (gs_TopicMode g)" by (simp_all add: describes_role_def)
  show ?thesis
    using topics_read [OF m(1) assms(3)] topics_read [OF k(1) assms(3)] publishes_read [OF r assms(3) d(1)]
      subscribes_read [OF m assms(3) d] subscribes_read [OF k assms(3) d] by blast
qed

lemma demo_role:
  "case createNode demo_agent_env demo_request demo_agent of
     Some (Inr (n, pc, s)) \<Rightarrow> gs_Topics (nc_GossipSub (pc_NodeConfig pc)) = Some [''kpl/default''] | _ \<Rightarrow> False"
  by code_simp

theorem peer_role_roundtrip_witness:
  "\<exists>n pc s'. createNode demo_agent_env demo_request demo_agent = Some (Inr (n, pc, s'))
     \<and> nodeTopics (completedNode 7 demo_request ''a'' n) = [''kpl/default'']"
proof -
  obtain n pc s' where cr: "createNode demo_agent_env demo_request demo_agent = Some (Inr (n, pc, s'))"
    and t: "gs_Topics (nc_GossipSub (pc_NodeConfig pc)) = Some [''kpl/default'']"
    using demo_role by (auto split: option.split_asm sum.split_asm)
  have "valid_utf8 ''kpl/default''" by code_simp
  then have "\<forall>t \<in> set (elems (gs_Topics (nc_GossipSub (pc_NodeConfig pc)))). valid_utf8 t" using t by simp
  from peer_role_roundtrip [OF cr refl this disjI2, OF refl] show ?thesis using cr t by auto
qed

section \<open>The receivers of a publication\<close>

definition intended_receivers :: "go_time \<Rightarrow> gostring \<Rightarrow> gostring \<Rightarrow> gostring \<Rightarrow> fleet \<Rightarrow> gostring set" where
  "intended_receivers now runID publisherID t s =
     {k. \<exists>n. map_of (st_nodes s) k = Some n \<and> k \<noteq> publisherID \<and> nd_RunID n = runID \<and> nd_State n = NodeReady
         \<and> node_online now s n \<and> nodeSubscribesToTopic n t}"

lemma publish_wf_nodes:
  assumes "fleet_wf s"
  shows "wf_map (st_nodes s)" and "(k, n) \<in> set (st_nodes s) \<Longrightarrow> nd_ID n = k"
proof -
  show "wf_map (st_nodes s)" using assms by (simp add: fleet_wf_def nodes_ok_def)
  then show "(k, n) \<in> set (st_nodes s) \<Longrightarrow> nd_ID n = k"
    using fleet_wf_node_ID [OF assms] map_of_SomeI_wf by metis
qed

lemma node_ids: "fleet_wf s \<Longrightarrow> map (nd_ID \<circ> snd) (st_nodes s) = map fst (st_nodes s)"
  using publish_wf_nodes(2) by (auto intro!: map_cong)

lemma cohort_targets_set:
  assumes "fleet_wf s"
  shows "set (cohort_targets now runID publisherID t s) = intended_receivers now runID publisherID t s"
    and "distinct (cohort_targets now runID publisherID t s)" and "sorted (cohort_targets now runID publisherID t s)"
proof -
  note wf = publish_wf_nodes [OF assms]
  define P where "P n \<longleftrightarrow> nd_ID n \<noteq> publisherID \<and> nd_RunID n = runID \<and> nd_State n = NodeReady
    \<and> node_online now s n \<and> nodeSubscribesToTopic n t" for n
  have "k \<in> set (cohort_targets now runID publisherID t s) \<longleftrightarrow> k \<in> intended_receivers now runID publisherID t s" for k
  proof -
    have "k \<in> set (cohort_targets now runID publisherID t s) \<longleftrightarrow> (\<exists>(k', n) \<in> set (st_nodes s). P n \<and> nd_ID n = k)"
      unfolding cohort_targets_def set_sort_Strings P_def [symmetric] by (auto, force)
    also have "\<dots> \<longleftrightarrow> (\<exists>n. (k, n) \<in> set (st_nodes s) \<and> P n)" using wf(2) by fast
    also have "\<dots> \<longleftrightarrow> (\<exists>n. map_of (st_nodes s) k = Some n \<and> P n)"
      by (simp only: map_of_eq_Some_iff [OF wf(1)])
    also have "\<dots> \<longleftrightarrow> k \<in> intended_receivers now runID publisherID t s"
      using fleet_wf_node_ID [OF assms] unfolding intended_receivers_def P_def mem_Collect_eq by metis
    finally show ?thesis .
  qed
  then show "set (cohort_targets now runID publisherID t s) = intended_receivers now runID publisherID t s" by blast
  have "map nd_ID (map snd (st_nodes s)) = map fst (st_nodes s)" using node_ids [OF assms] by (simp only: map_map)
  then have "distinct (map nd_ID (map snd (st_nodes s)))" using wf(1) by metis
  then show "distinct (cohort_targets now runID publisherID t s)"
    by (simp add: cohort_targets_def distinct_map_filter)
  show "sorted (cohort_targets now runID publisherID t s)" by (simp add: cohort_targets_def sorted_sort_Strings)
qed

lemma cohort_topic_simps:
  "pq_TargetNodeIDsByTopic (cohort_topic now p s t q) =
     AList.update t (cohort_targets now (pq_RunID q) p t s) (pq_TargetNodeIDsByTopic q)"
  "pq_TargetNodesByTopic (cohort_topic now p s t q) =
     AList.update t (int (length (cohort_targets now (pq_RunID q) p t s)) + 1) (pq_TargetNodesByTopic q)"
  "pq_RunID (cohort_topic now p s t q) = pq_RunID q" "pq_Topic (cohort_topic now p s t q) = pq_Topic q"
  "pq_CohortCapturedAt (cohort_topic now p s t q) = pq_CohortCapturedAt q"
  "pq_Topic q \<noteq> ''*'' \<Longrightarrow> pq_TargetNodeIDs (cohort_topic now p s t q) = Some (cohort_targets now (pq_RunID q) p t s)"
  by (simp_all add: cohort_topic_def Let_def)

lemma cohort_fold:
  "pq_RunID (fold (cohort_topic now p s) ts q) = pq_RunID q"
  "pq_Topic (fold (cohort_topic now p s) ts q) = pq_Topic q"
  "pq_CohortCapturedAt (fold (cohort_topic now p s) ts q) = pq_CohortCapturedAt q"
  by (induction ts arbitrary: q) (simp_all add: cohort_topic_simps)

lemma cohort_fold_ids:
  "map_of (pq_TargetNodeIDsByTopic (fold (cohort_topic now p s) ts q)) t =
     (if t \<in> set ts then Some (cohort_targets now (pq_RunID q) p t s) else map_of (pq_TargetNodeIDsByTopic q) t)"
  by (induction ts arbitrary: q) (simp_all add: cohort_topic_simps)

lemma cohort_fold_counts:
  "map_of (pq_TargetNodesByTopic (fold (cohort_topic now p s) ts q)) t =
     (if t \<in> set ts then Some (int (length (cohort_targets now (pq_RunID q) p t s)) + 1)
      else map_of (pq_TargetNodesByTopic q) t)"
  by (induction ts arbitrary: q) (simp_all add: cohort_topic_simps)

text \<open>C34: The cohort of a publication is exact. When the capture succeeds the publisher is a ready node of
  an online Agent at that moment; the request then carries, for every topic that is published on and
  for no other, the sorted list without repetition of exactly the other Peers of the same run that are
  ready, on an online Agent and subscribed to the topic, together with their number plus one for the
  publisher. A publication on one topic carries that topic's list as its target list. The capture
  fails only when the publisher is not such a node, and it never sends a request to a Peer that cannot
  publish on the topic: every topic of \<open>nodePublishTopics\<close> is one the Peer can publish.\<close>

theorem publish_cohort_exact:
  assumes "fleet_wf s" and "topics = nodePublishTopics publisher (pq_Topic q)"
  shows "(case capturePublishCohort now q publisher topics s of
      None \<Rightarrow> \<not> (\<exists>n. map_of (st_nodes s) (nd_ID publisher) = Some n \<and> nd_State n = NodeReady \<and> node_online now s n)
    | Some q' \<Rightarrow> (\<exists>n. map_of (st_nodes s) (nd_ID publisher) = Some n \<and> nd_State n = NodeReady \<and> node_online now s n)
        \<and> pq_CohortCapturedAt q' = now \<and> pq_RunID q' = pq_RunID q
        \<and> (\<forall>t. map_of (pq_TargetNodeIDsByTopic q') t \<noteq> None \<longleftrightarrow> t \<in> set topics)
        \<and> (\<forall>t ids. map_of (pq_TargetNodeIDsByTopic q') t = Some ids \<longrightarrow> sorted ids \<and> distinct ids
             \<and> set ids = intended_receivers now (pq_RunID q) (nd_ID publisher) t s
             \<and> map_of (pq_TargetNodesByTopic q') t = Some (int (card (set ids)) + 1)
             \<and> (pq_Topic q \<noteq> ''*'' \<longrightarrow> pq_TargetNodeIDs q' = Some ids)))
    \<and> (\<forall>t \<in> set topics. nodeCanPublishTopic publisher t) \<and> distinct topics"
proof -
  note cohort = cohort_targets_set [OF assms(1)]
  have single: "topics = [] \<or> (\<exists>t. topics = [t])" if "pq_Topic q \<noteq> ''*''"
    using that by (simp add: assms(2) nodePublishTopics_def Let_def)
  have topics: "(\<forall>t \<in> set topics. nodeCanPublishTopic publisher t) \<and> distinct topics"
    by (auto simp: assms(2) nodePublishTopics_def Let_def)
  show ?thesis
  proof (cases "capturePublishCohort now q publisher topics s")
    case None
    then show ?thesis using topics by (auto simp: capturePublishCohort_def split: option.splits if_splits)
  next
    case (Some q')
    define q0 where "q0 = q\<lparr>pq_CohortCapturedAt := now, pq_TargetNodeIDsByTopic := [], pq_TargetNodesByTopic := []\<rparr>"
    have q': "q' = fold (cohort_topic now (nd_ID publisher) s) topics q0"
      and n: "\<exists>n. map_of (st_nodes s) (nd_ID publisher) = Some n \<and> nd_State n = NodeReady \<and> node_online now s n"
      using Some by (auto simp: capturePublishCohort_def q0_def split: option.splits if_splits)
    have q0: "pq_RunID q0 = pq_RunID q" "pq_Topic q0 = pq_Topic q" "pq_CohortCapturedAt q0 = now"
      "pq_TargetNodeIDsByTopic q0 = []" by (simp_all add: q0_def)
    have ids: "map_of (pq_TargetNodeIDsByTopic q') t =
        (if t \<in> set topics then Some (cohort_targets now (pq_RunID q) (nd_ID publisher) t s) else None)" for t
      by (simp add: q' cohort_fold_ids q0)
    have "sorted ids \<and> distinct ids \<and> set ids = intended_receivers now (pq_RunID q) (nd_ID publisher) t s
        \<and> map_of (pq_TargetNodesByTopic q') t = Some (int (card (set ids)) + 1)
        \<and> (pq_Topic q \<noteq> ''*'' \<longrightarrow> pq_TargetNodeIDs q' = Some ids)"
      if "map_of (pq_TargetNodeIDsByTopic q') t = Some ids" for t ids
    proof -
      have t: "t \<in> set topics" "ids = cohort_targets now (pq_RunID q) (nd_ID publisher) t s"
        using that ids [of t] by (auto split: if_splits)
      then have "pq_TargetNodeIDs q' = Some ids" if "pq_Topic q \<noteq> ''*''"
        using single [OF that] that by (auto simp: q' q0 cohort_topic_simps(6))
      moreover have "card (set ids) = length ids" using distinct_card cohort(2) t(2) by blast
      ultimately show ?thesis using t cohort by (simp add: q' cohort_fold_counts q0)
    qed
    moreover have "pq_CohortCapturedAt q' = now" "pq_RunID q' = pq_RunID q"
      by (simp_all only: q' cohort_fold q0)
    moreover have "map_of (pq_TargetNodeIDsByTopic q') t \<noteq> None \<longleftrightarrow> t \<in> set topics" for t by (simp add: ids)
    ultimately show ?thesis using topics n unfolding Some option.case by blast
  qed
qed

definition demo_publisher :: node where
  "demo_publisher = zero_node\<lparr>nd_ID := ''p'', nd_RunID := ''r'', nd_AgentID := ''a'', nd_State := NodeReady\<rparr>"

definition demo_receiver :: node where
  "demo_receiver = demo_publisher\<lparr>nd_ID := ''q''\<rparr>"

definition demo_publish_fleet :: fleet where
  "demo_publish_fleet = \<lparr>st_agentCapacityOverrides = [], st_agentCapacityRevisions = [], st_agentReportedCapacities = [],
     st_agentSettingsErr = False, st_agents = [(''a'', zero_agent\<lparr>ag_ID := ''a'', ag_State := AgentOnline, ag_LastSeen := 5\<rparr>)],
     st_nodes = [(''p'', demo_publisher), (''q'', demo_receiver)], st_activeNodeIDs = None, st_reservations = [],
     st_agentSnapshots = [], st_nodeReportTimes = [], st_watchers = []\<rparr>"

definition demo_publish_request :: publish_request where
  "demo_publish_request = \<lparr>pq_RunID = ''r'', pq_Topic = ''kpl/default'', pq_PayloadSize = 64, pq_PayloadEncoding = [],
     pq_DeliveryWindow = [], pq_TargetNodes = 0, pq_TargetNodesByTopic = [], pq_TargetNodeIDs = None,
     pq_TargetNodeIDsByTopic = [], pq_CohortCapturedAt = 0\<rparr>"

theorem publish_cohort_exact_witness:
  "\<exists>q'. capturePublishCohort 6 demo_publish_request demo_publisher (nodePublishTopics demo_publisher ''kpl/default'')
       demo_publish_fleet = Some q' \<and> pq_TargetNodeIDs q' = Some [''q''] \<and> pq_CohortCapturedAt q' = 6
     \<and> (\<forall>t \<in> set (nodePublishTopics demo_publisher ''kpl/default''). nodeCanPublishTopic demo_publisher t)"
proof -
  have wf: "fleet_wf demo_publish_fleet"
    by (simp add: fleet_wf_def nodes_ok_def agents_ok_def demo_publish_fleet_def demo_publisher_def demo_receiver_def)
  have demo: "case capturePublishCohort 6 demo_publish_request demo_publisher
        (nodePublishTopics demo_publisher ''kpl/default'') demo_publish_fleet of
      Some q' \<Rightarrow> pq_TargetNodeIDs q' = Some [''q''] | None \<Rightarrow> False"
    by code_simp
  then obtain q' where q': "capturePublishCohort 6 demo_publish_request demo_publisher
      (nodePublishTopics demo_publisher ''kpl/default'') demo_publish_fleet = Some q'" "pq_TargetNodeIDs q' = Some [''q'']"
    by (simp split: option.split_asm)
  have "nodePublishTopics demo_publisher ''kpl/default'' = nodePublishTopics demo_publisher (pq_Topic demo_publish_request)"
    by (simp add: demo_publish_request_def)
  from publish_cohort_exact [OF wf this, of 6, unfolded q'(1) option.case] show ?thesis using q' by blast
qed

end
