(* ===== verification/Operations.thy ===== *)
theory Operations
  imports GoPrelude
begin

text \<open>
  How a phase runs its batch of operations (\<open>internal/controller/runner.go\<close>, \<open>runOperations\<close>). A
  serial batch is a function of the clock: every sleep, every look at the context and every operation
  has a start and an end. A parallel batch is a step relation: one dispatcher hands indexes to a fixed
  number of workers over an unbuffered channel, and a worker that fails cancels the rest. What an
  operation does is not part of this theory: in the serial batch it is a function of its index and its
  start, in the parallel one it may return anything at any time.
\<close>

text \<open>An error of an operation may wrap the cancellation of a context; the flag is what \<open>errors.Is\<close> finds.\<close>

datatype 'e op_error = ContextCanceled | DeadlineExceeded | OpFailed bool 'e

section \<open>Serial batches\<close>

text \<open>The context of a batch: when it ends, and with which error, if it ever does.\<close>

type_synonym 'e context_end = "(go_time \<times> 'e op_error) option"

definition ctx_Err :: "'e context_end \<Rightarrow> go_time \<Rightarrow> 'e op_error option" where
  "ctx_Err ctx now = (case ctx of None \<Rightarrow> None | Some (t, e) \<Rightarrow> if t \<le> now then Some e else None)"

text \<open>A sleep ends with the timer or with the context; at the same instant the context wins here.\<close>

definition sleepContext :: "'e context_end \<Rightarrow> duration \<Rightarrow> go_time \<Rightarrow> 'e op_error option \<times> go_time" where
  "sleepContext ctx d now =
     (if d \<le> 0 then (None, now)
      else case ctx of None \<Rightarrow> (None, now + d)
        | Some (t, e) \<Rightarrow> if t \<le> now + d then (Some e, max now t) else (None, now + d))"

text \<open>
  The loop over the indexes. \<open>operation i now\<close> is the result of operation \<open>i\<close> started at \<open>now\<close> and the
  time it returns; the trace lists the operations that were started, with the time of their start.
\<close>

fun serial_loop :: "'e context_end \<Rightarrow> bool \<Rightarrow> duration list \<Rightarrow> (nat \<Rightarrow> go_time \<Rightarrow> 'e op_error option \<times> go_time)
    \<Rightarrow> nat list \<Rightarrow> go_time \<Rightarrow> go_time \<Rightarrow> 'e op_error option \<times> (nat \<times> go_time) list" where
  "serial_loop ctx parallel delays operation [] next_at now = (None, [])"
| "serial_loop ctx parallel delays operation (i # ks) next_at now =
     (case (if parallel then (None, now) else sleepContext ctx (next_at - now) now) of
        (Some e, _) \<Rightarrow> (Some e, [])
      | (None, now1) \<Rightarrow>
          (case ctx_Err ctx now1 of Some e \<Rightarrow> (Some e, [])
           | None \<Rightarrow>
               (case operation i now1 of
                  (Some e, _) \<Rightarrow> (Some e, [(i, now1)])
                | (None, now2) \<Rightarrow>
                    let next' = (if \<not> parallel \<and> i < length delays then next_at + delays ! i else next_at);
                        (r, tr) = serial_loop ctx parallel delays operation ks next' now2
                    in (r, (i, now1) # tr))))"

definition serial_operations :: "'e context_end \<Rightarrow> nat \<Rightarrow> bool \<Rightarrow> duration list
    \<Rightarrow> (nat \<Rightarrow> go_time \<Rightarrow> 'e op_error option \<times> go_time) \<Rightarrow> go_time \<Rightarrow> 'e op_error option \<times> (nat \<times> go_time) list" where
  "serial_operations ctx n parallel delays operation now =
     (case ctx_Err ctx now of Some e \<Rightarrow> (Some e, [])
      | None \<Rightarrow> serial_loop ctx parallel delays operation [0..<n] now now)"

definition runs_serially :: "bool \<Rightarrow> int \<Rightarrow> bool \<Rightarrow> bool" where
  "runs_serially parallel parallelism delayParallel \<longleftrightarrow> \<not> parallel \<or> parallelism = 1 \<and> \<not> delayParallel"

section \<open>Parallel batches\<close>

text \<open>The number of workers, and the order in which the indexes are handed out.\<close>

definition worker_count :: "int \<Rightarrow> nat \<Rightarrow> nat" where
  "worker_count parallelism n = (if parallelism \<le> 0 \<or> int n < parallelism then n else nat parallelism)"

definition op_delay :: "duration list \<Rightarrow> nat \<Rightarrow> duration" where
  "op_delay delays i = (if i < length delays \<and> 0 < delays ! i then delays ! i else 0)"

definition dispatch_order :: "duration list \<Rightarrow> bool \<Rightarrow> nat \<Rightarrow> nat list" where
  "dispatch_order delays delayParallel n =
     (if delayParallel \<and> delays \<noteq> [] then sort_key (op_delay delays) [0..<n] else [0..<n])"

datatype pool_worker =
    Idle              \<comment> \<open>waits for an index\<close>
  | Received nat      \<comment> \<open>has an index, has not looked at the context yet\<close>
  | Working nat       \<comment> \<open>runs an operation\<close>
  | Failing           \<comment> \<open>has reported an error, has not cancelled the rest yet\<close>
  | Exited

record 'e pool =
  pl_queue :: "nat list"             \<comment> \<open>what the dispatcher has not handed out\<close>
  pl_closed :: bool                  \<comment> \<open>the channel \<open>jobs\<close>\<close>
  pl_workers :: "pool_worker list"
  pl_failures :: "'e op_error list"
  pl_canceled :: bool                \<comment> \<open>\<open>operationCtx\<close>\<close>
  pl_parent :: "'e op_error option"  \<comment> \<open>the error of the parent context\<close>
  pl_started :: "nat list"
  pl_done :: "nat list"

definition set_worker :: "nat \<Rightarrow> pool_worker \<Rightarrow> 'e pool \<Rightarrow> 'e pool" where
  "set_worker w x p = p\<lparr>pl_workers := (pl_workers p)[w := x]\<rparr>"

definition worker_at :: "'e pool \<Rightarrow> nat \<Rightarrow> pool_worker \<Rightarrow> bool" where
  "worker_at p w x \<longleftrightarrow> w < length (pl_workers p) \<and> pl_workers p ! w = x"

inductive pool_step :: "'e pool \<Rightarrow> 'e pool \<Rightarrow> bool" where
  hand_out: "\<lbrakk>\<not> pl_closed p; pl_queue p = i # q; worker_at p w Idle\<rbrakk>
    \<Longrightarrow> pool_step p (set_worker w (Received i) (p\<lparr>pl_queue := q\<rparr>))"
| stop_dispatch: "\<lbrakk>\<not> pl_closed p; pl_canceled p \<or> pl_queue p = []\<rbrakk> \<Longrightarrow> pool_step p (p\<lparr>pl_closed := True\<rparr>)"
| start_work: "\<lbrakk>worker_at p w (Received i); \<not> pl_canceled p\<rbrakk>
    \<Longrightarrow> pool_step p (set_worker w (Working i) (p\<lparr>pl_started := pl_started p @ [i]\<rparr>))"
| drop_work: "\<lbrakk>worker_at p w (Received i); pl_canceled p\<rbrakk> \<Longrightarrow> pool_step p (set_worker w Exited p)"
| work_done: "worker_at p w (Working i)
    \<Longrightarrow> pool_step p (set_worker w Idle (p\<lparr>pl_done := pl_done p @ [i]\<rparr>))"
| work_failed: "worker_at p w (Working i)
    \<Longrightarrow> pool_step p (set_worker w Failing (p\<lparr>pl_failures := pl_failures p @ [e]\<rparr>))"
| cancel_rest: "worker_at p w Failing \<Longrightarrow> pool_step p (set_worker w Exited (p\<lparr>pl_canceled := True\<rparr>))"
| no_more_work: "\<lbrakk>worker_at p w Idle; pl_closed p\<rbrakk> \<Longrightarrow> pool_step p (set_worker w Exited p)"
| parent_ends: "\<lbrakk>pl_parent p = None; e = ContextCanceled \<or> e = DeadlineExceeded\<rbrakk>
    \<Longrightarrow> pool_step p (p\<lparr>pl_parent := Some e, pl_canceled := True\<rparr>)"

abbreviation pool_run :: "'e pool \<Rightarrow> 'e pool \<Rightarrow> bool" where "pool_run \<equiv> pool_step\<^sup>*\<^sup>*"

definition start_pool :: "nat \<Rightarrow> int \<Rightarrow> duration list \<Rightarrow> bool \<Rightarrow> 'e pool" where
  "start_pool n parallelism delays delayParallel =
     \<lparr>pl_queue = dispatch_order delays delayParallel n, pl_closed = False,
      pl_workers = replicate (worker_count parallelism n) Idle, pl_failures = [], pl_canceled = False,
      pl_parent = None, pl_started = [], pl_done = []\<rparr>"

text \<open>The dispatcher has closed the channel and \<open>group.Wait\<close> returns.\<close>

definition pool_finished :: "'e pool \<Rightarrow> bool" where
  "pool_finished p \<longleftrightarrow> pl_closed p \<and> (\<forall>x \<in> set (pl_workers p). x = Exited)"

fun is_Canceled :: "'e op_error \<Rightarrow> bool" where
  "is_Canceled ContextCanceled = True"
| "is_Canceled DeadlineExceeded = False"
| "is_Canceled (OpFailed canceled e) = canceled"

text \<open>The result: a genuine failure, else the parent's error, else the cancellation an operation reported.\<close>

definition pool_result :: "'e pool \<Rightarrow> 'e op_error option" where
  "pool_result p =
     (case find (\<lambda>e. \<not> is_Canceled e) (pl_failures p) of
        Some e \<Rightarrow> Some e
      | None \<Rightarrow>
          (case pl_parent p of Some e \<Rightarrow> Some e
           | None \<Rightarrow> (case pl_failures p of [] \<Rightarrow> None | e # _ \<Rightarrow> Some e)))"

section \<open>Invariant of the pool\<close>

fun received_by :: "pool_worker \<Rightarrow> nat multiset" where
  "received_by (Received i) = {#i#}" | "received_by _ = {#}"

fun worked_on :: "pool_worker \<Rightarrow> nat multiset" where
  "worked_on (Working i) = {#i#}" | "worked_on _ = {#}"

definition held_indexes :: "'e pool \<Rightarrow> nat multiset" where "held_indexes p = sum_list (map received_by (pl_workers p))"
definition running :: "'e pool \<Rightarrow> nat multiset" where "running p = sum_list (map worked_on (pl_workers p))"

text \<open>Every index is in one place: not handed out, received, started or, after a cancellation, dropped.\<close>

definition index_counts :: "nat multiset \<Rightarrow> bool \<Rightarrow> bool \<Rightarrow> nat multiset \<Rightarrow> nat multiset \<Rightarrow> nat multiset \<Rightarrow> nat multiset \<Rightarrow> nat multiset \<Rightarrow> bool" where
  "index_counts all canceled failed Q H S D R \<longleftrightarrow> Q + H + S \<subseteq># all \<and> (\<not> canceled \<longrightarrow> Q + H + S = all)
     \<and> D + R \<subseteq># S \<and> (\<not> failed \<longrightarrow> D + R = S)"

definition counting :: "nat multiset \<Rightarrow> 'e pool \<Rightarrow> bool" where
  "counting all p = index_counts all (pl_canceled p) (pl_failures p \<noteq> []) (mset (pl_queue p)) (held_indexes p)
     (mset (pl_started p)) (mset (pl_done p)) (running p)"

definition flags :: "'e pool \<Rightarrow> bool" where
  "flags p \<longleftrightarrow> (pl_canceled p \<longrightarrow> pl_parent p \<noteq> None \<or> pl_failures p \<noteq> [])
     \<and> (Failing \<in> set (pl_workers p) \<longrightarrow> pl_failures p \<noteq> [])
     \<and> (Exited \<in> set (pl_workers p) \<longrightarrow> pl_canceled p \<or> pl_closed p)
     \<and> (pl_closed p \<longrightarrow> pl_canceled p \<or> pl_queue p = [])"

lemma pool_frame [simp]:
  "pl_queue (set_worker w x p) = pl_queue p" "pl_closed (set_worker w x p) = pl_closed p"
  "pl_failures (set_worker w x p) = pl_failures p" "pl_canceled (set_worker w x p) = pl_canceled p"
  "pl_parent (set_worker w x p) = pl_parent p" "pl_started (set_worker w x p) = pl_started p"
  "pl_done (set_worker w x p) = pl_done p" "pl_workers (set_worker w x p) = (pl_workers p)[w := x]"
  by (simp_all add: set_worker_def)

lemma pool_frame_held [simp]:
  "held_indexes (p\<lparr>pl_queue := a\<rparr>) = held_indexes p" "held_indexes (p\<lparr>pl_started := a\<rparr>) = held_indexes p" "held_indexes (p\<lparr>pl_done := a\<rparr>) = held_indexes p"
  "held_indexes (p\<lparr>pl_failures := e\<rparr>) = held_indexes p" "held_indexes (p\<lparr>pl_canceled := b\<rparr>) = held_indexes p" "held_indexes (p\<lparr>pl_closed := b\<rparr>) = held_indexes p"
  "held_indexes (p\<lparr>pl_parent := x\<rparr>) = held_indexes p"
  "running (p\<lparr>pl_queue := a\<rparr>) = running p" "running (p\<lparr>pl_started := a\<rparr>) = running p"
  "running (p\<lparr>pl_done := a\<rparr>) = running p" "running (p\<lparr>pl_failures := e\<rparr>) = running p"
  "running (p\<lparr>pl_canceled := b\<rparr>) = running p" "running (p\<lparr>pl_closed := b\<rparr>) = running p"
  "running (p\<lparr>pl_parent := x\<rparr>) = running p"
  by (simp_all add: held_indexes_def running_def)

lemma worker_moves:
  assumes "worker_at p w x" and "pl_workers p' = pl_workers p"
  obtains H R where "held_indexes p = H + received_by x" "running p = R + worked_on x"
    "held_indexes (set_worker w y p') = H + received_by y" "running (set_worker w y p') = R + worked_on y"
proof -
  let ?ws = "pl_workers p"
  have same: "?ws[w := x] = ?ws" using assms by (auto simp: worker_at_def)
  let ?sum = "\<lambda>f. sum_list (map f (take w ?ws)) + sum_list (map f (drop (Suc w) ?ws)) :: nat multiset"
  have new: "sum_list (map f (?ws[w := y])) = ?sum f + f y" for f :: "pool_worker \<Rightarrow> nat multiset" and y
    using assms by (simp add: worker_at_def upd_conv_take_nth_drop ac_simps)
  have old: "sum_list (map f ?ws) = ?sum f + f x" for f :: "pool_worker \<Rightarrow> nat multiset"
    using new [of f x] unfolding same .
  show thesis
    by (rule that [of "?sum received_by" "?sum worked_on"]) (simp_all add: held_indexes_def running_def new old assms(2))
qed

lemma drop_one: "Q + add_mset i H + S \<subseteq># (A :: nat multiset) \<Longrightarrow> Q + H + S \<subseteq># A"
  by (rule subset_mset.order_trans [of _ "Q + add_mset i H + S"]) simp_all

lemma lose_one: "D + add_mset i R \<subseteq># (A :: nat multiset) \<Longrightarrow> D + R \<subseteq># A"
  by (rule subset_mset.order_trans [of _ "D + add_mset i R"]) simp_all

lemma step_counting:
  assumes "pool_step p q" "counting all p" "flags p" shows "counting all q"
  using assms
proof (induction rule: pool_step.induct)
  case (hand_out p i q w)
  show ?case
    by (rule worker_moves [OF hand_out(3), of "p\<lparr>pl_queue := q\<rparr>" "Received i"]) (use hand_out in \<open>auto simp: counting_def index_counts_def\<close>)
next
  case (start_work p w i)
  show ?case
    by (rule worker_moves [OF start_work(1), of "p\<lparr>pl_started := pl_started p @ [i]\<rparr>" "Working i"]) (use start_work in \<open>auto simp: counting_def index_counts_def\<close>)
next
  case (drop_work p w i)
  show ?case
    by (rule worker_moves [OF drop_work(1), of "p" "Exited"]) (use drop_work drop_one in \<open>auto simp: counting_def index_counts_def\<close>)
next
  case (work_done p w i)
  show ?case
    by (rule worker_moves [OF work_done(1), of "p\<lparr>pl_done := pl_done p @ [i]\<rparr>" "Idle"]) (use work_done in \<open>auto simp: counting_def index_counts_def\<close>)
next
  case (work_failed p w i e)
  show ?case
    by (rule worker_moves [OF work_failed(1), of "p\<lparr>pl_failures := pl_failures p @ [e]\<rparr>" "Failing"]) (use work_failed lose_one in \<open>auto simp: counting_def index_counts_def\<close>)
next
  case (cancel_rest p w)
  show ?case
    by (rule worker_moves [OF cancel_rest(1), of "p\<lparr>pl_canceled := True\<rparr>" "Exited"]) (use cancel_rest in \<open>auto simp: counting_def index_counts_def\<close>)
next
  case (no_more_work p w)
  show ?case
    by (rule worker_moves [OF no_more_work(1), of "p" "Exited"]) (use no_more_work in \<open>auto simp: counting_def index_counts_def\<close>)
qed (auto simp: counting_def index_counts_def)

lemma step_flags: "pool_step p q \<Longrightarrow> flags p \<Longrightarrow> flags q"
  by (induction rule: pool_step.induct)
     (auto simp: flags_def worker_at_def in_set_conv_nth nth_list_update split: if_splits)

text \<open>Every step except the end of the parent makes this smaller, and that one happens once.\<close>

fun worker_weight :: "pool_worker \<Rightarrow> nat" where
  "worker_weight Idle = 1"
| "worker_weight (Received i) = 4"
| "worker_weight (Working i) = 3"
| "worker_weight Failing = 2"
| "worker_weight Exited = 0"

definition pool_weight :: "'e pool \<Rightarrow> nat" where
  "pool_weight p = 4 * length (pl_queue p) + sum_list (map worker_weight (pl_workers p))
     + (if pl_closed p then 0 else 1) + (if pl_parent p = None then 1 else 0)"

lemma sum_list_map_update:
  fixes f :: "'a \<Rightarrow> nat"
  shows "w < length xs \<Longrightarrow> sum_list (map f (xs[w := y])) + f (xs ! w) = sum_list (map f xs) + f y"
proof (induction xs arbitrary: w)
  case (Cons x xs)
  then show ?case by (cases w) auto
qed simp

lemma weight_update:
  assumes "worker_at p w x"
  shows "sum_list (map worker_weight ((pl_workers p)[w := y])) + worker_weight x
    = sum_list (map worker_weight (pl_workers p)) + worker_weight y"
  using sum_list_map_update [of w "pl_workers p" worker_weight y] assms by (auto simp: worker_at_def)

lemma step_weight: "pool_step p q \<Longrightarrow> pool_weight q < pool_weight p"
proof (induction rule: pool_step.induct)
  case (hand_out p i q w)
  then show ?case using weight_update [OF hand_out(3), of "Received i"] by (simp add: pool_weight_def)
next
  case (start_work p w i)
  then show ?case using weight_update [OF start_work(1), of "Working i"] by (simp add: pool_weight_def)
next
  case (drop_work p w i)
  then show ?case using weight_update [OF drop_work(1), of Exited] by (simp add: pool_weight_def)
next
  case (work_done p w i)
  then show ?case using weight_update [OF work_done(1), of Idle] by (simp add: pool_weight_def)
next
  case (work_failed p w i e)
  then show ?case using weight_update [OF work_failed(1), of Failing] by (simp add: pool_weight_def)
next
  case (cancel_rest p w)
  then show ?case using weight_update [OF cancel_rest(1), of Exited] by (simp add: pool_weight_def)
next
  case (no_more_work p w)
  then show ?case using weight_update [OF no_more_work(1), of Exited] by (simp add: pool_weight_def)
qed (simp_all add: pool_weight_def)

lemma steps_weight: "(pool_step ^^ m) p q \<Longrightarrow> pool_weight q + m \<le> pool_weight p"
proof (induction m arbitrary: q)
  case (Suc m)
  then obtain r where "(pool_step ^^ m) p r" "pool_step r q" by auto
  then show ?case using Suc.IH [of r] step_weight [of r q] by simp
qed simp

definition shaped :: "nat list \<Rightarrow> nat \<Rightarrow> 'e pool \<Rightarrow> bool" where
  "shaped order k p \<longleftrightarrow> length (pl_workers p) = k \<and> (\<exists>m. pl_queue p = drop m order)"

lemma step_shaped: "pool_step p q \<Longrightarrow> shaped order k p \<Longrightarrow> shaped order k q"
proof (induction rule: pool_step.induct)
  case (hand_out p i q w)
  then obtain m where "i # q = drop m order" by (auto simp: shaped_def)
  then have "q = drop (Suc m) order" by (metis drop_Suc list.sel(3) tl_drop)
  then show ?case using hand_out by (auto simp: shaped_def)
qed (auto simp: shaped_def)

definition pool_ok :: "nat list \<Rightarrow> nat \<Rightarrow> 'e pool \<Rightarrow> bool" where
  "pool_ok order k p \<longleftrightarrow> counting (mset order) p \<and> flags p \<and> shaped order k p"

lemma set_dispatch_order: "mset (dispatch_order delays delayParallel n) = mset [0..<n]"
  by (simp add: dispatch_order_def)

lemma worker_count_bounds:
  "worker_count parallelism n \<le> n" "0 < n \<Longrightarrow> 0 < worker_count parallelism n"
  "0 < parallelism \<Longrightarrow> int (worker_count parallelism n) \<le> parallelism"
  by (auto simp: worker_count_def)

lemma start_pool_ok:
  "pool_ok (dispatch_order delays dp n) (worker_count parallelism n) (start_pool n parallelism delays dp)"
proof -
  have z: "sum_list (replicate k {#}) = ({#} :: nat multiset)" for k
    by (induction k) simp_all
  have "shaped (dispatch_order delays dp n) (worker_count parallelism n) (start_pool n parallelism delays dp)"
    unfolding shaped_def by (auto simp: start_pool_def intro!: exI [of _ 0])
  moreover have "counting (mset (dispatch_order delays dp n)) (start_pool n parallelism delays dp)"
    by (simp add: counting_def index_counts_def held_indexes_def running_def start_pool_def z)
  moreover have "flags (start_pool n parallelism delays dp)" by (simp add: flags_def start_pool_def)
  ultimately show ?thesis by (simp add: pool_ok_def)
qed

lemma pool_run_ok: "pool_run p q \<Longrightarrow> pool_ok order k p \<Longrightarrow> pool_ok order k q"
  by (induction rule: rtranclp_induct) (auto simp: pool_ok_def intro: step_counting step_flags step_shaped)

text \<open>No deadlock: as long as a worker or the dispatcher is left, one of them can move.\<close>

lemma step_exI: "pool_step p q \<Longrightarrow> pl_parent q = pl_parent p \<Longrightarrow> \<exists>q. pool_step p q \<and> pl_parent q = pl_parent p"
  by blast

lemma active_worker_moves:
  assumes "worker_at p w x" "x = Received i \<or> x = Working i \<or> x = Failing \<or> x = Idle \<and> pl_closed p"
  shows "\<exists>q. pool_step p q \<and> pl_parent q = pl_parent p"
proof -
  consider "x = Received i" "\<not> pl_canceled p" | "x = Received i" "pl_canceled p" | "x = Working i" | "x = Failing"
    | "x = Idle" "pl_closed p" using assms(2) by blast
  then show ?thesis
  proof cases
    case 1
    then show ?thesis using step_exI [OF start_work] assms(1) by auto
  next
    case 2
    then show ?thesis using step_exI [OF drop_work] assms(1) by auto
  next
    case 3
    then show ?thesis using step_exI [OF work_done] assms(1) by auto
  next
    case 4
    then show ?thesis using step_exI [OF cancel_rest] assms(1) by auto
  next
    case 5
    then show ?thesis using step_exI [OF no_more_work] assms(1) by auto
  qed
qed

lemma pool_progress:
  assumes ok: "pool_ok order k p" and k: "order \<noteq> [] \<Longrightarrow> 0 < k" and nf: "\<not> pool_finished p"
  shows "\<exists>q. pool_step p q \<and> pl_parent q = pl_parent p"
proof (cases "\<exists>x \<in> set (pl_workers p). x \<noteq> Exited \<and> (x \<noteq> Idle \<or> pl_closed p)")
  case True
  then obtain w x where w: "worker_at p w x" "x \<noteq> Exited" "x \<noteq> Idle \<or> pl_closed p"
    by (auto simp: in_set_conv_nth worker_at_def)
  then obtain i where "x = Received i \<or> x = Working i \<or> x = Failing \<or> x = Idle \<and> pl_closed p" by (cases x) auto
  then show ?thesis using active_worker_moves [OF w(1)] by blast
next
  case False
  then have opn: "\<not> pl_closed p" using nf by (auto simp: pool_finished_def)
  show ?thesis
  proof (cases "pl_canceled p \<or> pl_queue p = []")
    case True
    then show ?thesis using step_exI [OF stop_dispatch [OF opn True]] by simp
  next
    case False
    then obtain i q where q: "pl_queue p = i # q" by (cases "pl_queue p") auto
    then have "order \<noteq> []" using ok by (auto simp: pool_ok_def shaped_def)
    then have "pl_workers p \<noteq> []" using k ok by (auto simp: pool_ok_def shaped_def)
    moreover have "Exited \<notin> set (pl_workers p)" using ok False opn by (auto simp: pool_ok_def flags_def)
    moreover note \<open>\<not> (\<exists>x \<in> set (pl_workers p). x \<noteq> Exited \<and> (x \<noteq> Idle \<or> pl_closed p))\<close>
    ultimately have "worker_at p 0 Idle" by (cases "pl_workers p") (auto simp: worker_at_def)
    then show ?thesis using step_exI [OF hand_out [OF opn q]] by simp
  qed
qed

section \<open>Results\<close>

lemma exited_holds_nothing:
  "\<forall>x \<in> set ws. x = Exited \<Longrightarrow> sum_list (map received_by ws) = {#} \<and> sum_list (map worked_on ws) = {#}"
  by (induction ws) auto

lemma result_None:
  "pool_result p = None \<longleftrightarrow> pl_failures p = [] \<and> pl_parent p = None"
  by (auto simp: pool_result_def split: option.split list.split)

lemma finished_success:
  assumes "pool_ok order k p" "pool_finished p" "pool_result p = None"
  shows "mset (pl_done p) = mset order"
proof -
  have f: "pl_failures p = []" "pl_parent p = None" using assms(3) by (simp_all add: result_None)
  then have "\<not> pl_canceled p" "pl_queue p = []" using assms(1,2) by (auto simp: pool_ok_def flags_def pool_finished_def)
  moreover have "held_indexes p = {#}" "running p = {#}"
    using exited_holds_nothing [of "pl_workers p"] assms(2) by (simp_all add: held_indexes_def running_def pool_finished_def)
  ultimately show ?thesis using assms(1) f by (simp add: pool_ok_def counting_def index_counts_def)
qed

lemma result_Some:
  assumes "pool_result p = Some e"
  shows "e \<in> set (pl_failures p) \<or> pl_parent p = Some e"
    and "\<exists>x \<in> set (pl_failures p). \<not> is_Canceled x \<Longrightarrow> e \<in> set (pl_failures p) \<and> \<not> is_Canceled e"
proof -
  show "e \<in> set (pl_failures p) \<or> pl_parent p = Some e"
    using assms by (auto simp: pool_result_def find_Some_iff split: option.splits list.splits)
  show "e \<in> set (pl_failures p) \<and> \<not> is_Canceled e" if "\<exists>x \<in> set (pl_failures p). \<not> is_Canceled x"
  proof (cases "find (\<lambda>e. \<not> is_Canceled e) (pl_failures p)")
    case None
    then show ?thesis using that by (auto simp: find_None_iff)
  next
    case (Some x)
    then have "x \<in> set (pl_failures p)" "\<not> is_Canceled x" by (auto simp: find_Some_iff)
    then show ?thesis using assms Some by (simp add: pool_result_def)
  qed
qed

lemma running_count: "size (running p) \<le> length (pl_workers p)"
proof -
  have "size (sum_list (map worked_on ws)) \<le> length ws" for ws
  proof (induction ws)
    case (Cons x ws)
    then show ?case by (cases x) auto
  qed simp
  then show ?thesis by (simp add: running_def)
qed

lemma pool_counts:
  assumes "pool_ok order k p" "distinct order"
  shows "distinct (pl_started p)" "set (pl_started p) \<subseteq> set order" "mset (pl_done p) + running p \<subseteq># mset (pl_started p)"
    "size (running p) \<le> k"
proof -
  have sub: "mset (pl_started p) \<subseteq># mset order"
    by (rule subset_mset.order_trans [of _ "mset (pl_queue p) + held_indexes p + mset (pl_started p)"])
       (use assms(1) in \<open>simp_all add: pool_ok_def counting_def index_counts_def\<close>)
  then show "set (pl_started p) \<subseteq> set order" by (metis set_mset_mono set_mset_mset)
  have "count (mset (pl_started p)) x \<le> count (mset order) x" for x using sub by (rule mset_subset_eq_count)
  then show "distinct (pl_started p)"
    using assms(2) by (metis count_mset_0_iff distinct_count_atmost_1 le_0_eq le_SucE One_nat_def)
  show "mset (pl_done p) + running p \<subseteq># mset (pl_started p)" using assms(1) by (simp add: pool_ok_def counting_def index_counts_def)
  show "size (running p) \<le> k" using running_count [of p] assms(1) by (simp add: pool_ok_def shaped_def)
qed

end
