(* ===== verification/OperationsProperties.thy ===== *)
theory OperationsProperties
  imports Operations
begin

text \<open>The properties of a batch of operations, serial and parallel.\<close>

section \<open>Serial batches\<close>

lemma sleep_None: "sleepContext ctx d now = (None, t) \<Longrightarrow> t = max now (now + d)"
  by (auto simp: sleepContext_def split: if_splits option.splits prod.splits)

lemma sleep_Some: "sleepContext ctx d now = (Some e, t) \<Longrightarrow> \<exists>u. ctx = Some (u, e)"
  by (auto simp: sleepContext_def split: if_splits option.splits prod.splits)

lemma ctx_Err_Some: "ctx_Err ctx now = Some e \<Longrightarrow> \<exists>u. ctx = Some (u, e)"
  by (auto simp: ctx_Err_def split: option.splits if_splits prod.splits)

text \<open>When operation \<open>k\<close> of a trace starts: not before its arrival, nor before its predecessor returned.\<close>

definition arrival :: "go_time \<Rightarrow> duration list \<Rightarrow> nat \<Rightarrow> go_time" where
  "arrival start delays k = start + sum_list (take k delays)"

definition on_schedule :: "go_time \<Rightarrow> duration list \<Rightarrow> (nat \<Rightarrow> go_time \<Rightarrow> 'e op_error option \<times> go_time)
    \<Rightarrow> nat \<Rightarrow> go_time \<Rightarrow> (nat \<times> go_time) list \<Rightarrow> bool" where
  "on_schedule start delays operation j now tr \<longleftrightarrow>
     (\<forall>k < length tr. tr ! k = (j + k, max (arrival start delays (j + k))
        (if k = 0 then now else snd (operation (j + k - 1) (snd (tr ! (k - 1)))))))"

lemma on_schedule_nth:
  assumes "on_schedule start delays operation j now tr" "k < length tr"
  shows "tr ! k = (j + k, max (arrival start delays (j + k))
    (if k = 0 then now else snd (operation (j + k - 1) (snd (tr ! (k - 1))))))"
  using assms unfolding on_schedule_def by blast

lemma on_schedule_fst: "on_schedule start delays operation j now tr \<Longrightarrow> k < length tr \<Longrightarrow> fst (tr ! k) = j + k"
  using on_schedule_nth by (metis fst_conv)

lemma arrival_Suc:
  "(if k < length delays then arrival start delays k + delays ! k else arrival start delays k) = arrival start delays (Suc k)"
  by (simp add: arrival_def take_Suc_conv_app_nth)

lemma on_schedule_Cons:
  assumes "t = max (arrival start delays j) now" "on_schedule start delays operation (Suc j) (snd (operation j t)) tr"
  shows "on_schedule start delays operation j now ((j, t) # tr)"
  unfolding on_schedule_def
proof (intro allI impI)
  fix k assume k: "k < length ((j, t) # tr)"
  show "((j, t) # tr) ! k = (j + k, max (arrival start delays (j + k))
      (if k = 0 then now else snd (operation (j + k - 1) (snd (((j, t) # tr) ! (k - 1))))))"
  proof (cases k)
    case 0
    then show ?thesis using assms(1) by simp
  next
    case (Suc l)
    note nth = on_schedule_nth [OF assms(2), of l]
    show ?thesis
    proof (cases l)
      case 0
      then show ?thesis using Suc nth k by simp
    next
      case (Suc m)
      then show ?thesis using \<open>k = Suc l\<close> nth k by simp
    qed
  qed
qed

definition serial_outcome :: "'e context_end \<Rightarrow> (nat \<Rightarrow> go_time \<Rightarrow> 'e op_error option \<times> go_time) \<Rightarrow> nat
    \<Rightarrow> 'e op_error option \<Rightarrow> (nat \<times> go_time) list \<Rightarrow> bool" where
  "serial_outcome ctx operation m r tr \<longleftrightarrow>
     length tr \<le> m \<and> (r = None \<longleftrightarrow> length tr = m \<and> (\<forall>(i, t) \<in> set tr. fst (operation i t) = None))
     \<and> (\<forall>e. r = Some e \<longrightarrow> (\<exists>u. ctx = Some (u, e)) \<or> (\<exists>i t. tr \<noteq> [] \<and> last tr = (i, t) \<and> fst (operation i t) = Some e))"

lemma serial_loop_spec:
  "serial_loop ctx False delays operation [j..<n] (arrival start delays j) now = (r, tr) \<Longrightarrow> j \<le> n \<Longrightarrow>
     on_schedule start delays operation j now tr \<and> serial_outcome ctx operation (n - j) r tr"
proof (induction "n - j" arbitrary: j now r tr)
  case 0
  then show ?case by (auto simp: on_schedule_def serial_outcome_def)
next
  case (Suc m)
  then have ks: "[j..<n] = j # [Suc j..<n]" by (simp add: upt_conv_Cons)
  obtain e1 t1 where s: "sleepContext ctx (arrival start delays j - now) now = (e1, t1)" by fastforce
  obtain e3 t3 where o: "operation j t1 = (e3, t3)" by fastforce
  obtain r' tr' where l: "serial_loop ctx False delays operation [Suc j..<n] (arrival start delays (Suc j)) t3 = (r', tr')"
    by fastforce
  have start: "t1 = max (arrival start delays j) now" if "e1 = None" using sleep_None s that by fastforce
  show ?case
  proof (cases "e1 = None \<and> ctx_Err ctx t1 = None \<and> e3 = None")
    case True
    then have r: "r = r'" "tr = (j, t1) # tr'"
      using Suc.prems(1) s o l arrival_Suc [of j delays start] unfolding ks by (simp_all add: Let_def)
    have ih: "on_schedule start delays operation (Suc j) t3 tr'" "serial_outcome ctx operation (n - Suc j) r' tr'"
      using Suc.hyps(1) [OF _ l] Suc.hyps(2) by auto
    have "on_schedule start delays operation j now tr"
      unfolding r(2) by (rule on_schedule_Cons) (use start True ih o in auto)
    moreover have "serial_outcome ctx operation (n - j) r tr"
      using ih(2) r o True Suc.hyps(2) by (auto simp: serial_outcome_def)
    ultimately show ?thesis by blast
  next
    case False
    then consider (sleep) e where "e1 = Some e" "r = Some e" "tr = []"
      | (ctx) e where "e1 = None" "ctx_Err ctx t1 = Some e" "r = Some e" "tr = []"
      | (op) e where "e1 = None" "e3 = Some e" "r = Some e" "tr = [(j, t1)]"
      using Suc.prems(1) s o unfolding ks by (auto split: option.splits)
    then show ?thesis
    proof cases
      case sleep
      then show ?thesis using s sleep_Some Suc.hyps(2) by (fastforce simp: on_schedule_def serial_outcome_def)
    next
      case ctx
      then show ?thesis using ctx_Err_Some Suc.hyps(2) by (fastforce simp: on_schedule_def serial_outcome_def)
    next
      case op
      then show ?thesis using start o Suc.hyps(2) by (auto simp: on_schedule_def serial_outcome_def)
    qed
  qed
qed

text \<open>C36: A serial batch follows its arrival times. Operations are started in index order without a gap,
  the k-th one at the later of its arrival (the start of the batch plus the first k intervals) and the
  moment its predecessor returned, so a slow operation delays its successors but never shifts the
  schedule. The batch succeeds exactly when all of them ran and succeeded; otherwise its error is that
  of the last operation it started, or the error of the context, and nothing is started after it.\<close>

theorem serial_batch_schedule:
  assumes "serial_operations ctx n False delays operation now = (r, tr)"
  shows "map fst tr = [0..<length tr] \<and> length tr \<le> n
    \<and> (\<forall>k < length tr. snd (tr ! k) = max (now + sum_list (take k delays))
         (if k = 0 then now else snd (operation (k - 1) (snd (tr ! (k - 1))))))
    \<and> (ctx_Err ctx now = None \<longrightarrow>
         (r = None \<longleftrightarrow> length tr = n \<and> (\<forall>(i, t) \<in> set tr. fst (operation i t) = None)))
    \<and> (\<forall>e. r = Some e \<longrightarrow> (\<exists>u. ctx = Some (u, e)) \<or> (\<exists>i t. tr \<noteq> [] \<and> last tr = (i, t) \<and> fst (operation i t) = Some e))"
proof (cases "ctx_Err ctx now")
  case None
  have "serial_loop ctx False delays operation [0..<n] (arrival now delays 0) now = (r, tr)"
    using assms None by (simp add: serial_operations_def arrival_def)
  from serial_loop_spec [OF this]
  have s: "on_schedule now delays operation 0 now tr" "serial_outcome ctx operation n r tr" by simp_all
  have "map fst tr = [0..<length tr]"
    by (rule nth_equalityI) (simp_all add: on_schedule_fst [OF s(1)])
  moreover have "snd (tr ! k) = max (now + sum_list (take k delays))
      (if k = 0 then now else snd (operation (k - 1) (snd (tr ! (k - 1)))))" if "k < length tr" for k
  proof -
    have "tr ! k = (0 + k, max (arrival now delays (0 + k))
        (if k = 0 then now else snd (operation (0 + k - 1) (snd (tr ! (k - 1))))))"
      by (rule on_schedule_nth [OF s(1) that])
    then show ?thesis by (simp add: arrival_def)
  qed
  ultimately show ?thesis using s(2) unfolding serial_outcome_def by blast
next
  case (Some e)
  then show ?thesis using assms ctx_Err_Some [OF Some] by (auto simp: serial_operations_def)
qed

theorem serial_batch_schedule_witness:
  "serial_operations None 3 False [5, 5, 5] (\<lambda>i t. (None, t + (if i = 0 then 7 else 1))) (100 :: int)
     = (None :: nat op_error option, [(0, 100), (1, 107), (2, 110)])
   \<and> map fst [(0 :: nat, 100 :: int), (1, 107), (2, 110)] = [0..<length [(0 :: nat, 100 :: int), (1, 107), (2, 110)]]"
proof -
  have run: "serial_operations None 3 False [5, 5, 5] (\<lambda>i t. (None, t + (if i = 0 then 7 else 1))) (100 :: int)
     = (None :: nat op_error option, [(0, 100), (1, 107), (2, 110)])"
    by (simp add: serial_operations_def ctx_Err_def sleepContext_def upt_rec)
  from serial_batch_schedule [OF run] run show ?thesis by blast
qed

section \<open>Parallel batches\<close>

text \<open>C35: A parallel batch neither loses nor repeats an operation, respects its parallelism and always
  comes to an end. In every state an interleaving of the dispatcher, the workers, the operations and a
  cancellation can reach: the operations started are distinct indexes of the batch, at most
  \<open>parallelism\<close> of them run at once, and the indexes are handed out in the order of their publication
  delays (ties in index order). While a worker is left, or the channel is open, something can happen
  that is not the parent's cancellation, and no more than 5n + 2 steps happen in all. When the batch
  has ended without an error every operation has been completed exactly once. An error it returns was
  reported by an operation or is the error of the parent's context, and a genuine failure takes
  precedence over cancellations.\<close>

theorem parallel_batch_complete:
  assumes "pool_run (start_pool n parallelism delays delayParallel) (p :: 'e pool)"
  shows "distinct (pl_started p) \<and> set (pl_started p) \<subseteq> {0..<n}
    \<and> mset (pl_done p) + running p \<subseteq># mset (pl_started p)
    \<and> size (running p) \<le> worker_count parallelism n \<and> (0 < parallelism \<longrightarrow> int (size (running p)) \<le> parallelism)
    \<and> (\<exists>m. pl_queue p = drop m (dispatch_order delays delayParallel n))
    \<and> (\<not> pool_finished p \<longrightarrow> (\<exists>q. pool_step p q \<and> pl_parent q = pl_parent p))
    \<and> (\<forall>m (q :: 'e pool). (pool_step ^^ m) (start_pool n parallelism delays delayParallel) q \<longrightarrow> m \<le> 5 * n + 2)
    \<and> (pool_finished p \<longrightarrow>
         (pool_result p = None \<longrightarrow> mset (pl_done p) = mset [0..<n])
         \<and> (\<forall>e. pool_result p = Some e \<longrightarrow> (e \<in> set (pl_failures p) \<or> pl_parent p = Some e)
              \<and> ((\<exists>x \<in> set (pl_failures p). \<not> is_Canceled x) \<longrightarrow> e \<in> set (pl_failures p) \<and> \<not> is_Canceled e)))"
proof -
  let ?start = "start_pool n parallelism delays delayParallel :: 'e pool"
  let ?order = "dispatch_order delays delayParallel n" and ?k = "worker_count parallelism n"
  have ok: "pool_ok ?order ?k p" by (rule pool_run_ok [OF assms start_pool_ok])
  have order: "mset ?order = mset [0..<n]" by (rule set_dispatch_order)
  then have set: "distinct ?order" "set ?order = {0..<n}"
    by (metis distinct_upt mset_eq_imp_distinct_iff) (metis order atLeastLessThan_upt mset_eq_setD)
  note c = pool_counts [OF ok set(1)]
  have par: "int (size (running p)) \<le> parallelism" if "0 < parallelism"
    using c(4) worker_count_bounds(3) [OF that, of n] by linarith
  have "0 < ?k" if "?order \<noteq> []"
    using that worker_count_bounds(2) [of n] set(2) by (cases n) auto
  then have progress: "\<not> pool_finished p \<longrightarrow> (\<exists>q. pool_step p q \<and> pl_parent q = pl_parent p)"
    using pool_progress [OF ok] by blast
  have "pool_weight ?start \<le> 5 * n + 2"
    using worker_count_bounds(1) [of parallelism n] arg_cong [OF order, of size]
    by (simp add: pool_weight_def start_pool_def sum_list_replicate map_replicate)
  then have bound: "\<forall>m q. (pool_step ^^ m) ?start q \<longrightarrow> m \<le> 5 * n + 2"
    using steps_weight by (metis add_leD2 order_trans)
  have queue: "\<exists>m. pl_queue p = drop m ?order" using ok by (simp add: pool_ok_def shaped_def)
  have success: "mset (pl_done p) = mset [0..<n]" if "pool_finished p" "pool_result p = None"
    using finished_success [OF ok that] order by simp
  have books: "distinct (pl_started p) \<and> set (pl_started p) \<subseteq> {0..<n} \<and> mset (pl_done p) + running p \<subseteq># mset (pl_started p)
      \<and> size (running p) \<le> ?k \<and> (0 < parallelism \<longrightarrow> int (size (running p)) \<le> parallelism)"
    using c par unfolding set(2) by blast
  have outcome: "pool_finished p \<longrightarrow> (pool_result p = None \<longrightarrow> mset (pl_done p) = mset [0..<n])
      \<and> (\<forall>e. pool_result p = Some e \<longrightarrow> (e \<in> set (pl_failures p) \<or> pl_parent p = Some e)
        \<and> ((\<exists>x \<in> set (pl_failures p). \<not> is_Canceled x) \<longrightarrow> e \<in> set (pl_failures p) \<and> \<not> is_Canceled e))"
    using success result_Some by blast
  from books queue progress bound outcome show ?thesis by (elim conjE) (intro conjI, assumption+)
qed

definition demo_pool :: "nat list \<Rightarrow> bool \<Rightarrow> pool_worker \<Rightarrow> nat list \<Rightarrow> nat list \<Rightarrow> nat pool" where
  "demo_pool queue shut w started done' = \<lparr>pl_queue = queue, pl_closed = shut, pl_workers = [w], pl_failures = [],
     pl_canceled = False, pl_parent = None, pl_started = started, pl_done = done'\<rparr>"

lemma demo_pool_run: "pool_run (start_pool 1 4 [] False) (demo_pool [] True Exited [0] [0])"
proof -
  have start: "start_pool 1 4 [] False = demo_pool [0] False Idle [] []"
    by (simp add: start_pool_def demo_pool_def dispatch_order_def worker_count_def)
  have "pool_step (demo_pool [0] False Idle [] []) (demo_pool [] False (Received 0) [] [])"
    using hand_out [of "demo_pool [0] False Idle [] []" 0 "[]" 0] by (simp add: demo_pool_def worker_at_def set_worker_def)
  moreover have "pool_step (demo_pool [] False (Received 0) [] []) (demo_pool [] False (Working 0) [0] [])"
    using start_work [of "demo_pool [] False (Received 0) [] []" 0 0] by (simp add: demo_pool_def worker_at_def set_worker_def)
  moreover have "pool_step (demo_pool [] False (Working 0) [0] []) (demo_pool [] False Idle [0] [0])"
    using work_done [of "demo_pool [] False (Working 0) [0] []" 0 0] by (simp add: demo_pool_def worker_at_def set_worker_def)
  moreover have "pool_step (demo_pool [] False Idle [0] [0]) (demo_pool [] True Idle [0] [0])"
    using stop_dispatch [of "demo_pool [] False Idle [0] [0]"] by (simp add: demo_pool_def)
  moreover have "pool_step (demo_pool [] True Idle [0] [0]) (demo_pool [] True Exited [0] [0])"
    using no_more_work [of "demo_pool [] True Idle [0] [0]" 0] by (simp add: demo_pool_def worker_at_def set_worker_def)
  ultimately show ?thesis unfolding start by (meson converse_rtranclp_into_rtranclp rtranclp.rtrancl_refl)
qed

theorem parallel_batch_complete_witness:
  "pool_finished (demo_pool [] True Exited [0] [0]) \<and> pool_result (demo_pool [] True Exited [0] [0]) = None
     \<and> mset (pl_done (demo_pool [] True Exited [0] [0])) = mset [0..<1]
     \<and> size (running (demo_pool [] True Exited [0] [0])) \<le> worker_count 4 1"
proof -
  have f: "pool_finished (demo_pool [] True Exited [0] [0])" "pool_result (demo_pool [] True Exited [0] [0]) = None"
    by (simp_all add: pool_finished_def demo_pool_def pool_result_def)
  show ?thesis using f parallel_batch_complete [OF demo_pool_run] by blast
qed

end
