(* ===== verification/PhaseJobs.thy ===== *)
theory PhaseJobs
  imports Operations
begin

text \<open>
  The background jobs of a running scenario (\<open>internal/controller/jobs.go\<close>) and their part in
  \<open>runScenario\<close> (\<open>internal/controller/runner.go\<close>): the table of jobs, waiting for some of them while
  others go on, and the counters and the first failure the run records. A job's goroutine runs the
  phase, then the callback in two parts (the counters, the first failure), then closes its channel;
  each of them is a step of its own. A job's error can be read only once its channel is closed.
\<close>

declare map_of_eq_Some_iff [simp del]

datatype 'e job_phase =
    JobRunning
  | JobCounted "'e op_error option"
  | JobRecorded "'e op_error option"
  | JobDone "'e op_error option"

record 'e phase_job =
  pj_phase :: "'e job_phase"
  pj_cancelable :: bool
  pj_canceled :: bool

type_synonym 'e jobs = "(gostring, 'e phase_job) gomap"

datatype 'e job_error = JobExists gostring | JobNotFound gostring | StillRunning gostring
  | WaitEnded "'e op_error" | JobFailed gostring "'e op_error"

definition job_done :: "'e phase_job \<Rightarrow> bool" where
  "job_done j \<longleftrightarrow> (case pj_phase j of JobDone _ \<Rightarrow> True | _ \<Rightarrow> False)"

section \<open>The table\<close>

definition startJob :: "gostring \<Rightarrow> bool \<Rightarrow> 'e jobs \<Rightarrow> 'e job_error + 'e jobs" where
  "startJob k cancelable js =
     (if mhas js k then Inl (JobExists k)
      else Inr (AList.update k \<lparr>pj_phase = JobRunning, pj_cancelable = cancelable, pj_canceled = False\<rparr> js))"

definition cancelAll :: "'e jobs \<Rightarrow> 'e jobs" where
  "cancelAll js = map_vals (\<lambda>_ j. if pj_cancelable j then j\<lparr>pj_canceled := True\<rparr> else j) js"

definition reset_jobs :: "'e jobs \<Rightarrow> 'e job_error + 'e jobs" where
  "reset_jobs js = (case find (\<lambda>(_, j). \<not> job_done j) js of Some (k, _) \<Rightarrow> Inl (StillRunning k) | None \<Rightarrow> Inr [])"

fun select_loop :: "'e jobs \<Rightarrow> gostring list \<Rightarrow> gostring list \<Rightarrow> 'e job_error + gostring list" where
  "select_loop js seen [] = Inr []"
| "select_loop js seen (k # ks) =
     (if \<not> mhas js k then Inl (JobNotFound k)
      else if k \<in> set seen then select_loop js seen ks
      else case select_loop js (k # seen) ks of Inl e \<Rightarrow> Inl e | Inr sel \<Rightarrow> Inr (k # sel))"

definition selectJobs :: "gostring list \<Rightarrow> 'e jobs \<Rightarrow> 'e job_error + gostring list" where
  "selectJobs ks js = select_loop js [] (if ks = [] then sort_Strings (map fst js) else ks)"

section \<open>Waiting\<close>

text \<open>What goes on meanwhile: jobs advance and, where the waiter is not the goroutine that starts them, start.\<close>

inductive job_moves :: "'e job_phase \<Rightarrow> 'e job_phase \<Rightarrow> bool" where
  "job_moves JobRunning (JobCounted r)"
| "job_moves (JobCounted r) (JobRecorded r)"
| "job_moves (JobRecorded r) (JobDone r)"

inductive jobs_env :: "bool \<Rightarrow> 'e jobs \<Rightarrow> 'e jobs \<Rightarrow> bool" for starts where
  env_moves: "\<lbrakk>map_of js k = Some j; job_moves (pj_phase j) x\<rbrakk>
    \<Longrightarrow> jobs_env starts js (AList.update k (j\<lparr>pj_phase := x\<rparr>) js)"
| env_starts: "\<lbrakk>starts; startJob k c js = Inr js'\<rbrakk> \<Longrightarrow> jobs_env starts js js'"

text \<open>
  The loop over \<open>reflect.Select\<close>: any closed channel of a job not yet seen may be chosen, or the
  context once it has ended. \<open>wait\<close> returns the first error it sees, \<open>waitDone\<close> (\<open>strict\<close> false)
  ignores errors. The result None is a nil error.
\<close>

inductive observes :: "bool \<Rightarrow> bool \<Rightarrow> 'e jobs \<Rightarrow> gostring list \<Rightarrow> 'e job_error option \<Rightarrow> 'e jobs \<Rightarrow> bool"
  for strict starts where
  obs_all: "observes strict starts js [] None js"
| obs_env: "\<lbrakk>jobs_env starts js js'; observes strict starts js' ks r js''\<rbrakk> \<Longrightarrow> observes strict starts js ks r js''"
| obs_ctx: "ks \<noteq> [] \<Longrightarrow> observes strict starts js ks (Some (WaitEnded e)) js"
| obs_done: "\<lbrakk>k \<in> set ks; map_of js k = Some j; pj_phase j = JobDone r'; \<not> strict \<or> r' = None;
     observes strict starts js (remove1 k ks) r js'\<rbrakk> \<Longrightarrow> observes strict starts js ks r js'"
| obs_failed: "\<lbrakk>k \<in> set ks; map_of js k = Some j; pj_phase j = JobDone (Some e); strict\<rbrakk>
     \<Longrightarrow> observes strict starts js ks (Some (JobFailed k e)) js"

definition wait_jobs :: "bool \<Rightarrow> bool \<Rightarrow> gostring list \<Rightarrow> 'e jobs \<Rightarrow> 'e job_error option \<Rightarrow> 'e jobs \<Rightarrow> bool" where
  "wait_jobs strict starts ks js r js' \<longleftrightarrow>
     (case selectJobs ks js of Inl e \<Rightarrow> r = Some e \<and> js' = js
      | Inr sel \<Rightarrow> observes strict starts js sel r js')"

section \<open>The run's counters\<close>

record 'e scenario_run =
  sr_jobs :: "'e jobs"
  sr_active :: int
  sr_completed :: int
  sr_canceledJobs :: int
  sr_failed :: int
  sr_asyncErr :: "(gostring \<times> 'e op_error) option"
  sr_ctxDone :: bool     \<comment> \<open>the scenario's context has ended\<close>
  sr_startedJobs :: int  \<comment> \<open>jobs that were started, kept by the model only\<close>

definition new_run :: "'e scenario_run" where
  "new_run = \<lparr>sr_jobs = [], sr_active = 0, sr_completed = 0, sr_canceledJobs = 0, sr_failed = 0, sr_asyncErr = None,
     sr_ctxDone = False, sr_startedJobs = 0\<rparr>"

definition start_background :: "gostring \<Rightarrow> 'e scenario_run \<Rightarrow> 'e job_error option \<times> 'e scenario_run" where
  "start_background k s =
     (let s1 = s\<lparr>sr_active := sr_active s + 1\<rparr>
      in case startJob k True (sr_jobs s1) of
          Inr js \<Rightarrow> (None, s1\<lparr>sr_jobs := js, sr_startedJobs := sr_startedJobs s1 + 1\<rparr>)
        | Inl e \<Rightarrow> (Some e, if 0 < sr_active s1 then s1\<lparr>sr_active := sr_active s1 - 1\<rparr> else s1))"

definition count_job :: "'e op_error option \<Rightarrow> 'e scenario_run \<Rightarrow> 'e scenario_run" where
  "count_job r s =
     (let s1 = (if 0 < sr_active s then s\<lparr>sr_active := sr_active s - 1\<rparr> else s)
      in case r of None \<Rightarrow> s1\<lparr>sr_completed := sr_completed s1 + 1\<rparr>
         | Some e \<Rightarrow> if is_Canceled e then s1\<lparr>sr_canceledJobs := sr_canceledJobs s1 + 1\<rparr>
                     else s1\<lparr>sr_failed := sr_failed s1 + 1\<rparr>)"

definition recordAsyncFailure :: "gostring \<Rightarrow> 'e op_error option \<Rightarrow> 'e scenario_run \<Rightarrow> 'e scenario_run" where
  "recordAsyncFailure k r s =
     (case r of None \<Rightarrow> s
      | Some e \<Rightarrow> if is_Canceled e \<or> sr_asyncErr s \<noteq> None then s
                  else s\<lparr>sr_asyncErr := Some (k, e), sr_ctxDone := True\<rparr>)"

definition set_phase :: "gostring \<Rightarrow> 'e job_phase \<Rightarrow> 'e scenario_run \<Rightarrow> 'e scenario_run" where
  "set_phase k x s = s\<lparr>sr_jobs := (case map_of (sr_jobs s) k of None \<Rightarrow> sr_jobs s
     | Some j \<Rightarrow> AList.update k (j\<lparr>pj_phase := x\<rparr>) (sr_jobs s))\<rparr>"

definition in_phase :: "'e scenario_run \<Rightarrow> gostring \<Rightarrow> 'e job_phase \<Rightarrow> bool" where
  "in_phase s k x \<longleftrightarrow> (\<exists>j. map_of (sr_jobs s) k = Some j \<and> pj_phase j = x)"

inductive run_step :: "'e scenario_run \<Rightarrow> 'e scenario_run \<Rightarrow> bool" where
  run_start: "start_background k s = (r, s') \<Longrightarrow> run_step s s'"
| run_counts: "in_phase s k JobRunning \<Longrightarrow> run_step s (count_job r (set_phase k (JobCounted r) s))"
| run_records: "in_phase s k (JobCounted r) \<Longrightarrow> run_step s (recordAsyncFailure k r (set_phase k (JobRecorded r) s))"
| run_closes: "in_phase s k (JobRecorded r) \<Longrightarrow> run_step s (set_phase k (JobDone r) s)"
| run_cancels: "run_step s (s\<lparr>sr_jobs := cancelAll (sr_jobs s)\<rparr>)"
| run_resets: "reset_jobs (sr_jobs s) = Inr js \<Longrightarrow> run_step s (s\<lparr>sr_jobs := js\<rparr>)"
| run_ctx: "run_step s (s\<lparr>sr_ctxDone := True\<rparr>)"

abbreviation scenario_runs :: "'e scenario_run \<Rightarrow> 'e scenario_run \<Rightarrow> bool" where "scenario_runs \<equiv> run_step\<^sup>*\<^sup>*"

end
