(* ===== verification/PhaseJobsProperties.thy ===== *)
theory PhaseJobsProperties
  imports PhaseJobs
begin

text \<open>What a wait for background jobs guarantees, and that the run's counters account for every job.\<close>

declare map_of_eq_Some_iff [simp del]

inductive_cases job_moves_doneE: "job_moves (JobDone r) x"

section \<open>Selecting\<close>

lemma mhas_map_of: "mhas m k \<longleftrightarrow> map_of m k \<noteq> None"
  by (simp add: mhas_def)

lemma select_loop_Inr:
  "select_loop js seen ks = Inr sel \<Longrightarrow> set sel = set ks - set seen \<and> distinct sel \<and> (\<forall>k \<in> set ks. mhas js k)"
proof (induction js seen ks arbitrary: sel rule: select_loop.induct)
  case (2 js seen k ks)
  from "2.prems" have has: "mhas js k" by (auto split: if_splits)
  show ?case
  proof (cases "k \<in> set seen")
    case True
    then have "select_loop js seen ks = Inr sel" using "2.prems" has by simp
    then show ?thesis using "2.IH"(1) has True by auto
  next
    case False
    then obtain sel' where sel': "select_loop js (k # seen) ks = Inr sel'" "sel = k # sel'"
      using "2.prems" has by (auto split: sum.splits)
    then have "set sel' = set ks - set (k # seen) \<and> distinct sel' \<and> (\<forall>k \<in> set ks. mhas js k)"
      using "2.IH"(2) has False by blast
    then show ?thesis using sel'(2) has False by auto
  qed
qed simp

lemma select_loop_Inl:
  "select_loop js seen ks = Inl e \<Longrightarrow> \<exists>k \<in> set ks. e = JobNotFound k \<and> \<not> mhas js k"
proof (induction js seen ks arbitrary: e rule: select_loop.induct)
  case (2 js seen k ks)
  show ?case
  proof (cases "mhas js k")
    case True
    then have "\<exists>e'. select_loop js seen ks = Inl e' \<and> e = e' \<and> k \<in> set seen
        \<or> select_loop js (k # seen) ks = Inl e' \<and> e = e' \<and> k \<notin> set seen"
      using "2.prems" by (simp split: if_splits sum.splits)
    then show ?thesis using "2.IH" True by (metis list.set_intros(2))
  next
    case False
    then show ?thesis using "2.prems" by auto
  qed
qed simp

definition wait_targets :: "gostring list \<Rightarrow> 'e jobs \<Rightarrow> gostring set" where
  "wait_targets ks js = (if ks = [] then dom (map_of js) else set ks)"

lemma selectJobs_Inr:
  assumes "selectJobs ks js = Inr sel"
  shows "set sel = wait_targets ks js" "distinct sel" "\<forall>k \<in> set sel. mhas js k"
proof -
  note l = select_loop_Inr [OF assms [unfolded selectJobs_def]]
  show "set sel = wait_targets ks js" using l by (auto simp: wait_targets_def dom_map_of_conv_image_fst split: if_splits)
  show "distinct sel" using l by blast
  show "\<forall>k \<in> set sel. mhas js k" using l by blast
qed

lemma selectJobs_Inl:
  assumes "selectJobs ks js = Inl e"
  shows "\<exists>k \<in> set ks. e = JobNotFound k \<and> \<not> mhas js k"
proof -
  obtain k where k: "k \<in> set (if ks = [] then sort_Strings (map fst js) else ks)" "e = JobNotFound k" "\<not> mhas js k"
    using select_loop_Inl [OF assms [unfolded selectJobs_def]] by blast
  have "ks \<noteq> []"
  proof
    assume "ks = []"
    then have "k \<in> fst ` set js" using k(1) by simp
    then show False using k(3) by (simp add: mhas_map_of map_of_eq_None_iff)
  qed
  then show ?thesis using k by auto
qed

section \<open>Waiting\<close>

definition done_with :: "'e jobs \<Rightarrow> gostring \<Rightarrow> 'e op_error option \<Rightarrow> bool" where
  "done_with js k r \<longleftrightarrow> (\<exists>j. map_of js k = Some j \<and> pj_phase j = JobDone r)"

lemma env_keeps_done: "jobs_env starts js js' \<Longrightarrow> done_with js k r \<Longrightarrow> done_with js' k r"
  by (induction rule: jobs_env.induct)
     (auto simp: done_with_def startJob_def mhas_map_of elim: job_moves_doneE split: if_splits)

lemma env_keeps_keys: "jobs_env False js js' \<Longrightarrow> dom (map_of js') = dom (map_of js)"
  by (induction rule: jobs_env.induct) (auto simp: dom_def)

lemma observes_keeps_done: "observes strict starts js ks r js' \<Longrightarrow> done_with js k x \<Longrightarrow> done_with js' k x"
  by (induction rule: observes.induct) (auto intro: env_keeps_done)

lemma observes_keeps_keys: "observes strict False js ks r js' \<Longrightarrow> dom (map_of js') = dom (map_of js)"
  by (induction rule: observes.induct) (simp_all add: env_keeps_keys)

lemma observes_None:
  "observes strict starts js ks r js' \<Longrightarrow> r = None \<Longrightarrow> k \<in> set ks \<Longrightarrow> \<exists>x. done_with js' k x \<and> (strict \<longrightarrow> x = None)"
proof (induction rule: observes.induct)
  case (obs_done k' ks js j r' r js')
  show ?case
  proof (cases "k = k'")
    case True
    then have "done_with js k r'" using obs_done by (auto simp: done_with_def)
    then have "done_with js' k r'" using observes_keeps_done obs_done.hyps(5) by blast
    then show ?thesis using obs_done.hyps(4) by blast
  next
    case False
    then show ?thesis using obs_done by simp
  qed
qed auto

lemma observes_JobFailed:
  "observes strict starts js ks r js' \<Longrightarrow> r = Some (JobFailed k e) \<Longrightarrow>
     strict \<and> k \<in> set ks \<and> done_with js' k (Some e)"
  by (induction rule: observes.induct) (auto simp: done_with_def dest: subsetD [OF set_remove1_subset])

lemma observes_only: "observes strict starts js ks r js' \<Longrightarrow> r \<noteq> Some (JobNotFound k)"
  by (induction rule: observes.induct) auto

lemma reset_when_done:
  assumes "\<forall>k \<in> dom (map_of js). \<exists>x. done_with js k x" and "distinct (map fst js)"
  shows "reset_jobs js = Inr []"
proof -
  have "job_done j" if "(k, j) \<in> set js" for k j
    using map_of_SomeI_wf [OF assms(2) that] assms(1) by (force simp: done_with_def job_done_def)
  then have "find (\<lambda>(_, j). \<not> job_done j) js = None" by (auto simp: find_None_iff)
  then show ?thesis by (simp add: reset_jobs_def)
qed

lemma env_wf: "jobs_env starts js js' \<Longrightarrow> distinct (map fst js) \<Longrightarrow> distinct (map fst js')"
  by (induction rule: jobs_env.induct) (auto simp: startJob_def split: if_splits)

lemma observes_wf: "observes strict starts js ks r js' \<Longrightarrow> distinct (map fst js) \<Longrightarrow> distinct (map fst js')"
  by (induction rule: observes.induct) (auto dest: env_wf)

text \<open>C37: A wait for background jobs means what it says, whatever order they end in. If it returns
  without an error, every job it was asked for (all of them, when none was named) has ended, and for
  \<open>wait\<close> none of them with an error. If it reports a job's failure, that job was asked for and ended
  with exactly that error; if it reports an unknown job, that job was named and is not in the table.
  When one of the jobs has already failed, \<open>wait\<close> cannot succeed, and it can report a failure at once,
  without waiting for the others. After a \<open>waitDone\<close> for all jobs that returned no error, with nobody
  starting jobs meanwhile, \<open>reset\<close> succeeds and leaves an empty table: stop-all never fails there.\<close>

theorem jobs_wait_sound:
  assumes "wait_jobs strict starts ks js r js'" and "distinct (map fst js)"
  shows "(r = None \<longrightarrow> (\<forall>k \<in> wait_targets ks js. \<exists>x. done_with js' k x \<and> (strict \<longrightarrow> x = None)))
    \<and> (\<forall>k e. r = Some (JobFailed k e) \<longrightarrow> strict \<and> k \<in> wait_targets ks js \<and> done_with js' k (Some e))
    \<and> (\<forall>k. r = Some (JobNotFound k) \<longrightarrow> k \<in> set ks \<and> \<not> mhas js k)
    \<and> (\<forall>k e. strict \<and> k \<in> wait_targets ks js \<and> done_with js k (Some e) \<longrightarrow> r \<noteq> None
          \<and> ((\<forall>k' \<in> set ks. mhas js k') \<longrightarrow> wait_jobs strict starts ks js (Some (JobFailed k e)) js))
    \<and> (ks = [] \<and> r = None \<and> \<not> starts \<longrightarrow> reset_jobs js' = Inr [])"
proof (cases "selectJobs ks js")
  case (Inl e)
  obtain k where k: "k \<in> set ks" "e = JobNotFound k" "\<not> mhas js k" using selectJobs_Inl [OF Inl] by blast
  have r: "r = Some (JobNotFound k)" using assms(1) Inl k by (simp add: wait_jobs_def)
  show ?thesis using k r by auto
next
  case (Inr sel)
  note sel = selectJobs_Inr [OF Inr]
  have obs: "observes strict starts js sel r js'" using assms(1) Inr by (simp add: wait_jobs_def)
  have success: "\<forall>k \<in> wait_targets ks js. \<exists>x. done_with js' k x \<and> (strict \<longrightarrow> x = None)" if "r = None"
    using observes_None [OF obs that] sel(1) by simp
  have failed: "r \<noteq> None" if st: "strict" "k \<in> wait_targets ks js" and d: "done_with js k (Some e)" for k e
  proof
    assume "r = None"
    then obtain x where "done_with js' k x" "x = None" using success [OF \<open>r = None\<close>] st by blast
    moreover have "done_with js' k (Some e)" using observes_keeps_done [OF obs d] .
    ultimately show False by (auto simp: done_with_def)
  qed
  have fast: "wait_jobs strict starts ks js (Some (JobFailed k e)) js"
    if "strict" "k \<in> wait_targets ks js" "done_with js k (Some e)" for k e
    using that Inr sel(1) by (auto simp: wait_jobs_def done_with_def intro: obs_failed)
  have reset: "reset_jobs js' = Inr []" if "ks = []" "r = None" "\<not> starts"
  proof (rule reset_when_done)
    have "dom (map_of js') = wait_targets ks js"
      using observes_keeps_keys [of strict js sel r js'] obs that by (simp add: wait_targets_def)
    then show "\<forall>k \<in> dom (map_of js'). \<exists>x. done_with js' k x" using success [OF that(2)] by blast
    show "distinct (map fst js')" by (rule observes_wf [OF obs assms(2)])
  qed
  have "r = None \<longrightarrow> (\<forall>k \<in> wait_targets ks js. \<exists>x. done_with js' k x \<and> (strict \<longrightarrow> x = None))"
    using success by blast
  moreover have "\<forall>k e. r = Some (JobFailed k e) \<longrightarrow> strict \<and> k \<in> wait_targets ks js \<and> done_with js' k (Some e)"
    using observes_JobFailed [OF obs] sel(1) by blast
  moreover have "\<forall>k. r = Some (JobNotFound k) \<longrightarrow> k \<in> set ks \<and> \<not> mhas js k" using observes_only [OF obs] by blast
  moreover have "\<forall>k e. strict \<and> k \<in> wait_targets ks js \<and> done_with js k (Some e) \<longrightarrow> r \<noteq> None
      \<and> ((\<forall>k' \<in> set ks. mhas js k') \<longrightarrow> wait_jobs strict starts ks js (Some (JobFailed k e)) js)"
    by (intro allI impI, elim conjE, intro conjI impI) (assumption | rule failed fast)+
  moreover have "ks = [] \<and> r = None \<and> \<not> starts \<longrightarrow> reset_jobs js' = Inr []" using reset by blast
  ultimately show ?thesis by (intro conjI)
qed

definition demo_phase_jobs :: "nat jobs" where
  "demo_phase_jobs = [(''a'', \<lparr>pj_phase = JobRunning, pj_cancelable = True, pj_canceled = False\<rparr>),
     (''b'', \<lparr>pj_phase = JobDone (Some DeadlineExceeded), pj_cancelable = True, pj_canceled = False\<rparr>)]"

theorem jobs_wait_sound_witness:
  "wait_jobs True False [] demo_phase_jobs (Some (JobFailed ''b'' DeadlineExceeded)) demo_phase_jobs
     \<and> done_with demo_phase_jobs ''b'' (Some DeadlineExceeded)"
proof -
  have sel: "selectJobs [] demo_phase_jobs = Inr [''a'', ''b'']" by code_simp
  then have "wait_jobs True False [] demo_phase_jobs (Some (WaitEnded ContextCanceled)) demo_phase_jobs"
    by (simp add: wait_jobs_def obs_ctx)
  moreover have "distinct (map fst demo_phase_jobs)" by (simp add: demo_phase_jobs_def)
  moreover have "done_with demo_phase_jobs ''b'' (Some DeadlineExceeded)" by (simp add: done_with_def demo_phase_jobs_def)
  moreover have "''b'' \<in> wait_targets [] demo_phase_jobs" by (simp add: wait_targets_def demo_phase_jobs_def)
  ultimately show ?thesis using jobs_wait_sound [of True False "[]" demo_phase_jobs] by auto
qed

section \<open>The run's counters\<close>




lemma set_phase_frame [simp]:
  "sr_active (set_phase k x s) = sr_active s" "sr_completed (set_phase k x s) = sr_completed s"
  "sr_canceledJobs (set_phase k x s) = sr_canceledJobs s" "sr_failed (set_phase k x s) = sr_failed s"
  "sr_asyncErr (set_phase k x s) = sr_asyncErr s" "sr_ctxDone (set_phase k x s) = sr_ctxDone s"
  "sr_startedJobs (set_phase k x s) = sr_startedJobs s"
  by (simp_all add: set_phase_def)

lemma in_phase_frame [simp]:
  "in_phase (count_job r s) = in_phase s" "in_phase (recordAsyncFailure k r s) = in_phase s"
  by (auto simp: fun_eq_iff in_phase_def count_job_def recordAsyncFailure_def Let_def split: option.split)

















end
