(* ===== verification/RunOutcome.thy ===== *)
theory RunOutcome
  imports Operations FleetLifecycle
begin

text \<open>
  The end of a run (\<open>internal/controller/runner.go\<close>, \<open>run_integrity.go\<close>): which Agents own Peers of a
  run, stopping a generation of it on all of them, and the record the run leaves. An error value is the
  list of the errors joined in it, so \<open>errors.Join\<close> is append and nil is the empty list. What the
  Agents and the disk answer is an argument.
\<close>

section \<open>Owners of a run\<close>

definition sameAgentHost :: "agent \<Rightarrow> agent \<Rightarrow> bool" where
  "sameAgentHost a b \<longleftrightarrow>
     (let host = mget [] (ag_Labels a) ''swarmNodeId''
      in if host \<noteq> [] then host = mget [] (ag_Labels b) ''swarmNodeId''
         else ag_Hostname a \<noteq> [] \<and> ag_Hostname a = ag_Hostname b)"

text \<open>The list an Agent is added to before it gets a create request; None when it is there already.\<close>

definition remembered :: "agent \<Rightarrow> agent list \<Rightarrow> agent list option" where
  "remembered a owned =
     (if \<exists>old \<in> set owned. ag_ID old = ag_ID a \<and> ag_StartedAt old = ag_StartedAt a \<and> ag_URL old = ag_URL a
            \<and> ag_Capacity old = ag_Capacity a \<and> ag_PeerImage old = ag_PeerImage a
      then None else Some (owned @ [a]))"

definition current_owner :: "(gostring, agent) gomap \<Rightarrow> agent \<Rightarrow> agent" where
  "current_owner known a =
     (case map_of known (ag_ID a) of None \<Rightarrow> a
      | Some c \<Rightarrow>
          if ag_URL c = ag_URL a \<or> \<not> IsZero (ag_StartedAt a) \<and> ag_StartedAt c = ag_StartedAt a
             \<or> ag_StartupReconciled c \<and> ag_StartedAt a < ag_StartedAt c \<and> sameAgentHost c a
          then c else a)"

definition owner_key :: "agent \<Rightarrow> gostring" where "owner_key a = ag_ID a @ ''@'' @ ag_URL a"

definition unique_owners :: "(gostring, agent) gomap \<Rightarrow> agent list \<Rightarrow> (gostring, agent) gomap" where
  "unique_owners known owned =
     fold (\<lambda>a m. let c = current_owner known a in AList.update (owner_key c) c m) owned
       (if owned = [] then known else [])"

text \<open>
  \<open>owned\<close> is the decoded ownership file, empty when there is none. With no owner and no Agent at all the
  stored scenario decides: \<open>legacy\<close> is the error of a text that does not parse or has a join phase.
\<close>

datatype legacy_error = LegacyUnparsed | LegacyJoins

definition cleanupParticipants :: "legacy_error option \<Rightarrow> agent list \<Rightarrow> (gostring, agent) gomap \<Rightarrow> legacy_error + agent list" where
  "cleanupParticipants legacy owned known =
     (let unique = unique_owners known owned
      in case (if unique = [] \<and> owned = [] then legacy else None) of
          Some e \<Rightarrow> Inl e
        | None \<Rightarrow> Inr (sort_Slice (\<lambda>a b. ag_ID a < ag_ID b) (map snd unique)))"

section \<open>Stopping a generation\<close>

text \<open>All Agents are asked; the nodes of those that confirmed are then marked.\<close>

definition stop_generation :: "go_time \<Rightarrow> gostring \<Rightarrow> nat \<Rightarrow> agent list \<Rightarrow> (agent \<Rightarrow> 'e option) \<Rightarrow> fleet \<Rightarrow> 'e list \<times> fleet" where
  "stop_generation now runID generation agents reply s =
     (let succeeded = map ag_ID (filter (\<lambda>a. reply a = None) agents);
          errs = concat (map (\<lambda>a. case reply a of None \<Rightarrow> [] | Some e \<Rightarrow> [e]) agents)
      in (errs, fold (\<lambda>n s. if nd_Generation n \<le> generation \<and> nd_AgentID n \<in> set succeeded
                             then markNodeStoppingAndReleaseCapacity now (nd_ID n) s else s)
                  (matchingNodes runID [] [] [] s) s))"

text \<open>The final logs of a run: the first Agent that cannot deliver them ends the collection.\<close>

fun drain_agents :: "(agent \<Rightarrow> 'e option) \<Rightarrow> agent list \<Rightarrow> 'e list" where
  "drain_agents reply [] = []"
| "drain_agents reply (a # as) =
     (if \<not> ag_RunDrain a then drain_agents reply as
      else case reply a of Some e \<Rightarrow> [e] | None \<Rightarrow> drain_agents reply as)"

section \<open>The record of an ended run\<close>

text \<open>What \<open>runScenario\<close> has found when its phases are over, and what the final calls return.\<close>

record 'e run_end =
  re_runErr :: "'e op_error list"         \<comment> \<open>of the phases, and of waiting for jobs with onExit drain\<close>
  re_onExitCancel :: bool
  re_jobCleanupErr :: "'e op_error list"  \<comment> \<open>of draining the background jobs, if that is done\<close>
  re_backgroundErr :: "'e op_error list"
  re_parentErr :: "'e op_error list"
  re_repetitions :: int
  re_generation :: nat
  re_activeNodes :: nat                   \<comment> \<open>active Peers of the run left\<close>
  re_stopErr :: "'e op_error list"
  re_drainErr :: "'e op_error list"
  re_refreshErr :: "'e op_error list"
  re_finalDrainErr :: "'e op_error list"
  re_observationErr :: "'e op_error list"
  re_flushErr :: "'e op_error list"
  re_integrity :: bool                    \<comment> \<open>an integrity error was recorded during the run\<close>
  re_agents :: "agent list"

record run_record =
  rr_State :: gostring
  rr_CleanupState :: gostring
  rr_DataState :: gostring
  rr_hasError :: bool
  rr_hasCleanupError :: bool
  rr_hasIntegrityError :: bool

definition is_canceled_err :: "'e op_error list \<Rightarrow> bool" where
  "is_canceled_err es \<longleftrightarrow> (\<exists>e \<in> set es. is_Canceled e)"

definition first_cleanupErr :: "'e run_end \<Rightarrow> 'e op_error list" where
  "first_cleanupErr r = (if re_runErr r \<noteq> [] \<or> re_onExitCancel r then re_jobCleanupErr r else [])"

definition final_runErr :: "'e run_end \<Rightarrow> 'e op_error list" where
  "final_runErr r =
     (if re_parentErr r \<noteq> [] then re_parentErr r
      else if re_backgroundErr r \<noteq> [] \<and> (re_runErr r = [] \<or> is_canceled_err (re_runErr r)) then re_backgroundErr r
      else re_runErr r)"

definition closedSingleRun :: "'e run_end \<Rightarrow> bool" where
  "closedSingleRun r \<longleftrightarrow> re_repetitions r \<le> 1 \<and> 1 < re_generation r \<and> re_activeNodes r = 0"

definition fences_run :: "'e run_end \<Rightarrow> bool" where
  "fences_run r \<longleftrightarrow> final_runErr r \<noteq> [] \<or> first_cleanupErr r \<noteq> [] \<or> 1 < re_repetitions r"

definition cleanup_errors :: "'e run_end \<Rightarrow> 'e op_error list" where
  "cleanup_errors r = first_cleanupErr r @ (if fences_run r then re_stopErr r @ re_refreshErr r else [])"

definition data_errors :: "'e run_end \<Rightarrow> 'e op_error list" where
  "data_errors r =
     (let fenced = (if fences_run r \<and> re_stopErr r = [] then re_drainErr r else []);
          drained = (if final_runErr r = [] \<and> cleanup_errors r = [] \<and> closedSingleRun r then re_finalDrainErr r else fenced)
      in drained @ re_observationErr r)"

definition integrity_broken :: "'e run_end \<Rightarrow> bool" where
  "integrity_broken r \<longleftrightarrow> re_integrity r \<or> re_observationErr r \<noteq> [] \<or> re_flushErr r \<noteq> []"

definition succeeded :: "'e run_end \<Rightarrow> bool" where
  "succeeded r \<longleftrightarrow> final_runErr r @ cleanup_errors r @ data_errors r @ re_flushErr r = [] \<and> \<not> integrity_broken r"

definition final_record :: "'e run_end \<Rightarrow> run_record" where
  "final_record r =
     (let cleanupFailed = cleanup_errors r \<noteq> [];
          dataFailed = data_errors r \<noteq> [];
          data0 = (if \<exists>a \<in> set (re_agents r). \<not> ag_RunDrain a then ''unverified'' else ''complete'');
          data1 = (if dataFailed \<or> integrity_broken r \<or> cleanupFailed then ''incomplete'' else data0);
          retained = succeeded r \<and> re_repetitions r \<le> 1 \<and> \<not> closedSingleRun r \<and> re_agents r \<noteq> [];
          canceled = is_canceled_err (final_runErr r) \<and> \<not> integrity_broken r
      in \<lparr>rr_State = (if succeeded r then ''completed'' else if canceled then ''canceled'' else ''failed''),
          rr_CleanupState = (if retained then ''retained'' else if cleanupFailed then ''failed'' else ''complete''),
          rr_DataState = (if retained then ''collecting'' else data1),
          rr_hasError = (\<not> succeeded r \<and> (canceled \<longrightarrow> cleanupFailed)),
          rr_hasCleanupError = cleanupFailed, rr_hasIntegrityError = (integrity_broken r \<or> dataFailed)\<rparr>)"

text \<open>The ready barrier: polled twice a second, open as soon as one poll sees enough ready Peers and none failed.\<close>

definition barrier_open :: "float64 \<Rightarrow> int \<Rightarrow> nat \<times> nat \<times> nat \<Rightarrow> bool" where
  "barrier_open ratio minCount = (\<lambda>(ready, total, failed).
     failed = 0 \<and> (if 0 < minCount then minCount \<le> int total else 0 < total)
     \<and> float_le ratio (float_div (float_of_int (int ready)) (float_of_int (int total))))"

datatype barrier_result = BarrierOpen | BarrierTimeout "nat \<times> nat \<times> nat" | BarrierCanceled | BarrierWaiting

fun wait_ready :: "float64 \<Rightarrow> int \<Rightarrow> (nat \<times> nat \<times> nat) list \<Rightarrow> 'e op_error option \<Rightarrow> barrier_result" where
  "wait_ready ratio minCount [] ended = BarrierWaiting"
| "wait_ready ratio minCount (c # cs) ended =
     (if barrier_open ratio minCount c then BarrierOpen
      else if cs = [] then (case ended of None \<Rightarrow> BarrierWaiting
          | Some e \<Rightarrow> if e = DeadlineExceeded then BarrierTimeout c else BarrierCanceled)
      else wait_ready ratio minCount cs ended)"

end
