(* ===== verification/RunOutcomeProperties.thy ===== *)
theory RunOutcomeProperties
  imports RunOutcome
begin

text \<open>Stopping a generation reaches every owner, and the record of an ended run claims nothing it does not know.\<close>

declare map_of_eq_Some_iff [simp del]

section \<open>Owners\<close>

lemma current_owner_ID:
  assumes "agents_ok known" shows "ag_ID (current_owner known a) = ag_ID a"
  using assms by (auto simp: current_owner_def agents_ok_def split: option.split)




section \<open>Stopping\<close>

definition stopped_node :: "go_time \<Rightarrow> node \<Rightarrow> node" where
  "stopped_node now n = n\<lparr>nd_State := NodeStopping, nd_LastSeen := now\<rparr>"

lemma stopped_inactive [simp]: "\<not> node_active (stopped_node now n)"
  by (simp add: stopped_node_def node_active_def)









section \<open>The record of an ended run\<close>




end
