(* ===== verification/Spec2Isabelle.thy ===== *)
theory Spec2Isabelle
  imports FleetProperties NetemCommands NodeValidation ScoreProperties ScenarioProperties
    SessionProperties BandwidthProperties WireBatches RunMetricsProperties Topology
    TelemetryProperties AgentProperties BandwidthTimeline PublishProperties OperationsProperties
    PhaseJobsProperties RunOutcomeProperties
begin

text \<open>
  Verification of the K-P2P Lab controller: the fleet state.
\<close>

end
